(* ===== verification/Prelude.thy ===== *)
theory Prelude
  imports Complex_Main
begin

text \<open>
  Shared ground of the development: the type synonyms the components use, the result type of
  fallible code, SQL tables as lists of rows with \<open>UPDATE .. WHERE\<close>, and the generic lemmas on
  them that the component proofs rest on.

  A handler that throws is a value of \<open>app_error + 'a\<close> (\<open>Inl\<close> is the throw). A table is the list
  of its rows in insertion order; \<open>find\<close> on it is a \<open>SELECT .. LIMIT 1\<close>, \<open>upd_where\<close> an
  \<open>UPDATE .. WHERE\<close>, \<open>filter\<close> a \<open>DELETE\<close>, appending an \<open>INSERT\<close>.
\<close>

named_theorems result_elims \<open>inversion of a successful fallible computation\<close>
named_theorems table_simps \<open>reading a table after it was written\<close>
named_theorems core_simps \<open>unfolding of the small state helpers\<close>

subsection \<open>Base types\<close>

type_synonym instant = int   \<comment> \<open>milliseconds since the epoch, what \<open>Date.getTime()\<close> returns\<close>
type_synonym uid = nat       \<comment> \<open>a uuid: only equality is used, fresh ones come from a counter\<close>
type_synonym qty = rat       \<comment> \<open>a \<open>numeric\<close> column read with \<open>Number(..)\<close>, rounding left out\<close>
type_synonym utext = "nat list"   \<comment> \<open>a JavaScript string: its UTF-16 code units\<close>

definition lit :: "string \<Rightarrow> utext" where
  "lit s = map of_char s"

definition is_integer :: "qty \<Rightarrow> bool" where
  "is_integer q \<longleftrightarrow> of_int \<lfloor>q\<rfloor> = q"

subsection \<open>Results\<close>

fun r_bind :: "'e + 'a \<Rightarrow> ('a \<Rightarrow> 'e + 'b) \<Rightarrow> 'e + 'b" where
  "r_bind (Inl e) k = Inl e"
| "r_bind (Inr a) k = k a"

fun r_fold :: "('a \<Rightarrow> 's \<Rightarrow> 'e + 's) \<Rightarrow> 'a list \<Rightarrow> 's \<Rightarrow> 'e + 's" where
  "r_fold f [] s = Inr s"
| "r_fold f (x # xs) s = r_bind (f x s) (r_fold f xs)"

definition or_throw :: "'e \<Rightarrow> 'a option \<Rightarrow> 'e + 'a" where
  "or_throw e x = (case x of None \<Rightarrow> Inl e | Some a \<Rightarrow> Inr a)"

definition is_ok :: "'e + 'a \<Rightarrow> bool" where
  "is_ok r \<longleftrightarrow> (\<exists>a. r = Inr a)"

lemma r_bind_Inr [result_elims]: "r_bind r k = Inr b \<longleftrightarrow> (\<exists>a. r = Inr a \<and> k a = Inr b)"
  by (cases r) auto

lemma r_bind_Inl [result_elims]:
  "r_bind r k = Inl e \<longleftrightarrow> r = Inl e \<or> (\<exists>a. r = Inr a \<and> k a = Inl e)"
  by (cases r) auto

lemma or_throw_Inr [result_elims]: "or_throw e x = Inr a \<longleftrightarrow> x = Some a"
  by (auto simp: or_throw_def split: option.splits)

lemma or_throw_Inl [result_elims]: "or_throw e x = Inl e' \<longleftrightarrow> x = None \<and> e' = e"
  by (auto simp: or_throw_def split: option.splits)

lemma or_throw_simps [simp]: "or_throw e None = Inl e" "or_throw e (Some a) = Inr a"
  by (simp_all add: or_throw_def)

lemma is_ok_simps [simp]: "is_ok (Inr a)" "\<not> is_ok (Inl e)"
  by (simp_all add: is_ok_def)

lemma r_fold_preserves:
  assumes "\<And>x t t'. x \<in> set xs \<Longrightarrow> P t \<Longrightarrow> f x t = Inr t' \<Longrightarrow> P t'"
    and "P s" and "r_fold f xs s = Inr s'"
  shows "P s'"
  using assms
proof (induction xs arbitrary: s)
  case (Cons x xs)
  from Cons.prems(3) obtain t where t: "f x s = Inr t" "r_fold f xs t = Inr s'"
    by (auto simp: result_elims)
  moreover have "P t" using Cons.prems(1)[of x s t] Cons.prems(2) t(1) by simp
  ultimately show ?case using Cons.IH[of t] Cons.prems(1) by auto
qed simp

subsection \<open>Tables\<close>

definition upd_where :: "('r \<Rightarrow> bool) \<Rightarrow> ('r \<Rightarrow> 'r) \<Rightarrow> 'r list \<Rightarrow> 'r list" where
  "upd_where P f t = map (\<lambda>r. if P r then f r else r) t"

definition by_key :: "('r \<Rightarrow> 'k) \<Rightarrow> 'k \<Rightarrow> 'r list \<Rightarrow> 'r option" where
  "by_key key k t = find (\<lambda>r. key r = k) t"

definition upd_key :: "('r \<Rightarrow> 'k) \<Rightarrow> 'k \<Rightarrow> ('r \<Rightarrow> 'r) \<Rightarrow> 'r list \<Rightarrow> 'r list" where
  "upd_key key k f t = upd_where (\<lambda>r. key r = k) f t"

lemma upd_where_simps [simp]:
  "upd_where P f [] = []"
  "upd_where P f (r # t) = (if P r then f r else r) # upd_where P f t"
  by (simp_all add: upd_where_def)

lemma upd_where_append [simp]: "upd_where P f (a @ b) = upd_where P f a @ upd_where P f b"
  by (simp add: upd_where_def)

lemma length_upd_where [simp]: "length (upd_where P f t) = length t"
  by (simp add: upd_where_def)

lemma set_upd_where [table_simps]:
  "set (upd_where P f t) = f ` {r \<in> set t. P r} \<union> {r \<in> set t. \<not> P r}"
  by (auto simp: upd_where_def)

lemma upd_where_mem: "r \<in> set (upd_where P f t) \<Longrightarrow> \<exists>r0 \<in> set t. r = (if P r0 then f r0 else r0)"
  by (auto simp: upd_where_def)

lemma map_upd_where: "(\<And>r. r \<in> set t \<Longrightarrow> P r \<Longrightarrow> g (f r) = g r) \<Longrightarrow> map g (upd_where P f t) = map g t"
  by (simp add: upd_where_def)

lemma map_upd_key:
  "(\<And>r. r \<in> set t \<Longrightarrow> key r = k \<Longrightarrow> g (f r) = g r) \<Longrightarrow> map g (upd_key key k f t) = map g t"
  by (simp add: upd_key_def map_upd_where)

lemma by_key_Some_mem: "by_key key k t = Some r \<Longrightarrow> r \<in> set t \<and> key r = k"
  by (auto simp: by_key_def find_Some_iff)

lemma by_key_None [table_simps]: "by_key key k t = None \<longleftrightarrow> k \<notin> key ` set t"
  by (auto simp: by_key_def find_None_iff)

lemma by_key_Cons: "by_key key k (r # t) = (if key r = k then Some r else by_key key k t)"
  by (simp add: by_key_def)

lemma by_key_append: "by_key key k (a @ b) = (case by_key key k a of Some r \<Rightarrow> Some r | None \<Rightarrow> by_key key k b)"
  by (induction a) (auto simp: by_key_def)

lemma by_key_Nil [simp]: "by_key key k [] = None"
  by (simp add: by_key_def)

lemma by_key_insert:
  "by_key key (key r) t = None \<Longrightarrow> by_key key j (t @ [r]) = (if j = key r then Some r else by_key key j t)"
  by (auto simp: by_key_append by_key_Cons split: option.splits)

lemma by_key_distinct:
  "distinct (map key t) \<Longrightarrow> by_key key k t = Some r \<longleftrightarrow> r \<in> set t \<and> key r = k"
  by (induction t) (auto simp: by_key_def)

lemma by_key_upd_where:
  assumes "\<And>r. r \<in> set t \<Longrightarrow> P r \<Longrightarrow> key (f r) = key r" and "distinct (map key t)"
  shows "by_key key k (upd_where P f t) = map_option (\<lambda>r. if P r then f r else r) (by_key key k t)"
  using assms by (induction t) (auto simp: by_key_def)

lemma by_key_upd_key:
  assumes "\<And>r. key (f r) = key r"
  shows "by_key key j (upd_key key k f t) = (if j = k then map_option f (by_key key j t) else by_key key j t)"
  using assms by (induction t) (auto simp: by_key_def upd_key_def)

lemma distinct_key_inj: "distinct (map key t) \<Longrightarrow> a \<in> set t \<Longrightarrow> b \<in> set t \<Longrightarrow> key a = key b \<Longrightarrow> a = b"
  by (simp add: distinct_map inj_on_def)

lemma filter_upd_where_out:
  "(\<And>r. r \<in> set t \<Longrightarrow> P r \<Longrightarrow> Q (f r) = Q r) \<Longrightarrow> filter Q (upd_where P f t) = upd_where P f (filter Q t)"
  by (induction t) (auto simp: upd_where_def)

text \<open>\<open>ORDER BY .. DESC\<close>; rows with equal keys keep the table's order.\<close>

definition newest_first :: "('r \<Rightarrow> instant) \<Rightarrow> 'r list \<Rightarrow> 'r list" where
  "newest_first f t = sort_key (\<lambda>r. - f r) t"

lemma set_newest_first [simp]: "set (newest_first f t) = set t"
  by (simp add: newest_first_def)

subsection \<open>Sums over a table\<close>

definition sum_where :: "('r \<Rightarrow> bool) \<Rightarrow> ('r \<Rightarrow> 'n::comm_monoid_add) \<Rightarrow> 'r list \<Rightarrow> 'n" where
  "sum_where P g t = sum_list (map g (filter P t))"

lemma sum_where_simps [simp]:
  "sum_where P g [] = 0"
  "sum_where P g (r # t) = (if P r then g r + sum_where P g t else sum_where P g t)"
  "sum_where P g (a @ b) = sum_where P g a + sum_where P g b"
  by (simp_all add: sum_where_def)

lemma sum_where_upd_where_same:
  "(\<And>r. r \<in> set t \<Longrightarrow> P (if Q r then f r else r) = P r \<and> g (if Q r then f r else r) = g r)
    \<Longrightarrow> sum_where P g (upd_where Q f t) = sum_where P g t"
  by (induction t) (auto split: if_splits)

lemma sum_where_cong:
  "(\<And>r. r \<in> set t \<Longrightarrow> P r = P' r \<and> (P r \<longrightarrow> g r = g' r)) \<Longrightarrow> sum_where P g t = sum_where P' g' t"
  by (induction t) auto

lemma sum_where_drop_row:
  fixes g :: "'r \<Rightarrow> 'n::ab_group_add"
  assumes "distinct (map key t)" "r \<in> set t" "P r"
    and "\<And>x. key x = key r \<Longrightarrow> x \<in> set t \<Longrightarrow> \<not> P (f x)"
  shows "sum_where P g (upd_key key (key r) f t) = sum_where P g t - g r"
  using assms
proof (induction t)
  case (Cons a t)
  show ?case
  proof (cases "a = r")
    case True
    have "key r \<notin> key ` set t" using Cons.prems(1) True by auto
    then have "upd_key key (key r) f t = t"
      by (induction t) (auto simp: upd_key_def)
    with True Cons.prems show ?thesis by (simp add: upd_key_def)
  next
    case False
    with Cons.prems(1,2) have "key a \<noteq> key r" by auto
    with Cons False show ?thesis by (auto simp: upd_key_def)
  qed
qed simp

lemma sum_where_nonneg:
  fixes g :: "'r \<Rightarrow> rat"
  assumes "\<And>r. r \<in> set t \<Longrightarrow> P r \<Longrightarrow> 0 \<le> g r"
  shows "0 \<le> sum_where P g t"
  using assms by (induction t) auto

lemma sum_where_ge_row:
  fixes g :: "'r \<Rightarrow> rat"
  assumes "\<And>r. r \<in> set t \<Longrightarrow> P r \<Longrightarrow> 0 \<le> g r" and "r \<in> set t" and "P r"
  shows "g r \<le> sum_where P g t"
  using assms
proof (induction t)
  case (Cons a t)
  have "0 \<le> sum_where P g t" using Cons.prems(1) by (intro sum_where_nonneg) auto
  with Cons show ?case by (cases "a = r") (auto intro: order_trans add_increasing)
qed simp

lemma sum_where_empty: "(\<And>r. r \<in> set t \<Longrightarrow> \<not> P r) \<Longrightarrow> sum_where P g t = 0"
  by (induction t) auto

subsection \<open>Keyed tables as an interface\<close>

text \<open>
  What the components rely on of a table with a primary key: a lookup after an update by key, and
  after an insert with a fresh key. The client lemma is that two updates of different rows commute
  as far as lookups can tell.
\<close>

locale keyed_table =
  fixes lookup :: "'k \<Rightarrow> 't \<Rightarrow> 'r option"
    and modify :: "'k \<Rightarrow> ('r \<Rightarrow> 'r) \<Rightarrow> 't \<Rightarrow> 't"
    and insert_row :: "'r \<Rightarrow> 't \<Rightarrow> 't"
    and key :: "'r \<Rightarrow> 'k"
  assumes lookup_modify:
      "(\<And>r. key (f r) = key r) \<Longrightarrow>
        lookup j (modify k f t) = (if j = k then map_option f (lookup j t) else lookup j t)"
    and lookup_insert:
      "lookup (key r) t = None \<Longrightarrow> lookup j (insert_row r t) = (if j = key r then Some r else lookup j t)"
begin

lemma lookup_modify_other: "(\<And>r. key (f r) = key r) \<Longrightarrow> j \<noteq> k \<Longrightarrow> lookup j (modify k f t) = lookup j t"
  by (simp add: lookup_modify)

lemma lookup_modify_same: "(\<And>r. key (f r) = key r) \<Longrightarrow> lookup k (modify k f t) = map_option f (lookup k t)"
  by (simp add: lookup_modify)

lemma modify_commute:
  assumes "\<And>r. key (f r) = key r" "\<And>r. key (g r) = key r" "j \<noteq> k"
  shows "lookup i (modify j f (modify k g t)) = lookup i (modify k g (modify j f t))"
  using assms by (simp add: lookup_modify)

end

end
