(* ===== verification/Calendar.thy ===== *)
theory Calendar
  imports Prelude
begin

text \<open>
  What the code uses of the JavaScript \<open>Date\<close>: the UTC calendar date of an instant (year, month
  from 0 to 11, day of the month) and decimal printing. The date is computed over the day number
  in eras of 400 Gregorian years that start on the first of March.
\<close>

definition utc_date :: "instant \<Rightarrow> int \<times> int \<times> int" where
  "utc_date t =
     (let z = t div 86400000 + 719468;
          era = z div 146097;
          doe = z mod 146097;
          yoe = (doe - doe div 1460 + doe div 36524 - doe div 146096) div 365;
          doy = doe - (365 * yoe + yoe div 4 - yoe div 100);
          mp = (5 * doy + 2) div 153;
          m = (if mp < 10 then mp + 2 else mp - 10);
          y = yoe + era * 400 + (if m \<le> 1 then 1 else 0);
          day = doy - (153 * mp + 2) div 5 + 1
      in (y, m, day))"

definition digit_char :: "nat \<Rightarrow> char" where
  "digit_char n = ''0123456789'' ! n"

fun decimal :: "nat \<Rightarrow> string" where
  "decimal n = (if n < 10 then [digit_char n] else decimal (n div 10) @ [digit_char (n mod 10)])"

declare decimal.simps [simp del]

lemma decimal_steps [simp]:
  "n < 10 \<Longrightarrow> decimal n = [digit_char n]"
  "\<not> n < 10 \<Longrightarrow> decimal n = decimal (n div 10) @ [digit_char (n mod 10)]"
  by (simp_all add: decimal.simps)

definition decimal_int :: "int \<Rightarrow> string" where
  "decimal_int n = (if n < 0 then CHR ''-'' # decimal (nat (- n)) else decimal (nat n))"

definition pad2 :: "int \<Rightarrow> string" where
  "pad2 n = (if n < 10 then CHR ''0'' # decimal_int n else decimal_int n)"

text \<open>\<open>toISOString().slice(0, 10)\<close> for the years 1000 to 9999.\<close>

definition iso_day :: "instant \<Rightarrow> string" where
  "iso_day t = (let (y, m, dy) = utc_date t in decimal_int y @ ''-'' @ pad2 (m + 1) @ ''-'' @ pad2 dy)"

text \<open>Spot dates: the epoch, a leap day, the last instant before a new year, a day of this project.\<close>

lemma utc_date_samples:
  "utc_date 0 = (1970, 0, 1)"
  "utc_date 951782400000 = (2000, 1, 29)"
  "utc_date 1767225599999 = (2025, 11, 31)"
  "utc_date 1785456000000 = (2026, 6, 31)"
  by code_simp+

lemma iso_day_sample: "iso_day 1785456000000 = ''2026-07-31''"
  by (simp add: iso_day_def utc_date_samples decimal_int_def pad2_def digit_char_def)

end
