(* ===== verification/Shared_Constants.thy ===== *)
theory Shared_Constants
  imports Prelude
begin

text \<open>
  The vocabulary of the system: \<open>packages/shared/src/constants.ts\<close> (status enums as datatypes,
  \<open>LIMITS\<close> as constants) and the error codes of \<open>server/src/lib/errors.ts\<close>. A text column that the
  code casts to one of these unions is a value of the datatype.
\<close>

subsection \<open>Status and category enums\<close>

datatype event_status = Draft | Scheduled | Active | Paused | Completed | Archived | Disabled

datatype event_visibility = Public | Unlisted | Invite_only

datatype event_type = Community_event | Relief_operation | Campus_event | Community_kitchen
  | Neighborhood_aid | Public_gathering | Festival | Other_event

datatype request_status = Searching | Offering | Matched | Fulfilled | Partially_fulfilled
  | Cancelled | Expired | No_match | Disputed | Moderated

datatype request_urgency = Standard | Soon | Urgent

datatype offer_status = Offered | Accepted | Declined | Offer_lapsed | Superseded

datatype match_status = M_active | M_completed | M_partially_completed | M_cancelled_by_requester
  | M_cancelled_by_helper | M_cancelled_unsafe | M_cancelled_moderation | M_disputed

datatype meeting_state = Deciding | On_my_way | Arrived | Cannot_find | Exchanging | Done

datatype conversation_status = Conv_open | Conv_readonly | Conv_expired

datatype message_kind = Text_message | Quick_message | System_message

datatype quick_reply = Where_meet | Near_main_entrance | I_can_come_to_you | Suggest_landmark
  | Wearing_blue_jacket | QR_arrived | Cannot_find_you | Need_to_cancel | Stay_public_area
  | Not_comfortable

datatype proximity_bucket = Very_nearby | Nearby | Short_walk | Farther | Unknown_proximity

datatype reliability_label = New_helper | Active_helper | Reliable_helper | Highly_reliable_helper

datatype user_role = User_role | Moderator_role | Admin_role

datatype user_status = User_active | User_restricted | User_suspended | User_deleted

datatype report_category = Harassment | Unsafe_meeting | Prohibited_item | False_request | Spam
  | Fraud | Impersonation | Hate_speech | Threat | No_show | Suspicious_event | Other_report

datatype report_status = Report_open | Report_reviewing | Report_resolved | Report_dismissed

datatype moderation_action_kind = Act_warn | Act_restrict_requests | Act_restrict_helping
  | Act_suspend | Act_unsuspend | Act_event_pause | Act_event_unpause | Act_event_disable
  | Act_event_approve_public | Act_event_reject_public | Act_match_cancel | Act_report_resolve
  | Act_report_dismiss

datatype notification_type = N_match_offer | N_match_accepted | N_match_cancelled | N_new_message
  | N_request_expiring | N_no_helper_found | N_inventory_low | N_event_starting
  | N_attendance_check | N_event_ending | N_event_paused | N_event_notice | N_moderation_outcome
  | N_account_security

definition ACTIVE_NOTIFICATION_TYPES :: "notification_type list" where
  "ACTIVE_NOTIFICATION_TYPES = [N_match_offer, N_match_accepted, N_match_cancelled, N_new_message,
     N_no_helper_found, N_attendance_check, N_event_notice, N_moderation_outcome,
     N_account_security]"

datatype unit_kind = Item | Piece | Bottle | Litre | Packet | Box | Meal | Blanket | Pair_unit
  | Roll | Kit | Battery | Hour

datatype shortage_level = Critical_shortage | High_need | Moderate_need | Adequate
  | Possible_surplus | Unknown_shortage

definition SHORTAGE_LEVELS :: "shortage_level list" where
  "SHORTAGE_LEVELS = [Critical_shortage, High_need, Moderate_need, Adequate, Possible_surplus,
     Unknown_shortage]"

datatype category_group = Hydration | Food | Shelter | Hygiene | Power | Clothing | First_aid | Misc

datatype ws_event = Offer_new | Offer_expired | Request_update | Match_update | Message_new
  | Conversation_update | Event_update | Inventory_update | Notification_new | Session_revoked

definition QUICK_REPLIES :: "(string \<times> quick_reply) list" where
  "QUICK_REPLIES = [(''where_meet'', Where_meet), (''near_main_entrance'', Near_main_entrance),
     (''i_can_come_to_you'', I_can_come_to_you), (''suggest_landmark'', Suggest_landmark),
     (''wearing_blue_jacket'', Wearing_blue_jacket), (''arrived'', QR_arrived),
     (''cannot_find_you'', Cannot_find_you), (''need_to_cancel'', Need_to_cancel),
     (''stay_public_area'', Stay_public_area), (''not_comfortable'', Not_comfortable)]"

subsection \<open>Limits\<close>

definition AVAILABILITY_DURATIONS_MIN :: "int list" where
  "AVAILABILITY_DURATIONS_MIN = [30, 60, 120]"

definition offerResponseSeconds :: int where "offerResponseSeconds = 45"
definition requestExpiryOptionsMin :: "int list" where "requestExpiryOptionsMin = [10, 15, 30, 60]"
definition maxActiveRequestsPerUser :: nat where "maxActiveRequestsPerUser = 3"
definition maxActiveMatchesPerHelper :: nat where "maxActiveMatchesPerHelper = 2"
definition maxInventoryItemsPerEvent :: nat where "maxInventoryItemsPerEvent = 30"
definition maxNoteLength :: nat where "maxNoteLength = 200"
definition maxMessageLength :: nat where "maxMessageLength = 500"
definition maxReportNoteLength :: nat where "maxReportNoteLength = 1000"
definition locationTtlMinutes :: int where "locationTtlMinutes = 15"
definition locationPrecisionDecimals :: nat where "locationPrecisionDecimals = 3"
definition kAnonymityThreshold :: nat where "kAnonymityThreshold = 3"
definition conversationGraceMinutes :: int where "conversationGraceMinutes = 60"
definition otpLength :: nat where "otpLength = 6"
definition otpTtlMinutes :: int where "otpTtlMinutes = 10"
definition otpMaxAttempts :: nat where "otpMaxAttempts = 5"
definition sessionTtlDays :: int where "sessionTtlDays = 60"
definition maxSearchRadiusM :: int where "maxSearchRadiusM = 5000"
definition initialSearchRadiusM :: int where "initialSearchRadiusM = 400"
definition radiusExpansionFactor :: int where "radiusExpansionFactor = 2"

subsection \<open>Errors\<close>

text \<open>
  \<open>Validation\<close> carries the rejected field (the \<open>allowed\<close>/\<open>max\<close> details are left out). \<open>Internal\<close> is
  an exception that is not an \<open>AppError\<close> (answered with status 500); it carries the PostgreSQL code
  of a violated constraint: 23514 for a \<open>CHECK\<close>, 23505 for a unique index, 25P02 for a statement in
  a transaction that already failed.
\<close>

datatype app_error = Validation string | Unauthorized | Forbidden | Not_found | Rate_limited
  | Insufficient_inventory | Request_conflict | Event_paused | Event_not_active | Offer_expired_err
  | Prohibited_category | Account_restricted | Password_change_required | Idempotency_replay
  | Internal string

fun STATUS :: "app_error \<Rightarrow> nat" where
  "STATUS (Validation f) = 400"
| "STATUS Unauthorized = 401"
| "STATUS Forbidden = 403"
| "STATUS Not_found = 404"
| "STATUS Rate_limited = 429"
| "STATUS Insufficient_inventory = 409"
| "STATUS Request_conflict = 409"
| "STATUS Event_paused = 409"
| "STATUS Event_not_active = 409"
| "STATUS Offer_expired_err = 410"
| "STATUS Prohibited_category = 422"
| "STATUS Account_restricted = 403"
| "STATUS Password_change_required = 403"
| "STATUS Idempotency_replay = 409"
| "STATUS (Internal c) = 500"

definition is_internal :: "app_error \<Rightarrow> bool" where
  "is_internal e \<longleftrightarrow> (case e of Internal c \<Rightarrow> True | _ \<Rightarrow> False)"

lemma is_internal_simps [simp]:
  "is_internal (Internal c)" "\<not> is_internal (Validation f)" "\<not> is_internal Unauthorized"
  "\<not> is_internal Forbidden" "\<not> is_internal Not_found" "\<not> is_internal Rate_limited"
  "\<not> is_internal Insufficient_inventory" "\<not> is_internal Request_conflict"
  "\<not> is_internal Event_paused" "\<not> is_internal Event_not_active"
  "\<not> is_internal Offer_expired_err" "\<not> is_internal Prohibited_category"
  "\<not> is_internal Account_restricted"
  by (simp_all add: is_internal_def)

end
