(* ===== verification/Geo.thy ===== *)
theory Geo
  imports Shared_Constants
begin

text \<open>
  \<open>packages/shared/src/geo.ts\<close>: coordinates are rounded to three decimals before they are stored,
  and a distance is only ever shown as a proximity bucket. Coordinates and distances are exact
  rationals; \<open>None\<close> stands for \<open>null\<close>, \<open>undefined\<close> and the non-finite numbers.
\<close>

type_synonym geopoint = "rat \<times> rat"   \<comment> \<open>latitude, longitude\<close>

definition math_round :: "rat \<Rightarrow> int" where
  "math_round x = \<lfloor>x + 1/2\<rfloor>"

definition coarsen :: "rat \<Rightarrow> rat \<Rightarrow> geopoint" where
  "coarsen lat lng =
     (let f = 10 ^ locationPrecisionDecimals
      in (of_int (math_round (lat * f)) / f, of_int (math_round (lng * f)) / f))"

fun PROXIMITY_THRESHOLDS_M :: "proximity_bucket \<Rightarrow> qty option" where
  "PROXIMITY_THRESHOLDS_M Very_nearby = Some 150"
| "PROXIMITY_THRESHOLDS_M Nearby = Some 400"
| "PROXIMITY_THRESHOLDS_M Short_walk = Some 1000"
| "PROXIMITY_THRESHOLDS_M _ = None"

definition within_threshold :: "qty \<Rightarrow> proximity_bucket \<Rightarrow> bool" where
  "within_threshold d b = (case PROXIMITY_THRESHOLDS_M b of None \<Rightarrow> True | Some t \<Rightarrow> d \<le> t)"

fun bucketForDistanceM :: "qty option \<Rightarrow> proximity_bucket" where
  "bucketForDistanceM None = Unknown_proximity"
| "bucketForDistanceM (Some d) =
     (if within_threshold d Very_nearby then Very_nearby
      else if within_threshold d Nearby then Nearby
      else if within_threshold d Short_walk then Short_walk
      else Farther)"

definition haversineM :: "real \<Rightarrow> real \<Rightarrow> real \<Rightarrow> real \<Rightarrow> real" where
  "haversineM aLat aLng bLat bLng =
     (let R = 6371000;
          toRad = (\<lambda>x. x * pi / 180);
          dLat = toRad (bLat - aLat);
          dLng = toRad (bLng - aLng);
          s = (sin (dLat / 2))\<^sup>2 + cos (toRad aLat) * cos (toRad bLat) * (sin (dLng / 2))\<^sup>2
      in 2 * R * arcsin (sqrt s))"

lemma math_round_of_int [simp]: "math_round (of_int n) = n"
proof -
  have "\<lfloor>(of_int n :: rat) + 1/2\<rfloor> = n" by (simp add: floor_unique)
  then show ?thesis by (simp add: math_round_def)
qed

lemma math_round_close: "\<bar>of_int (math_round x) - x\<bar> \<le> 1/2"
  unfolding math_round_def by linarith

lemma math_round_mono: "x \<le> y \<Longrightarrow> math_round x \<le> math_round y"
  unfolding math_round_def by (intro floor_mono) simp

lemma coarsen_idem: "coarsen (fst (coarsen lat lng)) (snd (coarsen lat lng)) = coarsen lat lng"
  by (simp add: coarsen_def Let_def locationPrecisionDecimals_def)

lemma coarsen_close:
  "\<bar>fst (coarsen lat lng) - lat\<bar> \<le> 1/2000 \<and> \<bar>snd (coarsen lat lng) - lng\<bar> \<le> 1/2000"
  using math_round_close[of "lat * 1000"] math_round_close[of "lng * 1000"]
  by (simp add: coarsen_def Let_def locationPrecisionDecimals_def field_simps abs_le_iff)

lemma bucketForDistanceM_within:
  "within_threshold d (bucketForDistanceM (Some d))"
  by (simp add: within_threshold_def)

lemma haversineM_sym: "haversineM aLat aLng bLat bLng = haversineM bLat bLng aLat aLng"
proof -
  have "(sin ((a - b) * pi / 180 / 2))\<^sup>2 = (sin ((b - a) * pi / 180 / 2))\<^sup>2" for a b :: real
  proof -
    have "(a - b) * pi / 180 / 2 = - ((b - a) * pi / 180 / 2)" by (simp add: field_simps)
    then show ?thesis by (simp only: sin_minus power2_minus)
  qed
  then show ?thesis by (simp only: haversineM_def Let_def) (simp add: mult.commute mult.left_commute)
qed

lemma haversineM_refl: "haversineM lat lng lat lng = 0"
  by (simp add: haversineM_def)

end
