(* ===== verification/Reliability_Score.thy ===== *)
theory Reliability_Score
  imports Shared_Constants
begin

text \<open>
  \<open>packages/shared/src/reliability.ts\<close>: the counters of a helper and the pure scores over them.
  The counters are non-negative integer columns; a score is the exact rational the formula denotes
  (the code computes it in double precision).
\<close>

record reliability_counters =
  c_accepted :: nat
  c_completed :: nat
  c_requesterConfirmed :: nat
  c_cancelledPreMeeting :: nat
  c_cancelledPostMeeting :: nat
  c_timeouts :: nat
  c_noShows :: nat
  c_disputes :: nat
  c_offersReceived30d :: nat
  c_offersResponded30d :: nat

definition completionScore :: "reliability_counters \<Rightarrow> rat" where
  "completionScore c =
     (let bad = of_nat (c_cancelledPostMeeting c + c_timeouts c + c_noShows c);
          trials = of_nat (c_completed c) + of_nat (c_cancelledPreMeeting c) * (1/4) + bad
      in (of_nat (c_completed c) + 2) / (trials + 4))"

definition responsivenessScore :: "reliability_counters \<Rightarrow> rat" where
  "responsivenessScore c =
     (if c_offersReceived30d c < 3 then 7/10
      else of_nat (c_offersResponded30d c) / of_nat (c_offersReceived30d c))"

definition reliabilityLabel :: "reliability_counters \<Rightarrow> reliability_label" where
  "reliabilityLabel c =
     (if c_completed c < 3 then New_helper
      else let score = completionScore c in
        if c_completed c \<ge> 20 \<and> score \<ge> 85/100 then Highly_reliable_helper
        else if c_completed c \<ge> 8 \<and> score \<ge> 75/100 then Reliable_helper
        else Active_helper)"

definition rankingReliability :: "reliability_counters \<Rightarrow> rat" where
  "rankingReliability c = 7/10 * completionScore c + 3/10 * responsivenessScore c"

definition new_counters :: reliability_counters where
  "new_counters = \<lparr>c_accepted = 0, c_completed = 0, c_requesterConfirmed = 0,
     c_cancelledPreMeeting = 0, c_cancelledPostMeeting = 0, c_timeouts = 0, c_noShows = 0,
     c_disputes = 0, c_offersReceived30d = 0, c_offersResponded30d = 0\<rparr>"

lemma completionScore_eq:
  "completionScore c = (of_nat (c_completed c) + 2) /
     (of_nat (c_completed c) + of_nat (c_cancelledPreMeeting c) / 4
       + of_nat (c_cancelledPostMeeting c + c_timeouts c + c_noShows c) + 4)"
  by (simp add: completionScore_def Let_def)

lemma completionScore_pos: "0 < completionScore c"
proof -
  have "0 < (of_nat (c_completed c) :: rat) + of_nat (c_cancelledPreMeeting c) / 4
       + of_nat (c_cancelledPostMeeting c + c_timeouts c + c_noShows c) + 4"
    by (intro add_nonneg_pos add_nonneg_nonneg) auto
  moreover have "0 < (of_nat (c_completed c) :: rat) + 2" by (intro add_nonneg_pos) auto
  ultimately show ?thesis unfolding completionScore_eq by (rule divide_pos_pos[rotated])
qed

lemma completionScore_lt_1: "completionScore c < 1"
proof -
  have pos: "0 < (of_nat (c_completed c) :: rat) + of_nat (c_cancelledPreMeeting c) / 4
       + of_nat (c_cancelledPostMeeting c + c_timeouts c + c_noShows c) + 4" (is "0 < ?d")
    by (intro add_nonneg_pos add_nonneg_nonneg) auto
  have "0 \<le> (of_nat (c_cancelledPreMeeting c) :: rat) / 4"
    and "0 \<le> (of_nat (c_cancelledPostMeeting c + c_timeouts c + c_noShows c) :: rat)" by auto
  then have "(of_nat (c_completed c) :: rat) + 2 < ?d" by linarith
  with pos show ?thesis unfolding completionScore_eq by (simp add: divide_less_eq)
qed

lemma completionScore_mono:
  assumes "c_completed a \<le> c_completed b"
    and "c_cancelledPreMeeting b \<le> c_cancelledPreMeeting a"
    and "c_cancelledPostMeeting b + c_timeouts b + c_noShows b
           \<le> c_cancelledPostMeeting a + c_timeouts a + c_noShows a"
  shows "completionScore a \<le> completionScore b"
proof -
  define x y where "x = (of_nat (c_completed a) :: rat)" and "y = (of_nat (c_completed b) :: rat)"
  define p q where
    "p = (of_nat (c_cancelledPreMeeting a) :: rat) / 4
           + of_nat (c_cancelledPostMeeting a + c_timeouts a + c_noShows a)" and
    "q = (of_nat (c_cancelledPreMeeting b) :: rat) / 4
           + of_nat (c_cancelledPostMeeting b + c_timeouts b + c_noShows b)"
  have xy: "0 \<le> x" "x \<le> y" using assms(1) by (auto simp: x_def y_def)
  have qp: "0 \<le> q" "q \<le> p"
  proof -
    show "0 \<le> q" by (simp add: q_def)
    have "(of_nat (c_cancelledPreMeeting b) :: rat) \<le> of_nat (c_cancelledPreMeeting a)"
      using assms(2) by simp
    moreover have "(of_nat (c_cancelledPostMeeting b + c_timeouts b + c_noShows b) :: rat)
        \<le> of_nat (c_cancelledPostMeeting a + c_timeouts a + c_noShows a)"
      using assms(3) of_nat_le_iff by blast
    ultimately show "q \<le> p" unfolding p_def q_def by linarith
  qed
  have "(x + 2) / (x + p + 4) \<le> (x + 2) / (x + q + 4)"
    using xy qp by (intro divide_left_mono mult_pos_pos) auto
  also have "\<dots> \<le> (y + 2) / (y + q + 4)"
  proof -
    have "0 < x + q + 4" "0 < y + q + 4" using xy qp by auto
    moreover have "(x + 2) * (y + q + 4) \<le> (y + 2) * (x + q + 4)"
    proof -
      have "(y + 2) * (x + q + 4) - (x + 2) * (y + q + 4) = (y - x) * (q + 2)"
        by (simp add: algebra_simps)
      moreover have "0 \<le> (y - x) * (q + 2)" using xy qp by simp
      ultimately show ?thesis by linarith
    qed
    ultimately show ?thesis by (simp add: frac_le_eq divide_le_eq le_divide_eq mult.commute)
  qed
  finally show ?thesis
    unfolding completionScore_eq by (simp add: x_def y_def p_def q_def add.assoc)
qed

lemma responsivenessScore_bounds:
  assumes "c_offersResponded30d c \<le> c_offersReceived30d c"
  shows "0 \<le> responsivenessScore c \<and> responsivenessScore c \<le> 1"
  using assms by (auto simp: responsivenessScore_def)

lemma rankingReliability_bounds:
  assumes "c_offersResponded30d c \<le> c_offersReceived30d c"
  shows "0 < rankingReliability c \<and> rankingReliability c < 1"
  using responsivenessScore_bounds[OF assms] completionScore_pos[of c] completionScore_lt_1[of c]
  by (auto simp: rankingReliability_def)

end
