(* ===== verification/Schema.thy ===== *)
theory Schema
  imports Geo Reliability_Score
begin

text \<open>
  \<open>server/src/db/schema.ts\<close>: one record per table, one field per column in the order of the file
  (the field prefix names the table), and the database as the record of its tables. A nullable
  column is an option, a text column with a fixed vocabulary is a value of the enum's datatype, a
  \<open>jsonb\<close> column the code only stores and returns is opaque text. Uuids and identity columns are
  drawn from the counter \<open>next_id\<close>.
\<close>

subsection \<open>Accounts\<close>

record user =
  u_id :: uid
  u_pseudonym :: string
  u_avatarSeed :: string
  u_locale :: string
  u_role :: user_role
  u_status :: user_status
  u_phoneEnc :: "string option"
  u_phoneHmac :: "string option"
  u_phoneVerifiedAt :: "instant option"
  u_emailEnc :: "string option"
  u_emailHmac :: "string option"
  u_emailVerifiedAt :: "instant option"
  u_username :: "string option"
  u_passwordHash :: "string option"
  u_passwordSetAt :: "instant option"
  u_mustChangePassword :: bool
  u_canRequest :: bool
  u_canHelp :: bool
  u_suspendedUntil :: "instant option"
  u_riskFlags :: "string list"
  u_pseudonymChangedAt :: "instant option"
  u_createdAt :: instant
  u_deletedAt :: "instant option"

record otp_code =
  oc_id :: uid
  oc_phoneHmac :: "string option"
  oc_emailHmac :: "string option"
  oc_codeHash :: string
  oc_attempts :: nat
  oc_expiresAt :: instant
  oc_consumedAt :: "instant option"
  oc_createdAt :: instant

record session =
  se_id :: uid
  se_userId :: uid
  se_tokenHash :: string
  se_platform :: string
  se_deviceName :: "string option"
  se_createdAt :: instant
  se_lastSeenAt :: instant
  se_expiresAt :: instant
  se_revokedAt :: "instant option"

record push_token =
  pt_id :: uid
  pt_userId :: uid
  pt_provider :: string
  pt_token :: string
  pt_disabled :: bool
  pt_createdAt :: instant
  pt_lastUsedAt :: "instant option"

subsection \<open>Events\<close>

record event =
  e_id :: uid
  e_code :: string
  e_title :: utext
  e_description :: utext
  e_type :: event_type
  e_status :: event_status
  e_visibility :: event_visibility
  e_publicApproved :: bool
  e_inviteCode :: "string option"
  e_areaLabel :: utext
  e_center :: geopoint
  e_radiusM :: int
  e_maxMatchRadiusM :: int
  e_offerResponseSeconds :: int
  e_startsAt :: instant
  e_endsAt :: instant
  e_timezone :: string
  e_safetyInfo :: "utext option"
  e_medicalInfo :: "utext option"
  e_matchingPaused :: bool
  e_retentionDays :: int
  e_createdBy :: "uid option"
  e_createdAt :: instant

record event_notice =
  n_id :: uid
  n_eventId :: uid
  n_body :: utext
  n_urgent :: bool
  n_createdBy :: "uid option"
  n_createdAt :: instant

datatype membership_role = Member_role | Event_admin_role

record membership =
  mb_id :: uid
  mb_userId :: uid
  mb_eventId :: uid
  mb_role :: membership_role
  mb_muted :: bool
  mb_banned :: bool
  mb_joinedAt :: instant
  mb_leftAt :: "instant option"

type_synonym localized = "(string \<times> utext) list"   \<comment> \<open>\<open>Record<string, string>\<close>, by locale\<close>

record category =
  c_id :: uid
  c_slug :: string
  c_group :: category_group
  c_name :: localized
  c_namePlural :: "localized option"
  c_description :: "localized option"
  c_icon :: string
  c_unit :: unit_kind
  c_altUnits :: "unit_kind list"
  c_fractional :: bool
  c_sealedRequired :: bool
  c_expiryRelevant :: bool
  c_restricted :: bool
  c_warningKey :: "string option"
  c_maxRequestQty :: qty
  c_maxOfferQty :: qty
  c_sortOrder :: int
  c_active :: bool

record event_category =
  ec_eventId :: uid
  ec_categoryId :: uid
  ec_enabled :: bool
  ec_maxRequestQty :: "qty option"
  ec_maxOfferQty :: "qty option"

record admin_want =
  aw_eventId :: uid
  aw_categoryId :: uid
  aw_qty :: "int option"

subsection \<open>Stock, availability and location\<close>

record item =
  i_id :: uid
  i_userId :: uid
  i_eventId :: uid
  i_categoryId :: uid
  i_qtyOnHand :: qty
  i_qtyReserved :: qty
  i_unit :: unit_kind
  i_details :: utext
  i_active :: bool
  i_createdAt :: instant
  i_updatedAt :: instant
  i_expiresAt :: "instant option"
  i_idempotencyKey :: "string option"

record availability_row =
  av_userId :: uid
  av_eventId :: uid
  av_isOn :: bool
  av_until :: "instant option"
  av_updatedAt :: instant

record member_location =
  ml_userId :: uid
  ml_eventId :: uid
  ml_geog :: geopoint
  ml_updatedAt :: instant
  ml_expiresAt :: instant

subsection \<open>Requests, offers and matches\<close>

record request =
  r_id :: uid
  r_eventId :: uid
  r_requesterId :: uid
  r_categoryId :: uid
  r_qty :: qty
  r_qtyFulfilled :: qty
  r_unit :: unit_kind
  r_urgency :: request_urgency
  r_note :: "utext option"
  r_areaHint :: "utext option"
  r_status :: request_status
  r_currentRadiusM :: int
  r_attemptCount :: nat
  r_expiresAt :: instant
  r_createdAt :: instant
  r_closedAt :: "instant option"
  r_idempotencyKey :: string

datatype transition_actor = System_actor | Requester_actor | Helper_actor | Moderator_actor

record request_transition =
  rt_id :: nat
  rt_requestId :: uid
  rt_fromStatus :: "request_status option"   \<comment> \<open>\<open>None\<close> is the virtual status \<open>none\<close>\<close>
  rt_toStatus :: request_status
  rt_actor :: transition_actor
  rt_reason :: "string option"
  rt_createdAt :: instant

record match_offer =
  o_id :: uid
  o_requestId :: uid
  o_helperId :: uid
  o_inventoryItemId :: uid
  o_qty :: qty
  o_proximity :: proximity_bucket
  o_status :: offer_status
  o_offeredAt :: instant
  o_respondBy :: instant
  o_respondedAt :: "instant option"

record match_row =
  m_id :: uid
  m_requestId :: uid
  m_offerId :: uid
  m_eventId :: uid
  m_requesterId :: uid
  m_helperId :: uid
  m_inventoryItemId :: uid
  m_qtyReserved :: qty
  m_proximity :: proximity_bucket
  m_status :: match_status
  m_requesterAlias :: string
  m_helperAlias :: string
  m_requesterMeetingState :: meeting_state
  m_helperMeetingState :: meeting_state
  m_requesterConfirmedQty :: "qty option"
  m_helperConfirmedQty :: "qty option"
  m_inventoryApplied :: bool
  m_reliabilityApplied :: bool
  m_createdAt :: instant
  m_closedAt :: "instant option"
  m_closeReason :: "utext option"

subsection \<open>Chat\<close>

record conversation =
  cv_id :: uid
  cv_matchId :: uid
  cv_status :: conversation_status
  cv_expiresAt :: "instant option"
  cv_createdAt :: instant

record message =
  ms_id :: uid
  ms_conversationId :: uid
  ms_senderId :: uid
  ms_kind :: message_kind
  ms_body :: utext
  ms_clientMsgId :: "string option"
  ms_createdAt :: instant
  ms_deliveredAt :: "instant option"
  ms_readAt :: "instant option"

subsection \<open>Reliability, safety and moderation\<close>

record reliability_row =
  rs_userId :: uid
  rs_accepted :: nat
  rs_completed :: nat
  rs_requesterConfirmed :: nat
  rs_cancelledPreMeeting :: nat
  rs_cancelledPostMeeting :: nat
  rs_timeouts :: nat
  rs_noShows :: nat
  rs_disputes :: nat
  rs_offersReceived30d :: nat
  rs_offersResponded30d :: nat
  rs_label :: reliability_label
  rs_updatedAt :: instant

record block =
  bl_blockerId :: uid
  bl_blockedId :: uid
  bl_createdAt :: instant

record evidence_message =
  ev_senderAlias :: string
  ev_body :: utext
  ev_createdAt :: instant

record report =
  rp_id :: uid
  rp_reporterId :: "uid option"
  rp_subjectUserId :: "uid option"
  rp_subjectEventId :: "uid option"
  rp_matchId :: "uid option"
  rp_category :: report_category
  rp_note :: "utext option"
  rp_evidence :: "evidence_message list option"
  rp_status :: report_status
  rp_resolution :: "utext option"
  rp_resolvedBy :: "uid option"
  rp_createdAt :: instant
  rp_resolvedAt :: "instant option"

record moderation_action =
  ma_id :: uid
  ma_actorId :: "uid option"
  ma_action :: moderation_action_kind
  ma_targetUserId :: "uid option"
  ma_targetEventId :: "uid option"
  ma_targetMatchId :: "uid option"
  ma_reportId :: "uid option"
  ma_reason :: utext
  ma_expiresAt :: "instant option"
  ma_createdAt :: instant

datatype appeal_status = Appeal_open | Appeal_upheld | Appeal_overturned

record appeal =
  ap_id :: uid
  ap_userId :: uid
  ap_moderationActionId :: uid
  ap_body :: utext
  ap_status :: appeal_status
  ap_resolvedBy :: "uid option"
  ap_createdAt :: instant
  ap_resolvedAt :: "instant option"

text \<open>The target of an audit row is a template string, its details a small object; each has a constructor.\<close>

datatype audit_target = User_target uid | Event_target uid | Match_target uid | Report_target uid
  | Appeal_target uid | Category_target string | Flag_target string | Platform_target

datatype audit_meta = Meta_duration "int option" | Meta_urgent bool | Meta_fields "string list"
  | Meta_appeal appeal_status uid | Meta_paused nat

record audit_entry =
  al_id :: nat
  al_actorId :: "uid option"
  al_action :: string
  al_target :: "audit_target option"
  al_reason :: "utext option"
  al_meta :: "audit_meta option"
  al_createdAt :: instant

subsection \<open>Notifications and consent\<close>

text \<open>A deep link and a dedupe key are template strings; each template is a constructor.\<close>

datatype deep_link = Match_link uid | Request_link uid | Offer_link uid | Event_link string | Settings_link

datatype dedupe_key = Match_accept_key uid | No_match_key uid | Offer_key uid | Message_key uid int
  | Match_cancel_helper_key uid | Match_cancel_key uid | Attendance_key uid uid string
  | Moderation_key uid | Appeal_key uid | Notice_key uid | Export_key uid

datatype param_value = Text_param utext | Uid_param uid

record notification =
  nt_id :: uid
  nt_userId :: uid
  nt_type :: notification_type
  nt_titleKey :: string
  nt_bodyKey :: string
  nt_params :: "(string \<times> param_value) list"
  nt_deepLink :: "deep_link option"
  nt_dedupeKey :: "dedupe_key option"
  nt_createdAt :: instant
  nt_readAt :: "instant option"

record notification_pref =
  np_userId :: uid
  np_detailedPreviews :: bool
  np_perType :: "(notification_type \<times> bool) list"

record consent_record =
  cr_id :: uid
  cr_userId :: uid
  cr_kind :: string
  cr_granted :: bool
  cr_createdAt :: instant

subsection \<open>Data requests and flags\<close>

datatype data_request_kind = Export_request | Delete_request

datatype data_request_status = Data_pending | Data_ready | Data_done

text \<open>The payload of an export, as \<open>buildExportBundle\<close> of \<open>workers/data-request.ts\<close> makes it.\<close>

datatype match_role = Requester_role | Helper_role

record export_profile =
  xp_pseudonym :: string
  xp_locale :: string
  xp_createdAt :: instant
  xp_emailVerified :: bool

record export_session =
  xs_platform :: string
  xs_deviceName :: "string option"
  xs_createdAt :: instant
  xs_lastSeenAt :: instant
  xs_revoked :: bool

record export_event =
  xe_title :: utext
  xe_code :: string
  xe_joinedAt :: instant
  xe_leftAt :: "instant option"
  xe_role :: membership_role

record export_item =
  xi_eventTitle :: utext
  xi_categorySlug :: string
  xi_qtyOnHand :: qty
  xi_qtyReserved :: qty
  xi_unit :: unit_kind
  xi_details :: utext
  xi_active :: bool
  xi_createdAt :: instant

record export_request =
  xr_eventTitle :: utext
  xr_categorySlug :: string
  xr_qty :: qty
  xr_qtyFulfilled :: qty
  xr_unit :: unit_kind
  xr_urgency :: request_urgency
  xr_note :: "utext option"
  xr_status :: request_status
  xr_createdAt :: instant

record export_match =
  xm_role :: match_role
  xm_categorySlug :: string
  xm_myAlias :: string
  xm_peerAlias :: string
  xm_qtyReserved :: qty
  xm_myConfirmedQty :: "qty option"
  xm_status :: match_status
  xm_createdAt :: instant
  xm_closedAt :: "instant option"

record export_message =
  xg_conversationId :: uid
  xg_kind :: message_kind
  xg_body :: utext
  xg_createdAt :: instant

record export_report =
  xo_category :: report_category
  xo_status :: report_status
  xo_createdAt :: instant

record export_consent =
  xc_kind :: string
  xc_granted :: bool
  xc_createdAt :: instant

record export_notification =
  xn_type :: notification_type
  xn_titleKey :: string
  xn_bodyKey :: string
  xn_params :: "(string \<times> param_value) list"
  xn_createdAt :: instant
  xn_readAt :: "instant option"

record export_bundle =
  xb_generatedAt :: instant
  xb_profile :: export_profile
  xb_sessions :: "export_session list"
  xb_events :: "export_event list"
  xb_inventory :: "export_item list"
  xb_requests :: "export_request list"
  xb_matches :: "export_match list"
  xb_messages :: "export_message list"
  xb_reports :: "export_report list"
  xb_blocks :: "instant list"
  xb_consents :: "export_consent list"
  xb_notifications :: "export_notification list"

record data_request =
  dr_id :: uid
  dr_userId :: uid
  dr_kind :: data_request_kind
  dr_status :: data_request_status
  dr_payload :: "export_bundle option"
  dr_createdAt :: instant
  dr_completedAt :: "instant option"

record feature_flag =
  ff_key :: string
  ff_enabled :: bool
  ff_description :: utext

subsection \<open>The database\<close>

record db =
  users :: "user list"
  otpCodes :: "otp_code list"
  sessions :: "session list"
  pushTokens :: "push_token list"
  events :: "event list"
  eventNotices :: "event_notice list"
  memberships :: "membership list"
  categories :: "category list"
  eventCategories :: "event_category list"
  eventAdminWants :: "admin_want list"
  inventoryItems :: "item list"
  availability :: "availability_row list"
  memberLocations :: "member_location list"
  requests :: "request list"
  requestTransitions :: "request_transition list"
  matchOffers :: "match_offer list"
  matches :: "match_row list"
  conversations :: "conversation list"
  messages :: "message list"
  reliabilityStats :: "reliability_row list"
  blocks :: "block list"
  reports :: "report list"
  moderationActions :: "moderation_action list"
  auditLog :: "audit_entry list"
  notifications :: "notification list"
  notificationPrefs :: "notification_pref list"
  consentRecords :: "consent_record list"
  appeals :: "appeal list"
  dataRequests :: "data_request list"
  featureFlags :: "feature_flag list"
  next_id :: nat

definition empty_db :: db where
  "empty_db = \<lparr>users = [], otpCodes = [], sessions = [], pushTokens = [], events = [],
     eventNotices = [], memberships = [], categories = [], eventCategories = [],
     eventAdminWants = [], inventoryItems = [], availability = [], memberLocations = [],
     requests = [], requestTransitions = [], matchOffers = [], matches = [], conversations = [],
     messages = [], reliabilityStats = [], blocks = [], reports = [], moderationActions = [],
     auditLog = [], notifications = [], notificationPrefs = [], consentRecords = [],
     appeals = [], dataRequests = [], featureFlags = [], next_id = 0\<rparr>"

end
