(* ===== verification/Wire.thy ===== *)
theory Wire
  imports Schema
begin

text \<open>
  The wire vocabulary of \<open>packages/shared/src/schemas.ts\<close> for the modelled routes: the view models
  the handlers return and publish, the request bodies with the validators that guard the handlers
  (\<open>zQty\<close>, \<open>zCreateRequest\<close>, ..), and what a handler emits after its transaction commits
  (\<open>server/src/queues.ts\<close>, \<open>server/src/realtime/hub.ts\<close>). ISO dates stay instants.
\<close>

subsection \<open>Views\<close>

record request_view =
  rv_id :: uid
  rv_eventId :: uid
  rv_categoryId :: uid
  rv_categorySlug :: string
  rv_qty :: qty
  rv_qtyFulfilled :: qty
  rv_unit :: unit_kind
  rv_urgency :: request_urgency
  rv_note :: "utext option"
  rv_status :: request_status
  rv_expiresAt :: instant
  rv_createdAt :: instant
  rv_attemptCount :: nat
  rv_activeMatchId :: "uid option"

record offer_view =
  ov_id :: uid
  ov_requestId :: uid
  ov_eventId :: uid
  ov_categorySlug :: string
  ov_qtyRequested :: qty
  ov_qtyYouHave :: qty
  ov_unit :: unit_kind
  ov_urgency :: request_urgency
  ov_proximity :: proximity_bucket
  ov_note :: "utext option"
  ov_respondBy :: instant
  ov_status :: offer_status

record peer_profile =
  pp_alias :: string
  pp_avatarSeed :: string
  pp_reliabilityLabel :: reliability_label
  pp_completedAssists :: nat
  pp_memberSince :: string
  pp_emailVerifiedLabel :: bool

record match_view =
  mv_id :: uid
  mv_requestId :: uid
  mv_eventId :: uid
  mv_role :: match_role
  mv_categorySlug :: string
  mv_qtyReserved :: qty
  mv_unit :: unit_kind
  mv_status :: match_status
  mv_myMeetingState :: meeting_state
  mv_peerMeetingState :: meeting_state
  mv_peer :: peer_profile
  mv_myAlias :: string
  mv_conversationId :: uid
  mv_proximity :: proximity_bucket
  mv_createdAt :: instant
  mv_myConfirmedQty :: "qty option"
  mv_peerConfirmed :: bool

record message_view =
  xv_id :: uid
  xv_conversationId :: uid
  xv_senderAlias :: string
  xv_mine :: bool
  xv_kind :: message_kind
  xv_body :: utext
  xv_createdAt :: instant
  xv_deliveredAt :: "instant option"
  xv_readAt :: "instant option"

record conversation_view =
  cw_id :: uid
  cw_matchId :: uid
  cw_status :: conversation_status
  cw_expiresAt :: "instant option"
  cw_quickReplies :: "string list"

record inventory_view =
  iv_id :: uid
  iv_eventId :: uid
  iv_categoryId :: uid
  iv_categorySlug :: string
  iv_qtyTotal :: qty
  iv_qtyAvailable :: qty
  iv_qtyReserved :: qty
  iv_unit :: unit_kind
  iv_details :: utext
  iv_active :: bool
  iv_updatedAt :: instant

record availability_view =
  ay_on :: bool
  ay_until :: "instant option"

record report_view =
  pv_id :: uid
  pv_category :: report_category
  pv_status :: report_status
  pv_createdAt :: instant
  pv_resolutionKey :: "string option"

record notification_view =
  nv_id :: uid
  nv_type :: notification_type
  nv_titleKey :: string
  nv_bodyKey :: string
  nv_params :: "(string \<times> param_value) list"
  nv_createdAt :: instant
  nv_readAt :: "instant option"
  nv_deepLink :: "deep_link option"

subsection \<open>Request bodies and their validators\<close>

definition zQty :: "qty \<Rightarrow> bool" where
  "zQty q \<longleftrightarrow> 0 < q \<and> q \<le> 10000"

definition zCoords :: "geopoint \<Rightarrow> bool" where
  "zCoords c \<longleftrightarrow> -90 \<le> fst c \<and> fst c \<le> 90 \<and> -180 \<le> snd c \<and> snd c \<le> 180"

definition zIdempotencyKey :: "string \<Rightarrow> bool" where
  "zIdempotencyKey k \<longleftrightarrow> 8 \<le> length k \<and> length k \<le> 64"

definition zExpiresInMinutes :: "int \<Rightarrow> bool" where
  "zExpiresInMinutes n \<longleftrightarrow> 5 \<le> n \<and> n \<le> 120"

definition valid_opt :: "('a \<Rightarrow> bool) \<Rightarrow> 'a option \<Rightarrow> bool" where
  "valid_opt P x = (case x of None \<Rightarrow> True | Some a \<Rightarrow> P a)"

lemma valid_opt_simps [simp]: "valid_opt P None" "valid_opt P (Some a) = P a"
  by (simp_all add: valid_opt_def)

record create_request_input =
  ri_eventId :: uid
  ri_categoryId :: uid
  ri_qty :: qty
  ri_unit :: unit_kind
  ri_urgency :: request_urgency
  ri_note :: "utext option"
  ri_expiresInMinutes :: int
  ri_coords :: "geopoint option"
  ri_areaHint :: "utext option"
  ri_safetyAcknowledged :: bool
  ri_idempotencyKey :: string

definition zCreateRequest :: "create_request_input \<Rightarrow> bool" where
  "zCreateRequest i \<longleftrightarrow> zQty (ri_qty i) \<and> valid_opt (\<lambda>n. length n \<le> maxNoteLength) (ri_note i)
     \<and> zExpiresInMinutes (ri_expiresInMinutes i) \<and> valid_opt zCoords (ri_coords i)
     \<and> valid_opt (\<lambda>h. length h \<le> 80) (ri_areaHint i) \<and> ri_safetyAcknowledged i
     \<and> zIdempotencyKey (ri_idempotencyKey i)"

record add_inventory_input =
  ai_categoryId :: uid
  ai_qty :: qty
  ai_unit :: unit_kind
  ai_details :: utext
  ai_idempotencyKey :: "string option"

definition zAddInventory :: "add_inventory_input \<Rightarrow> bool" where
  "zAddInventory i \<longleftrightarrow> zQty (ai_qty i) \<and> valid_opt zIdempotencyKey (ai_idempotencyKey i)"

record update_inventory_input =
  ui_qtyTotal :: "qty option"
  ui_details :: "utext option"
  ui_active :: "bool option"

definition zUpdateInventory :: "update_inventory_input \<Rightarrow> bool" where
  "zUpdateInventory i \<longleftrightarrow> valid_opt zQty (ui_qtyTotal i)"

record set_availability_input =
  si_on :: bool
  si_durationMinutes :: "int option"
  si_untilEventEnd :: bool

definition zSetAvailability :: "set_availability_input \<Rightarrow> bool" where
  "zSetAvailability i \<longleftrightarrow> valid_opt (\<lambda>n. n \<in> set AVAILABILITY_DURATIONS_MIN) (si_durationMinutes i)"

definition zConfirmCompletion :: "qty \<Rightarrow> bool" where
  "zConfirmCompletion q \<longleftrightarrow> 0 \<le> q \<and> q \<le> 10000"

datatype cancel_reason = Changed_mind | Cannot_find_peer | No_longer_needed | Unsafe | Other_reason

fun cancel_reason_token :: "cancel_reason \<Rightarrow> string" where
  "cancel_reason_token Changed_mind = ''changed_mind''"
| "cancel_reason_token Cannot_find_peer = ''cannot_find''"
| "cancel_reason_token No_longer_needed = ''no_longer_needed''"
| "cancel_reason_token Unsafe = ''unsafe''"
| "cancel_reason_token Other_reason = ''other''"

record cancel_match_input =
  ci_reason :: cancel_reason
  ci_note :: "utext option"

definition zCancelMatch :: "cancel_match_input \<Rightarrow> bool" where
  "zCancelMatch i \<longleftrightarrow> valid_opt (\<lambda>n. length n \<le> 200) (ci_note i)"

record send_message_input =
  mi_quick :: bool   \<comment> \<open>\<open>kind = 'quick'\<close>; otherwise \<open>'text'\<close>\<close>
  mi_body :: utext
  mi_clientMsgId :: string

definition zSendMessage :: "send_message_input \<Rightarrow> bool" where
  "zSendMessage i \<longleftrightarrow> 1 \<le> length (mi_body i) \<and> length (mi_body i) \<le> maxMessageLength
     \<and> zIdempotencyKey (mi_clientMsgId i)"

record create_report_input =
  pi_category :: report_category
  pi_note :: "utext option"
  pi_matchId :: "uid option"
  pi_eventId :: "uid option"
  pi_preserveConversation :: bool

definition zCreateReport :: "create_report_input \<Rightarrow> bool" where
  "zCreateReport i \<longleftrightarrow> valid_opt (\<lambda>n. length n \<le> maxReportNoteLength) (pi_note i)"

record create_event_input =
  ei_title :: utext
  ei_description :: utext
  ei_type :: event_type
  ei_visibility :: event_visibility
  ei_areaLabel :: utext
  ei_center :: geopoint
  ei_radiusM :: int
  ei_startsAt :: instant
  ei_endsAt :: instant
  ei_timezone :: string
  ei_safetyInfo :: "utext option"
  ei_medicalInfo :: "utext option"
  ei_categorySlugs :: "string list option"

definition zCreateEvent :: "create_event_input \<Rightarrow> bool" where
  "zCreateEvent i \<longleftrightarrow> 3 \<le> length (ei_title i) \<and> length (ei_title i) \<le> 120
     \<and> length (ei_description i) \<le> 2000 \<and> 3 \<le> length (ei_areaLabel i)
     \<and> length (ei_areaLabel i) \<le> 120 \<and> zCoords (ei_center i) \<and> 100 \<le> ei_radiusM i
     \<and> ei_radiusM i \<le> 20000 \<and> valid_opt (\<lambda>s. length s \<le> 2000) (ei_safetyInfo i)
     \<and> valid_opt (\<lambda>s. length s \<le> 2000) (ei_medicalInfo i)"

subsection \<open>What a handler emits\<close>

datatype payload =
    P_request request_view
  | P_offer offer_view
  | P_offer_status uid offer_status          \<comment> \<open>\<open>{ id, status }\<close>\<close>
  | P_match match_view
  | P_message message_view
  | P_conversation_status uid uid conversation_status   \<comment> \<open>\<open>{ id, matchId, status }\<close>\<close>
  | P_conversation conversation_view
  | P_read_by_peer uid                       \<comment> \<open>\<open>{ id, readBy: 'peer' }\<close>\<close>
  | P_notification notification_view
  | P_session_revoked uid                    \<comment> \<open>\<open>{ sessionId }\<close>\<close>

record notify_job =
  nj_userId :: uid
  nj_type :: notification_type
  nj_titleKey :: string
  nj_bodyKey :: string
  nj_params :: "(string \<times> param_value) list"
  nj_deepLink :: "deep_link option"
  nj_dedupeKey :: "dedupe_key option"

datatype effect =
    Publish uid ws_event payload
  | Match_job uid int              \<comment> \<open>\<open>matchQueue().add('match', ..)\<close> with its delay in ms\<close>
  | Finalize_job uid int
  | Offer_timeout_job uid int
  | Notify_job notify_job
  | Data_request_job uid
  | Email_code utext string        \<comment> \<open>the mail provider: a one-time code, a username reminder\<close>
  | Email_username utext string

text \<open>
  \<open>AfterCommit\<close>: a closure run on the committed state. A handler runs at one instant \<open>now\<close> (every
  \<open>new Date()\<close> and SQL \<open>now()\<close> of the run); the PostGIS distance and the configured location TTL
  are its other surroundings.
\<close>

record env =
  now :: instant
  distanceM :: "geopoint \<Rightarrow> geopoint \<Rightarrow> qty"
  LOCATION_TTL_MINUTES :: int

type_synonym after_commit = "db \<Rightarrow> effect list"

definition run_after :: "after_commit list \<Rightarrow> db \<Rightarrow> effect list" where
  "run_after fs d = concat (map (\<lambda>f. f d) fs)"

type_synonym 'v outcome = "db \<times> effect list \<times> (app_error + 'v)"

text \<open>A transaction that throws rolls back: the handler ends in the state it started from.\<close>

definition commit :: "db \<Rightarrow> app_error + 'x \<Rightarrow> ('x \<Rightarrow> 'v outcome) \<Rightarrow> 'v outcome" where
  "commit d r k = (case r of Inl e \<Rightarrow> (d, [], Inl e) | Inr x \<Rightarrow> k x)"

lemma commit_simps [simp]: "commit d (Inl e) k = (d, [], Inl e)" "commit d (Inr x) k = k x"
  by (simp_all add: commit_def)

end
