(* ===== verification/Store.thy ===== *)
theory Store
  imports Wire
begin

text \<open>
  Reads and writes of the tables of \<open>server/src/db/schema.ts\<close>, with the constraints the migrations
  put on them: a violated \<open>CHECK\<close> is \<open>Internal ''23514''\<close>, a violated unique index
  \<open>Internal ''23505''\<close>. That no handler ever ends in one of these from a reachable state is a
  property of the development, not an assumption of the model.
\<close>

subsection \<open>Constraints\<close>

definition item_check :: "item \<Rightarrow> bool" where
  "item_check i \<longleftrightarrow> 0 \<le> i_qtyOnHand i \<and> 0 \<le> i_qtyReserved i \<and> i_qtyReserved i \<le> i_qtyOnHand i"

definition request_check :: "request \<Rightarrow> bool" where
  "request_check r \<longleftrightarrow> 0 < r_qty r \<and> 0 \<le> r_qtyFulfilled r \<and> r_qtyFulfilled r \<le> r_qty r"

definition item_unique :: "item \<Rightarrow> item \<Rightarrow> bool" where
  "item_unique a b \<longleftrightarrow> \<not> (i_userId a = i_userId b \<and> i_idempotencyKey a = i_idempotencyKey b
     \<and> i_idempotencyKey a \<noteq> None)"

definition request_unique :: "request \<Rightarrow> request \<Rightarrow> bool" where
  "request_unique a b \<longleftrightarrow> \<not> (r_requesterId a = r_requesterId b
     \<and> r_idempotencyKey a = r_idempotencyKey b)"

definition offer_unique :: "match_offer \<Rightarrow> match_offer \<Rightarrow> bool" where
  "offer_unique a b \<longleftrightarrow> \<not> (o_requestId a = o_requestId b \<and> o_helperId a = o_helperId b)"

definition match_unique :: "match_row \<Rightarrow> match_row \<Rightarrow> bool" where
  "match_unique a b \<longleftrightarrow> \<not> (m_requestId a = m_requestId b \<and> m_status a = M_active
     \<and> m_status b = M_active)"

definition conversation_unique :: "conversation \<Rightarrow> conversation \<Rightarrow> bool" where
  "conversation_unique a b \<longleftrightarrow> cv_matchId a \<noteq> cv_matchId b"

definition message_unique :: "message \<Rightarrow> message \<Rightarrow> bool" where
  "message_unique a b \<longleftrightarrow> \<not> (ms_senderId a = ms_senderId b \<and> ms_clientMsgId a = ms_clientMsgId b
     \<and> ms_clientMsgId a \<noteq> None)"

subsection \<open>Generic writes\<close>

definition checked_insert :: "('r \<Rightarrow> bool) \<Rightarrow> ('r \<Rightarrow> 'r \<Rightarrow> bool) \<Rightarrow> 'r \<Rightarrow> 'r list \<Rightarrow> app_error + 'r list" where
  "checked_insert chk uq r t =
     (if \<not> chk r then Inl (Internal ''23514'')
      else if \<not> list_all (uq r) t then Inl (Internal ''23505'')
      else Inr (t @ [r]))"

definition checked_update :: "('r \<Rightarrow> bool) \<Rightarrow> ('r \<Rightarrow> nat) \<Rightarrow> nat \<Rightarrow> ('r \<Rightarrow> 'r) \<Rightarrow> 'r list \<Rightarrow> app_error + 'r list" where
  "checked_update chk key k f t =
     (if list_all (\<lambda>r. key r = k \<longrightarrow> chk (f r)) t then Inr (upd_key key k f t)
      else Inl (Internal ''23514''))"

definition insert_item :: "item \<Rightarrow> db \<Rightarrow> app_error + db \<times> item" where
  "insert_item i d = (let i' = i\<lparr>i_id := next_id d\<rparr> in
     r_bind (checked_insert item_check item_unique i' (inventoryItems d)) (\<lambda>t.
       Inr (d\<lparr>inventoryItems := t, next_id := Suc (next_id d)\<rparr>, i')))"

definition update_item :: "uid \<Rightarrow> (item \<Rightarrow> item) \<Rightarrow> db \<Rightarrow> app_error + db" where
  "update_item k f d = r_bind (checked_update item_check i_id k f (inventoryItems d)) (\<lambda>t.
     Inr (d\<lparr>inventoryItems := t\<rparr>))"

definition insert_request :: "request \<Rightarrow> db \<Rightarrow> app_error + db \<times> request" where
  "insert_request r d = (let r' = r\<lparr>r_id := next_id d\<rparr> in
     r_bind (checked_insert request_check request_unique r' (requests d)) (\<lambda>t.
       Inr (d\<lparr>requests := t, next_id := Suc (next_id d)\<rparr>, r')))"

definition update_request :: "uid \<Rightarrow> (request \<Rightarrow> request) \<Rightarrow> db \<Rightarrow> app_error + db" where
  "update_request k f d = r_bind (checked_update request_check r_id k f (requests d)) (\<lambda>t.
     Inr (d\<lparr>requests := t\<rparr>))"

definition insert_offer :: "match_offer \<Rightarrow> db \<Rightarrow> app_error + db \<times> match_offer" where
  "insert_offer x d = (let x' = x\<lparr>o_id := next_id d\<rparr> in
     r_bind (checked_insert (\<lambda>_. True) offer_unique x' (matchOffers d)) (\<lambda>t.
       Inr (d\<lparr>matchOffers := t, next_id := Suc (next_id d)\<rparr>, x')))"

definition update_offer :: "uid \<Rightarrow> (match_offer \<Rightarrow> match_offer) \<Rightarrow> db \<Rightarrow> db" where
  "update_offer k f d = d\<lparr>matchOffers := upd_key o_id k f (matchOffers d)\<rparr>"

definition insert_match :: "match_row \<Rightarrow> db \<Rightarrow> app_error + db \<times> match_row" where
  "insert_match m d = (let m' = m\<lparr>m_id := next_id d\<rparr> in
     r_bind (checked_insert (\<lambda>_. True) match_unique m' (matches d)) (\<lambda>t.
       Inr (d\<lparr>matches := t, next_id := Suc (next_id d)\<rparr>, m')))"

definition update_match :: "uid \<Rightarrow> (match_row \<Rightarrow> match_row) \<Rightarrow> db \<Rightarrow> db" where
  "update_match k f d = d\<lparr>matches := upd_key m_id k f (matches d)\<rparr>"

definition insert_conversation :: "conversation \<Rightarrow> db \<Rightarrow> app_error + db \<times> conversation" where
  "insert_conversation c d = (let c' = c\<lparr>cv_id := next_id d\<rparr> in
     r_bind (checked_insert (\<lambda>_. True) conversation_unique c' (conversations d)) (\<lambda>t.
       Inr (d\<lparr>conversations := t, next_id := Suc (next_id d)\<rparr>, c')))"

definition update_conversation :: "uid \<Rightarrow> (conversation \<Rightarrow> conversation) \<Rightarrow> db \<Rightarrow> db" where
  "update_conversation k f d = d\<lparr>conversations := upd_key cv_id k f (conversations d)\<rparr>"

definition insert_message :: "message \<Rightarrow> db \<Rightarrow> app_error + db \<times> message" where
  "insert_message m d = (let m' = m\<lparr>ms_id := next_id d\<rparr> in
     r_bind (checked_insert (\<lambda>_. True) message_unique m' (messages d)) (\<lambda>t.
       Inr (d\<lparr>messages := t, next_id := Suc (next_id d)\<rparr>, m')))"

definition upsert_availability :: "uid \<Rightarrow> uid \<Rightarrow> bool \<Rightarrow> instant option \<Rightarrow> instant \<Rightarrow> db \<Rightarrow> db" where
  "upsert_availability u e on until t d =
     (if \<exists>a \<in> set (availability d). av_userId a = u \<and> av_eventId a = e
      then d\<lparr>availability := upd_where (\<lambda>a. av_userId a = u \<and> av_eventId a = e)
             (\<lambda>a. a\<lparr>av_isOn := on, av_until := until, av_updatedAt := t\<rparr>) (availability d)\<rparr>
      else d\<lparr>availability := availability d @
             [\<lparr>av_userId = u, av_eventId = e, av_isOn = on, av_until = until, av_updatedAt = t\<rparr>]\<rparr>)"

definition upsert_location :: "env \<Rightarrow> uid \<Rightarrow> uid \<Rightarrow> geopoint \<Rightarrow> db \<Rightarrow> db" where
  "upsert_location env u e coords d =
     (let g = coarsen (fst coords) (snd coords);
          expiresAt = now env + LOCATION_TTL_MINUTES env * 60000
      in if \<exists>l \<in> set (memberLocations d). ml_userId l = u \<and> ml_eventId l = e
         then d\<lparr>memberLocations := upd_where (\<lambda>l. ml_userId l = u \<and> ml_eventId l = e)
                (\<lambda>l. l\<lparr>ml_geog := g, ml_updatedAt := now env, ml_expiresAt := expiresAt\<rparr>)
                (memberLocations d)\<rparr>
         else d\<lparr>memberLocations := memberLocations d @
                [\<lparr>ml_userId = u, ml_eventId = e, ml_geog = g, ml_updatedAt = now env,
                  ml_expiresAt = expiresAt\<rparr>]\<rparr>)"

definition insert_audit ::
  "env \<Rightarrow> uid option \<Rightarrow> string \<Rightarrow> audit_target option \<Rightarrow> utext option \<Rightarrow> audit_meta option \<Rightarrow> db \<Rightarrow> db" where
  "insert_audit env actor action target reason meta d =
     d\<lparr>auditLog := auditLog d @ [\<lparr>al_id = next_id d, al_actorId = actor, al_action = action,
         al_target = target, al_reason = reason, al_meta = meta, al_createdAt = now env\<rparr>],
       next_id := Suc (next_id d)\<rparr>"

definition delete_location :: "uid \<Rightarrow> uid \<Rightarrow> db \<Rightarrow> db" where
  "delete_location u e d = d\<lparr>memberLocations :=
     filter (\<lambda>l. \<not> (ml_userId l = u \<and> ml_eventId l = e)) (memberLocations d)\<rparr>"

subsection \<open>What the writes do\<close>

lemma checked_insert_Inr [result_elims]:
  "checked_insert chk uq r t = Inr t' \<longleftrightarrow> chk r \<and> list_all (uq r) t \<and> t' = t @ [r]"
  by (auto simp: checked_insert_def)

lemma checked_insert_Inl [result_elims]:
  "checked_insert chk uq r t = Inl e \<longleftrightarrow>
     (\<not> chk r \<and> e = Internal ''23514'') \<or> (chk r \<and> \<not> list_all (uq r) t \<and> e = Internal ''23505'')"
  by (auto simp: checked_insert_def)

lemma checked_update_Inr [result_elims]:
  "checked_update chk key k f t = Inr t' \<longleftrightarrow>
     (\<forall>r \<in> set t. key r = k \<longrightarrow> chk (f r)) \<and> t' = upd_key key k f t"
  by (auto simp: checked_update_def list_all_iff)

lemma checked_update_Inl [result_elims]:
  "checked_update chk key k f t = Inl e \<longleftrightarrow>
     \<not> (\<forall>r \<in> set t. key r = k \<longrightarrow> chk (f r)) \<and> e = Internal ''23514''"
  by (auto simp: checked_update_def list_all_iff)

lemma insert_item_Inr [result_elims]:
  "insert_item i d = Inr (d', i') \<longleftrightarrow> i' = i\<lparr>i_id := next_id d\<rparr> \<and> item_check i'
     \<and> list_all (item_unique i') (inventoryItems d)
     \<and> d' = d\<lparr>inventoryItems := inventoryItems d @ [i'], next_id := Suc (next_id d)\<rparr>"
  by (auto simp: insert_item_def Let_def result_elims)

lemma update_item_Inr [result_elims]:
  "update_item k f d = Inr d' \<longleftrightarrow> (\<forall>i \<in> set (inventoryItems d). i_id i = k \<longrightarrow> item_check (f i))
     \<and> d' = d\<lparr>inventoryItems := upd_key i_id k f (inventoryItems d)\<rparr>"
  by (auto simp: update_item_def result_elims)

lemma insert_request_Inr [result_elims]:
  "insert_request r d = Inr (d', r') \<longleftrightarrow> r' = r\<lparr>r_id := next_id d\<rparr> \<and> request_check r'
     \<and> list_all (request_unique r') (requests d)
     \<and> d' = d\<lparr>requests := requests d @ [r'], next_id := Suc (next_id d)\<rparr>"
  by (auto simp: insert_request_def Let_def result_elims)

lemma update_request_Inr [result_elims]:
  "update_request k f d = Inr d' \<longleftrightarrow> (\<forall>r \<in> set (requests d). r_id r = k \<longrightarrow> request_check (f r))
     \<and> d' = d\<lparr>requests := upd_key r_id k f (requests d)\<rparr>"
  by (auto simp: update_request_def result_elims)

lemma insert_offer_Inr [result_elims]:
  "insert_offer x d = Inr (d', x') \<longleftrightarrow> x' = x\<lparr>o_id := next_id d\<rparr>
     \<and> list_all (offer_unique x') (matchOffers d)
     \<and> d' = d\<lparr>matchOffers := matchOffers d @ [x'], next_id := Suc (next_id d)\<rparr>"
  by (auto simp: insert_offer_def Let_def result_elims)

lemma insert_match_Inr [result_elims]:
  "insert_match m d = Inr (d', m') \<longleftrightarrow> m' = m\<lparr>m_id := next_id d\<rparr>
     \<and> list_all (match_unique m') (matches d)
     \<and> d' = d\<lparr>matches := matches d @ [m'], next_id := Suc (next_id d)\<rparr>"
  by (auto simp: insert_match_def Let_def result_elims)

lemma insert_conversation_Inr [result_elims]:
  "insert_conversation c d = Inr (d', c') \<longleftrightarrow> c' = c\<lparr>cv_id := next_id d\<rparr>
     \<and> list_all (conversation_unique c') (conversations d)
     \<and> d' = d\<lparr>conversations := conversations d @ [c'], next_id := Suc (next_id d)\<rparr>"
  by (auto simp: insert_conversation_def Let_def result_elims)

lemma insert_message_Inr [result_elims]:
  "insert_message m d = Inr (d', m') \<longleftrightarrow> m' = m\<lparr>ms_id := next_id d\<rparr>
     \<and> list_all (message_unique m') (messages d)
     \<and> d' = d\<lparr>messages := messages d @ [m'], next_id := Suc (next_id d)\<rparr>"
  by (auto simp: insert_message_def Let_def result_elims)

subsection \<open>The tables as keyed tables\<close>

interpretation request_table: keyed_table "by_key r_id" "upd_key r_id" "\<lambda>r t. t @ [r]" r_id
  by unfold_locales (simp_all add: by_key_upd_key by_key_insert)

interpretation item_table: keyed_table "by_key i_id" "upd_key i_id" "\<lambda>r t. t @ [r]" i_id
  by unfold_locales (simp_all add: by_key_upd_key by_key_insert)

interpretation offer_table: keyed_table "by_key o_id" "upd_key o_id" "\<lambda>r t. t @ [r]" o_id
  by unfold_locales (simp_all add: by_key_upd_key by_key_insert)

interpretation match_table: keyed_table "by_key m_id" "upd_key m_id" "\<lambda>r t. t @ [r]" m_id
  by unfold_locales (simp_all add: by_key_upd_key by_key_insert)

end
