(* ===== verification/Views.thy ===== *)
theory Views
  imports Store
begin

text \<open>
  \<open>server/src/modules/requests/views.ts\<close> and \<open>server/src/modules/offers/views.ts\<close>: how a request row
  and an offer row are shown, and the loads that join them with their category and stock.
\<close>

definition toRequestView :: "request \<Rightarrow> string \<Rightarrow> uid option \<Rightarrow> request_view" where
  "toRequestView row categorySlug activeMatchId =
     \<lparr>rv_id = r_id row, rv_eventId = r_eventId row, rv_categoryId = r_categoryId row,
      rv_categorySlug = categorySlug, rv_qty = r_qty row, rv_qtyFulfilled = r_qtyFulfilled row,
      rv_unit = r_unit row, rv_urgency = r_urgency row, rv_note = r_note row,
      rv_status = r_status row, rv_expiresAt = r_expiresAt row, rv_createdAt = r_createdAt row,
      rv_attemptCount = r_attemptCount row, rv_activeMatchId = activeMatchId\<rparr>"

definition activeMatchIdFor :: "db \<Rightarrow> uid \<Rightarrow> uid option" where
  "activeMatchIdFor d rid =
     map_option m_id (find (\<lambda>m. m_requestId m = rid \<and> m_status m = M_active) (matches d))"

definition loadRequestView :: "db \<Rightarrow> uid \<Rightarrow> request_view option" where
  "loadRequestView d rid =
     (case by_key r_id rid (requests d) of
        None \<Rightarrow> None
      | Some row \<Rightarrow>
          (case by_key c_id (r_categoryId row) (categories d) of
             None \<Rightarrow> None
           | Some c \<Rightarrow> Some (toRequestView row (c_slug c) (activeMatchIdFor d rid))))"

definition slugFor :: "db \<Rightarrow> uid \<Rightarrow> string" where
  "slugFor d cid = (case by_key c_id cid (categories d) of None \<Rightarrow> '''' | Some c \<Rightarrow> c_slug c)"

text \<open>\<open>emitRequestUpdate\<close> is the same function in \<open>requests/service.ts\<close> and \<open>matches/service.ts\<close>.\<close>

definition emitRequestUpdate :: "uid \<Rightarrow> uid \<Rightarrow> db \<Rightarrow> effect list" where
  "emitRequestUpdate rid requester d =
     (case loadRequestView d rid of
        None \<Rightarrow> []
      | Some v \<Rightarrow> [Publish requester Request_update (P_request v)])"

definition toOfferView :: "match_offer \<Rightarrow> request \<Rightarrow> string \<Rightarrow> item \<Rightarrow> offer_view" where
  "toOfferView offer request categorySlug it =
     \<lparr>ov_id = o_id offer, ov_requestId = o_requestId offer, ov_eventId = r_eventId request,
      ov_categorySlug = categorySlug, ov_qtyRequested = o_qty offer,
      ov_qtyYouHave = i_qtyOnHand it - i_qtyReserved it, ov_unit = r_unit request,
      ov_urgency = r_urgency request, ov_proximity = o_proximity offer, ov_note = r_note request,
      ov_respondBy = o_respondBy offer, ov_status = o_status offer\<rparr>"

definition offer_source :: "db \<Rightarrow> match_offer \<Rightarrow> offer_view option" where
  "offer_source d offer =
     (case by_key r_id (o_requestId offer) (requests d) of
        None \<Rightarrow> None
      | Some request \<Rightarrow>
          (case by_key c_id (r_categoryId request) (categories d) of
             None \<Rightarrow> None
           | Some c \<Rightarrow>
               (case by_key i_id (o_inventoryItemId offer) (inventoryItems d) of
                  None \<Rightarrow> None
                | Some it \<Rightarrow> Some (toOfferView offer request (c_slug c) it))))"

definition loadOfferView :: "db \<Rightarrow> uid \<Rightarrow> offer_view option" where
  "loadOfferView d oid =
     (case by_key o_id oid (matchOffers d) of None \<Rightarrow> None | Some offer \<Rightarrow> offer_source d offer)"

lemma loadRequestView_id: "loadRequestView d rid = Some v \<Longrightarrow> rv_id v = rid"
  by (auto simp: loadRequestView_def toRequestView_def dest: by_key_Some_mem split: option.splits)

lemma loadOfferView_id: "loadOfferView d oid = Some v \<Longrightarrow> ov_id v = oid"
  by (auto simp: loadOfferView_def offer_source_def toOfferView_def dest: by_key_Some_mem
      split: option.splits)

end
