(* ===== verification/Transitions.thy ===== *)
theory Transitions
  imports Store
begin

text \<open>
  \<open>server/src/modules/requests/transitions.ts\<close>: the table of permitted request status changes and
  the one function that applies them, with its audit row. The lifecycles of the other rows
  (matches, offers, conversations) have the same shape: an edge relation and terminal states.
\<close>

subsection \<open>Lifecycles\<close>

locale lifecycle =
  fixes edge :: "'s \<Rightarrow> 's \<Rightarrow> bool"
    and terminal :: "'s \<Rightarrow> bool"
  assumes terminal_no_edge: "terminal s \<Longrightarrow> \<not> edge s t"
begin

lemma terminal_stays: "edge\<^sup>*\<^sup>* s t \<Longrightarrow> terminal s \<Longrightarrow> t = s"
  by (induction rule: rtranclp_induct) (auto dest: terminal_no_edge)

lemma never_leaves: "edge\<^sup>*\<^sup>* s t \<Longrightarrow> edge\<^sup>*\<^sup>* t u \<Longrightarrow> terminal t \<Longrightarrow> u = t"
  by (rule terminal_stays)

end

subsection \<open>The request state machine\<close>

fun REQUEST_TRANSITIONS :: "request_status option \<Rightarrow> request_status list" where
  "REQUEST_TRANSITIONS None = [Searching]"
| "REQUEST_TRANSITIONS (Some Searching) = [Offering, Cancelled, Expired, No_match, Moderated]"
| "REQUEST_TRANSITIONS (Some Offering) = [Searching, Matched, Cancelled, Expired, Moderated]"
| "REQUEST_TRANSITIONS (Some Matched) = [Fulfilled, Partially_fulfilled, Searching, Cancelled, Moderated]"
| "REQUEST_TRANSITIONS (Some Fulfilled) = []"
| "REQUEST_TRANSITIONS (Some Partially_fulfilled) = [Searching, Fulfilled, Cancelled, Moderated]"
| "REQUEST_TRANSITIONS (Some Cancelled) = [Searching]"
| "REQUEST_TRANSITIONS (Some Expired) = [Searching]"
| "REQUEST_TRANSITIONS (Some No_match) = [Searching]"
| "REQUEST_TRANSITIONS (Some Disputed) = []"
| "REQUEST_TRANSITIONS (Some Moderated) = []"

definition canTransition :: "request_status option \<Rightarrow> request_status \<Rightarrow> bool" where
  "canTransition from to \<longleftrightarrow> to \<in> set (REQUEST_TRANSITIONS from)"

definition append_transition ::
  "env \<Rightarrow> uid \<Rightarrow> request_status option \<Rightarrow> request_status \<Rightarrow> transition_actor \<Rightarrow> string option \<Rightarrow> db \<Rightarrow> db" where
  "append_transition env rid from to actor reason d =
     d\<lparr>requestTransitions := requestTransitions d @
         [\<lparr>rt_id = next_id d, rt_requestId = rid, rt_fromStatus = from, rt_toStatus = to,
           rt_actor = actor, rt_reason = reason, rt_createdAt = now env\<rparr>],
       next_id := Suc (next_id d)\<rparr>"

definition recordCreationTransition ::
  "env \<Rightarrow> uid \<Rightarrow> transition_actor \<Rightarrow> string option \<Rightarrow> db \<Rightarrow> db" where
  "recordCreationTransition env rid actor reason d =
     append_transition env rid None Searching actor reason d"

definition transitionRequest ::
  "env \<Rightarrow> request \<Rightarrow> request_status \<Rightarrow> transition_actor \<Rightarrow> string \<Rightarrow> (request \<Rightarrow> request) \<Rightarrow> db
    \<Rightarrow> app_error + db \<times> request" where
  "transitionRequest env request to actor reason st d =
     (let from = r_status request in
      if \<not> canTransition (Some from) to then Inl Request_conflict
      else r_bind (update_request (r_id request) (\<lambda>r. st (r\<lparr>r_status := to\<rparr>)) d) (\<lambda>d1.
        r_bind (or_throw Not_found (by_key r_id (r_id request) (requests d1))) (\<lambda>updated.
          Inr (append_transition env (r_id request) (Some from) to actor (Some reason) d1, updated))))"

definition request_edge :: "request_status \<Rightarrow> request_status \<Rightarrow> bool" where
  "request_edge s t \<longleftrightarrow> canTransition (Some s) t"

definition request_terminal :: "request_status \<Rightarrow> bool" where
  "request_terminal s \<longleftrightarrow> s \<in> {Fulfilled, Disputed, Moderated}"

interpretation request_life: lifecycle request_edge request_terminal
  by unfold_locales (auto simp: request_edge_def request_terminal_def canTransition_def)

lemma request_terminal_iff: "request_terminal s \<longleftrightarrow> REQUEST_TRANSITIONS (Some s) = []"
  by (cases s) (simp_all add: request_terminal_def)

lemma disputed_unreachable: "\<not> canTransition from Disputed"
proof (cases "from")
  case (Some s)
  then show ?thesis by (cases s) (simp_all add: canTransition_def)
qed (simp add: canTransition_def)

lemma searching_from_everywhere_else:
  "canTransition (Some s) Searching \<longleftrightarrow> \<not> request_terminal s \<and> s \<noteq> Searching"
  by (cases s) (simp_all add: canTransition_def request_terminal_def)

lemma matched_only_from_offering: "canTransition from Matched \<longleftrightarrow> from = Some Offering"
proof (cases "from")
  case (Some s)
  then show ?thesis by (cases s) (simp_all add: canTransition_def)
qed (simp add: canTransition_def)

lemma offering_only_from_searching: "canTransition from Offering \<longleftrightarrow> from = Some Searching"
proof (cases "from")
  case (Some s)
  then show ?thesis by (cases s) (simp_all add: canTransition_def)
qed (simp add: canTransition_def)

subsection \<open>The effect of a transition\<close>

lemma append_transition_tables [core_simps]:
  "inventoryItems (append_transition env rid f t a re d) = inventoryItems d"
  "requests (append_transition env rid f t a re d) = requests d"
  "matchOffers (append_transition env rid f t a re d) = matchOffers d"
  "matches (append_transition env rid f t a re d) = matches d"
  "reliabilityStats (append_transition env rid f t a re d) = reliabilityStats d"
  "conversations (append_transition env rid f t a re d) = conversations d"
  "messages (append_transition env rid f t a re d) = messages d"
  "memberLocations (append_transition env rid f t a re d) = memberLocations d"
  "availability (append_transition env rid f t a re d) = availability d"
  "users (append_transition env rid f t a re d) = users d"
  "events (append_transition env rid f t a re d) = events d"
  "categories (append_transition env rid f t a re d) = categories d"
  "next_id (append_transition env rid f t a re d) = Suc (next_id d)"
  by (simp_all add: append_transition_def)

text \<open>
  A successful transition is permitted by the table, rewrites exactly the rows with the request's id
  and appends exactly one audit row.
\<close>

lemma transitionRequest_Inr [result_elims]:
  "transitionRequest env request to actor reason st d = Inr (d', updated) \<longleftrightarrow>
     canTransition (Some (r_status request)) to
     \<and> (\<forall>r \<in> set (requests d). r_id r = r_id request \<longrightarrow> request_check (st (r\<lparr>r_status := to\<rparr>)))
     \<and> by_key r_id (r_id request)
         (upd_key r_id (r_id request) (\<lambda>r. st (r\<lparr>r_status := to\<rparr>)) (requests d)) = Some updated
     \<and> d' = append_transition env (r_id request) (Some (r_status request)) to actor (Some reason)
              (d\<lparr>requests := upd_key r_id (r_id request) (\<lambda>r. st (r\<lparr>r_status := to\<rparr>)) (requests d)\<rparr>)"
  by (auto simp: transitionRequest_def Let_def result_elims)

lemma transitionRequest_Inl [result_elims]:
  "transitionRequest env request to actor reason st d = Inl e \<longleftrightarrow>
     (\<not> canTransition (Some (r_status request)) to \<and> e = Request_conflict)
     \<or> (canTransition (Some (r_status request)) to
        \<and> (\<exists>r \<in> set (requests d). r_id r = r_id request \<and> \<not> request_check (st (r\<lparr>r_status := to\<rparr>)))
        \<and> e = Internal ''23514'')
     \<or> (canTransition (Some (r_status request)) to
        \<and> (\<forall>r \<in> set (requests d). r_id r = r_id request \<longrightarrow> request_check (st (r\<lparr>r_status := to\<rparr>)))
        \<and> by_key r_id (r_id request)
            (upd_key r_id (r_id request) (\<lambda>r. st (r\<lparr>r_status := to\<rparr>)) (requests d)) = None
        \<and> e = Not_found)"
  by (auto simp: transitionRequest_def Let_def result_elims update_request_def)

end
