(* ===== verification/Reliability_Stats.thy ===== *)
theory Reliability_Stats
  imports Store
begin

text \<open>
  \<open>server/src/modules/matches/reliability.ts\<close>: the counters of a user are bumped and the displayed
  label recomputed in the caller's transaction. The two invariants are that every stored label is
  the one its counters give, and that nobody has responded to more offers than they received.
\<close>

definition rowToCounters :: "reliability_row option \<Rightarrow> reliability_counters" where
  "rowToCounters row = (case row of
     None \<Rightarrow> new_counters
   | Some r \<Rightarrow> \<lparr>c_accepted = rs_accepted r, c_completed = rs_completed r,
       c_requesterConfirmed = rs_requesterConfirmed r,
       c_cancelledPreMeeting = rs_cancelledPreMeeting r,
       c_cancelledPostMeeting = rs_cancelledPostMeeting r, c_timeouts = rs_timeouts r,
       c_noShows = rs_noShows r, c_disputes = rs_disputes r,
       c_offersReceived30d = rs_offersReceived30d r,
       c_offersResponded30d = rs_offersResponded30d r\<rparr>)"

datatype counter_column = Col_accepted | Col_completed | Col_requesterConfirmed
  | Col_cancelledPreMeeting | Col_cancelledPostMeeting | Col_timeouts | Col_noShows | Col_disputes
  | Col_offersReceived30d | Col_offersResponded30d

fun add_counter :: "counter_column \<times> nat \<Rightarrow> reliability_row \<Rightarrow> reliability_row" where
  "add_counter (Col_accepted, n) r = r\<lparr>rs_accepted := rs_accepted r + n\<rparr>"
| "add_counter (Col_completed, n) r = r\<lparr>rs_completed := rs_completed r + n\<rparr>"
| "add_counter (Col_requesterConfirmed, n) r = r\<lparr>rs_requesterConfirmed := rs_requesterConfirmed r + n\<rparr>"
| "add_counter (Col_cancelledPreMeeting, n) r = r\<lparr>rs_cancelledPreMeeting := rs_cancelledPreMeeting r + n\<rparr>"
| "add_counter (Col_cancelledPostMeeting, n) r = r\<lparr>rs_cancelledPostMeeting := rs_cancelledPostMeeting r + n\<rparr>"
| "add_counter (Col_timeouts, n) r = r\<lparr>rs_timeouts := rs_timeouts r + n\<rparr>"
| "add_counter (Col_noShows, n) r = r\<lparr>rs_noShows := rs_noShows r + n\<rparr>"
| "add_counter (Col_disputes, n) r = r\<lparr>rs_disputes := rs_disputes r + n\<rparr>"
| "add_counter (Col_offersReceived30d, n) r = r\<lparr>rs_offersReceived30d := rs_offersReceived30d r + n\<rparr>"
| "add_counter (Col_offersResponded30d, n) r = r\<lparr>rs_offersResponded30d := rs_offersResponded30d r + n\<rparr>"

definition fresh_stats :: "uid \<Rightarrow> instant \<Rightarrow> reliability_row" where
  "fresh_stats u t = \<lparr>rs_userId = u, rs_accepted = 0, rs_completed = 0, rs_requesterConfirmed = 0,
     rs_cancelledPreMeeting = 0, rs_cancelledPostMeeting = 0, rs_timeouts = 0, rs_noShows = 0,
     rs_disputes = 0, rs_offersReceived30d = 0, rs_offersResponded30d = 0,
     rs_label = New_helper, rs_updatedAt = t\<rparr>"

definition ensure_stats :: "uid \<Rightarrow> instant \<Rightarrow> reliability_row list \<Rightarrow> reliability_row list" where
  "ensure_stats u t rows =
     (if by_key rs_userId u rows = None then rows @ [fresh_stats u t] else rows)"

definition bump_row :: "instant \<Rightarrow> (counter_column \<times> nat) list \<Rightarrow> reliability_row \<Rightarrow> reliability_row" where
  "bump_row t increments r =
     (let counted = (fold add_counter (filter (\<lambda>x. snd x \<noteq> 0) increments) r)\<lparr>rs_updatedAt := t\<rparr>;
          label = reliabilityLabel (rowToCounters (Some counted))
      in if label \<noteq> rs_label counted then counted\<lparr>rs_label := label\<rparr> else counted)"

definition bump :: "env \<Rightarrow> uid \<Rightarrow> (counter_column \<times> nat) list \<Rightarrow> db \<Rightarrow> db" where
  "bump env u increments d = d\<lparr>reliabilityStats :=
     upd_key rs_userId u (bump_row (now env) increments)
       (ensure_stats u (now env) (reliabilityStats d))\<rparr>"

definition applyOfferReceived :: "env \<Rightarrow> uid \<Rightarrow> db \<Rightarrow> db" where
  "applyOfferReceived env helper = bump env helper [(Col_offersReceived30d, 1)]"

definition applyOfferResponded :: "env \<Rightarrow> uid \<Rightarrow> db \<Rightarrow> db" where
  "applyOfferResponded env helper = bump env helper [(Col_offersResponded30d, 1)]"

definition applyAccepted :: "env \<Rightarrow> uid \<Rightarrow> db \<Rightarrow> db" where
  "applyAccepted env helper = bump env helper [(Col_accepted, 1), (Col_offersResponded30d, 1)]"

definition applyCompleted :: "env \<Rightarrow> uid \<Rightarrow> qty \<Rightarrow> bool \<Rightarrow> db \<Rightarrow> db" where
  "applyCompleted env helper finalQty requesterConfirmedPositive = bump env helper
     [(Col_completed, if finalQty > 0 then 1 else 0),
      (Col_requesterConfirmed, if requesterConfirmedPositive then 1 else 0)]"

definition applyHelperCancel :: "env \<Rightarrow> uid \<Rightarrow> bool \<Rightarrow> db \<Rightarrow> db" where
  "applyHelperCancel env helper postMeeting = bump env helper
     (if postMeeting then [(Col_cancelledPostMeeting, 1)] else [(Col_cancelledPreMeeting, 1)])"

definition applyDispute :: "env \<Rightarrow> uid \<Rightarrow> db \<Rightarrow> db" where
  "applyDispute env u = bump env u [(Col_disputes, 1)]"

lemmas apply_defs = applyOfferReceived_def applyOfferResponded_def applyAccepted_def
  applyCompleted_def applyHelperCancel_def applyDispute_def

subsection \<open>Only the counters change\<close>

lemma bump_tables [core_simps]:
  "inventoryItems (bump env u inc d) = inventoryItems d"
  "requests (bump env u inc d) = requests d"
  "matchOffers (bump env u inc d) = matchOffers d"
  "matches (bump env u inc d) = matches d"
  "conversations (bump env u inc d) = conversations d"
  "messages (bump env u inc d) = messages d"
  "memberLocations (bump env u inc d) = memberLocations d"
  "availability (bump env u inc d) = availability d"
  "requestTransitions (bump env u inc d) = requestTransitions d"
  "users (bump env u inc d) = users d"
  "events (bump env u inc d) = events d"
  "categories (bump env u inc d) = categories d"
  "next_id (bump env u inc d) = next_id d"
  by (simp_all add: bump_def)

lemma add_counter_userId [simp]: "rs_userId (add_counter x r) = rs_userId r"
  by (cases "(x, r)" rule: add_counter.cases) auto

lemma fold_add_counter_userId [simp]: "rs_userId (fold add_counter xs r) = rs_userId r"
  by (induction xs arbitrary: r) auto

lemma bump_row_userId [simp]: "rs_userId (bump_row t inc r) = rs_userId r"
  by (simp add: bump_row_def Let_def)

lemma bump_row_label: "rs_label (bump_row t inc r) = reliabilityLabel (rowToCounters (Some (bump_row t inc r)))"
  by (simp add: bump_row_def Let_def rowToCounters_def)

definition stats_of :: "uid \<Rightarrow> db \<Rightarrow> reliability_counters" where
  "stats_of u d = rowToCounters (by_key rs_userId u (reliabilityStats d))"

lemma by_key_bump:
  "by_key rs_userId v (reliabilityStats (bump env u inc d)) =
     (if v = u then Some (bump_row (now env) inc (case by_key rs_userId u (reliabilityStats d) of
                            None \<Rightarrow> fresh_stats u (now env) | Some r \<Rightarrow> r))
      else by_key rs_userId v (reliabilityStats d))"
  by (auto simp: bump_def by_key_upd_key ensure_stats_def by_key_append by_key_Cons fresh_stats_def
      split: option.splits)

lemma stats_of_bump_other: "v \<noteq> u \<Longrightarrow> stats_of v (bump env u inc d) = stats_of v d"
  by (simp add: stats_of_def by_key_bump)

text \<open>What each column change does to the counters of the bumped user.\<close>

fun add_column :: "counter_column \<times> nat \<Rightarrow> reliability_counters \<Rightarrow> reliability_counters" where
  "add_column (Col_accepted, n) c = c\<lparr>c_accepted := c_accepted c + n\<rparr>"
| "add_column (Col_completed, n) c = c\<lparr>c_completed := c_completed c + n\<rparr>"
| "add_column (Col_requesterConfirmed, n) c = c\<lparr>c_requesterConfirmed := c_requesterConfirmed c + n\<rparr>"
| "add_column (Col_cancelledPreMeeting, n) c = c\<lparr>c_cancelledPreMeeting := c_cancelledPreMeeting c + n\<rparr>"
| "add_column (Col_cancelledPostMeeting, n) c = c\<lparr>c_cancelledPostMeeting := c_cancelledPostMeeting c + n\<rparr>"
| "add_column (Col_timeouts, n) c = c\<lparr>c_timeouts := c_timeouts c + n\<rparr>"
| "add_column (Col_noShows, n) c = c\<lparr>c_noShows := c_noShows c + n\<rparr>"
| "add_column (Col_disputes, n) c = c\<lparr>c_disputes := c_disputes c + n\<rparr>"
| "add_column (Col_offersReceived30d, n) c = c\<lparr>c_offersReceived30d := c_offersReceived30d c + n\<rparr>"
| "add_column (Col_offersResponded30d, n) c = c\<lparr>c_offersResponded30d := c_offersResponded30d c + n\<rparr>"

lemma rowToCounters_add: "rowToCounters (Some (add_counter x r)) = add_column x (rowToCounters (Some r))"
  by (cases "(x, r)" rule: add_counter.cases) (auto simp: rowToCounters_def)

lemma rowToCounters_fold:
  "rowToCounters (Some (fold add_counter xs r)) = fold add_column xs (rowToCounters (Some r))"
  by (induction xs arbitrary: r) (auto simp: rowToCounters_add)

lemma rowToCounters_bump_row:
  "rowToCounters (Some (bump_row t inc r)) =
     fold add_column (filter (\<lambda>x. snd x \<noteq> 0) inc) (rowToCounters (Some r))"
proof -
  have "rowToCounters (Some (r'\<lparr>rs_label := l\<rparr>)) = rowToCounters (Some r')"
    and "rowToCounters (Some (r'\<lparr>rs_updatedAt := s\<rparr>)) = rowToCounters (Some r')" for r' l s
    by (simp_all add: rowToCounters_def)
  then show ?thesis by (simp add: bump_row_def Let_def rowToCounters_fold)
qed

lemma rowToCounters_fresh: "rowToCounters (Some (fresh_stats u t)) = rowToCounters None"
  by (simp add: rowToCounters_def fresh_stats_def new_counters_def)

lemma stats_of_bump_same:
  "stats_of u (bump env u inc d) = fold add_column (filter (\<lambda>x. snd x \<noteq> 0) inc) (stats_of u d)"
  by (auto simp: stats_of_def by_key_bump rowToCounters_bump_row rowToCounters_fresh split: option.splits)

subsection \<open>Labels are up to date\<close>

definition labels_ok :: "db \<Rightarrow> bool" where
  "labels_ok d \<longleftrightarrow> (\<forall>r \<in> set (reliabilityStats d). rs_label r = reliabilityLabel (rowToCounters (Some r)))"

lemma labels_ok_bump:
  assumes "labels_ok d"
  shows "labels_ok (bump env u inc d)"
proof -
  have "rs_label (fresh_stats u t) = reliabilityLabel (rowToCounters (Some (fresh_stats u t)))" for t
    by (simp add: rowToCounters_def fresh_stats_def reliabilityLabel_def)
  then have "\<forall>r \<in> set (ensure_stats u (now env) (reliabilityStats d)).
      rs_label r = reliabilityLabel (rowToCounters (Some r))"
    using assms by (auto simp: ensure_stats_def labels_ok_def)
  then show ?thesis
    by (auto simp: labels_ok_def bump_def upd_key_def bump_row_label dest!: upd_where_mem split: if_splits)
qed

end
