(* ===== verification/Redact.thy ===== *)
theory Redact
  imports Shared_Constants
begin

text \<open>
  \<open>server/src/lib/redact.ts\<close>: \<open>text.replace(/\d(?:[\s-]*\d){7,}/g, REDACTED)\<close> over the UTF-16 code
  units of the text. The two character classes are disjoint, so the greedy match at a position is
  unique: \<open>digit_groups\<close> takes as many \<open>[\s-]*\d\<close> groups as there are and returns what follows
  the last digit it took; with fewer than seven of them the scan moves on by one unit.
\<close>

definition REDACTED :: utext where
  "REDACTED = [8249, 8230, 8250]"

definition is_digit :: "nat \<Rightarrow> bool" where
  "is_digit c \<longleftrightarrow> 48 \<le> c \<and> c \<le> 57"

definition is_space :: "nat \<Rightarrow> bool" where
  "is_space c \<longleftrightarrow> (9 \<le> c \<and> c \<le> 13) \<or> c = 32 \<or> c = 160 \<or> c = 5760 \<or> (8192 \<le> c \<and> c \<le> 8202)
     \<or> c = 8232 \<or> c = 8233 \<or> c = 8239 \<or> c = 8287 \<or> c = 12288 \<or> c = 65279"

definition is_sep :: "nat \<Rightarrow> bool" where
  "is_sep c \<longleftrightarrow> is_space c \<or> c = 45"

function digit_groups :: "utext \<Rightarrow> nat \<times> utext" where
  "digit_groups s =
     (case dropWhile is_sep s of
        [] \<Rightarrow> (0, s)
      | c # r \<Rightarrow> if is_digit c then (let (n, r') = digit_groups r in (Suc n, r')) else (0, s))"
  by pat_completeness auto
termination
proof (relation "measure length")
  fix s c and r :: utext
  assume "dropWhile is_sep s = c # r"
  then have "length (c # r) \<le> length s" by (metis length_dropWhile_le)
  then show "(r, s) \<in> measure length" by simp
qed simp

declare digit_groups.simps [simp del]

lemma digit_groups_shorter: "length (snd (digit_groups s)) \<le> length s"
proof (induction s rule: digit_groups.induct)
  case (1 s)
  show ?case
  proof (cases "dropWhile is_sep s")
    case Nil
    then have "digit_groups s = (0, s)" by (subst digit_groups.simps) (simp only: list.case)
    then show ?thesis by simp
  next
    case (Cons c r)
    then have "length (c # r) \<le> length s" by (metis length_dropWhile_le)
    with Cons 1 show ?thesis
      by (cases "is_digit c") (auto simp: digit_groups.simps[of s] split: prod.splits)
  qed
qed

function redactContactDetails :: "utext \<Rightarrow> utext" where
  "redactContactDetails [] = []"
| "redactContactDetails (c # s) =
     (if is_digit c \<and> fst (digit_groups s) \<ge> 7
      then REDACTED @ redactContactDetails (snd (digit_groups s))
      else c # redactContactDetails s)"
  by pat_completeness auto
termination
  by (relation "measure length") (auto simp: le_imp_less_Suc[OF digit_groups_shorter])

subsection \<open>What is left has no long digit run\<close>

text \<open>
  The specification: a text holds a contact number when some stretch of it is made of digits and
  separators only and has eight digits or more. \<open>lead\<close> counts the digits of the block a text
  starts with.
\<close>

definition long_run :: "utext \<Rightarrow> bool" where
  "long_run m \<longleftrightarrow> (\<forall>c \<in> set m. is_digit c \<or> is_sep c) \<and> 8 \<le> length (filter is_digit m)"

definition has_contact_number :: "utext \<Rightarrow> bool" where
  "has_contact_number t \<longleftrightarrow> (\<exists>p m q. t = p @ m @ q \<and> long_run m)"

fun lead :: "utext \<Rightarrow> nat" where
  "lead [] = 0"
| "lead (c # t) = (if is_digit c then Suc (lead t) else if is_sep c then lead t else 0)"

fun clean :: "utext \<Rightarrow> bool" where
  "clean [] = True"
| "clean (c # t) = (lead (c # t) < 8 \<and> clean t)"

lemma not_digit_and_sep: "is_sep c \<Longrightarrow> \<not> is_digit c"
  by (auto simp: is_digit_def is_sep_def is_space_def)

lemma lead_dropWhile_sep: "lead (dropWhile is_sep s) = lead s"
  by (induction s) (auto dest: not_digit_and_sep)

lemma fst_digit_groups: "fst (digit_groups s) = lead s"
proof (induction s rule: digit_groups.induct)
  case (1 s)
  show ?case
  proof (cases "dropWhile is_sep s")
    case Nil
    then have "digit_groups s = (0, s)" by (subst digit_groups.simps) (simp only: list.case)
    with Nil lead_dropWhile_sep[of s] show ?thesis by (simp del: dropWhile_eq_Nil_conv)
  next
    case (Cons c r)
    then have "\<not> is_sep c" using hd_dropWhile[of is_sep s] by auto
    with Cons 1 lead_dropWhile_sep[of s] show ?thesis
      by (cases "is_digit c") (auto simp: digit_groups.simps[of s] split: prod.splits)
  qed
qed

lemma lead_REDACTED [simp]: "lead (REDACTED @ t) = 0"
  by (simp add: REDACTED_def is_digit_def is_sep_def is_space_def)

lemma clean_REDACTED [simp]: "clean (REDACTED @ t) = clean t"
  by (simp add: REDACTED_def is_digit_def is_sep_def is_space_def)

lemma lead_redact: "lead (redactContactDetails s) \<le> lead s"
  by (induction s rule: redactContactDetails.induct) auto

lemma clean_lead: "clean t \<Longrightarrow> lead t < 8"
  by (cases t) auto

lemma clean_redact: "clean (redactContactDetails s)"
proof (induction s rule: redactContactDetails.induct)
  case (2 c s)
  show ?case
  proof (cases "is_digit c \<and> fst (digit_groups s) \<ge> 7")
    case True
    then show ?thesis using 2(1) by simp
  next
    case False
    then have "lead (c # redactContactDetails s) < 8"
      using lead_redact[of s] clean_lead[OF 2(2)[OF False]] by (auto simp: fst_digit_groups)
    with False 2(2) show ?thesis by auto
  qed
qed simp

lemma redact_clean: "clean t \<Longrightarrow> redactContactDetails t = t"
  by (induction t) (auto simp: fst_digit_groups)

lemma lead_block: "\<forall>c \<in> set m. is_digit c \<or> is_sep c \<Longrightarrow> length (filter is_digit m) \<le> lead (m @ q)"
  by (induction m) (auto dest: not_digit_and_sep)

lemma clean_append: "clean (p @ t) \<Longrightarrow> clean t"
  by (induction p) auto

lemma clean_no_contact: "clean t \<Longrightarrow> \<not> has_contact_number t"
proof
  assume t: "clean t" and "has_contact_number t"
  then obtain p m q where s: "t = p @ m @ q" and m: "long_run m"
    by (auto simp: has_contact_number_def)
  from s t have "lead (m @ q) < 8" by (simp add: clean_append clean_lead)
  with m lead_block[of m q] show False by (auto simp: long_run_def)
qed

lemma lead_takeWhile:
  "lead t = length (filter is_digit (takeWhile (\<lambda>c. is_digit c \<or> is_sep c) t))"
  by (induction t) (auto dest: not_digit_and_sep)

lemma lead_contact: "8 \<le> lead t \<Longrightarrow> has_contact_number t"
  unfolding has_contact_number_def long_run_def
  by (rule exI[of _ "[]"], rule exI[of _ "takeWhile (\<lambda>c. is_digit c \<or> is_sep c) t"],
      rule exI[of _ "dropWhile (\<lambda>c. is_digit c \<or> is_sep c) t"])
    (auto simp: lead_takeWhile dest: set_takeWhileD)

lemma has_contact_Cons: "has_contact_number t \<Longrightarrow> has_contact_number (c # t)"
  unfolding has_contact_number_def by (metis append_Cons)

lemma clean_iff: "clean t \<longleftrightarrow> \<not> has_contact_number t"
proof
  show "clean t \<Longrightarrow> \<not> has_contact_number t" by (rule clean_no_contact)
  show "\<not> has_contact_number t \<Longrightarrow> clean t"
  proof (induction t)
    case (Cons c t)
    then have "clean t" and "lead (c # t) < 8"
      using has_contact_Cons lead_contact[of "c # t"] by (blast, metis not_le)
    then show ?case by (simp only: clean.simps)
  qed simp
qed

lemma redact_no_contact_number: "\<not> has_contact_number (redactContactDetails t)"
  using clean_redact clean_iff by blast

lemma redact_unchanged: "\<not> has_contact_number t \<Longrightarrow> redactContactDetails t = t"
  by (simp add: redact_clean clean_iff)

lemma redact_idem [simp]: "redactContactDetails (redactContactDetails t) = redactContactDetails t"
  by (simp add: redact_clean clean_redact)

end
