(* ===== verification/Pseudonyms.thy ===== *)
theory Pseudonyms
  imports Shared_Constants "HOL-Library.Word"
begin

text \<open>
  \<open>packages/shared/src/pseudonyms.ts\<close>: the word lists, the pseudonym of two indexes and the avatar
  of a seed. The hash keeps its 32-bit wrap-around (\<open>>>> 0\<close> after each step; the intermediate
  product is below 2^53, so the double is exact). \<open>toUpperCase\<close> is the parameter \<open>upper\<close>.
\<close>

definition PSEUDONYM_ADJECTIVES :: "string list" where
  "PSEUDONYM_ADJECTIVES =
    [''Blue'', ''Green'', ''Silver'', ''Quiet'', ''Amber'', ''Coral'', ''Golden'', ''Misty'',
     ''Violet'', ''Crimson'', ''Gentle'', ''Bright'', ''Calm'', ''Swift'', ''Mellow'', ''Sunny'',
     ''Teal'', ''Ivory'', ''Copper'', ''Dusty'', ''Emerald'', ''Hazel'', ''Indigo'', ''Jade'',
     ''Lively'', ''Maroon'', ''Noble'', ''Olive'', ''Pearl'', ''Rosy'', ''Sandy'', ''Tranquil'']"

definition PSEUDONYM_NOUNS :: "string list" where
  "PSEUDONYM_NOUNS =
    [''Sparrow'', ''Mango'', ''River'', ''Lantern'', ''Cedar'', ''Lotus'', ''Falcon'', ''Meadow'',
     ''Pebble'', ''Cloud'', ''Harbor'', ''Willow'', ''Comet'', ''Fern'', ''Heron'', ''Island'',
     ''Jasmine'', ''Kite'', ''Lake'', ''Maple'', ''Nutmeg'', ''Orchid'', ''Pine'', ''Quill'',
     ''Reed'', ''Saffron'', ''Tamarind'', ''Umbrella'', ''Valley'', ''Wren'', ''Yak'', ''Zephyr'']"

definition pseudonymFromIndexes :: "int \<Rightarrow> int \<Rightarrow> string" where
  "pseudonymFromIndexes adjIdx nounIdx =
     (let adj = PSEUDONYM_ADJECTIVES ! (nat \<bar>adjIdx\<bar> mod length PSEUDONYM_ADJECTIVES);
          noun = PSEUDONYM_NOUNS ! (nat \<bar>nounIdx\<bar> mod length PSEUDONYM_NOUNS)
      in adj @ '' '' @ noun)"

definition AVATAR_PALETTE :: "string list" where
  "AVATAR_PALETTE = [''#4A6FA5'', ''#5E8C61'', ''#8C6A5E'', ''#6B5E8C'', ''#A5804A'', ''#4A9DA5'',
     ''#A54A6F'', ''#7A8C5E'', ''#5E7A8C'', ''#8C5E7A'']"

definition seed_hash :: "utext \<Rightarrow> 32 word" where
  "seed_hash seed = foldl (\<lambda>h c. h * 31 + of_nat c) 0 seed"

fun split_on :: "nat \<Rightarrow> utext \<Rightarrow> utext list" where
  "split_on x [] = [[]]"
| "split_on x (c # s) =
     (if c = x then [] # split_on x s
      else (case split_on x s of [] \<Rightarrow> [[c]] | w # ws \<Rightarrow> (c # w) # ws))"

definition avatarFromSeed :: "(utext \<Rightarrow> utext) \<Rightarrow> utext \<Rightarrow> string \<times> utext" where
  "avatarFromSeed upper seed =
     (let color = AVATAR_PALETTE ! (unat (seed_hash seed) mod length AVATAR_PALETTE);
          initials = upper (take 2 (concat (map (take 1) (split_on 32 seed))))
      in (color, initials))"

lemma length_adjectives [simp]: "length PSEUDONYM_ADJECTIVES = 32"
  by (simp add: PSEUDONYM_ADJECTIVES_def)

lemma length_nouns [simp]: "length PSEUDONYM_NOUNS = 32"
  by (simp add: PSEUDONYM_NOUNS_def)

lemma no_space_in_words:
  "w \<in> set PSEUDONYM_ADJECTIVES \<union> set PSEUDONYM_NOUNS \<Longrightarrow> CHR '' '' \<notin> set w"
  by (auto simp: PSEUDONYM_ADJECTIVES_def PSEUDONYM_NOUNS_def)

lemma distinct_adjectives: "distinct PSEUDONYM_ADJECTIVES"
  by (simp add: PSEUDONYM_ADJECTIVES_def)

lemma distinct_nouns: "distinct PSEUDONYM_NOUNS"
  by (simp add: PSEUDONYM_NOUNS_def)

lemma append_sep_inj:
  "x \<notin> set a \<Longrightarrow> x \<notin> set b \<Longrightarrow> a @ x # c = b @ x # d \<Longrightarrow> a = b \<and> c = d"
proof (induction a arbitrary: b)
  case Nil
  then show ?case by (cases b) auto
next
  case (Cons y a)
  then show ?case by (cases b) auto
qed

lemma pseudonymFromIndexes_inj:
  assumes "0 \<le> a" "a < 32" "0 \<le> n" "n < 32" "0 \<le> a'" "a' < 32" "0 \<le> n'" "n' < 32"
    and eq: "pseudonymFromIndexes a n = pseudonymFromIndexes a' n'"
  shows "a = a' \<and> n = n'"
proof -
  have small: "nat a < 32" "nat a' < 32" "nat n < 32" "nat n' < 32" using assms by auto
  have mem: "PSEUDONYM_ADJECTIVES ! nat a \<in> set PSEUDONYM_ADJECTIVES"
    "PSEUDONYM_ADJECTIVES ! nat a' \<in> set PSEUDONYM_ADJECTIVES"
    using small by (auto intro: nth_mem)
  have "PSEUDONYM_ADJECTIVES ! nat a @ CHR '' '' # PSEUDONYM_NOUNS ! nat n
      = PSEUDONYM_ADJECTIVES ! nat a' @ CHR '' '' # PSEUDONYM_NOUNS ! nat n'"
    using eq small assms by (simp add: pseudonymFromIndexes_def Let_def)
  then have "PSEUDONYM_ADJECTIVES ! nat a = PSEUDONYM_ADJECTIVES ! nat a'
      \<and> PSEUDONYM_NOUNS ! nat n = PSEUDONYM_NOUNS ! nat n'"
    using mem no_space_in_words by (intro append_sep_inj[where x = "CHR '' ''"]) auto
  then have "nat a = nat a' \<and> nat n = nat n'"
    using small distinct_adjectives distinct_nouns by (auto simp: nth_eq_iff_index_eq)
  with assms show ?thesis by auto
qed

end
