(* ===== verification/Matches.thy ===== *)
theory Matches
  imports Calendar Views Transitions Reliability_Stats Redact Pseudonyms
begin

text \<open>
  \<open>server/src/modules/matches/service.ts\<close>: match aliases, the participant views, meeting states, and
  the two ways a match ends, settlement and cancellation, which are the only writers that release
  or deduct a reservation.
\<close>

definition CONVERSATION_GRACE_MS :: int where
  "CONVERSATION_GRACE_MS = conversationGraceMinutes * 60000"

definition FINALIZE_AFTER_FIRST_CONFIRMATION_MS :: int where
  "FINALIZE_AFTER_FIRST_CONFIRMATION_MS = 60 * 60000"

subsection \<open>Member since\<close>

definition MONTHS_EN :: "string list" where
  "MONTHS_EN = [''January'', ''February'', ''March'', ''April'', ''May'', ''June'', ''July'',
     ''August'', ''September'', ''October'', ''November'', ''December'']"

definition memberSinceLabel :: "instant \<Rightarrow> string" where
  "memberSinceLabel createdAt =
     (let (y, m, _) = utc_date createdAt in MONTHS_EN ! nat m @ '' '' @ decimal_int y)"

subsection \<open>Aliases\<close>

text \<open>
  The two indexes of each \<open>gen()\<close> come from the random source; a run is given the list of pairs it
  draws. \<open>None\<close> means that the loop is still drawing when the list ends.
\<close>

fun gen_until :: "(string \<Rightarrow> bool) \<Rightarrow> (int \<times> int) list \<Rightarrow> (string \<times> (int \<times> int) list) option" where
  "gen_until ok [] = None"
| "gen_until ok ((a, n) # draws) =
     (let alias = pseudonymFromIndexes a n in
      if ok alias then Some (alias, draws) else gen_until ok draws)"

definition generateMatchAliases :: "string list \<Rightarrow> (int \<times> int) list \<Rightarrow> (string \<times> string) option" where
  "generateMatchAliases exclude draws =
     (case gen_until (\<lambda>a. a \<notin> set exclude) draws of
        None \<Rightarrow> None
      | Some (requesterAlias, rest) \<Rightarrow>
          (case gen_until (\<lambda>a. \<not> (a = requesterAlias \<or> a \<in> set exclude)) rest of
             None \<Rightarrow> None
           | Some (helperAlias, _) \<Rightarrow> Some (requesterAlias, helperAlias)))"

subsection \<open>Views\<close>

record match_bundle =
  bd_match :: match_row
  bd_request :: request
  bd_categorySlug :: string
  bd_conversationId :: uid
  bd_requester :: user
  bd_helper :: user
  bd_requesterStats :: "reliability_row option"
  bd_helperStats :: "reliability_row option"

definition loadMatchBundle :: "db \<Rightarrow> uid \<Rightarrow> match_bundle option" where
  "loadMatchBundle d mid =
     (case by_key m_id mid (matches d) of None \<Rightarrow> None | Some m \<Rightarrow>
     (case by_key r_id (m_requestId m) (requests d) of None \<Rightarrow> None | Some r \<Rightarrow>
     (case by_key c_id (r_categoryId r) (categories d) of None \<Rightarrow> None | Some c \<Rightarrow>
     (case by_key cv_matchId mid (conversations d) of None \<Rightarrow> None | Some cv \<Rightarrow>
     (case by_key u_id (m_requesterId m) (users d) of None \<Rightarrow> None | Some ru \<Rightarrow>
     (case by_key u_id (m_helperId m) (users d) of None \<Rightarrow> None | Some hu \<Rightarrow>
        Some \<lparr>bd_match = m, bd_request = r, bd_categorySlug = c_slug c, bd_conversationId = cv_id cv,
              bd_requester = ru, bd_helper = hu,
              bd_requesterStats = by_key rs_userId (u_id ru) (reliabilityStats d),
              bd_helperStats = by_key rs_userId (u_id hu) (reliabilityStats d)\<rparr>))))))"

definition toMatchView :: "match_bundle \<Rightarrow> uid \<Rightarrow> match_view" where
  "toMatchView b viewer =
     (let m = bd_match b;
          isRequester = (m_requesterId m = viewer);
          peerUser = (if isRequester then bd_helper b else bd_requester b);
          peerStats = (if isRequester then bd_helperStats b else bd_requesterStats b);
          peerAlias = (if isRequester then m_helperAlias m else m_requesterAlias m);
          counters = rowToCounters peerStats;
          myConfirmed = (if isRequester then m_requesterConfirmedQty m else m_helperConfirmedQty m);
          peerConfirmed = (if isRequester then m_helperConfirmedQty m else m_requesterConfirmedQty m)
      in \<lparr>mv_id = m_id m, mv_requestId = m_requestId m, mv_eventId = m_eventId m,
          mv_role = (if isRequester then Requester_role else Helper_role),
          mv_categorySlug = bd_categorySlug b, mv_qtyReserved = m_qtyReserved m,
          mv_unit = r_unit (bd_request b), mv_status = m_status m,
          mv_myMeetingState =
            (if isRequester then m_requesterMeetingState m else m_helperMeetingState m),
          mv_peerMeetingState =
            (if isRequester then m_helperMeetingState m else m_requesterMeetingState m),
          mv_peer = \<lparr>pp_alias = peerAlias, pp_avatarSeed = peerAlias,
            pp_reliabilityLabel = reliabilityLabel counters,
            pp_completedAssists = c_completed counters,
            pp_memberSince = memberSinceLabel (u_createdAt peerUser),
            pp_emailVerifiedLabel = (u_emailVerifiedAt peerUser \<noteq> None)\<rparr>,
          mv_myAlias = (if isRequester then m_requesterAlias m else m_helperAlias m),
          mv_conversationId = bd_conversationId b, mv_proximity = m_proximity m,
          mv_createdAt = m_createdAt m, mv_myConfirmedQty = myConfirmed,
          mv_peerConfirmed = (peerConfirmed \<noteq> None)\<rparr>)"

definition getMatchView :: "db \<Rightarrow> uid \<Rightarrow> uid \<Rightarrow> app_error + match_view" where
  "getMatchView d mid viewer =
     r_bind (or_throw Not_found (loadMatchBundle d mid)) (\<lambda>b.
       if m_requesterId (bd_match b) \<noteq> viewer \<and> m_helperId (bd_match b) \<noteq> viewer
       then Inl Not_found
       else Inr (toMatchView b viewer))"

text \<open>\<open>ORDER BY created_at DESC\<close>; rows with equal keys keep the table's order.\<close>

definition listActiveMatches :: "db \<Rightarrow> uid \<Rightarrow> match_view list" where
  "listActiveMatches d viewer =
     List.map_filter (\<lambda>m. map_option (\<lambda>b. toMatchView b viewer) (loadMatchBundle d (m_id m)))
       (sort_key (\<lambda>m. - m_createdAt m)
          (filter (\<lambda>m. m_status m = M_active \<and> (m_requesterId m = viewer \<or> m_helperId m = viewer))
             (matches d)))"

definition emitMatchUpdate :: "uid \<Rightarrow> db \<Rightarrow> effect list" where
  "emitMatchUpdate mid d =
     (case loadMatchBundle d mid of
        None \<Rightarrow> []
      | Some b \<Rightarrow>
          [Publish (m_requesterId (bd_match b)) Match_update
             (P_match (toMatchView b (m_requesterId (bd_match b)))),
           Publish (m_helperId (bd_match b)) Match_update
             (P_match (toMatchView b (m_helperId (bd_match b))))])"

definition insertSystemMessage :: "env \<Rightarrow> uid \<Rightarrow> uid \<Rightarrow> string \<Rightarrow> db \<Rightarrow> app_error + db" where
  "insertSystemMessage env conversationId senderId bodyKey d =
     r_bind (insert_message \<lparr>ms_id = 0, ms_conversationId = conversationId, ms_senderId = senderId,
         ms_kind = System_message, ms_body = lit bodyKey, ms_clientMsgId = None,
         ms_createdAt = now env, ms_deliveredAt = None, ms_readAt = None\<rparr> d)
       (\<lambda>(d', _). Inr d')"

subsection \<open>Meeting state\<close>

definition setMeetingState :: "env \<Rightarrow> uid \<Rightarrow> uid \<Rightarrow> meeting_state \<Rightarrow> db \<Rightarrow> match_view outcome" where
  "setMeetingState env mid viewer st d =
     commit d
       (r_bind (or_throw Not_found (by_key m_id mid (matches d))) (\<lambda>m.
          let isRequester = (m_requesterId m = viewer);
              isHelper = (m_helperId m = viewer)
          in if \<not> isRequester \<and> \<not> isHelper then Inl Not_found
             else if m_status m \<noteq> M_active then Inl Request_conflict
             else Inr (update_match mid
               (\<lambda>m. if isRequester then m\<lparr>m_requesterMeetingState := st\<rparr>
                     else m\<lparr>m_helperMeetingState := st\<rparr>) d)))
       (\<lambda>d'. (d', emitMatchUpdate mid d', getMatchView d' mid viewer))"

end
