(* ===== verification/Settlement.thy ===== *)
theory Settlement
  imports Matches
begin

text \<open>
  \<open>server/src/modules/matches/service.ts\<close>, the locked part: \<open>lockMatchRows\<close>, \<open>settleLocked\<close>,
  \<open>confirmCompletion\<close>, \<open>autoFinalizeMatch\<close> and the cancellations. Row locks are not modelled:
  handlers run one after the other, and a run reads the committed state.
\<close>

record match_locks =
  lk_match :: match_row
  lk_request :: request
  lk_item :: item
  lk_fractional :: bool
  lk_conversationId :: uid

definition lockMatchRows :: "db \<Rightarrow> uid \<Rightarrow> match_locks option" where
  "lockMatchRows d mid =
     (case by_key m_id mid (matches d) of None \<Rightarrow> None | Some m \<Rightarrow>
     (case by_key r_id (m_requestId m) (requests d) of None \<Rightarrow> None | Some r \<Rightarrow>
     (case by_key i_id (m_inventoryItemId m) (inventoryItems d) of None \<Rightarrow> None | Some i \<Rightarrow>
     (case by_key c_id (r_categoryId r) (categories d) of None \<Rightarrow> None | Some c \<Rightarrow>
     (case by_key cv_matchId mid (conversations d) of None \<Rightarrow> None | Some cv \<Rightarrow>
        Some \<lparr>lk_match = m, lk_request = r, lk_item = i, lk_fractional = c_fractional c,
              lk_conversationId = cv_id cv\<rparr>)))))"

subsection \<open>Settlement\<close>

record settle_options =
  so_finalQty :: qty
  so_disputed :: bool
  so_closeReason :: string
  so_actor :: transition_actor
  so_senderUserId :: uid
  so_requesterConfirmedPositive :: bool

definition settleLocked :: "env \<Rightarrow> match_locks \<Rightarrow> settle_options \<Rightarrow> db \<Rightarrow> app_error + db \<times> after_commit list" where
  "settleLocked env locks opts d =
     (let match = lk_match locks; request = lk_request locks; it = lk_item locks;
          finalQty = so_finalQty opts;
          newFulfilled = r_qtyFulfilled request + finalQty;
          covered = (newFulfilled \<ge> r_qty request);
          matchStatus = (if so_disputed opts then M_disputed
                         else if covered then M_completed else M_partially_completed) in
      r_bind
        (if \<not> m_inventoryApplied match
         then update_item (i_id it)
                (\<lambda>i. i\<lparr>i_qtyOnHand := i_qtyOnHand it - finalQty,
                       i_qtyReserved := i_qtyReserved it - m_qtyReserved match,
                       i_updatedAt := now env\<rparr>) d
         else Inr d) (\<lambda>d1.
      let d2 = update_match (m_id match)
                 (\<lambda>m. m\<lparr>m_status := matchStatus, m_closedAt := Some (now env),
                        m_closeReason := Some (lit (so_closeReason opts)),
                        m_inventoryApplied := True, m_reliabilityApplied := True\<rparr>) d1 in
      r_bind
        (if covered then
           transitionRequest env request Fulfilled (so_actor opts) (so_closeReason opts)
             (\<lambda>r. r\<lparr>r_qtyFulfilled := newFulfilled, r_closedAt := Some (now env)\<rparr>) d2
         else if newFulfilled > 0 then
           transitionRequest env request Partially_fulfilled (so_actor opts) (so_closeReason opts)
             (\<lambda>r. r\<lparr>r_qtyFulfilled := newFulfilled\<rparr>) d2
         else
           transitionRequest env request Searching (so_actor opts) (so_closeReason opts)
             (\<lambda>r. r\<lparr>r_qtyFulfilled := newFulfilled\<rparr>) d2) (\<lambda>(d3, _).
      let d4 = update_conversation (lk_conversationId locks)
                 (\<lambda>c. c\<lparr>cv_expiresAt := Some (now env + CONVERSATION_GRACE_MS)\<rparr>) d3;
          d5 = (if \<not> m_reliabilityApplied match
                then let d' = applyCompleted env (m_helperId match) finalQty
                                (so_requesterConfirmedPositive opts) d4
                     in if so_disputed opts
                        then applyDispute env (m_requesterId match)
                               (applyDispute env (m_helperId match) d')
                        else d'
                else d4) in
      r_bind (insertSystemMessage env (lk_conversationId locks) (so_senderUserId opts)
                (if so_disputed opts then ''match.disputeNote'' else ''match.completed'') d5) (\<lambda>d6.
      Inr (d6,
        (if \<not> covered \<and> \<not> newFulfilled > 0 then [\<lambda>_. [Match_job (r_id request) 0]] else [])
        @ [\<lambda>d'. emitMatchUpdate (m_id match) d'
              @ emitRequestUpdate (r_id request) (m_requesterId match) d'])))))"

subsection \<open>Confirmation\<close>

definition confirm_tx :: "env \<Rightarrow> uid \<Rightarrow> uid \<Rightarrow> qty \<Rightarrow> db \<Rightarrow> app_error + db \<times> after_commit list \<times> bool" where
  "confirm_tx env mid viewer qty d =
     r_bind (or_throw Not_found (lockMatchRows d mid)) (\<lambda>locks.
       let match = lk_match locks;
           isRequester = (m_requesterId match = viewer);
           isHelper = (m_helperId match = viewer);
           mine = (if isRequester then m_requesterConfirmedQty match else m_helperConfirmedQty match);
           otherRaw = (if isRequester then m_helperConfirmedQty match else m_requesterConfirmedQty match);
           set_mine = (\<lambda>m. if isRequester then m\<lparr>m_requesterConfirmedQty := Some qty\<rparr>
                           else m\<lparr>m_helperConfirmedQty := Some qty\<rparr>)
       in if \<not> isRequester \<and> \<not> isHelper then Inl Not_found
          else if mine \<noteq> None \<or> m_status match \<noteq> M_active
          then if mine = Some qty then Inr (d, [], False) else Inl Request_conflict
          else if qty > m_qtyReserved match then Inl (Validation ''qty'')
          else if \<not> lk_fractional locks \<and> \<not> is_integer qty then Inl (Validation ''qty'')
          else
            let d1 = update_match mid set_mine d in
            case otherRaw of
              None \<Rightarrow> Inr (d1, [], True)
            | Some other \<Rightarrow>
                let requesterQty = (if isRequester then qty else other);
                    helperQty = (if isHelper then qty else other) in
                r_bind (settleLocked env (locks\<lparr>lk_match := set_mine match\<rparr>)
                    \<lparr>so_finalQty = min requesterQty helperQty,
                     so_disputed = (requesterQty \<noteq> helperQty),
                     so_closeReason =
                       (if requesterQty \<noteq> helperQty then ''disputed_quantities'' else ''confirmed''),
                     so_actor = (if isRequester then Requester_actor else Helper_actor),
                     so_senderUserId = viewer,
                     so_requesterConfirmedPositive = (requesterQty > 0)\<rparr> d1)
                  (\<lambda>(d2, after). Inr (d2, after, False)))"

definition confirmCompletion :: "env \<Rightarrow> uid \<Rightarrow> uid \<Rightarrow> qty \<Rightarrow> db \<Rightarrow> match_view outcome" where
  "confirmCompletion env mid viewer qty d =
     commit d (confirm_tx env mid viewer qty d) (\<lambda>(d', after, scheduleFinalize).
       (d',
        (if scheduleFinalize
         then Finalize_job mid FINALIZE_AFTER_FIRST_CONFIRMATION_MS # emitMatchUpdate mid d' else [])
        @ run_after after d',
        getMatchView d' mid viewer))"

definition finalize_tx :: "env \<Rightarrow> uid \<Rightarrow> db \<Rightarrow> app_error + db \<times> after_commit list" where
  "finalize_tx env mid d =
     (case lockMatchRows d mid of
        None \<Rightarrow> Inr (d, [])
      | Some locks \<Rightarrow>
          let match = lk_match locks;
              reqQty = m_requesterConfirmedQty match;
              helpQty = m_helperConfirmedQty match;
              confirmations = List.map_filter id [reqQty, helpQty] in
          if m_status match \<noteq> M_active \<or> m_inventoryApplied match \<or> length confirmations \<noteq> 1
          then Inr (d, [])
          else settleLocked env locks
                 \<lparr>so_finalQty = hd confirmations,
                  so_disputed = False,
                  so_closeReason = ''auto_finalized_unconfirmed_peer'',
                  so_actor = System_actor,
                  so_senderUserId = (if reqQty \<noteq> None then m_requesterId match else m_helperId match),
                  so_requesterConfirmedPositive = (case reqQty of None \<Rightarrow> False | Some q \<Rightarrow> q > 0)\<rparr> d)"

definition autoFinalizeMatch :: "env \<Rightarrow> uid \<Rightarrow> db \<Rightarrow> unit outcome" where
  "autoFinalizeMatch env mid d =
     commit d (finalize_tx env mid d) (\<lambda>(d', after). (d', run_after after d', Inr ()))"

subsection \<open>Cancellation\<close>

record cancel_options =
  co_actor :: transition_actor   \<comment> \<open>requester, helper or moderator\<close>
  co_cancellerUserId :: "uid option"
  co_reason :: string
  co_unsafe :: bool
  co_note :: "utext option"

definition notify_cancel_helper :: "match_row \<Rightarrow> notify_job" where
  "notify_cancel_helper m = \<lparr>nj_userId = m_helperId m, nj_type = N_match_cancelled,
     nj_titleKey = ''match.cancelled'', nj_bodyKey = ''notifications.matchCancelledHelperBody'',
     nj_params = [], nj_deepLink = Some (Match_link (m_id m)),
     nj_dedupeKey = Some (Match_cancel_helper_key (m_id m))\<rparr>"

definition notify_cancel_requester :: "match_row \<Rightarrow> request \<Rightarrow> notify_job" where
  "notify_cancel_requester m r = \<lparr>nj_userId = m_requesterId m, nj_type = N_match_cancelled,
     nj_titleKey = ''match.cancelled'', nj_bodyKey = ''notifications.matchCancelledBody'',
     nj_params = [], nj_deepLink = Some (Request_link (r_id r)),
     nj_dedupeKey = Some (Match_cancel_key (m_id m))\<rparr>"

definition cancelMatchLocked :: "env \<Rightarrow> match_locks \<Rightarrow> cancel_options \<Rightarrow> db \<Rightarrow> app_error + db \<times> after_commit list" where
  "cancelMatchLocked env locks opts d =
     (let match = lk_match locks; request = lk_request locks; it = lk_item locks;
          moderator = (co_actor opts = Moderator_actor);
          at_meeting = [Arrived, Exchanging];
          postMeeting = (m_requesterMeetingState match \<in> set at_meeting
                         \<or> m_helperMeetingState match \<in> set at_meeting);
          status = (if moderator then M_cancelled_moderation
                    else if co_unsafe opts then M_cancelled_unsafe
                    else if co_actor opts = Requester_actor then M_cancelled_by_requester
                    else M_cancelled_by_helper);
          closeReason = (case co_note opts of
              Some n \<Rightarrow> if n = [] then lit (co_reason opts)
                        else lit (co_reason opts) @ lit '': '' @ redactContactDetails n
            | None \<Rightarrow> lit (co_reason opts));
          grace = now env + CONVERSATION_GRACE_MS;
          closing = (co_unsafe opts \<or> moderator) in
      if m_status match \<noteq> M_active then Inl Request_conflict else
      r_bind
        (if \<not> m_inventoryApplied match
         then update_item (i_id it)
                (\<lambda>i. i\<lparr>i_qtyReserved := i_qtyReserved it - m_qtyReserved match,
                       i_updatedAt := now env\<rparr>) d
         else Inr d) (\<lambda>d1.
      let d2 = update_match (m_id match)
                 (\<lambda>m. m\<lparr>m_status := status, m_closedAt := Some (now env),
                        m_closeReason := Some closeReason, m_inventoryApplied := True\<rparr>) d1;
          d3 = update_conversation (lk_conversationId locks)
                 (if closing then (\<lambda>c. c\<lparr>cv_status := Conv_readonly, cv_expiresAt := Some grace\<rparr>)
                  else (\<lambda>c. c\<lparr>cv_expiresAt := Some grace\<rparr>)) d2;
          frame = P_conversation_status (lk_conversationId locks) (m_id match) Conv_readonly in
      r_bind
        (if moderator then
           transitionRequest env request Moderated Moderator_actor (co_reason opts)
             (\<lambda>r. r\<lparr>r_closedAt := Some (now env)\<rparr>) d3
         else if co_actor opts = Requester_actor then
           transitionRequest env request Cancelled Requester_actor (co_reason opts)
             (\<lambda>r. r\<lparr>r_closedAt := Some (now env)\<rparr>) d3
         else transitionRequest env request Searching Helper_actor (co_reason opts) id d3) (\<lambda>(d4, _).
      let d5 = (case co_cancellerUserId opts of
                  Some u \<Rightarrow> if co_unsafe opts then delete_location u (m_eventId match) d4 else d4
                | None \<Rightarrow> d4);
          d6 = (if co_actor opts = Helper_actor \<and> \<not> co_unsafe opts
                then applyHelperCancel env (m_helperId match) postMeeting d5 else d5) in
      r_bind (insertSystemMessage env (lk_conversationId locks)
                (case co_cancellerUserId opts of Some u \<Rightarrow> u | None \<Rightarrow> m_requesterId match)
                ''match.cancelled'' d6) (\<lambda>d7.
      Inr (d7,
        (if closing
         then [\<lambda>_. [Publish (m_requesterId match) Conversation_update frame,
                    Publish (m_helperId match) Conversation_update frame]] else [])
        @ (if moderator then []
           else if co_actor opts = Requester_actor
           then [\<lambda>_. [Notify_job (notify_cancel_helper match)]]
           else [\<lambda>_. [Match_job (r_id request) 0, Notify_job (notify_cancel_requester match request)]])
        @ [\<lambda>d'. emitMatchUpdate (m_id match) d'
              @ emitRequestUpdate (r_id request) (m_requesterId match) d'])))))"

definition cancelMatchInTx :: "env \<Rightarrow> uid \<Rightarrow> cancel_options \<Rightarrow> db \<Rightarrow> app_error + db \<times> after_commit list" where
  "cancelMatchInTx env mid opts d =
     r_bind (or_throw Not_found (lockMatchRows d mid)) (\<lambda>locks. cancelMatchLocked env locks opts d)"

definition cancel_tx :: "env \<Rightarrow> uid \<Rightarrow> uid \<Rightarrow> cancel_match_input \<Rightarrow> db \<Rightarrow> app_error + db \<times> after_commit list" where
  "cancel_tx env mid viewer input d =
     r_bind (or_throw Not_found (lockMatchRows d mid)) (\<lambda>locks.
       let match = lk_match locks;
           isRequester = (m_requesterId match = viewer);
           isHelper = (m_helperId match = viewer)
       in if \<not> isRequester \<and> \<not> isHelper then Inl Not_found
          else cancelMatchLocked env locks
                 \<lparr>co_actor = (if isRequester then Requester_actor else Helper_actor),
                  co_cancellerUserId = Some viewer,
                  co_reason = cancel_reason_token (ci_reason input),
                  co_unsafe = (ci_reason input = Unsafe),
                  co_note = ci_note input\<rparr> d)"

definition cancelMatch :: "env \<Rightarrow> uid \<Rightarrow> uid \<Rightarrow> cancel_match_input \<Rightarrow> db \<Rightarrow> match_view outcome" where
  "cancelMatch env mid viewer input d =
     commit d (cancel_tx env mid viewer input d)
       (\<lambda>(d', after). (d', run_after after d', getMatchView d' mid viewer))"

definition moderation_cancel :: "string \<Rightarrow> cancel_options" where
  "moderation_cancel reason = \<lparr>co_actor = Moderator_actor, co_cancellerUserId = None,
     co_reason = reason, co_unsafe = False, co_note = None\<rparr>"

definition cancelMatchForModeration :: "env \<Rightarrow> uid \<Rightarrow> string \<Rightarrow> db \<Rightarrow> unit outcome" where
  "cancelMatchForModeration env mid reason d =
     commit d (cancelMatchInTx env mid (moderation_cancel reason) d)
       (\<lambda>(d', after). (d', run_after after d', Inr ()))"

definition listTransitions :: "db \<Rightarrow> uid \<Rightarrow> request_transition list" where
  "listTransitions d rid =
     sort_key rt_id (filter (\<lambda>t. rt_requestId t = rid) (requestTransitions d))"

end
