(* ===== verification/Events.thy ===== *)
theory Events
  imports Calendar Store
begin

text \<open>
  \<open>server/src/modules/events/service.ts\<close> with \<open>events/wants.ts\<close>, \<open>catalogue/service.ts\<close> and the daily
  occurrences of \<open>workers/attendance.ts\<close>: which categories an event offers and with which limits,
  membership, what a viewer is shown, creating, joining and leaving.
\<close>

subsection \<open>Categories and membership\<close>

record effective_category =
  ef_category :: category
  ef_maxRequestQty :: qty
  ef_maxOfferQty :: qty

definition or_else :: "'a option \<Rightarrow> 'a \<Rightarrow> 'a" where
  "or_else x a = (case x of None \<Rightarrow> a | Some b \<Rightarrow> b)"

text \<open>An inner join on categories, ordered by \<open>sort_order\<close>; equal keys keep the table's order.\<close>

definition overridden_categories :: "db \<Rightarrow> uid \<Rightarrow> (event_category \<times> category) list" where
  "overridden_categories d eid =
     sort_key (\<lambda>x. c_sortOrder (snd x))
       (List.map_filter
         (\<lambda>ec. map_option (\<lambda>c. (ec, c)) (by_key c_id (ec_categoryId ec) (categories d)))
         (filter (\<lambda>ec. ec_eventId ec = eid) (eventCategories d)))"

definition effectiveEventCategories :: "db \<Rightarrow> uid \<Rightarrow> effective_category list" where
  "effectiveEventCategories d eid =
     (let overridden = overridden_categories d eid in
      if overridden \<noteq> []
      then map (\<lambda>(ec, c). \<lparr>ef_category = c,
                  ef_maxRequestQty = or_else (ec_maxRequestQty ec) (c_maxRequestQty c),
                  ef_maxOfferQty = or_else (ec_maxOfferQty ec) (c_maxOfferQty c)\<rparr>)
             (filter (\<lambda>(ec, c). ec_enabled ec \<and> c_active c) overridden)
      else map (\<lambda>c. \<lparr>ef_category = c, ef_maxRequestQty = c_maxRequestQty c,
                      ef_maxOfferQty = c_maxOfferQty c\<rparr>)
             (sort_key c_sortOrder (filter c_active (categories d))))"

definition getMembership :: "db \<Rightarrow> uid \<Rightarrow> uid \<Rightarrow> membership option" where
  "getMembership d eid u =
     find (\<lambda>m. mb_eventId m = eid \<and> mb_userId m = u \<and> mb_leftAt m = None) (memberships d)"

datatype event_ref = Event_uuid uid | Event_code string

definition upper_char :: "char \<Rightarrow> char" where
  "upper_char c = (if 97 \<le> (of_char c :: nat) \<and> (of_char c :: nat) \<le> 122
                   then char_of ((of_char c :: nat) - 32) else c)"

definition resolveEvent :: "db \<Rightarrow> event_ref \<Rightarrow> event option" where
  "resolveEvent d ref = (case ref of
     Event_uuid eid \<Rightarrow> by_key e_id eid (events d)
   | Event_code code \<Rightarrow> by_key e_code (map upper_char code) (events d))"

definition getEventForViewer :: "db \<Rightarrow> event_ref \<Rightarrow> (uid \<times> user_role) option \<Rightarrow> app_error + event" where
  "getEventForViewer d ref viewer =
     r_bind (or_throw Not_found (resolveEvent d ref)) (\<lambda>event.
       if e_status event = Draft \<or> e_status event = Disabled
       then let privileged = (case viewer of None \<Rightarrow> False
                   | Some (_, role) \<Rightarrow> role = Moderator_role \<or> role = Admin_role);
                member = (case viewer of None \<Rightarrow> None
                   | Some (u, _) \<Rightarrow> getMembership d (e_id event) u)
            in if \<not> privileged \<and> member = None then Inl Not_found else Inr event
       else Inr event)"

subsection \<open>Public wants\<close>

datatype want_source = Admin_source | User_source

record public_want =
  pw_categorySlug :: string
  pw_source :: want_source
  pw_requestedQty :: "qty option"
  pw_requesterCount :: "nat option"

definition admin_want_rows :: "db \<Rightarrow> uid \<Rightarrow> (admin_want \<times> category) list" where
  "admin_want_rows d eid =
     sort_key (\<lambda>x. c_sortOrder (snd x))
       (List.map_filter
         (\<lambda>w. map_option (\<lambda>c. (w, c)) (by_key c_id (aw_categoryId w) (categories d)))
         (filter (\<lambda>w. aw_eventId w = eid) (eventAdminWants d)))"

definition open_requests_of :: "db \<Rightarrow> uid \<Rightarrow> (request \<times> string) list" where
  "open_requests_of d eid =
     List.map_filter
       (\<lambda>r. map_option (\<lambda>c. (r, c_slug c)) (by_key c_id (r_categoryId r) (categories d)))
       (filter (\<lambda>r. r_eventId r = eid \<and> r_status r \<in> {Searching, Offering}) (requests d))"

text \<open>\<open>GROUP BY slug ORDER BY sum DESC\<close>: per slug the open quantity and the distinct requesters.\<close>

definition demand_rows :: "db \<Rightarrow> uid \<Rightarrow> (string \<times> qty \<times> nat) list" where
  "demand_rows d eid =
     (let rows = open_requests_of d eid in
      sort_key (\<lambda>(_, q, _). - q)
        (map (\<lambda>slug. let mine = filter (\<lambda>x. snd x = slug) rows in
               (slug, sum_list (map (\<lambda>x. r_qty (fst x) - r_qtyFulfilled (fst x)) mine),
                length (remdups (map (\<lambda>x. r_requesterId (fst x)) mine))))
          (remdups (map snd rows))))"

definition computePublicWants :: "db \<Rightarrow> uid \<Rightarrow> public_want list" where
  "computePublicWants d eid =
     (let adminRows = admin_want_rows d eid;
          adminSlugs = map (\<lambda>x. c_slug (snd x)) adminRows
      in map (\<lambda>(w, c). \<lparr>pw_categorySlug = c_slug c, pw_source = Admin_source,
                pw_requestedQty = map_option of_int (aw_qty w), pw_requesterCount = None\<rparr>) adminRows
         @ map (\<lambda>(slug, q, n). \<lparr>pw_categorySlug = slug, pw_source = User_source,
                pw_requestedQty = Some q, pw_requesterCount = Some n\<rparr>)
             (filter (\<lambda>(slug, _, _). slug \<notin> set adminSlugs) (demand_rows d eid)))"

subsection \<open>Event views\<close>

record event_summary =
  es_id :: uid
  es_code :: string
  es_title :: utext
  es_type :: event_type
  es_status :: event_status
  es_visibility :: event_visibility
  es_areaLabel :: utext
  es_startsAt :: instant
  es_endsAt :: instant
  es_timezone :: string
  es_wants :: "public_want list"
  es_joined :: "bool option"

definition toSummary :: "event \<Rightarrow> public_want list \<Rightarrow> bool option \<Rightarrow> event_summary" where
  "toSummary e wants joined = \<lparr>es_id = e_id e, es_code = e_code e, es_title = e_title e,
     es_type = e_type e, es_status = e_status e, es_visibility = e_visibility e,
     es_areaLabel = e_areaLabel e, es_startsAt = e_startsAt e, es_endsAt = e_endsAt e,
     es_timezone = e_timezone e, es_wants = wants, es_joined = joined\<rparr>"

record category_view =
  cy_id :: uid
  cy_slug :: string
  cy_group :: category_group
  cy_name :: localized
  cy_namePlural :: "localized option"
  cy_description :: "localized option"
  cy_icon :: string
  cy_unit :: unit_kind
  cy_altUnits :: "unit_kind list"
  cy_fractional :: bool
  cy_sealedRequired :: bool
  cy_expiryRelevant :: bool
  cy_restricted :: bool
  cy_warningKey :: "string option"
  cy_maxRequestQty :: qty
  cy_maxOfferQty :: qty
  cy_sortOrder :: int
  cy_active :: bool

definition mapCategory :: "category \<Rightarrow> qty option \<Rightarrow> qty option \<Rightarrow> category_view" where
  "mapCategory c maxReq maxOff = \<lparr>cy_id = c_id c, cy_slug = c_slug c, cy_group = c_group c,
     cy_name = c_name c, cy_namePlural = c_namePlural c, cy_description = c_description c,
     cy_icon = c_icon c, cy_unit = c_unit c, cy_altUnits = c_altUnits c,
     cy_fractional = c_fractional c, cy_sealedRequired = c_sealedRequired c,
     cy_expiryRelevant = c_expiryRelevant c, cy_restricted = c_restricted c,
     cy_warningKey = c_warningKey c, cy_maxRequestQty = or_else maxReq (c_maxRequestQty c),
     cy_maxOfferQty = or_else maxOff (c_maxOfferQty c), cy_sortOrder = c_sortOrder c,
     cy_active = c_active c\<rparr>"

record membership_view =
  mw_joinedAt :: instant
  mw_muted :: bool
  mw_role :: membership_role

record event_detail =
  ed_summary :: event_summary
  ed_description :: utext
  ed_safetyInfo :: "utext option"
  ed_medicalInfo :: "utext option"
  ed_notices :: "(uid \<times> utext \<times> instant) list"
  ed_requiresInvite :: bool
  ed_matchingPaused :: bool
  ed_categories :: "category_view list"
  ed_membership :: "membership_view option"

definition open_to_anyone :: "event \<Rightarrow> bool" where
  "open_to_anyone e \<longleftrightarrow> e_visibility e = Public \<and> e_publicApproved e \<and> e_status e \<noteq> Draft
     \<and> e_status e \<noteq> Disabled"

definition buildEventDetail :: "db \<Rightarrow> event \<Rightarrow> uid option \<Rightarrow> event_detail" where
  "buildEventDetail d e viewer =
     (let membership = (case viewer of None \<Rightarrow> None | Some u \<Rightarrow> getMembership d (e_id e) u);
          wants = (if open_to_anyone e then computePublicWants d (e_id e) else []);
          notices = take 20 (sort_key (\<lambda>n. - n_createdAt n)
                      (filter (\<lambda>n. n_eventId n = e_id e) (eventNotices d)))
      in \<lparr>ed_summary = toSummary e wants (if viewer \<noteq> None then Some (membership \<noteq> None) else None),
          ed_description = e_description e, ed_safetyInfo = e_safetyInfo e,
          ed_medicalInfo = e_medicalInfo e,
          ed_notices = map (\<lambda>n. (n_id n, n_body n, n_createdAt n)) notices,
          ed_requiresInvite = (e_visibility e = Invite_only),
          ed_matchingPaused = e_matchingPaused e,
          ed_categories = map (\<lambda>c. mapCategory (ef_category c) (Some (ef_maxRequestQty c))
                                (Some (ef_maxOfferQty c))) (effectiveEventCategories d (e_id e)),
          ed_membership = map_option (\<lambda>m. \<lparr>mw_joinedAt = mb_joinedAt m, mw_muted = mb_muted m,
                                mw_role = mb_role m\<rparr>) membership\<rparr>)"

subsection \<open>Creating an event\<close>

definition insert_event :: "event \<Rightarrow> db \<Rightarrow> app_error + db \<times> event" where
  "insert_event e d = (let e' = e\<lparr>e_id := next_id d\<rparr> in
     r_bind (checked_insert (\<lambda>_. True) (\<lambda>a b. e_code a \<noteq> e_code b) e' (events d)) (\<lambda>t.
       Inr (d\<lparr>events := t, next_id := Suc (next_id d)\<rparr>, e')))"

definition insert_membership :: "env \<Rightarrow> uid \<Rightarrow> uid \<Rightarrow> membership_role \<Rightarrow> db \<Rightarrow> db" where
  "insert_membership env u eid role d =
     d\<lparr>memberships := memberships d @
         [\<lparr>mb_id = next_id d, mb_userId = u, mb_eventId = eid, mb_role = role, mb_muted = False,
           mb_banned = False, mb_joinedAt = now env, mb_leftAt = None\<rparr>],
       next_id := Suc (next_id d)\<rparr>"

text \<open>
  Parameters: \<open>lower\<close> is PostgreSQL's \<open>lower\<close>, \<open>allowed\<close> the answer of the rate limiter
  (\<open>event:create\<close>, 5 a day, false when the limiter fails), \<open>invite\<close> and \<open>code\<close> what
  \<open>shortCode()\<close> returns. The first coordinate of a \<open>geopoint\<close> is the latitude.
\<close>

definition duplicate_event :: "env \<Rightarrow> (utext \<Rightarrow> utext) \<Rightarrow> create_event_input \<Rightarrow> geopoint \<Rightarrow> db \<Rightarrow> event option" where
  "duplicate_event env lower input center d =
     find (\<lambda>e. lower (e_title e) = lower (ei_title input) \<and> e_status e \<noteq> Archived
       \<and> distanceM env (e_center e) center \<le> 5000
       \<and> e_startsAt e < ei_endsAt input \<and> e_endsAt e > ei_startsAt input) (events d)"

definition new_event :: "env \<Rightarrow> uid \<Rightarrow> create_event_input \<Rightarrow> geopoint \<Rightarrow> string option \<Rightarrow> string \<Rightarrow> event" where
  "new_event env u input center inviteCode code =
     \<lparr>e_id = 0, e_code = code, e_title = ei_title input, e_description = ei_description input,
      e_type = ei_type input,
      e_status = (if ei_startsAt input \<le> now env \<and> now env < ei_endsAt input then Active else Scheduled),
      e_visibility = ei_visibility input, e_publicApproved = False, e_inviteCode = inviteCode,
      e_areaLabel = ei_areaLabel input, e_center = center, e_radiusM = ei_radiusM input,
      e_maxMatchRadiusM = 5000, e_offerResponseSeconds = 45, e_startsAt = ei_startsAt input,
      e_endsAt = ei_endsAt input, e_timezone = ei_timezone input,
      e_safetyInfo = ei_safetyInfo input, e_medicalInfo = ei_medicalInfo input,
      e_matchingPaused = False, e_retentionDays = 7, e_createdBy = Some u,
      e_createdAt = now env\<rparr>"

definition create_event_tx ::
  "env \<Rightarrow> uid \<Rightarrow> create_event_input \<Rightarrow> geopoint \<Rightarrow> string option \<Rightarrow> string \<Rightarrow> db \<Rightarrow> app_error + db \<times> event" where
  "create_event_tx env u input center inviteCode code d =
     r_bind (insert_event (new_event env u input center inviteCode code) d) (\<lambda>(d1, created).
     r_bind
       (case ei_categorySlugs input of
          None \<Rightarrow> Inr d1
        | Some slugs \<Rightarrow>
            if slugs = [] then Inr d1
            else let cats = filter (\<lambda>c. c_slug c \<in> set slugs \<and> c_active c) (categories d1) in
              if cats = [] then Inl (Validation ''categorySlugs'')
              else Inr (d1\<lparr>eventCategories := eventCategories d1 @
                     map (\<lambda>c. \<lparr>ec_eventId = e_id created, ec_categoryId = c_id c, ec_enabled = True,
                                ec_maxRequestQty = None, ec_maxOfferQty = None\<rparr>) cats\<rparr>)) (\<lambda>d2.
     Inr (insert_membership env u (e_id created) Event_admin_role d2, created)))"

definition createEvent ::
  "env \<Rightarrow> (utext \<Rightarrow> utext) \<Rightarrow> bool \<Rightarrow> string \<Rightarrow> string \<Rightarrow> uid \<Rightarrow> create_event_input \<Rightarrow> db
    \<Rightarrow> (event_detail \<times> string option) outcome" where
  "createEvent env lower allowed invite code u input d =
     (if ei_endsAt input \<le> ei_startsAt input then (d, [], Inl (Validation ''endsAt''))
      else if \<not> allowed then (d, [], Inl Rate_limited)
      else let center = coarsen (fst (ei_center input)) (snd (ei_center input)) in
        if duplicate_event env lower input center d \<noteq> None then (d, [], Inl Request_conflict)
        else let inviteCode = (if ei_visibility input = Invite_only then Some invite else None) in
          commit d (create_event_tx env u input center inviteCode code d) (\<lambda>(d', created).
            (d', [], Inr (buildEventDetail d' created (Some u), inviteCode))))"

subsection \<open>Joining and leaving\<close>

definition joinEvent :: "env \<Rightarrow> uid \<Rightarrow> event_ref \<Rightarrow> string option \<Rightarrow> db \<Rightarrow> event_detail outcome" where
  "joinEvent env u ref inviteCode d =
     (case resolveEvent d ref of
        None \<Rightarrow> (d, [], Inl Not_found)
      | Some event \<Rightarrow>
          if e_status event \<noteq> Active \<and> e_status event \<noteq> Scheduled then (d, [], Inl Event_not_active)
          else if e_visibility event = Invite_only
                  \<and> (inviteCode = None \<or> inviteCode = Some [] \<or> inviteCode \<noteq> e_inviteCode event)
          then (d, [], Inl Forbidden)
          else (case find (\<lambda>m. mb_eventId m = e_id event \<and> mb_userId m = u) (memberships d) of
              Some existing \<Rightarrow>
                if mb_banned existing then (d, [], Inl Forbidden)
                else let d' = (if mb_leftAt existing \<noteq> None
                        then d\<lparr>memberships := upd_key mb_id (mb_id existing)
                               (\<lambda>m. m\<lparr>mb_leftAt := None\<rparr>) (memberships d)\<rparr> else d)
                     in (d', [], Inr (buildEventDetail d' event (Some u)))
            | None \<Rightarrow>
                let d' = insert_membership env u (e_id event) Member_role d
                in (d', [], Inr (buildEventDetail d' event (Some u)))))"

definition leaveEvent :: "env \<Rightarrow> uid \<Rightarrow> uid \<Rightarrow> db \<Rightarrow> db" where
  "leaveEvent env u eid d =
     delete_location u eid
       (d\<lparr>memberships := upd_where
              (\<lambda>m. mb_eventId m = eid \<and> mb_userId m = u \<and> mb_leftAt m = None)
              (\<lambda>m. m\<lparr>mb_leftAt := Some (now env)\<rparr>) (memberships d),
          availability := upd_where (\<lambda>a. av_eventId a = eid \<and> av_userId a = u)
              (\<lambda>a. a\<lparr>av_isOn := False, av_until := None, av_updatedAt := now env\<rparr>) (availability d)\<rparr>)"

definition muteEvent :: "uid \<Rightarrow> uid \<Rightarrow> bool \<Rightarrow> db \<Rightarrow> unit outcome" where
  "muteEvent u eid muted d =
     (let mine = (\<lambda>m. mb_eventId m = eid \<and> mb_userId m = u \<and> mb_leftAt m = None) in
      if list_ex mine (memberships d)
      then (d\<lparr>memberships := upd_where mine (\<lambda>m. m\<lparr>mb_muted := muted\<rparr>) (memberships d)\<rparr>, [], Inr ())
      else (d, [], Inl Not_found))"

subsection \<open>Daily occurrences\<close>

text \<open>
  \<open>nextDailyStart\<close> steps a local-time date by one day; \<open>next_day\<close> is that step
  (\<open>setDate(getDate() + 1)\<close>), a parameter since it depends on the server's time zone. The loop is a
  partial function: \<open>None\<close> is a run that does not end, \<open>Some None\<close> the returned \<open>null\<close>.
\<close>

partial_function (option) daily_walk ::
  "(instant \<Rightarrow> instant) \<Rightarrow> instant \<Rightarrow> instant \<Rightarrow> instant \<Rightarrow> instant option option" where
  "daily_walk next_day endsAt frm occ =
     (if occ < frm
      then (let occ' = next_day occ in
            if occ' > endsAt then Some None else daily_walk next_day endsAt frm occ')
      else Some (if occ \<le> endsAt then Some occ else None))"

declare daily_walk.simps [code]

definition nextDailyStart ::
  "(instant \<Rightarrow> instant) \<Rightarrow> instant \<Rightarrow> instant \<Rightarrow> instant \<Rightarrow> instant option option" where
  "nextDailyStart next_day startsAt endsAt frm = daily_walk next_day endsAt frm startsAt"

record attendance_result =
  ar_leftEvent :: bool
  ar_nextOccurrence :: "instant option"

definition answerAttendance ::
  "env \<Rightarrow> (instant \<Rightarrow> instant) \<Rightarrow> uid \<Rightarrow> uid \<Rightarrow> bool \<Rightarrow> db \<Rightarrow> attendance_result outcome option" where
  "answerAttendance env next_day u eid attending d =
     (case by_key e_id eid (events d) of
        None \<Rightarrow> Some (d, [], Inl Not_found)
      | Some event \<Rightarrow>
          map_option (\<lambda>nxt.
            if attending \<or> nxt \<noteq> None
            then (d, [], Inr \<lparr>ar_leftEvent = False, ar_nextOccurrence = nxt\<rparr>)
            else (leaveEvent env u eid d, [], Inr \<lparr>ar_leftEvent = True, ar_nextOccurrence = None\<rparr>))
          (nextDailyStart next_day (e_startsAt event) (e_endsAt event) (now env + 60000)))"


end
