(* ===== verification/Moderation.thy ===== *)
theory Moderation
  imports Settlement Events
begin

text \<open>
  \<open>server/src/modules/admin/service.ts\<close>: moderation actions with their role check, written reason and
  audit row, appeals, event and catalogue edits, staff accounts, the emergency stop. A reason is a
  string; the \<open>action\<close> of a moderation call is a free string of the request body, \<open>None\<close> stands for
  one that is not a moderation action.
\<close>

subsection \<open>Who may do what\<close>

definition MODERATOR_MAX_SUSPEND_HOURS :: int where "MODERATOR_MAX_SUSPEND_HOURS = 168"

definition MODERATOR_ACTIONS :: "moderation_action_kind list" where
  "MODERATOR_ACTIONS = [Act_warn, Act_restrict_requests, Act_restrict_helping, Act_suspend,
     Act_event_pause, Act_event_unpause, Act_event_approve_public, Act_event_reject_public,
     Act_match_cancel, Act_report_resolve, Act_report_dismiss]"

definition ADMIN_ONLY_ACTIONS :: "moderation_action_kind list" where
  "ADMIN_ONLY_ACTIONS = [Act_unsuspend, Act_event_disable]"

definition actionAllowedForRole :: "moderation_action_kind option \<Rightarrow> user_role \<Rightarrow> int option \<Rightarrow> bool" where
  "actionAllowedForRole action role durationHours = (case action of
     None \<Rightarrow> False
   | Some a \<Rightarrow>
       if role = Admin_role then True
       else if role \<noteq> Moderator_role then False
       else if a \<in> set ADMIN_ONLY_ACTIONS then False
       else if a \<notin> set MODERATOR_ACTIONS then False
       else if a = Act_suspend \<and> (case durationHours of None \<Rightarrow> True | Some h \<Rightarrow> h > MODERATOR_MAX_SUSPEND_HOURS)
       then False
       else True)"

fun action_token :: "moderation_action_kind \<Rightarrow> string" where
  "action_token Act_warn = ''warn''"
| "action_token Act_restrict_requests = ''restrict_requests''"
| "action_token Act_restrict_helping = ''restrict_helping''"
| "action_token Act_suspend = ''suspend''"
| "action_token Act_unsuspend = ''unsuspend''"
| "action_token Act_event_pause = ''event_pause''"
| "action_token Act_event_unpause = ''event_unpause''"
| "action_token Act_event_disable = ''event_disable''"
| "action_token Act_event_approve_public = ''event_approve_public''"
| "action_token Act_event_reject_public = ''event_reject_public''"
| "action_token Act_match_cancel = ''match_cancel''"
| "action_token Act_report_resolve = ''report_resolve''"
| "action_token Act_report_dismiss = ''report_dismiss''"

subsection \<open>The denylist\<close>

text \<open>
  The patterns of \<open>catalogue-defaults.ts\<close> are alternatives of plain words without regard to case;
  \<open>fold_case\<close> is the folding of the \<open>i\<close> flag, of which only the basic letters matter for them.
\<close>

definition PROHIBITED_PATTERNS :: "string list list" where
  "PROHIBITED_PATTERNS =
    [[''medicin'', ''tablet'', ''drug'', ''pharma'', ''pill'', ''capsule'', ''syrup'', ''antibiotic'',
      ''insulin'', ''inject''],
     [''alcohol'', ''liquor'', ''beer'', ''wine'', ''cigarette'', ''tobacco'', ''vape'', ''intoxic''],
     [''weapon'', ''knife'', ''gun'', ''firearm'', ''ammo'', ''explos'', ''firework''],
     [''fuel'', ''petrol'', ''diesel'', ''kerosene'', ''gas cylinder'', ''chemical''],
     [''blood'', ''organ'', ''bodily'']]"

definition fold_case :: "nat \<Rightarrow> nat" where
  "fold_case c = (if 65 \<le> c \<and> c \<le> 90 then c + 32 else c)"

fun occurs :: "utext \<Rightarrow> utext \<Rightarrow> bool" where
  "occurs w [] = (w = [])"
| "occurs w (c # t) = (take (length w) (c # t) = w \<or> occurs w t)"

definition pattern_test :: "string list \<Rightarrow> utext \<Rightarrow> bool" where
  "pattern_test p t = list_ex (\<lambda>w. occurs (lit w) (map fold_case t)) p"

definition violatesDenylist :: "string \<Rightarrow> localized \<Rightarrow> bool" where
  "violatesDenylist slug name =
     list_ex (\<lambda>t. list_ex (\<lambda>p. pattern_test p t) PROHIBITED_PATTERNS) (lit slug # map snd name)"

subsection \<open>The steps the actions share\<close>

definition notifyModerationOutcome :: "uid \<Rightarrow> string \<Rightarrow> dedupe_key \<Rightarrow> effect" where
  "notifyModerationOutcome u action key = Notify_job \<lparr>nj_userId = u, nj_type = N_moderation_outcome,
     nj_titleKey = ''notifications.moderation_outcome'', nj_bodyKey = ''moderation.outcomeBody'',
     nj_params = [(''action'', Text_param (lit action))], nj_deepLink = None, nj_dedupeKey = Some key\<rparr>"

record actor =
  ac_userId :: uid
  ac_role :: user_role

record moderate_input =
  md_action :: "moderation_action_kind option"
  md_targetUserId :: "uid option"
  md_targetEventId :: "uid option"
  md_targetMatchId :: "uid option"
  md_reportId :: "uid option"
  md_reason :: string
  md_durationHours :: "int option"

definition requireUser :: "db \<Rightarrow> uid option \<Rightarrow> app_error + user" where
  "requireUser d u = (case u of
     None \<Rightarrow> Inl (Validation ''targetUserId'')
   | Some k \<Rightarrow> or_throw Not_found (by_key u_id k (users d)))"

definition requireEvent :: "db \<Rightarrow> uid option \<Rightarrow> app_error + event" where
  "requireEvent d e = (case e of
     None \<Rightarrow> Inl (Validation ''targetEventId'')
   | Some k \<Rightarrow> or_throw Not_found (by_key e_id k (events d)))"

definition update_user :: "uid \<Rightarrow> (user \<Rightarrow> user) \<Rightarrow> db \<Rightarrow> db" where
  "update_user k f d = d\<lparr>users := upd_key u_id k f (users d)\<rparr>"

definition update_event :: "uid \<Rightarrow> (event \<Rightarrow> event) \<Rightarrow> db \<Rightarrow> db" where
  "update_event k f d = d\<lparr>events := upd_key e_id k f (events d)\<rparr>"

text \<open>\<open>insertAction\<close>: the row of the action and its id.\<close>

definition insert_action ::
  "env \<Rightarrow> uid \<Rightarrow> moderation_action_kind \<Rightarrow> string \<Rightarrow> uid option \<Rightarrow> uid option \<Rightarrow> uid option \<Rightarrow> uid option
    \<Rightarrow> instant option \<Rightarrow> db \<Rightarrow> db \<times> uid" where
  "insert_action env actor action reason targetUser targetEvent targetMatch reportId expiresAt d =
     (d\<lparr>moderationActions := moderationActions d @
          [\<lparr>ma_id = next_id d, ma_actorId = Some actor, ma_action = action, ma_targetUserId = targetUser,
            ma_targetEventId = targetEvent, ma_targetMatchId = targetMatch, ma_reportId = reportId,
            ma_reason = lit reason, ma_expiresAt = expiresAt, ma_createdAt = now env\<rparr>],
        next_id := Suc (next_id d)\<rparr>, next_id d)"

definition audit_action :: "env \<Rightarrow> uid \<Rightarrow> string \<Rightarrow> audit_target \<Rightarrow> string \<Rightarrow> audit_meta option \<Rightarrow> db \<Rightarrow> db" where
  "audit_action env actor action target reason meta d =
     insert_audit env (Some actor) action (Some target) (Some (lit reason)) meta d"

definition hours_from_now :: "env \<Rightarrow> int option \<Rightarrow> instant option" where
  "hours_from_now env h = (case h of
     None \<Rightarrow> None | Some n \<Rightarrow> if n = 0 then None else Some (now env + n * 3600000))"

text \<open>The cancellations after a commit, each in a transaction of its own; the first error ends them.\<close>

fun cancel_each :: "env \<Rightarrow> string \<Rightarrow> uid list \<Rightarrow> db \<Rightarrow> unit outcome" where
  "cancel_each env reason [] d = (d, [], Inr ())"
| "cancel_each env reason (m # ms) d =
     (case cancelMatchForModeration env m reason d of
        (d1, es, Inl e) \<Rightarrow> (d1, es, Inl e)
      | (d1, es, Inr _) \<Rightarrow>
          (case cancel_each env reason ms d1 of (d2, es', r) \<Rightarrow> (d2, es @ es', r)))"

definition then_publish :: "effect list \<Rightarrow> effect list \<Rightarrow> unit outcome \<Rightarrow> unit outcome" where
  "then_publish before after x = (case x of
     (d, es, Inl e) \<Rightarrow> (d, before @ es, Inl e)
   | (d, es, Inr v) \<Rightarrow> (d, before @ es @ after, Inr v))"

type_synonym continuation = "db \<Rightarrow> unit outcome"

definition publish_only :: "effect list \<Rightarrow> continuation" where
  "publish_only es d = (d, es, Inr ())"

definition active_match_ids :: "(match_row \<Rightarrow> bool) \<Rightarrow> db \<Rightarrow> uid list" where
  "active_match_ids P d = map m_id (filter (\<lambda>m. m_status m = M_active \<and> P m) (matches d))"

subsection \<open>The actions\<close>

definition warn_tx :: "env \<Rightarrow> uid \<Rightarrow> moderate_input \<Rightarrow> db \<Rightarrow> app_error + db \<times> continuation" where
  "warn_tx env actor input d =
     r_bind (requireUser d (md_targetUserId input)) (\<lambda>user.
       let (d1, aid) = insert_action env actor Act_warn (md_reason input) (Some (u_id user)) None None None None d;
           d2 = audit_action env actor (action_token Act_warn) (User_target (u_id user)) (md_reason input) None d1
       in Inr (d2, publish_only [notifyModerationOutcome (u_id user) (action_token Act_warn) (Moderation_key aid)]))"

definition restrict_tx ::
  "env \<Rightarrow> uid \<Rightarrow> moderation_action_kind \<Rightarrow> moderate_input \<Rightarrow> db \<Rightarrow> app_error + db \<times> continuation" where
  "restrict_tx env actor action input d =
     r_bind (requireUser d (md_targetUserId input)) (\<lambda>user.
       let d1 = update_user (u_id user)
                  (\<lambda>u. if action = Act_restrict_requests then u\<lparr>u_canRequest := False\<rparr>
                        else u\<lparr>u_canHelp := False\<rparr>) d;
           (d2, aid) = insert_action env actor action (md_reason input) (Some (u_id user)) None None None
                         (hours_from_now env (md_durationHours input)) d1;
           d3 = audit_action env actor (action_token action) (User_target (u_id user)) (md_reason input) None d2
       in Inr (d3, publish_only [notifyModerationOutcome (u_id user) (action_token action) (Moderation_key aid)]))"

definition live_session :: "uid \<Rightarrow> session \<Rightarrow> bool" where
  "live_session u s \<longleftrightarrow> se_userId s = u \<and> se_revokedAt s = None"

definition revoke_sessions :: "env \<Rightarrow> (session \<Rightarrow> bool) \<Rightarrow> db \<Rightarrow> db" where
  "revoke_sessions env P d = d\<lparr>sessions := upd_where P (\<lambda>s. s\<lparr>se_revokedAt := Some (now env)\<rparr>) (sessions d)\<rparr>"

definition suspend_tx :: "env \<Rightarrow> uid \<Rightarrow> moderate_input \<Rightarrow> db \<Rightarrow> app_error + db \<times> continuation" where
  "suspend_tx env actor input d =
     r_bind (requireUser d (md_targetUserId input)) (\<lambda>user.
       let u = u_id user;
           suspendedUntil = hours_from_now env (md_durationHours input);
           d1 = update_user u (\<lambda>x. x\<lparr>u_status := User_suspended, u_suspendedUntil := suspendedUntil\<rparr>) d;
           revoked = map se_id (filter (live_session u) (sessions d1));
           d2 = revoke_sessions env (live_session u) d1;
           d3 = d2\<lparr>availability := upd_where (\<lambda>a. av_userId a = u)
                  (\<lambda>a. a\<lparr>av_isOn := False, av_until := None, av_updatedAt := now env\<rparr>) (availability d2)\<rparr>;
           mine = active_match_ids (\<lambda>m. m_requesterId m = u \<or> m_helperId m = u) d3;
           (d4, aid) = insert_action env actor Act_suspend (md_reason input) (Some u) None None None suspendedUntil d3;
           d5 = audit_action env actor (action_token Act_suspend) (User_target u) (md_reason input)
                  (Some (Meta_duration (md_durationHours input))) d4
       in Inr (d5, \<lambda>d'. then_publish (map (\<lambda>s. Publish u Session_revoked (P_session_revoked s)) revoked)
                 [notifyModerationOutcome u (action_token Act_suspend) (Moderation_key aid)]
                 (cancel_each env ''moderation_suspend'' mine d')))"

definition unsuspend_tx :: "env \<Rightarrow> uid \<Rightarrow> moderate_input \<Rightarrow> db \<Rightarrow> app_error + db \<times> continuation" where
  "unsuspend_tx env actor input d =
     r_bind (requireUser d (md_targetUserId input)) (\<lambda>user.
       let u = u_id user;
           d1 = update_user u (\<lambda>x. x\<lparr>u_status := User_active, u_suspendedUntil := None,
                  u_canRequest := True, u_canHelp := True\<rparr>) d;
           (d2, aid) = insert_action env actor Act_unsuspend (md_reason input) (Some u) None None None None d1;
           d3 = audit_action env actor (action_token Act_unsuspend) (User_target u) (md_reason input) None d2
       in Inr (d3, publish_only [notifyModerationOutcome u (action_token Act_unsuspend) (Moderation_key aid)]))"

definition event_pause_tx ::
  "env \<Rightarrow> uid \<Rightarrow> moderation_action_kind \<Rightarrow> moderate_input \<Rightarrow> db \<Rightarrow> app_error + db \<times> continuation" where
  "event_pause_tx env actor action input d =
     r_bind (requireEvent d (md_targetEventId input)) (\<lambda>event.
       let e = e_id event;
           d1 = update_event e (\<lambda>x. x\<lparr>e_matchingPaused := (action = Act_event_pause)\<rparr>) d;
           (d2, _) = insert_action env actor action (md_reason input) None (Some e) None None None d1;
           d3 = audit_action env actor (action_token action) (Event_target e) (md_reason input) None d2
       in Inr (d3, publish_only []))"

definition event_approve_tx ::
  "env \<Rightarrow> uid \<Rightarrow> moderation_action_kind \<Rightarrow> moderate_input \<Rightarrow> db \<Rightarrow> app_error + db \<times> continuation" where
  "event_approve_tx env actor action input d =
     r_bind (requireEvent d (md_targetEventId input)) (\<lambda>event.
       let e = e_id event;
           d1 = update_event e (\<lambda>x. x\<lparr>e_publicApproved := (action = Act_event_approve_public)\<rparr>) d;
           (d2, aid) = insert_action env actor action (md_reason input) None (Some e) None None None d1;
           d3 = audit_action env actor (action_token action) (Event_target e) (md_reason input) None d2
       in Inr (d3, publish_only (case e_createdBy event of
            Some creator \<Rightarrow> if action = Act_event_reject_public
              then [notifyModerationOutcome creator (action_token action) (Moderation_key aid)] else []
          | None \<Rightarrow> [])))"

text \<open>One open request of a disabled event: its open offer is superseded, the request moderated.\<close>

definition close_for_moderation :: "env \<Rightarrow> string \<Rightarrow> request \<Rightarrow> db \<Rightarrow> app_error + db" where
  "close_for_moderation env reason request d =
     (let d1 = d\<lparr>matchOffers := upd_where (\<lambda>x. o_requestId x = r_id request \<and> o_status x = Offered)
                  (\<lambda>x. x\<lparr>o_status := Superseded, o_respondedAt := Some (now env)\<rparr>) (matchOffers d)\<rparr> in
      r_bind (transitionRequest env request Moderated Moderator_actor reason
                (\<lambda>r. r\<lparr>r_closedAt := Some (now env)\<rparr>) d1) (\<lambda>(d2, _). Inr d2))"

definition event_disable_tx :: "env \<Rightarrow> uid \<Rightarrow> moderate_input \<Rightarrow> db \<Rightarrow> app_error + db \<times> continuation" where
  "event_disable_tx env actor input d =
     r_bind (requireEvent d (md_targetEventId input)) (\<lambda>event.
       let e = e_id event;
           d1 = update_event e (\<lambda>x. x\<lparr>e_status := Disabled\<rparr>) d;
           still_open = filter (\<lambda>r. r_eventId r = e \<and> r_status r \<in> {Searching, Offering}) (requests d1)
       in r_bind (r_fold (close_for_moderation env (md_reason input)) still_open d1) (\<lambda>d2.
       let running = active_match_ids (\<lambda>m. m_eventId m = e) d2;
           (d3, _) = insert_action env actor Act_event_disable (md_reason input) None (Some e) None None None d2;
           d4 = audit_action env actor (action_token Act_event_disable) (Event_target e) (md_reason input) None d3
       in Inr (d4, cancel_each env ''event_disabled'' running)))"

definition match_cancel_tx :: "env \<Rightarrow> uid \<Rightarrow> moderate_input \<Rightarrow> db \<Rightarrow> app_error + db \<times> continuation" where
  "match_cancel_tx env actor input d =
     (case md_targetMatchId input of
        None \<Rightarrow> Inl (Validation ''targetMatchId'')
      | Some mid \<Rightarrow>
          r_bind (or_throw Not_found (by_key m_id mid (matches d))) (\<lambda>m.
            let (d1, _) = insert_action env actor Act_match_cancel (md_reason input) None None (Some (m_id m)) None None d;
                d2 = audit_action env actor (action_token Act_match_cancel) (Match_target (m_id m)) (md_reason input) None d1
            in Inr (d2, if m_status m = M_active then cancelMatchForModeration env (m_id m) (md_reason input)
                        else publish_only [])))"

definition report_tx ::
  "env \<Rightarrow> uid \<Rightarrow> moderation_action_kind \<Rightarrow> moderate_input \<Rightarrow> db \<Rightarrow> app_error + db \<times> continuation" where
  "report_tx env actor action input d =
     (case md_reportId input of
        None \<Rightarrow> Inl (Validation ''reportId'')
      | Some rid \<Rightarrow>
          r_bind (or_throw Not_found (by_key rp_id rid (reports d))) (\<lambda>report.
            let d1 = d\<lparr>reports := upd_key rp_id (rp_id report)
                  (\<lambda>x. x\<lparr>rp_status := (if action = Act_report_resolve then Report_resolved else Report_dismissed),
                         rp_resolution := Some (lit (md_reason input)), rp_resolvedBy := Some actor,
                         rp_resolvedAt := Some (now env)\<rparr>) (reports d)\<rparr>;
                (d2, aid) = insert_action env actor action (md_reason input) (rp_subjectUserId report)
                  (rp_subjectEventId report) None (Some (rp_id report)) None d1;
                d3 = audit_action env actor (action_token action) (Report_target (rp_id report)) (md_reason input) None d2
            in Inr (d3, publish_only (case rp_reporterId report of
                 None \<Rightarrow> []
               | Some u \<Rightarrow> [notifyModerationOutcome u (action_token action) (Moderation_key aid)]))))"

fun moderate_tx ::
  "env \<Rightarrow> uid \<Rightarrow> moderation_action_kind \<Rightarrow> moderate_input \<Rightarrow> db \<Rightarrow> app_error + db \<times> continuation" where
  "moderate_tx env actor Act_warn input d = warn_tx env actor input d"
| "moderate_tx env actor Act_restrict_requests input d = restrict_tx env actor Act_restrict_requests input d"
| "moderate_tx env actor Act_restrict_helping input d = restrict_tx env actor Act_restrict_helping input d"
| "moderate_tx env actor Act_suspend input d = suspend_tx env actor input d"
| "moderate_tx env actor Act_unsuspend input d = unsuspend_tx env actor input d"
| "moderate_tx env actor Act_event_pause input d = event_pause_tx env actor Act_event_pause input d"
| "moderate_tx env actor Act_event_unpause input d = event_pause_tx env actor Act_event_unpause input d"
| "moderate_tx env actor Act_event_approve_public input d = event_approve_tx env actor Act_event_approve_public input d"
| "moderate_tx env actor Act_event_reject_public input d = event_approve_tx env actor Act_event_reject_public input d"
| "moderate_tx env actor Act_event_disable input d = event_disable_tx env actor input d"
| "moderate_tx env actor Act_match_cancel input d = match_cancel_tx env actor input d"
| "moderate_tx env actor Act_report_resolve input d = report_tx env actor Act_report_resolve input d"
| "moderate_tx env actor Act_report_dismiss input d = report_tx env actor Act_report_dismiss input d"

definition moderate :: "env \<Rightarrow> actor \<Rightarrow> moderate_input \<Rightarrow> db \<Rightarrow> unit outcome" where
  "moderate env actor input d =
     (if \<not> actionAllowedForRole (md_action input) (ac_role actor) (md_durationHours input)
      then (d, [], Inl Forbidden)
      else (case md_action input of
        None \<Rightarrow> (d, [], Inl Forbidden)
      | Some action \<Rightarrow> commit d (moderate_tx env (ac_userId actor) action input d) (\<lambda>(d', after). after d')))"

end
