(* ===== verification/Crypto.thy ===== *)
theory Crypto
  imports Shared_Constants Calendar
begin

text \<open>
  \<open>server/src/lib/crypto.ts\<close> and \<open>rateLimit\<close> of \<open>lib/redis.ts\<close>. The primitives of \<open>node:crypto\<close>
  (AES-GCM, HMAC, SHA-256, scrypt, random bytes), Unicode normalization and case mapping are
  parameters; bytes are numbers below 256. What the code builds around them is written out: base64
  and hex, the layout of a ciphertext and of a password record, the sampling of codes.
\<close>

subsection \<open>Strings and buffers\<close>

text \<open>White space as \<open>String.prototype.trim\<close> strips it.\<close>

definition is_js_space :: "nat \<Rightarrow> bool" where
  "is_js_space c \<longleftrightarrow> c \<in> set [9, 10, 11, 12, 13, 32, 160, 5760, 8232, 8233, 8239, 8287, 12288, 65279]
     \<or> (8192 \<le> c \<and> c \<le> 8202)"

definition js_trim :: "utext \<Rightarrow> utext" where
  "js_trim t = rev (dropWhile is_js_space (rev (dropWhile is_js_space t)))"

fun split_by :: "'a \<Rightarrow> 'a list \<Rightarrow> 'a list list" where
  "split_by x [] = [[]]"
| "split_by x (c # s) =
     (if c = x then [] # split_by x s
      else (case split_by x s of [] \<Rightarrow> [[c]] | w # ws \<Rightarrow> (c # w) # ws))"

definition index_of :: "'a \<Rightarrow> 'a list \<Rightarrow> nat option" where
  "index_of c s = (let n = length (takeWhile (\<lambda>x. x \<noteq> c) s) in if n < length s then Some n else None)"

definition BASE64 :: string where
  "BASE64 = ''ABCDEFGHIJKLMNOPQRSTUVWXYZabcdefghijklmnopqrstuvwxyz0123456789+/''"

fun to_base64 :: "nat list \<Rightarrow> string" where
  "to_base64 [] = []"
| "to_base64 [a] = [BASE64 ! (a div 4), BASE64 ! ((a mod 4) * 16), CHR ''='', CHR ''='']"
| "to_base64 [a, b] = [BASE64 ! (a div 4), BASE64 ! ((a mod 4) * 16 + b div 16),
     BASE64 ! ((b mod 16) * 4), CHR ''='']"
| "to_base64 (a # b # c # r) = [BASE64 ! (a div 4), BASE64 ! ((a mod 4) * 16 + b div 16),
     BASE64 ! ((b mod 16) * 4 + c div 64), BASE64 ! (c mod 64)] @ to_base64 r"

text \<open>\<open>Buffer.from(s, 'base64')\<close> reads up to the padding, skips other characters, knows both alphabets.\<close>

definition sextet :: "char \<Rightarrow> nat option" where
  "sextet c = (if c = CHR ''-'' then Some 62 else if c = CHR ''_'' then Some 63 else index_of c BASE64)"

fun of_sextets :: "nat list \<Rightarrow> nat list" where
  "of_sextets (a # b # c # d # r) = [a * 4 + b div 16, (b mod 16) * 16 + c div 4, (c mod 4) * 64 + d] @ of_sextets r"
| "of_sextets [a, b, c] = [a * 4 + b div 16, (b mod 16) * 16 + c div 4]"
| "of_sextets [a, b] = [a * 4 + b div 16]"
| "of_sextets _ = []"

definition from_base64 :: "string \<Rightarrow> nat list" where
  "from_base64 s = of_sextets (List.map_filter sextet (takeWhile (\<lambda>c. c \<noteq> CHR ''='') s))"

text \<open>\<open>Buffer.from(s, 'hex')\<close> stops at the first pair that is not two hex digits.\<close>

definition hex_digit :: "char \<Rightarrow> nat option" where
  "hex_digit c = (case index_of c ''0123456789abcdef'' of Some n \<Rightarrow> Some n
     | None \<Rightarrow> index_of c ''0123456789ABCDEF'')"

fun from_hex :: "string \<Rightarrow> nat list" where
  "from_hex (a # b # r) = (case (hex_digit a, hex_digit b) of
     (Some x, Some y) \<Rightarrow> (x * 16 + y) # from_hex r | _ \<Rightarrow> [])"
| "from_hex _ = []"

definition safeEqualHex :: "string \<Rightarrow> string \<Rightarrow> bool" where
  "safeEqualHex a b \<longleftrightarrow> length (from_hex a) = length (from_hex b) \<and> from_hex a = from_hex b"

subsection \<open>Personal data at rest\<close>

text \<open>
  \<open>seal iv plain\<close> is the AES-256-GCM encryption under the configured key, the ciphertext with its tag
  of 16 bytes; \<open>unseal iv tag enc\<close> its inverse, \<open>None\<close> when the tag does not fit.
\<close>

definition encryptPii :: "(nat list \<Rightarrow> nat list \<Rightarrow> nat list \<times> nat list) \<Rightarrow> nat list \<Rightarrow> nat list \<Rightarrow> string" where
  "encryptPii seal iv plain = (let (enc, tag) = seal iv plain in to_base64 (iv @ tag @ enc))"

definition decryptPii :: "(nat list \<Rightarrow> nat list \<Rightarrow> nat list \<Rightarrow> nat list option) \<Rightarrow> string \<Rightarrow> nat list option" where
  "decryptPii unseal payload = (let buf = from_base64 payload in
     unseal (take 12 buf) (take 16 (drop 12 buf)) (drop 28 buf))"

definition emailBlindIndex :: "(utext \<Rightarrow> string) \<Rightarrow> (utext \<Rightarrow> utext) \<Rightarrow> utext \<Rightarrow> string" where
  "emailBlindIndex hmac toLowerCase email = hmac (toLowerCase (js_trim email))"

definition hashOtp :: "(utext \<Rightarrow> string) \<Rightarrow> string \<Rightarrow> string \<Rightarrow> string" where
  "hashOtp hmac code identityHmac = hmac (lit (identityHmac @ '':'' @ code))"

definition newSessionToken :: "(utext \<Rightarrow> string) \<Rightarrow> string \<Rightarrow> string \<times> string" where
  "newSessionToken sha256 token = (token, sha256 (lit token))"

subsection \<open>Codes\<close>

text \<open>
  \<open>newOtpCode\<close> draws a byte at a time and keeps those below 250. It is given the bytes it draws;
  \<open>None\<close> means that they end before the code is complete.
\<close>

fun newOtpCode :: "nat \<Rightarrow> nat list \<Rightarrow> string option" where
  "newOtpCode 0 draws = Some []"
| "newOtpCode (Suc n) [] = None"
| "newOtpCode (Suc n) (b # draws) =
     (if b < 250 then map_option (\<lambda>code. digit_char (b mod 10) # code) (newOtpCode n draws)
      else newOtpCode (Suc n) draws)"

definition PASSWORD_ALPHABET :: string where
  "PASSWORD_ALPHABET = ''abcdefghjkmnpqrstuvwxyzABCDEFGHJKMNPQRSTUVWXYZ23456789''"

definition CODE_ALPHABET :: string where
  "CODE_ALPHABET = ''ABCDEFGHJKMNPQRSTUVWXYZ23456789''"

definition pick_chars :: "string \<Rightarrow> nat list \<Rightarrow> string" where
  "pick_chars alphabet bytes = map (\<lambda>b. alphabet ! (b mod length alphabet)) bytes"

text \<open>The bytes of the four groups, and of the two halves of a code.\<close>

definition newAdminPassword :: "nat list \<Rightarrow> string" where
  "newAdminPassword bytes =
     pick_chars PASSWORD_ALPHABET (take 5 bytes) @ ''-'' @ pick_chars PASSWORD_ALPHABET (take 5 (drop 5 bytes))
     @ ''-'' @ pick_chars PASSWORD_ALPHABET (take 5 (drop 10 bytes)) @ ''-''
     @ pick_chars PASSWORD_ALPHABET (take 5 (drop 15 bytes))"

definition shortCode :: "nat \<Rightarrow> nat \<Rightarrow> nat list \<Rightarrow> string" where
  "shortCode prefixLen suffixLen bytes = pick_chars CODE_ALPHABET (take prefixLen bytes) @ ''-''
     @ pick_chars CODE_ALPHABET (take suffixLen (drop prefixLen bytes))"

subsection \<open>Passwords\<close>

text \<open>
  \<open>scrypt password salt keyLen N r p\<close> is \<open>scryptSync\<close> on the normalized password, \<open>None\<close> when it
  throws. \<open>toNumber\<close> is \<open>Number\<close>, \<open>None\<close> for what is not an integer.
\<close>

type_synonym scrypt_fun = "utext \<Rightarrow> nat list \<Rightarrow> nat \<Rightarrow> int \<Rightarrow> int \<Rightarrow> int \<Rightarrow> nat list option"

definition hashPassword :: "scrypt_fun \<Rightarrow> (utext \<Rightarrow> utext) \<Rightarrow> nat \<Rightarrow> nat list \<Rightarrow> utext \<Rightarrow> string option" where
  "hashPassword scrypt nfkc costLog2 salt password =
     map_option (\<lambda>h. ''scrypt$'' @ decimal (2 ^ costLog2) @ ''$'' @ decimal 8 @ ''$'' @ decimal 1 @ ''$''
                     @ to_base64 salt @ ''$'' @ to_base64 h)
       (scrypt (nfkc password) salt 32 (2 ^ costLog2) 8 1)"

definition verifyPassword ::
  "scrypt_fun \<Rightarrow> (utext \<Rightarrow> utext) \<Rightarrow> (string \<Rightarrow> int option) \<Rightarrow> utext \<Rightarrow> string \<Rightarrow> bool" where
  "verifyPassword scrypt nfkc toNumber password stored =
     (case split_by (CHR ''$'') stored of
        [tag, nRaw, rRaw, pRaw, saltB64, hashB64] \<Rightarrow>
          if tag \<noteq> ''scrypt'' then False
          else (case (toNumber nRaw, toNumber rRaw, toNumber pRaw) of
              (Some N, Some r, Some p) \<Rightarrow>
                let expected = from_base64 hashB64 in
                if expected = [] then False
                else (case scrypt (nfkc password) (from_base64 saltB64) (length expected) N r p of
                    None \<Rightarrow> False
                  | Some actual \<Rightarrow> actual = expected)
            | _ \<Rightarrow> False)
      | _ \<Rightarrow> False)"

subsection \<open>The rate limiter\<close>

text \<open>
  A counter per scope, identity and window, so the expiry of a key only frees memory. The answer
  is true when the call is allowed.
\<close>

type_synonym rate_key = "string \<times> utext \<times> int"

definition rateLimit ::
  "string \<Rightarrow> utext \<Rightarrow> nat \<Rightarrow> int \<Rightarrow> instant \<Rightarrow> (rate_key \<Rightarrow> nat) \<Rightarrow> (rate_key \<Rightarrow> nat) \<times> bool" where
  "rateLimit scope who limit windowSec t counts =
     (let key = (scope, who, t div (windowSec * 1000)); n = Suc (counts key)
      in (counts(key := n), n \<le> limit))"

end
