(* ===== verification/Data_Requests.thy ===== *)
theory Data_Requests
  imports Moderation Crypto
begin

text \<open>
  \<open>server/src/modules/privacy/service.ts\<close> and \<open>server/src/workers/data-request.ts\<close>: the export of a
  user's own data and the deletion of an account, a sequence of steps that are transactions of their
  own. The result of \<open>randomBytes\<close> and the case mapping of strings are parameters.
\<close>

subsection \<open>The export bundle\<close>

definition export_profile_of :: "user \<Rightarrow> export_profile" where
  "export_profile_of u = \<lparr>xp_pseudonym = u_pseudonym u, xp_locale = u_locale u, xp_createdAt = u_createdAt u,
     xp_emailVerified = (u_emailVerifiedAt u \<noteq> None)\<rparr>"

definition export_sessions :: "uid \<Rightarrow> db \<Rightarrow> export_session list" where
  "export_sessions u d = map (\<lambda>s. \<lparr>xs_platform = se_platform s, xs_deviceName = se_deviceName s,
       xs_createdAt = se_createdAt s, xs_lastSeenAt = se_lastSeenAt s, xs_revoked = (se_revokedAt s \<noteq> None)\<rparr>)
     (newest_first se_createdAt (filter (\<lambda>s. se_userId s = u) (sessions d)))"

definition export_events :: "uid \<Rightarrow> db \<Rightarrow> export_event list" where
  "export_events u d = List.map_filter (\<lambda>m. map_option (\<lambda>e. \<lparr>xe_title = e_title e, xe_code = e_code e,
       xe_joinedAt = mb_joinedAt m, xe_leftAt = mb_leftAt m, xe_role = mb_role m\<rparr>)
       (by_key e_id (mb_eventId m) (events d)))
     (newest_first mb_joinedAt (filter (\<lambda>m. mb_userId m = u) (memberships d)))"

text \<open>The inner joins with the category and the event of a row.\<close>

definition joined :: "db \<Rightarrow> uid \<Rightarrow> uid \<Rightarrow> (category \<times> event) option" where
  "joined d cid eid = (case by_key c_id cid (categories d) of None \<Rightarrow> None
     | Some c \<Rightarrow> map_option (\<lambda>e. (c, e)) (by_key e_id eid (events d)))"

definition export_inventory :: "uid \<Rightarrow> db \<Rightarrow> export_item list" where
  "export_inventory u d = List.map_filter (\<lambda>i. map_option (\<lambda>(c, e). \<lparr>xi_eventTitle = e_title e,
       xi_categorySlug = c_slug c, xi_qtyOnHand = i_qtyOnHand i, xi_qtyReserved = i_qtyReserved i,
       xi_unit = i_unit i, xi_details = i_details i, xi_active = i_active i, xi_createdAt = i_createdAt i\<rparr>)
       (joined d (i_categoryId i) (i_eventId i)))
     (newest_first i_createdAt (filter (\<lambda>i. i_userId i = u) (inventoryItems d)))"

definition export_requests :: "uid \<Rightarrow> db \<Rightarrow> export_request list" where
  "export_requests u d = List.map_filter (\<lambda>r. map_option (\<lambda>(c, e). \<lparr>xr_eventTitle = e_title e,
       xr_categorySlug = c_slug c, xr_qty = r_qty r, xr_qtyFulfilled = r_qtyFulfilled r, xr_unit = r_unit r,
       xr_urgency = r_urgency r, xr_note = r_note r, xr_status = r_status r, xr_createdAt = r_createdAt r\<rparr>)
       (joined d (r_categoryId r) (r_eventId r)))
     (newest_first r_createdAt (filter (\<lambda>r. r_requesterId r = u) (requests d)))"

definition match_slug :: "db \<Rightarrow> match_row \<Rightarrow> string option" where
  "match_slug d m = (case by_key r_id (m_requestId m) (requests d) of None \<Rightarrow> None
     | Some r \<Rightarrow> map_option c_slug (by_key c_id (r_categoryId r) (categories d)))"

definition export_matches :: "uid \<Rightarrow> db \<Rightarrow> export_match list" where
  "export_matches u d = List.map_filter (\<lambda>m. map_option (\<lambda>slug.
       let isRequester = (m_requesterId m = u) in
       \<lparr>xm_role = (if isRequester then Requester_role else Helper_role), xm_categorySlug = slug,
        xm_myAlias = (if isRequester then m_requesterAlias m else m_helperAlias m),
        xm_peerAlias = (if isRequester then m_helperAlias m else m_requesterAlias m),
        xm_qtyReserved = m_qtyReserved m,
        xm_myConfirmedQty = (if isRequester then m_requesterConfirmedQty m else m_helperConfirmedQty m),
        xm_status = m_status m, xm_createdAt = m_createdAt m, xm_closedAt = m_closedAt m\<rparr>)
       (match_slug d m))
     (newest_first m_createdAt (filter (\<lambda>m. m_requesterId m = u \<or> m_helperId m = u) (matches d)))"

definition export_messages :: "uid \<Rightarrow> db \<Rightarrow> export_message list" where
  "export_messages u d = map (\<lambda>m. \<lparr>xg_conversationId = ms_conversationId m, xg_kind = ms_kind m,
       xg_body = ms_body m, xg_createdAt = ms_createdAt m\<rparr>)
     (sort_key ms_createdAt (filter (\<lambda>m. ms_senderId m = u) (messages d)))"

definition export_reports :: "uid \<Rightarrow> db \<Rightarrow> export_report list" where
  "export_reports u d = map (\<lambda>r. \<lparr>xo_category = rp_category r, xo_status = rp_status r,
       xo_createdAt = rp_createdAt r\<rparr>)
     (newest_first rp_createdAt (filter (\<lambda>r. rp_reporterId r = Some u) (reports d)))"

definition export_consents :: "uid \<Rightarrow> db \<Rightarrow> export_consent list" where
  "export_consents u d = map (\<lambda>c. \<lparr>xc_kind = cr_kind c, xc_granted = cr_granted c, xc_createdAt = cr_createdAt c\<rparr>)
     (newest_first cr_createdAt (filter (\<lambda>c. cr_userId c = u) (consentRecords d)))"

definition export_notifications :: "uid \<Rightarrow> db \<Rightarrow> export_notification list" where
  "export_notifications u d = map (\<lambda>n. \<lparr>xn_type = nt_type n, xn_titleKey = nt_titleKey n,
       xn_bodyKey = nt_bodyKey n, xn_params = nt_params n, xn_createdAt = nt_createdAt n, xn_readAt = nt_readAt n\<rparr>)
     (newest_first nt_createdAt (filter (\<lambda>n. nt_userId n = u) (notifications d)))"

definition buildExportBundle :: "env \<Rightarrow> uid \<Rightarrow> db \<Rightarrow> export_bundle option" where
  "buildExportBundle env u d = map_option (\<lambda>user.
     \<lparr>xb_generatedAt = now env, xb_profile = export_profile_of user, xb_sessions = export_sessions u d,
      xb_events = export_events u d, xb_inventory = export_inventory u d, xb_requests = export_requests u d,
      xb_matches = export_matches u d, xb_messages = export_messages u d, xb_reports = export_reports u d,
      xb_blocks = map bl_createdAt (newest_first bl_createdAt (filter (\<lambda>b. bl_blockerId b = u) (blocks d))),
      xb_consents = export_consents u d, xb_notifications = export_notifications u d\<rparr>)
     (by_key u_id u (users d))"

definition update_data_request :: "uid \<Rightarrow> (data_request \<Rightarrow> data_request) \<Rightarrow> db \<Rightarrow> db" where
  "update_data_request k f d = d\<lparr>dataRequests := upd_key dr_id k f (dataRequests d)\<rparr>"

text \<open>A user that does not exist makes the job fail with a plain error.\<close>

definition processExport :: "env \<Rightarrow> data_request \<Rightarrow> db \<Rightarrow> unit outcome" where
  "processExport env row d =
     (if dr_status row \<in> {Data_ready, Data_done} then (d, [], Inr ())
      else case buildExportBundle env (dr_userId row) d of
        None \<Rightarrow> (d, [], Inl (Internal ''user not found for export''))
      | Some payload \<Rightarrow>
          (update_data_request (dr_id row) (\<lambda>x. x\<lparr>dr_payload := Some payload, dr_status := Data_ready,
             dr_completedAt := Some (now env)\<rparr>) d,
           [Notify_job \<lparr>nj_userId = dr_userId row, nj_type = N_account_security,
              nj_titleKey = ''settings.exportData'', nj_bodyKey = ''settings.exportReady'', nj_params = [],
              nj_deepLink = Some Settings_link, nj_dedupeKey = Some (Export_key (dr_id row))\<rparr>], Inr ()))"

subsection \<open>Deleting an account\<close>

definition close_for_deletion :: "env \<Rightarrow> request \<Rightarrow> db \<Rightarrow> app_error + db" where
  "close_for_deletion env request d =
     (let d1 = d\<lparr>matchOffers := upd_where (\<lambda>x. o_requestId x = r_id request \<and> o_status x = Offered)
                  (\<lambda>x. x\<lparr>o_status := Superseded, o_respondedAt := Some (now env)\<rparr>) (matchOffers d)\<rparr> in
      r_bind (transitionRequest env request Cancelled System_actor ''account_deleted''
                (\<lambda>r. r\<lparr>r_closedAt := Some (now env)\<rparr>) d1) (\<lambda>(d2, _). Inr d2))"

definition cancel_open_requests :: "env \<Rightarrow> uid \<Rightarrow> db \<Rightarrow> app_error + db" where
  "cancel_open_requests env u d = r_fold (close_for_deletion env)
     (filter (\<lambda>r. r_requesterId r = u \<and> r_status r \<in> {Searching, Offering}) (requests d)) d"

definition drop_devices :: "uid \<Rightarrow> db \<Rightarrow> db" where
  "drop_devices u d = d\<lparr>sessions := filter (\<lambda>s. se_userId s \<noteq> u) (sessions d),
     pushTokens := filter (\<lambda>t. pt_userId t \<noteq> u) (pushTokens d),
     availability := filter (\<lambda>a. av_userId a \<noteq> u) (availability d),
     memberLocations := filter (\<lambda>l. ml_userId l \<noteq> u) (memberLocations d)\<rparr>"

definition collapse_item :: "env \<Rightarrow> item \<Rightarrow> item" where
  "collapse_item env i = i\<lparr>i_qtyOnHand := i_qtyReserved i, i_active := False, i_updatedAt := now env\<rparr>"

definition collapse_inventory :: "env \<Rightarrow> uid \<Rightarrow> db \<Rightarrow> app_error + db" where
  "collapse_inventory env u d =
     (if list_all (\<lambda>i. i_userId i = u \<longrightarrow> item_check (collapse_item env i)) (inventoryItems d)
      then Inr (d\<lparr>inventoryItems := upd_where (\<lambda>i. i_userId i = u) (collapse_item env) (inventoryItems d)\<rparr>)
      else Inl (Internal ''23514''))"

definition drop_personal :: "uid \<Rightarrow> db \<Rightarrow> db" where
  "drop_personal u d = d\<lparr>notifications := filter (\<lambda>n. nt_userId n \<noteq> u) (notifications d),
     notificationPrefs := filter (\<lambda>p. np_userId p \<noteq> u) (notificationPrefs d),
     blocks := filter (\<lambda>b. bl_blockerId b \<noteq> u) (blocks d)\<rparr>"

definition anonymized :: "env \<Rightarrow> string \<Rightarrow> user \<Rightarrow> user" where
  "anonymized env seed x = x\<lparr>u_pseudonym := ''Deleted User'', u_avatarSeed := seed, u_phoneEnc := None,
     u_phoneHmac := None, u_phoneVerifiedAt := None, u_emailEnc := None, u_emailHmac := None,
     u_emailVerifiedAt := None, u_status := User_deleted, u_deletedAt := Some (now env)\<rparr>"

text \<open>Each step commits before the next one starts, so an error keeps what is done; the job is retried.\<close>

definition performAccountDeletion :: "env \<Rightarrow> string \<Rightarrow> uid \<Rightarrow> db \<Rightarrow> unit outcome" where
  "performAccountDeletion env seed u d =
     (case cancel_each env ''account_deleted''
             (active_match_ids (\<lambda>m. m_requesterId m = u \<or> m_helperId m = u) d) d of
        (d1, es, Inl e) \<Rightarrow> (d1, es, Inl e)
      | (d1, es, Inr _) \<Rightarrow>
     (case cancel_open_requests env u d1 of
        Inl e \<Rightarrow> (d1, es, Inl e)
      | Inr d2 \<Rightarrow>
     (case collapse_inventory env u (drop_devices u d2) of
        Inl e \<Rightarrow> (drop_devices u d2, es, Inl e)
      | Inr d3 \<Rightarrow> (update_user u (anonymized env seed) (drop_personal u d3), es, Inr ()))))"

definition processDelete :: "env \<Rightarrow> string \<Rightarrow> data_request \<Rightarrow> db \<Rightarrow> unit outcome" where
  "processDelete env seed row d =
     (if dr_status row = Data_done then (d, [], Inr ())
      else case performAccountDeletion env seed (dr_userId row) d of
        (d1, es, Inl e) \<Rightarrow> (d1, es, Inl e)
      | (d1, es, Inr _) \<Rightarrow>
          (update_data_request (dr_id row) (\<lambda>x. x\<lparr>dr_status := Data_done, dr_completedAt := Some (now env)\<rparr>) d1,
           es, Inr ()))"

definition processDataRequest :: "env \<Rightarrow> string \<Rightarrow> uid \<Rightarrow> db \<Rightarrow> unit outcome" where
  "processDataRequest env seed k d =
     (case by_key dr_id k (dataRequests d) of
        None \<Rightarrow> (d, [], Inr ())
      | Some row \<Rightarrow> (case dr_kind row of
          Export_request \<Rightarrow> processExport env row d
        | Delete_request \<Rightarrow> processDelete env seed row d))"

subsection \<open>The requests of the user\<close>

definition EXPORTS_PER_DAY :: nat where "EXPORTS_PER_DAY = 2"

definition EXPORT_DOWNLOAD_PATH :: string where "EXPORT_DOWNLOAD_PATH = ''/api/v1/me/export/download''"

record data_export_view =
  xv_ready :: bool   \<comment> \<open>\<open>'ready'\<close> or \<open>'pending'\<close>\<close>
  xv_requestedAt :: instant
  xv_downloadUrl :: "string option"

definition toExportView :: "data_request \<Rightarrow> data_export_view" where
  "toExportView row = (let ready = dr_status row \<in> {Data_ready, Data_done} in
     \<lparr>xv_ready = ready, xv_requestedAt = dr_createdAt row,
      xv_downloadUrl = (if ready then Some EXPORT_DOWNLOAD_PATH else None)\<rparr>)"

definition new_data_request :: "env \<Rightarrow> uid \<Rightarrow> data_request_kind \<Rightarrow> db \<Rightarrow> db \<times> data_request" where
  "new_data_request env u kind d =
     (let row = \<lparr>dr_id = next_id d, dr_userId = u, dr_kind = kind, dr_status = Data_pending,
                 dr_payload = None, dr_createdAt = now env, dr_completedAt = None\<rparr>
      in (d\<lparr>dataRequests := dataRequests d @ [row], next_id := Suc (next_id d)\<rparr>, row))"

text \<open>\<open>allowed\<close> is the answer of the rate limiter (\<open>EXPORTS_PER_DAY\<close>), false when it fails.\<close>

definition requestExport :: "env \<Rightarrow> bool \<Rightarrow> uid \<Rightarrow> db \<Rightarrow> data_export_view outcome" where
  "requestExport env allowed u d =
     (if \<not> allowed then (d, [], Inl Rate_limited)
      else let (d1, row) = new_data_request env u Export_request d
           in (d1, [Data_request_job (dr_id row)], Inr (toExportView row)))"

definition latest_request :: "(data_request \<Rightarrow> bool) \<Rightarrow> db \<Rightarrow> data_request option" where
  "latest_request P d = (case newest_first dr_createdAt (filter P (dataRequests d)) of [] \<Rightarrow> None | r # _ \<Rightarrow> Some r)"

definition getLatestExport :: "uid \<Rightarrow> db \<Rightarrow> app_error + data_export_view" where
  "getLatestExport u d = r_bind (or_throw Not_found
     (latest_request (\<lambda>r. dr_userId r = u \<and> dr_kind r = Export_request) d)) (\<lambda>row. Inr (toExportView row))"

definition getExportPayload :: "uid \<Rightarrow> db \<Rightarrow> app_error + export_bundle" where
  "getExportPayload u d = r_bind (or_throw Not_found
     (latest_request (\<lambda>r. dr_userId r = u \<and> dr_kind r = Export_request \<and> dr_status r = Data_ready) d))
     (\<lambda>row. or_throw Not_found (dr_payload row))"

definition delete_request_tx :: "env \<Rightarrow> uid \<Rightarrow> db \<Rightarrow> db \<times> uid list \<times> uid" where
  "delete_request_tx env u d =
     (let revoked = map se_id (filter (live_session u) (sessions d));
          d1 = revoke_sessions env (live_session u) d;
          d2 = update_user u (\<lambda>x. x\<lparr>u_status := User_deleted\<rparr>) d1;
          (d3, row) = new_data_request env u Delete_request d2
      in (d3, revoked, dr_id row))"

definition requestAccountDeletion :: "env \<Rightarrow> (utext \<Rightarrow> utext) \<Rightarrow> uid \<Rightarrow> utext \<Rightarrow> db \<Rightarrow> unit outcome" where
  "requestAccountDeletion env toLowerCase u confirmPseudonym d =
     (case by_key u_id u (users d) of
        None \<Rightarrow> (d, [], Inl Unauthorized)
      | Some user \<Rightarrow>
          if toLowerCase (js_trim confirmPseudonym) \<noteq> toLowerCase (js_trim (lit (u_pseudonym user)))
          then (d, [], Inl (Validation ''confirmPseudonym''))
          else let (d1, revoked, k) = delete_request_tx env u d
               in (d1, map (\<lambda>s. Publish u Session_revoked (P_session_revoked s)) revoked @ [Data_request_job k], Inr ()))"

definition listConsents :: "uid \<Rightarrow> db \<Rightarrow> export_consent list" where
  "listConsents u d = export_consents u d"

end
