(* ===== verification/Ledger.thy ===== *)
theory Ledger
  imports Store
begin

text \<open>
  The accounting invariant of the exchange, over the four tables it concerns, and how each kind of
  write keeps it. A reservation is held by exactly the matches whose inventory was not applied yet;
  a request is matched exactly when it has an active match; an open offer belongs to an offering
  request, one at a time. The handlers are shown to keep it in theory \<open>Exchange\<close>.
\<close>

subsection \<open>The invariant\<close>

definition held :: "match_row list \<Rightarrow> uid \<Rightarrow> qty" where
  "held ms iid = sum_where (\<lambda>m. m_inventoryItemId m = iid \<and> \<not> m_inventoryApplied m) m_qtyReserved ms"

definition ids_ok :: "nat \<Rightarrow> ('r \<Rightarrow> uid) \<Rightarrow> 'r list \<Rightarrow> bool" where
  "ids_ok n key t \<longleftrightarrow> distinct (map key t) \<and> (\<forall>r \<in> set t. key r < n)"

definition stock_ok :: "item list \<Rightarrow> match_row list \<Rightarrow> bool" where
  "stock_ok is ms \<longleftrightarrow> (\<forall>i \<in> set is. item_check i \<and> i_qtyReserved i = held ms (i_id i))"

definition confirmed_ok :: "match_row \<Rightarrow> qty option \<Rightarrow> bool" where
  "confirmed_ok m c \<longleftrightarrow> (case c of None \<Rightarrow> True | Some q \<Rightarrow> 0 \<le> q \<and> q \<le> m_qtyReserved m)"

definition match_ok :: "match_row \<Rightarrow> bool" where
  "match_ok m \<longleftrightarrow> 0 < m_qtyReserved m \<and> (m_status m = M_active \<longleftrightarrow> \<not> m_inventoryApplied m)
     \<and> confirmed_ok m (m_requesterConfirmedQty m) \<and> confirmed_ok m (m_helperConfirmedQty m)
     \<and> (m_status m = M_active \<longrightarrow> m_requesterConfirmedQty m = None \<or> m_helperConfirmedQty m = None)
     \<and> m_requesterId m \<noteq> m_helperId m \<and> (m_reliabilityApplied m \<longrightarrow> m_inventoryApplied m)"

definition matches_ok :: "item list \<Rightarrow> match_row list \<Rightarrow> bool" where
  "matches_ok is ms \<longleftrightarrow> (\<forall>m \<in> set ms. match_ok m \<and> (\<not> m_inventoryApplied m \<longrightarrow> m_inventoryItemId m \<in> i_id ` set is))"

definition serves :: "request \<Rightarrow> match_row \<Rightarrow> bool" where
  "serves r m \<longleftrightarrow> r_id r = m_requestId m \<and> r_status r = Matched \<and> r_requesterId r = m_requesterId m
     \<and> m_qtyReserved m \<le> r_qty r - r_qtyFulfilled r"

definition all_served :: "request list \<Rightarrow> match_row list \<Rightarrow> bool" where
  "all_served rs ms \<longleftrightarrow> (\<forall>m \<in> set ms. m_status m = M_active \<longrightarrow> (\<exists>r \<in> set rs. serves r m))"

definition one_active :: "match_row list \<Rightarrow> bool" where
  "one_active ms \<longleftrightarrow> (\<forall>a \<in> set ms. \<forall>b \<in> set ms. m_status a = M_active \<longrightarrow> m_status b = M_active
     \<longrightarrow> m_requestId a = m_requestId b \<longrightarrow> m_id a = m_id b)"

definition matched_backed :: "request list \<Rightarrow> match_row list \<Rightarrow> bool" where
  "matched_backed rs ms \<longleftrightarrow> (\<forall>r \<in> set rs. r_status r = Matched \<longrightarrow>
     (\<exists>m \<in> set ms. m_status m = M_active \<and> m_requestId m = r_id r))"

definition awaited :: "request list \<Rightarrow> match_offer \<Rightarrow> bool" where
  "awaited rs x \<longleftrightarrow> (\<exists>r \<in> set rs. r_id r = o_requestId x \<and> r_status r = Offering
     \<and> r_requesterId r \<noteq> o_helperId x)"

definition offer_rows_ok :: "request list \<Rightarrow> match_offer list \<Rightarrow> bool" where
  "offer_rows_ok rs os \<longleftrightarrow> (\<forall>x \<in> set os. 0 < o_qty x \<and> (o_status x = Offered \<longrightarrow> awaited rs x))"

definition one_open :: "match_offer list \<Rightarrow> bool" where
  "one_open os \<longleftrightarrow> (\<forall>a \<in> set os. \<forall>b \<in> set os. o_status a = Offered \<longrightarrow> o_status b = Offered
     \<longrightarrow> o_requestId a = o_requestId b \<longrightarrow> o_id a = o_id b)"

definition asked_once :: "match_offer list \<Rightarrow> bool" where
  "asked_once os \<longleftrightarrow> (\<forall>a \<in> set os. \<forall>b \<in> set os. o_requestId a = o_requestId b
     \<longrightarrow> o_helperId a = o_helperId b \<longrightarrow> o_id a = o_id b)"

definition requests_ok :: "request list \<Rightarrow> bool" where
  "requests_ok rs \<longleftrightarrow> (\<forall>r \<in> set rs. request_check r)"

definition core_inv :: "nat \<Rightarrow> item list \<Rightarrow> request list \<Rightarrow> match_offer list \<Rightarrow> match_row list \<Rightarrow> bool" where
  "core_inv n is rs os ms \<longleftrightarrow>
     ids_ok n i_id is \<and> ids_ok n r_id rs \<and> ids_ok n o_id os \<and> ids_ok n m_id ms
     \<and> requests_ok rs \<and> stock_ok is ms \<and> matches_ok is ms
     \<and> all_served rs ms \<and> one_active ms \<and> matched_backed rs ms
     \<and> offer_rows_ok rs os \<and> one_open os \<and> asked_once os"

lemma core_invI:
  assumes "ids_ok n i_id is" "ids_ok n r_id rs" "ids_ok n o_id os" "ids_ok n m_id ms"
    "requests_ok rs" "stock_ok is ms" "matches_ok is ms"
    "all_served rs ms" "one_active ms" "matched_backed rs ms"
    "offer_rows_ok rs os" "one_open os" "asked_once os"
  shows "core_inv n is rs os ms"
  using assms by (simp add: core_inv_def)

lemma core_invD:
  assumes "core_inv n is rs os ms"
  shows "ids_ok n i_id is" "ids_ok n r_id rs" "ids_ok n o_id os" "ids_ok n m_id ms"
    "requests_ok rs" "stock_ok is ms" "matches_ok is ms"
    "all_served rs ms" "one_active ms" "matched_backed rs ms"
    "offer_rows_ok rs os" "one_open os" "asked_once os"
  using assms by (simp_all add: core_inv_def)

subsection \<open>Identifiers\<close>

lemma upd_key_mem: "r \<in> set (upd_key key k f t) \<longleftrightarrow> (\<exists>r0 \<in> set t. r = (if key r0 = k then f r0 else r0))"
  by (force simp: upd_key_def upd_where_def)

lemma upd_key_other: "r \<in> set t \<Longrightarrow> key r \<noteq> k \<Longrightarrow> r \<in> set (upd_key key k f t)"
  by (auto simp: upd_key_mem intro!: bexI[of _ r])

lemma upd_key_hit: "r \<in> set t \<Longrightarrow> key r = k \<Longrightarrow> f r \<in> set (upd_key key k f t)"
  by (auto simp: upd_key_mem intro!: bexI[of _ r])

lemma upd_key_keys: "(\<And>r. key (f r) = key r) \<Longrightarrow> key ` set (upd_key key' k f t) = key ` set t"
  by (metis list.set_map map_upd_key)

lemma ids_ok_upd_key: "ids_ok n key t \<Longrightarrow> (\<And>r. key (f r) = key r) \<Longrightarrow> ids_ok n key (upd_key j k f t)"
  by (auto simp: ids_ok_def map_upd_where upd_key_def dest!: upd_where_mem split: if_splits)

lemma ids_ok_upd_where: "ids_ok n key t \<Longrightarrow> (\<And>r. key (f r) = key r) \<Longrightarrow> ids_ok n key (upd_where P f t)"
  by (auto simp: ids_ok_def map_upd_where dest!: upd_where_mem split: if_splits)

lemma ids_ok_insert: "ids_ok n key t \<Longrightarrow> key r = n \<Longrightarrow> ids_ok (Suc n) key (t @ [r])"
  by (auto simp: ids_ok_def less_Suc_eq)

lemma ids_ok_mono: "ids_ok n key t \<Longrightarrow> n \<le> n' \<Longrightarrow> ids_ok n' key t"
  by (auto simp: ids_ok_def)

lemma ids_ok_filter: "ids_ok n key t \<Longrightarrow> ids_ok n key (filter P t)"
  by (auto simp: ids_ok_def distinct_map_filter)

lemma ids_ok_inj: "ids_ok n key t \<Longrightarrow> a \<in> set t \<Longrightarrow> b \<in> set t \<Longrightarrow> key a = key b \<Longrightarrow> a = b"
  by (auto simp: ids_ok_def intro: distinct_key_inj)

lemma ids_ok_by_key: "ids_ok n key t \<Longrightarrow> by_key key k t = Some r \<longleftrightarrow> r \<in> set t \<and> key r = k"
  by (simp add: ids_ok_def by_key_distinct)

lemma core_inv_mono: "core_inv n is rs os ms \<Longrightarrow> n \<le> n' \<Longrightarrow> core_inv n' is rs os ms"
  by (auto simp: core_inv_def intro: ids_ok_mono)

subsection \<open>Reservations\<close>

lemma held_upd_same:
  assumes "\<And>m. m \<in> set ms \<Longrightarrow> m_inventoryItemId (f m) = m_inventoryItemId m
      \<and> m_inventoryApplied (f m) = m_inventoryApplied m \<and> m_qtyReserved (f m) = m_qtyReserved m"
  shows "held (upd_key m_id k f ms) iid = held ms iid"
  unfolding held_def upd_key_def using assms by (intro sum_where_upd_where_same) auto

lemma held_close:
  assumes "distinct (map m_id ms)" "m \<in> set ms" "\<not> m_inventoryApplied m"
    and "\<And>x. m_inventoryApplied (f x) \<and> m_inventoryItemId (f x) = m_inventoryItemId x"
  shows "held (upd_key m_id (m_id m) f ms) iid
     = held ms iid - (if iid = m_inventoryItemId m then m_qtyReserved m else 0)"
proof (cases "iid = m_inventoryItemId m")
  case True
  then show ?thesis unfolding held_def using assms
    by (subst sum_where_drop_row[where r = m]) auto
next
  case False
  have only: "x = m" if "x \<in> set ms" "m_id x = m_id m" for x
    using distinct_key_inj[OF assms(1) that(1) assms(2) that(2)] .
  from False have "held (upd_key m_id (m_id m) f ms) iid = held ms iid"
    unfolding held_def upd_key_def sum_where_def
    using assms(4) only by (induction ms) (auto split: if_splits)
  with False show ?thesis by simp
qed

lemma held_append: "held (ms @ [m]) iid = held ms iid
    + (if m_inventoryItemId m = iid \<and> \<not> m_inventoryApplied m then m_qtyReserved m else 0)"
  by (simp add: held_def)

lemma held_none: "(\<And>m. m \<in> set ms \<Longrightarrow> m_inventoryItemId m = iid \<Longrightarrow> m_inventoryApplied m) \<Longrightarrow> held ms iid = 0"
  unfolding held_def by (rule sum_where_empty) auto

lemma held_ge: "matches_ok is ms \<Longrightarrow> m \<in> set ms \<Longrightarrow> \<not> m_inventoryApplied m
    \<Longrightarrow> m_qtyReserved m \<le> held ms (m_inventoryItemId m)"
  unfolding held_def by (rule sum_where_ge_row) (auto simp: matches_ok_def match_ok_def)

subsection \<open>Writes to one table\<close>

lemma core_request_update:
  assumes inv: "core_inv n is rs os ms"
    and f: "\<And>r. r_id (f r) = r_id r" "\<And>r. r_requesterId (f r) = r_requesterId r"
    and chk: "\<And>r. r \<in> set rs \<Longrightarrow> r_id r = k \<Longrightarrow> request_check (f r)"
    and st: "\<And>r. r \<in> set rs \<Longrightarrow> r_id r = k \<Longrightarrow> r_status r \<noteq> Matched \<and> r_status (f r) \<noteq> Matched"
    and opn: "\<And>r x. r \<in> set rs \<Longrightarrow> r_id r = k \<Longrightarrow> r_status r = Offering \<Longrightarrow> r_status (f r) \<noteq> Offering
               \<Longrightarrow> x \<in> set os \<Longrightarrow> o_requestId x = k \<Longrightarrow> o_status x \<noteq> Offered"
  shows "core_inv n is (upd_key r_id k f rs) os ms"
proof (rule core_invI)
  let ?rs = "upd_key r_id k f rs"
  note I = core_invD[OF inv]
  show "ids_ok n r_id ?rs" using I(2) f(1) by (rule ids_ok_upd_key)
  show "requests_ok ?rs"
    using chk I(5) by (auto simp: upd_key_mem requests_ok_def split: if_splits)
  show "all_served ?rs ms" unfolding all_served_def
  proof (intro ballI impI)
    fix m assume "m \<in> set ms" "m_status m = M_active"
    then obtain r where r: "r \<in> set rs" "serves r m" using I(8) by (auto simp: all_served_def)
    with st[of r] have "r_id r \<noteq> k" by (auto simp: serves_def)
    with r show "\<exists>r \<in> set ?rs. serves r m" by (intro bexI[of _ r]) (auto simp: upd_key_mem)
  qed
  show "matched_backed ?rs ms" unfolding matched_backed_def
  proof (intro ballI impI)
    fix r assume r: "r \<in> set ?rs" "r_status r = Matched"
    then obtain r0 where "r0 \<in> set rs" "r = (if r_id r0 = k then f r0 else r0)"
      by (auto simp: upd_key_mem)
    with st[of r0] r(2) have "r \<in> set rs" by (auto split: if_splits)
    then show "\<exists>m \<in> set ms. m_status m = M_active \<and> m_requestId m = r_id r"
      using I(10) r(2) by (simp add: matched_backed_def)
  qed
  have "awaited ?rs x" if x: "x \<in> set os" "o_status x = Offered" for x
  proof -
    from x I(11) obtain r where r: "r \<in> set rs" "r_id r = o_requestId x" "r_status r = Offering"
      "r_requesterId r \<noteq> o_helperId x" unfolding offer_rows_ok_def awaited_def by blast
    let ?r = "if r_id r = k then f r else r"
    have "?r \<in> set ?rs" using r(1) by (auto simp: upd_key_mem)
    moreover have "r_status ?r = Offering" using opn[of r x] r x by auto
    ultimately show ?thesis unfolding awaited_def using r f by (intro bexI[of _ ?r]) auto
  qed
  then show "offer_rows_ok ?rs os" using I(11) by (simp add: offer_rows_ok_def)
qed (use core_invD[OF inv] in simp_all)

lemma core_offers_close:
  assumes inv: "core_inv n is rs os ms"
    and f: "\<And>x. o_id (f x) = o_id x \<and> o_requestId (f x) = o_requestId x \<and> o_helperId (f x) = o_helperId x
              \<and> o_qty (f x) = o_qty x \<and> o_status (f x) \<noteq> Offered"
  shows "core_inv n is rs (upd_where P f os) ms"
proof (rule core_invI)
  let ?os = "upd_where P f os"
  note I = core_invD[OF inv]
  show "ids_ok n o_id ?os" using I(3) f by (intro ids_ok_upd_where) auto
  have origin: "\<exists>x0 \<in> set os. o_id x = o_id x0 \<and> o_requestId x = o_requestId x0 \<and> o_helperId x = o_helperId x0
      \<and> o_qty x = o_qty x0"
    if "x \<in> set ?os" for x
    using upd_where_mem[OF that] f by (auto split: if_splits)
  have kept: "x \<in> set os" if "x \<in> set ?os" "o_status x = Offered" for x
    using upd_where_mem[OF that(1)] that(2) f by (auto split: if_splits)
  show "offer_rows_ok rs ?os" unfolding offer_rows_ok_def
  proof (intro ballI)
    fix x assume x: "x \<in> set ?os"
    from origin[OF x] I(11) kept[OF x] show "0 < o_qty x \<and> (o_status x = Offered \<longrightarrow> awaited rs x)"
      by (auto simp: offer_rows_ok_def)
  qed
  show "one_open ?os" unfolding one_open_def
  proof (intro ballI impI)
    fix a b assume ab: "a \<in> set ?os" "b \<in> set ?os" "o_status a = Offered" "o_status b = Offered"
      "o_requestId a = o_requestId b"
    from I(12) kept[OF ab(1,3)] kept[OF ab(2,4)] ab(3,4,5) show "o_id a = o_id b"
      unfolding one_open_def by blast
  qed
  show "asked_once ?os" unfolding asked_once_def
  proof (intro ballI impI)
    fix a b assume ab: "a \<in> set ?os" "b \<in> set ?os" "o_requestId a = o_requestId b" "o_helperId a = o_helperId b"
    from origin[OF ab(1)] obtain a0 where a0: "a0 \<in> set os" "o_id a = o_id a0"
      "o_requestId a = o_requestId a0" "o_helperId a = o_helperId a0" by blast
    from origin[OF ab(2)] obtain b0 where b0: "b0 \<in> set os" "o_id b = o_id b0"
      "o_requestId b = o_requestId b0" "o_helperId b = o_helperId b0" by blast
    from I(13)[unfolded asked_once_def] a0 b0 ab(3,4) show "o_id a = o_id b" by metis
  qed
qed (use core_invD[OF inv] in simp_all)

lemma core_offers_filter: "core_inv n is rs os ms \<Longrightarrow> core_inv n is rs (filter P os) ms"
  by (simp add: core_inv_def ids_ok_filter offer_rows_ok_def one_open_def asked_once_def)

lemma core_request_insert:
  assumes inv: "core_inv n is rs os ms" and r: "r_id r = n" "request_check r" "r_status r = Searching"
  shows "core_inv (Suc n) is (rs @ [r]) os ms"
proof (rule core_invI)
  note I = core_invD[OF core_inv_mono[OF inv, of "Suc n"], simplified]
  show "ids_ok (Suc n) r_id (rs @ [r])" using core_invD(2)[OF inv] r(1) by (rule ids_ok_insert)
  show "requests_ok (rs @ [r])" using I(5) r(2) by (simp add: requests_ok_def)
  show "all_served (rs @ [r]) ms" using I(8) by (auto simp: all_served_def)
  show "matched_backed (rs @ [r]) ms" using I(10) r(3) by (auto simp: matched_backed_def)
  show "offer_rows_ok (rs @ [r]) os" using I(11) by (auto simp: offer_rows_ok_def awaited_def)
qed (use core_invD[OF core_inv_mono[OF inv, of "Suc n"]] in simp_all)

subsection \<open>Writes to several tables\<close>

text \<open>An offer is made: the request goes from searching to offering and gets its one open offer.\<close>

lemma core_offer_insert:
  assumes inv: "core_inv n is rs os ms"
    and x: "o_id x = n" "0 < o_qty x" "o_requestId x = k" "o_helperId x \<noteq> u"
    and r: "r \<in> set rs" "r_id r = k" "r_status r = Searching" "r_requesterId r = u"
    and f: "\<And>r. r_id (f r) = r_id r" "\<And>r. r_requesterId (f r) = r_requesterId r" "\<And>r. r_status (f r) = Offering"
    and chk: "\<And>r. r \<in> set rs \<Longrightarrow> r_id r = k \<Longrightarrow> request_check (f r)"
    and uq: "\<And>y. y \<in> set os \<Longrightarrow> o_requestId y = k \<Longrightarrow> o_helperId y \<noteq> o_helperId x"
  shows "core_inv (Suc n) is (upd_key r_id k f rs) (os @ [x]) ms"
proof -
  note I = core_invD[OF inv]
  have only: "r' = r" if "r' \<in> set rs" "r_id r' = k" for r'
    using ids_ok_inj[OF I(2) that(1) r(1)] that(2) r(2) by simp
  have shut: "o_status y \<noteq> Offered" if y: "y \<in> set os" "o_requestId y = k" for y
  proof
    assume "o_status y = Offered"
    with I(11) y(1) obtain r' where "r' \<in> set rs" "r_id r' = o_requestId y" "r_status r' = Offering"
      unfolding offer_rows_ok_def awaited_def by blast
    with only[of r'] y(2) r(3) show False by simp
  qed
  have "core_inv n is (upd_key r_id k f rs) os ms"
  proof (rule core_request_update[OF inv f(1,2) chk])
    show "r_status r' \<noteq> Matched \<and> r_status (f r') \<noteq> Matched" if "r' \<in> set rs" "r_id r' = k" for r'
      using only[OF that] r(3) f(3) by simp
    show "o_status y \<noteq> Offered" if "y \<in> set os" "o_requestId y = k" for y
      using shut that by blast
  qed
  note J = core_invD[OF this]
  show ?thesis
  proof (rule core_invI)
    let ?rs = "upd_key r_id k f rs"
    show "ids_ok (Suc n) o_id (os @ [x])" using J(3) x(1) by (rule ids_ok_insert)
    have "f r \<in> set ?rs" using r(1,2) by (auto simp: upd_key_mem)
    then have "awaited ?rs x" unfolding awaited_def using x r f by (intro bexI[of _ "f r"]) auto
    with J(11) x(2) show "offer_rows_ok ?rs (os @ [x])" by (auto simp: offer_rows_ok_def)
    show "one_open (os @ [x])"
      using J(12) shut x(3) unfolding one_open_def by (metis (full_types) Un_iff empty_iff insert_iff list.set(1,2) set_append)
    show "asked_once (os @ [x])"
      using J(13) uq x(3) unfolding asked_once_def by (metis (full_types) Un_iff empty_iff insert_iff list.set(1,2) set_append)
  qed (use J in \<open>simp_all add: ids_ok_mono\<close>)
qed

text \<open>Rows of a match that only change in fields the invariant does not read, or gain a confirmation.\<close>

lemma core_match_update:
  assumes inv: "core_inv n is rs os ms"
    and f: "\<And>m. m_id (f m) = m_id m \<and> m_requestId (f m) = m_requestId m \<and> m_requesterId (f m) = m_requesterId m
       \<and> m_inventoryItemId (f m) = m_inventoryItemId m \<and> m_qtyReserved (f m) = m_qtyReserved m
       \<and> m_status (f m) = m_status m \<and> m_inventoryApplied (f m) = m_inventoryApplied m"
    and ok: "\<And>m. m \<in> set ms \<Longrightarrow> m_id m = k \<Longrightarrow> match_ok m \<Longrightarrow> match_ok (f m)"
  shows "core_inv n is rs os (upd_key m_id k f ms)"
proof (rule core_invI)
  let ?ms = "upd_key m_id k f ms"
  note I = core_invD[OF inv]
  show "ids_ok n m_id ?ms" using I(4) f by (intro ids_ok_upd_key) auto
  have origin: "\<exists>m0 \<in> set ms. m = (if m_id m0 = k then f m0 else m0) \<and> m_id m = m_id m0
      \<and> m_requestId m = m_requestId m0 \<and> m_status m = m_status m0 \<and> serves r m = serves r m0" if "m \<in> set ?ms" for m r
    using that f by (fastforce simp: upd_key_mem serves_def)
  have "held ?ms iid = held ms iid" for iid using f by (intro held_upd_same) auto
  with I(6) show "stock_ok is ?ms" by (simp add: stock_ok_def)
  show "matches_ok is ?ms" unfolding matches_ok_def
  proof (intro ballI)
    fix m assume "m \<in> set ?ms"
    then obtain m0 where m0: "m0 \<in> set ms" "m = (if m_id m0 = k then f m0 else m0)"
      by (auto simp: upd_key_mem)
    with I(7) ok[of m0] f[of m0] show "match_ok m \<and> (\<not> m_inventoryApplied m \<longrightarrow> m_inventoryItemId m \<in> i_id ` set is)"
      by (auto simp: matches_ok_def)
  qed
  show "all_served rs ?ms" unfolding all_served_def
  proof (intro ballI impI)
    fix m assume m: "m \<in> set ?ms" "m_status m = M_active"
    then obtain m0 where m0: "m0 \<in> set ms" "m = (if m_id m0 = k then f m0 else m0)"
      by (auto simp: upd_key_mem)
    then have "m_status m0 = M_active" and eq: "serves r m = serves r m0" for r
      using m(2) f by (simp_all add: serves_def split: if_splits)
    with m0(1) I(8) show "\<exists>r \<in> set rs. serves r m" unfolding all_served_def eq by blast
  qed
  show "one_active ?ms" unfolding one_active_def
  proof (intro ballI impI)
    fix a b assume ab: "a \<in> set ?ms" "b \<in> set ?ms" "m_status a = M_active" "m_status b = M_active"
      "m_requestId a = m_requestId b"
    from origin[OF ab(1)] obtain a0 where a0: "a0 \<in> set ms" "m_id a = m_id a0"
      "m_requestId a = m_requestId a0" "m_status a = m_status a0" by blast
    from origin[OF ab(2)] obtain b0 where b0: "b0 \<in> set ms" "m_id b = m_id b0"
      "m_requestId b = m_requestId b0" "m_status b = m_status b0" by blast
    from I(9)[unfolded one_active_def] a0 b0 ab(3-5) show "m_id a = m_id b" by metis
  qed
  show "matched_backed rs ?ms" unfolding matched_backed_def
  proof (intro ballI impI)
    fix r assume "r \<in> set rs" "r_status r = Matched"
    with I(10) obtain m where m: "m \<in> set ms" "m_status m = M_active" "m_requestId m = r_id r"
      by (auto simp: matched_backed_def)
    then have "(if m_id m = k then f m else m) \<in> set ?ms" by (auto simp: upd_key_mem)
    with m f[of m] show "\<exists>m \<in> set ?ms. m_status m = M_active \<and> m_requestId m = r_id r"
      by (intro bexI[of _ "if m_id m = k then f m else m"]) auto
  qed
qed (use core_invD[OF inv] in simp_all)

text \<open>
  A match ends: its reservation is released (and what was handed over deducted), its row closed and
  its request leaves matched, all at once.
\<close>

lemma core_close:
  assumes inv: "core_inv n is rs os ms"
    and m: "m \<in> set ms" "m_status m = M_active"
    and f: "\<And>x. m_id (f x) = m_id x \<and> m_requestId (f x) = m_requestId x
       \<and> m_inventoryItemId (f x) = m_inventoryItemId x \<and> m_inventoryApplied (f x) \<and> m_status (f x) \<noteq> M_active"
    and fok: "match_ok (f m)"
    and g: "\<And>x. r_id (g x) = r_id x" "\<And>x. r_status (g x) \<noteq> Matched" "\<And>x. r_requesterId (g x) = r_requesterId x"
    and chk: "\<And>r. r \<in> set rs \<Longrightarrow> r_id r = m_requestId m \<Longrightarrow> request_check (g r)"
    and h: "\<And>x. i_id (h x) = i_id x"
    and item: "\<And>i. i \<in> set is \<Longrightarrow> i_id i = m_inventoryItemId m \<Longrightarrow>
                 item_check (h i) \<and> i_qtyReserved (h i) = i_qtyReserved i - m_qtyReserved m"
  shows "core_inv n (upd_key i_id (m_inventoryItemId m) h is) (upd_key r_id (m_requestId m) g rs) os
           (upd_key m_id (m_id m) f ms)"
proof (rule core_invI)
  let ?is = "upd_key i_id (m_inventoryItemId m) h is" and ?rs = "upd_key r_id (m_requestId m) g rs"
  let ?ms = "upd_key m_id (m_id m) f ms"
  note I = core_invD[OF inv]
  have free: "\<not> m_inventoryApplied m" using I(7) m by (auto simp: matches_ok_def match_ok_def)
  show "ids_ok n i_id ?is" using I(1) h by (rule ids_ok_upd_key)
  show "ids_ok n r_id ?rs" using I(2) g(1) by (rule ids_ok_upd_key)
  show "ids_ok n m_id ?ms" using I(4) f by (intro ids_ok_upd_key) auto
  have only: "x = m" if "x \<in> set ms" "m_id x = m_id m" for x using ids_ok_inj[OF I(4) that(1) m(1) that(2)] .
  have rest: "x \<in> set ms \<and> x \<noteq> m \<or> x = f m" if "x \<in> set ?ms" for x
  proof -
    from that obtain x0 where "x0 \<in> set ms" "x = (if m_id x0 = m_id m then f x0 else x0)"
      unfolding upd_key_mem by blast
    then show ?thesis using only[of x0] by (cases "m_id x0 = m_id m") auto
  qed
  show "requests_ok ?rs" using chk I(5) by (auto simp: upd_key_mem requests_ok_def split: if_splits)
  have held': "held ?ms iid = held ms iid - (if iid = m_inventoryItemId m then m_qtyReserved m else 0)" for iid
    using I(4) m(1) free f by (intro held_close) (auto simp: ids_ok_def)
  show "stock_ok ?is ?ms" unfolding stock_ok_def
  proof (intro ballI)
    fix i assume "i \<in> set ?is"
    then obtain i0 where i0: "i0 \<in> set is" "i = (if i_id i0 = m_inventoryItemId m then h i0 else i0)"
      by (auto simp: upd_key_mem)
    with I(6) item[of i0] h held' show "item_check i \<and> i_qtyReserved i = held ?ms (i_id i)"
      by (auto simp: stock_ok_def)
  qed
  have keys: "i_id ` set ?is = i_id ` set is" using h by (rule upd_key_keys)
  show "matches_ok ?is ?ms" unfolding matches_ok_def keys
    using I(7) fok f[of m] rest by (auto simp: matches_ok_def)
  have act: "x \<in> set ms \<and> m_requestId x \<noteq> m_requestId m" if "x \<in> set ?ms" "m_status x = M_active" for x
  proof -
    from rest[OF that(1)] f[of m] that(2) have "x \<in> set ms" "x \<noteq> m" by auto
    with I(9) only m that(2) show ?thesis unfolding one_active_def by blast
  qed
  show "all_served ?rs ?ms" unfolding all_served_def
  proof (intro ballI impI)
    fix x assume x: "x \<in> set ?ms" "m_status x = M_active"
    from act[OF x] I(8) x(2) obtain r where "r \<in> set rs" "serves r x" unfolding all_served_def by blast
    with act[OF x] show "\<exists>r \<in> set ?rs. serves r x"
      by (intro bexI[of _ r] upd_key_other) (auto simp: serves_def)
  qed
  show "one_active ?ms" using I(9) act unfolding one_active_def by blast
  show "matched_backed ?rs ?ms" unfolding matched_backed_def
  proof (intro ballI impI)
    fix r assume r: "r \<in> set ?rs" "r_status r = Matched"
    then obtain r0 where r0: "r0 \<in> set rs" "r = (if r_id r0 = m_requestId m then g r0 else r0)"
      unfolding upd_key_mem by blast
    with r(2) g(2)[of r0] have r': "r \<in> set rs" "r_id r \<noteq> m_requestId m" by (auto split: if_splits)
    with I(10) r(2) obtain x where x: "x \<in> set ms" "m_status x = M_active" "m_requestId x = r_id r"
      by (auto simp: matched_backed_def)
    with r' only[of x] have "m_id x \<noteq> m_id m" by auto
    with x(1) have "x \<in> set ?ms" by (rule upd_key_other)
    with x show "\<exists>m \<in> set ?ms. m_status m = M_active \<and> m_requestId m = r_id r" by blast
  qed
  have "awaited ?rs x" if x: "x \<in> set os" "o_status x = Offered" for x
  proof -
    from x I(11) obtain r where r: "r \<in> set rs" "r_id r = o_requestId x" "r_status r = Offering"
      "r_requesterId r \<noteq> o_helperId x" unfolding offer_rows_ok_def awaited_def by blast
    from I(8) m obtain r' where "r' \<in> set rs" "serves r' m" unfolding all_served_def by blast
    with r ids_ok_inj[OF I(2) r(1), of r'] have "r_id r \<noteq> m_requestId m" by (auto simp: serves_def)
    with r show ?thesis unfolding awaited_def by (intro bexI[of _ r] upd_key_other) auto
  qed
  with I(11) show "offer_rows_ok ?rs os" by (simp add: offer_rows_ok_def)
qed (use core_invD[OF inv] in simp_all)


text \<open>
  An offer is accepted: stock is reserved, the open offer closed, the match created and the request
  matched.
\<close>

lemma core_accept:
  assumes inv: "core_inv n is rs os ms"
    and x: "x \<in> set os" "o_status x = Offered"
    and r: "r \<in> set rs" "r_id r = o_requestId x"
    and m: "m_id m = n" "m_requestId m = r_id r" "m_requesterId m = r_requesterId r"
      "m_status m = M_active" "match_ok m" "m_qtyReserved m \<le> r_qty r - r_qtyFulfilled r"
      "m_inventoryItemId m \<in> i_id ` set is"
    and h: "\<And>i. i_id (h i) = i_id i"
    and item: "\<And>i. i \<in> set is \<Longrightarrow> i_id i = m_inventoryItemId m \<Longrightarrow>
                 item_check (h i) \<and> i_qtyReserved (h i) = i_qtyReserved i + m_qtyReserved m"
    and g: "\<And>x. o_id (g x) = o_id x \<and> o_requestId (g x) = o_requestId x \<and> o_helperId (g x) = o_helperId x
              \<and> o_qty (g x) = o_qty x \<and> o_status (g x) \<noteq> Offered"
    and f: "\<And>r. r_id (f r) = r_id r \<and> r_requesterId (f r) = r_requesterId r \<and> r_status (f r) = Matched
              \<and> r_qty (f r) = r_qty r \<and> r_qtyFulfilled (f r) = r_qtyFulfilled r"
  shows "core_inv (Suc n) (upd_key i_id (m_inventoryItemId m) h is) (upd_key r_id (r_id r) f rs)
           (upd_key o_id (o_id x) g os) (ms @ [m])"
proof (rule core_invI)
  let ?is = "upd_key i_id (m_inventoryItemId m) h is" and ?rs = "upd_key r_id (r_id r) f rs"
  let ?os = "upd_key o_id (o_id x) g os" and ?ms = "ms @ [m]"
  note I = core_invD[OF inv]
  have free: "\<not> m_inventoryApplied m" using m by (simp add: match_ok_def)
  have onlyr: "r' = r" if "r' \<in> set rs" "r_id r' = r_id r" for r' using ids_ok_inj[OF I(2) that(1) r(1) that(2)] .
  have st: "r_status r = Offering"
  proof -
    from I(11) x obtain r' where "r' \<in> set rs" "r_id r' = o_requestId x" "r_status r' = Offering"
      unfolding offer_rows_ok_def awaited_def by blast
    with onlyr[of r'] r(2) show ?thesis by simp
  qed
  have none: "m_requestId y \<noteq> r_id r" if y: "y \<in> set ms" "m_status y = M_active" for y
  proof -
    from I(8) y obtain r' where "r' \<in> set rs" "serves r' y" unfolding all_served_def by blast
    with onlyr[of r'] st show ?thesis by (auto simp: serves_def)
  qed
  have "core_inv n is rs ?os ms" unfolding upd_key_def using g by (intro core_offers_close[OF inv]) auto
  note J = core_invD[OF this]
  show "ids_ok (Suc n) i_id ?is" using ids_ok_upd_key[OF I(1) h] by (rule ids_ok_mono) simp
  show "ids_ok (Suc n) r_id ?rs" using ids_ok_upd_key[OF I(2), of f r_id "r_id r"] f by (auto elim: ids_ok_mono)
  show "ids_ok (Suc n) o_id ?os" using J(3) by (rule ids_ok_mono) simp
  show "ids_ok (Suc n) m_id ?ms" using I(4) m(1) by (rule ids_ok_insert)
  show "requests_ok ?rs" using f I(5) by (auto simp: upd_key_mem requests_ok_def request_check_def)
  show "stock_ok ?is ?ms" unfolding stock_ok_def
  proof (intro ballI)
    fix i assume "i \<in> set ?is"
    then obtain i0 where i0: "i0 \<in> set is" "i = (if i_id i0 = m_inventoryItemId m then h i0 else i0)"
      by (auto simp: upd_key_mem)
    with I(6) item[of i0] h free show "item_check i \<and> i_qtyReserved i = held ?ms (i_id i)"
      by (auto simp: stock_ok_def held_append)
  qed
  have keys: "i_id ` set ?is = i_id ` set is" using h by (rule upd_key_keys)
  show "matches_ok ?is ?ms" unfolding matches_ok_def keys
    using I(7) m by (auto simp: matches_ok_def)
  have fr: "f r \<in> set ?rs" using r(1) by (auto simp: upd_key_mem)
  show "all_served ?rs ?ms" unfolding all_served_def
  proof (intro ballI impI)
    fix y assume y: "y \<in> set ?ms" "m_status y = M_active"
    show "\<exists>r \<in> set ?rs. serves r y"
    proof (cases "y \<in> set ms")
      case True
      with I(8) y obtain r' where "r' \<in> set rs" "serves r' y" unfolding all_served_def by blast
      with none[OF True y(2)] show ?thesis
        by (intro bexI[of _ r'] upd_key_other) (auto simp: serves_def)
    next
      case False
      with y have "y = m" by simp
      with m f[of r] fr show ?thesis by (intro bexI[of _ "f r"]) (auto simp: serves_def)
    qed
  qed
  show "one_active ?ms" unfolding one_active_def
  proof (intro ballI impI)
    fix a b assume ab: "a \<in> set ?ms" "b \<in> set ?ms" "m_status a = M_active" "m_status b = M_active"
      "m_requestId a = m_requestId b"
    have "a \<in> set ms \<longleftrightarrow> b \<in> set ms" using none[of a] none[of b] ab m(2) by auto
    with ab I(9)[unfolded one_active_def] show "m_id a = m_id b" by auto
  qed
  show "matched_backed ?rs ?ms" unfolding matched_backed_def
  proof (intro ballI impI)
    fix r' assume "r' \<in> set ?rs" "r_status r' = Matched"
    then show "\<exists>y \<in> set ?ms. m_status y = M_active \<and> m_requestId y = r_id r'"
      using I(10) m f by (auto simp: matched_backed_def upd_key_mem split: if_splits)
  qed
  have "awaited ?rs y" if y: "y \<in> set ?os" "o_status y = Offered" for y
  proof -
    from y(1) obtain y0 where y0: "y0 \<in> set os" "y = (if o_id y0 = o_id x then g y0 else y0)"
      unfolding upd_key_mem by blast
    with y(2) g[of y0] have y1: "y \<in> set os" "o_id y \<noteq> o_id x" by (auto split: if_splits)
    with I(12) x y(2) have "o_requestId y \<noteq> o_requestId x" unfolding one_open_def by blast
    moreover from I(11) y1 y(2) obtain r' where "r' \<in> set rs" "r_id r' = o_requestId y"
      "r_status r' = Offering" "r_requesterId r' \<noteq> o_helperId y"
      unfolding offer_rows_ok_def awaited_def by blast
    ultimately show ?thesis unfolding awaited_def using r(2)
      by (intro bexI[of _ r'] upd_key_other) auto
  qed
  with J(11) show "offer_rows_ok ?rs ?os" by (simp add: offer_rows_ok_def)
  show "one_open ?os" by (rule J(12))
  show "asked_once ?os" by (rule J(13))
qed

subsection \<open>The owner's writes to an item\<close>

lemma core_item_update:
  assumes inv: "core_inv n is rs os ms"
    and h: "\<And>i. i_id (h i) = i_id i \<and> i_qtyReserved (h i) = i_qtyReserved i"
    and chk: "\<And>i. i \<in> set is \<Longrightarrow> i_id i = k \<Longrightarrow> item_check (h i)"
  shows "core_inv n (upd_key i_id k h is) rs os ms"
proof (rule core_invI)
  let ?is = "upd_key i_id k h is"
  note I = core_invD[OF inv]
  show "ids_ok n i_id ?is" using I(1) h by (intro ids_ok_upd_key) auto
  show "stock_ok ?is ms" using I(6) h chk by (auto simp: stock_ok_def upd_key_mem)
  have "i_id ` set ?is = i_id ` set is" using h by (intro upd_key_keys) simp
  with I(7) show "matches_ok ?is ms" by (simp add: matches_ok_def)
qed (use core_invD[OF inv] in simp_all)

lemma core_item_insert:
  assumes inv: "core_inv n is rs os ms" and i: "i_id i = n" "item_check i" "i_qtyReserved i = 0"
  shows "core_inv (Suc n) (is @ [i]) rs os ms"
proof (rule core_invI)
  note I = core_invD[OF inv]
  show "ids_ok (Suc n) i_id (is @ [i])" using I(1) i(1) by (rule ids_ok_insert)
  have "m_inventoryApplied m" if "m \<in> set ms" "m_inventoryItemId m = n" for m
  proof (rule ccontr)
    assume "\<not> m_inventoryApplied m"
    with I(7) that have "n \<in> i_id ` set is" by (auto simp: matches_ok_def)
    with I(1) show False by (auto simp: ids_ok_def)
  qed
  then have "held ms n = 0" by (intro held_none) auto
  with I(6) i show "stock_ok (is @ [i]) ms" by (auto simp: stock_ok_def)
  from I(7) show "matches_ok (is @ [i]) ms" by (auto simp: matches_ok_def)
qed (use core_invD[OF core_inv_mono[OF inv, of "Suc n"]] in simp_all)

lemma core_item_delete:
  assumes inv: "core_inv n is rs os ms" and unused: "\<And>m. m \<in> set ms \<Longrightarrow> m_inventoryItemId m \<noteq> k"
  shows "core_inv n (filter (\<lambda>i. i_id i \<noteq> k) is) rs os ms"
proof (rule core_invI)
  note I = core_invD[OF inv]
  show "ids_ok n i_id (filter (\<lambda>i. i_id i \<noteq> k) is)" using I(1) by (rule ids_ok_filter)
  from I(6) show "stock_ok (filter (\<lambda>i. i_id i \<noteq> k) is) ms" by (simp add: stock_ok_def)
  show "matches_ok (filter (\<lambda>i. i_id i \<noteq> k) is) ms"
    using I(7) unused unfolding matches_ok_def by (fastforce simp: image_iff)
qed (use core_invD[OF inv] in simp_all)



subsection \<open>Notes on requests\<close>

text \<open>An update of requests that leaves the fields of the ledger alone.\<close>

lemma core_request_note:
  assumes inv: "core_inv n is rs os ms"
    and f: "\<And>r. r_id (f r) = r_id r \<and> r_requesterId (f r) = r_requesterId r \<and> r_status (f r) = r_status r
       \<and> r_qty (f r) = r_qty r \<and> r_qtyFulfilled (f r) = r_qtyFulfilled r"
  shows "core_inv n is (upd_where P f rs) os ms"
proof (rule core_invI)
  let ?rs = "upd_where P f rs"
  note I = core_invD[OF inv]
  have mem: "y \<in> set ?rs \<longleftrightarrow> (\<exists>x \<in> set rs. y = (if P x then f x else x))" for y by (auto simp: upd_where_def)
  show "ids_ok n r_id ?rs" using I(2) by (rule ids_ok_upd_where) (simp add: f)
  show "requests_ok ?rs" using I(5) f by (auto simp: requests_ok_def mem request_check_def)
  have sv: "\<exists>y \<in> set ?rs. serves y m" if "x \<in> set rs" "serves x m" for x m
    using that f[of x] by (intro bexI[of _ "if P x then f x else x"]) (auto simp: serves_def mem)
  show "all_served ?rs ms" using I(8) sv unfolding all_served_def by blast
  have same: "r_status (if P x then f x else x) = r_status x" "r_id (if P x then f x else x) = r_id x" for x
    using f by simp_all
  show "matched_backed ?rs ms" using I(10) by (auto simp: matched_backed_def mem same)
  have aw: "awaited ?rs x" if aw: "awaited rs x" for x
  proof -
    from aw obtain r where "r \<in> set rs" "r_id r = o_requestId x" "r_status r = Offering" "r_requesterId r \<noteq> o_helperId x"
      unfolding awaited_def by blast
    then show ?thesis using f[of r] unfolding awaited_def
      by (intro bexI[of _ "if P r then f r else r"]) (auto simp: mem)
  qed
  show "offer_rows_ok ?rs os" using I(11) aw unfolding offer_rows_ok_def by blast
qed (use core_invD[OF inv] in simp_all)

end
