(* ===== verification/Effects.thy ===== *)
theory Effects
  imports Ledger Settlement
begin

text \<open>
  What the shared steps of the handlers do to a database that satisfies the invariant: a permitted
  transition succeeds, a system message is always stored, and a settlement or a cancellation of an
  active match runs to its end and rewrites exactly the rows it locked.
\<close>

subsection \<open>The database invariant\<close>

definition chat_inv :: "nat \<Rightarrow> match_row list \<Rightarrow> conversation list \<Rightarrow> bool" where
  "chat_inv n ms cs \<longleftrightarrow> ids_ok n cv_id cs \<and> distinct (map cv_matchId cs) \<and> cv_matchId ` set cs = m_id ` set ms"

definition open_count :: "match_offer list \<Rightarrow> uid \<Rightarrow> nat" where
  "open_count os u = length (filter (\<lambda>x. o_helperId x = u \<and> o_status x = Offered) os)"

definition stats_inv :: "match_offer list \<Rightarrow> reliability_row list \<Rightarrow> bool" where
  "stats_inv os ss \<longleftrightarrow> (\<forall>u. let c = rowToCounters (by_key rs_userId u ss) in
     c_offersResponded30d c + open_count os u \<le> c_offersReceived30d c)"

definition labels_inv :: "reliability_row list \<Rightarrow> bool" where
  "labels_inv ss \<longleftrightarrow> (\<forall>r \<in> set ss. rs_label r = reliabilityLabel (rowToCounters (Some r)))"

definition db_inv :: "db \<Rightarrow> bool" where
  "db_inv d \<longleftrightarrow> core_inv (next_id d) (inventoryItems d) (requests d) (matchOffers d) (matches d)
     \<and> chat_inv (next_id d) (matches d) (conversations d)
     \<and> stats_inv (matchOffers d) (reliabilityStats d) \<and> labels_inv (reliabilityStats d)"

lemma db_invD:
  assumes "db_inv d"
  shows "core_inv (next_id d) (inventoryItems d) (requests d) (matchOffers d) (matches d)"
    "chat_inv (next_id d) (matches d) (conversations d)"
    "stats_inv (matchOffers d) (reliabilityStats d)" "labels_inv (reliabilityStats d)"
  using assms by (simp_all add: db_inv_def)

text \<open>A write that leaves the five tables alone (the counter may grow) keeps the invariant.\<close>

definition same_core :: "db \<Rightarrow> db \<Rightarrow> bool" where
  "same_core d d' \<longleftrightarrow> inventoryItems d' = inventoryItems d \<and> requests d' = requests d
     \<and> matchOffers d' = matchOffers d \<and> matches d' = matches d
     \<and> map (\<lambda>c. (cv_id c, cv_matchId c)) (conversations d') = map (\<lambda>c. (cv_id c, cv_matchId c)) (conversations d)
     \<and> reliabilityStats d' = reliabilityStats d \<and> next_id d \<le> next_id d'"

lemma chat_inv_cong:
  assumes "chat_inv n ms cs" and keys: "map (\<lambda>c. (cv_id c, cv_matchId c)) cs' = map (\<lambda>c. (cv_id c, cv_matchId c)) cs"
    and "m_id ` set ms' = m_id ` set ms" and "n \<le> n'"
  shows "chat_inv n' ms' cs'"
proof -
  from arg_cong[OF keys, of "map fst"] have a: "map cv_id cs' = map cv_id cs" by (simp add: comp_def)
  from arg_cong[OF keys, of "map snd"] have b: "map cv_matchId cs' = map cv_matchId cs" by (simp add: comp_def)
  from arg_cong[OF a, of set] arg_cong[OF b, of set] have
    "cv_id ` set cs' = cv_id ` set cs" "cv_matchId ` set cs' = cv_matchId ` set cs" by simp_all
  with a b assms(1,3,4) show ?thesis
    unfolding chat_inv_def ids_ok_def by (metis (no_types, lifting) imageE imageI less_le_trans)
qed

lemma same_core_inv: "db_inv d \<Longrightarrow> same_core d d' \<Longrightarrow> db_inv d'"
  unfolding db_inv_def same_core_def by (auto intro: core_inv_mono chat_inv_cong)

lemma same_core_refl [simp]: "same_core d d"
  by (simp add: same_core_def)

lemma same_core_trans: "same_core a b \<Longrightarrow> same_core b c \<Longrightarrow> same_core a c"
  by (auto simp: same_core_def)

subsection \<open>Counters\<close>

lemma labels_inv_bump: "labels_inv (reliabilityStats d) \<Longrightarrow> labels_inv (reliabilityStats (bump env u inc d))"
  using labels_ok_bump[of d env u inc] by (simp add: labels_inv_def labels_ok_def)

lemma stats_of_eq: "rowToCounters (by_key rs_userId u (reliabilityStats d)) = stats_of u d"
  by (simp add: stats_of_def)

definition free_increment :: "(counter_column \<times> nat) list \<Rightarrow> bool" where
  "free_increment inc \<longleftrightarrow> list_all (\<lambda>x. fst x \<noteq> Col_offersReceived30d \<and> fst x \<noteq> Col_offersResponded30d) inc"

lemma add_column_free:
  "fst x \<noteq> Col_offersReceived30d \<Longrightarrow> fst x \<noteq> Col_offersResponded30d \<Longrightarrow>
     c_offersReceived30d (add_column x c) = c_offersReceived30d c
     \<and> c_offersResponded30d (add_column x c) = c_offersResponded30d c"
  by (cases "(x, c)" rule: add_column.cases) auto

lemma fold_add_column_free:
  "free_increment inc \<Longrightarrow> c_offersReceived30d (fold add_column inc c) = c_offersReceived30d c
     \<and> c_offersResponded30d (fold add_column inc c) = c_offersResponded30d c"
  by (induction inc arbitrary: c) (auto simp: free_increment_def add_column_free)

lemma stats_inv_bump_free:
  assumes "free_increment inc" "stats_inv os (reliabilityStats d)"
  shows "stats_inv os (reliabilityStats (bump env u inc d))"
proof -
  have "free_increment (filter (\<lambda>x. snd x \<noteq> 0) inc)"
    using assms(1) by (auto simp: free_increment_def list_all_iff)
  note F = fold_add_column_free[OF this]
  show ?thesis unfolding stats_inv_def Let_def
  proof
    fix v
    have "c_offersReceived30d (stats_of v (bump env u inc d)) = c_offersReceived30d (stats_of v d)
      \<and> c_offersResponded30d (stats_of v (bump env u inc d)) = c_offersResponded30d (stats_of v d)"
      by (cases "v = u") (simp_all add: stats_of_bump_same stats_of_bump_other F del: neq0_conv)
    with assms(2) show "c_offersResponded30d (rowToCounters (by_key rs_userId v (reliabilityStats (bump env u inc d))))
        + open_count os v \<le> c_offersReceived30d (rowToCounters (by_key rs_userId v (reliabilityStats (bump env u inc d))))"
      by (simp add: stats_inv_def Let_def stats_of_eq)
  qed
qed

lemma stats_inv_fewer:
  "stats_inv os ss \<Longrightarrow> (\<And>u. open_count os' u \<le> open_count os u) \<Longrightarrow> stats_inv os' ss"
  unfolding stats_inv_def Let_def by (meson add_left_mono le_trans)

lemma open_count_close:
  assumes "\<And>x. o_status (f x) \<noteq> Offered"
  shows "open_count (upd_where P f os) u \<le> open_count os u"
  using assms by (induction os) (auto simp: open_count_def)

lemma open_count_filter: "open_count (filter P os) u \<le> open_count os u"
  by (induction os) (auto simp: open_count_def)

lemma open_count_close_one:
  assumes "x \<in> set os" "o_status x = Offered" "distinct (map o_id os)"
    and "\<And>y. o_status (f y) \<noteq> Offered"
  shows "Suc (open_count (upd_key o_id (o_id x) f os) (o_helperId x)) \<le> open_count os (o_helperId x)"
  using assms
proof (induction os)
  case (Cons a os)
  show ?case
  proof (cases "a = x")
    case True
    then show ?thesis using Cons.prems open_count_close[of f _ os, OF Cons.prems(4)]
      by (auto simp: open_count_def upd_key_def)
  next
    case False
    with Cons have "Suc (open_count (upd_key o_id (o_id x) f os) (o_helperId x)) \<le> open_count os (o_helperId x)"
      and "o_id a \<noteq> o_id x" by auto
    then show ?thesis by (auto simp: open_count_def upd_key_def)
  qed
qed simp

text \<open>Closing an open offer pays for one response; making one is paid for by one receipt.\<close>

lemma stats_inv_respond:
  assumes inv: "stats_inv os (reliabilityStats d)"
    and fewer: "\<And>v. open_count os' v + (if v = u then 1 else 0) \<le> open_count os v"
    and inc: "inc = [(Col_offersResponded30d, 1)] \<or> inc = [(Col_accepted, 1), (Col_offersResponded30d, 1)]"
  shows "stats_inv os' (reliabilityStats (bump env u inc d))"
  unfolding stats_inv_def Let_def
proof
  fix v
  have "c_offersReceived30d (stats_of v (bump env u inc d)) = c_offersReceived30d (stats_of v d)
     \<and> c_offersResponded30d (stats_of v (bump env u inc d))
         = c_offersResponded30d (stats_of v d) + (if v = u then 1 else 0)"
    using inc by (cases "v = u") (auto simp: stats_of_bump_same stats_of_bump_other)
  moreover have "c_offersResponded30d (stats_of v d) + open_count os v \<le> c_offersReceived30d (stats_of v d)"
    using inv by (simp add: stats_inv_def Let_def stats_of_eq)
  ultimately show "c_offersResponded30d (rowToCounters (by_key rs_userId v (reliabilityStats (bump env u inc d))))
        + open_count os' v \<le> c_offersReceived30d (rowToCounters (by_key rs_userId v (reliabilityStats (bump env u inc d))))"
    unfolding stats_of_eq using fewer[of v] by linarith
qed

lemma stats_inv_receive:
  assumes inv: "stats_inv os (reliabilityStats d)" and x: "o_helperId x = u"
  shows "stats_inv (os @ [x]) (reliabilityStats (bump env u [(Col_offersReceived30d, 1)] d))"
  unfolding stats_inv_def Let_def
proof
  fix v
  have "c_offersReceived30d (stats_of v (bump env u [(Col_offersReceived30d, 1)] d))
         = c_offersReceived30d (stats_of v d) + (if v = u then 1 else 0)
     \<and> c_offersResponded30d (stats_of v (bump env u [(Col_offersReceived30d, 1)] d)) = c_offersResponded30d (stats_of v d)"
    by (cases "v = u") (auto simp: stats_of_bump_same stats_of_bump_other)
  moreover have "open_count (os @ [x]) v \<le> open_count os v + (if v = u then 1 else 0)"
    using x by (auto simp: open_count_def)
  moreover have "c_offersResponded30d (stats_of v d) + open_count os v \<le> c_offersReceived30d (stats_of v d)"
    using inv by (simp add: stats_inv_def Let_def stats_of_eq)
  ultimately show "c_offersResponded30d (rowToCounters (by_key rs_userId v (reliabilityStats (bump env u [(Col_offersReceived30d, 1)] d))))
        + open_count (os @ [x]) v \<le> c_offersReceived30d (rowToCounters (by_key rs_userId v (reliabilityStats (bump env u [(Col_offersReceived30d, 1)] d))))"
    unfolding stats_of_eq by (simp split: if_splits)
qed

subsection \<open>Steps that succeed\<close>

lemma transition_ok:
  assumes "ids_ok n r_id (requests d)" "request \<in> set (requests d)" "canTransition (Some (r_status request)) to"
    and "request_check (st (request\<lparr>r_status := to\<rparr>))" and "\<And>r. r_id (st r) = r_id r"
  shows "transitionRequest env request to actor reason st d =
    Inr (append_transition env (r_id request) (Some (r_status request)) to actor (Some reason)
           (d\<lparr>requests := upd_key r_id (r_id request) (\<lambda>r. st (r\<lparr>r_status := to\<rparr>)) (requests d)\<rparr>),
         st (request\<lparr>r_status := to\<rparr>))"
proof -
  have "r = request" if "r \<in> set (requests d)" "r_id r = r_id request" for r
    using ids_ok_inj[OF assms(1) that(1) assms(2) that(2)] .
  moreover have "by_key r_id (r_id request) (requests d) = Some request"
    using assms(1,2) by (simp add: ids_ok_by_key)
  ultimately show ?thesis
    using assms(3-5) by (auto simp: transitionRequest_Inr by_key_upd_key)
qed

lemma update_item_ok:
  assumes "ids_ok n i_id (inventoryItems d)" "it \<in> set (inventoryItems d)" "item_check (f it)"
  shows "update_item (i_id it) f d = Inr (d\<lparr>inventoryItems := upd_key i_id (i_id it) f (inventoryItems d)\<rparr>)"
  using assms ids_ok_inj[OF assms(1) _ assms(2)] by (auto simp: update_item_Inr)

lemma insertSystemMessage_ok:
  "insertSystemMessage env c s k d = Inr (d\<lparr>messages := messages d @ [\<lparr>ms_id = next_id d,
     ms_conversationId = c, ms_senderId = s, ms_kind = System_message, ms_body = lit k,
     ms_clientMsgId = None, ms_createdAt = now env, ms_deliveredAt = None, ms_readAt = None\<rparr>],
     next_id := Suc (next_id d)\<rparr>)"
  by (auto simp: insertSystemMessage_def insert_message_def checked_insert_def list_all_iff message_unique_def Let_def)

lemma locked_rows:
  assumes "core_inv n (inventoryItems d) (requests d) os (matches d)" and "lockMatchRows d mid = Some locks"
  shows "lk_match locks \<in> set (matches d)" "m_id (lk_match locks) = mid"
    "lk_request locks \<in> set (requests d)" "r_id (lk_request locks) = m_requestId (lk_match locks)"
    "lk_item locks \<in> set (inventoryItems d)" "i_id (lk_item locks) = m_inventoryItemId (lk_match locks)"
    "\<exists>c \<in> set (conversations d). cv_id c = lk_conversationId locks \<and> cv_matchId c = mid"
  using assms by (auto simp: lockMatchRows_def dest!: by_key_Some_mem split: option.splits)

text \<open>The locked rows of an active match fit together.\<close>

lemma locked_active:
  assumes inv: "core_inv n (inventoryItems d) (requests d) os (matches d)"
    and locks: "lockMatchRows d mid = Some locks" and act: "m_status (lk_match locks) = M_active"
  shows "serves (lk_request locks) (lk_match locks)" "\<not> m_inventoryApplied (lk_match locks)"
    "\<not> m_reliabilityApplied (lk_match locks)"
    "match_ok (lk_match locks)" "item_check (lk_item locks)" "request_check (lk_request locks)"
    "m_qtyReserved (lk_match locks) \<le> i_qtyReserved (lk_item locks)"
proof -
  note L = locked_rows[OF inv locks] and I = core_invD[OF inv]
  show ok: "match_ok (lk_match locks)" using I(7) L(1) by (simp add: matches_ok_def)
  with act show free: "\<not> m_inventoryApplied (lk_match locks)" and "\<not> m_reliabilityApplied (lk_match locks)"
    by (auto simp: match_ok_def)
  from I(8) L(1) act obtain r where r: "r \<in> set (requests d)" "serves r (lk_match locks)"
    unfolding all_served_def by blast
  with ids_ok_inj[OF I(2) r(1) L(3)] L(4) show "serves (lk_request locks) (lk_match locks)"
    by (auto simp: serves_def)
  show "item_check (lk_item locks)" "m_qtyReserved (lk_match locks) \<le> i_qtyReserved (lk_item locks)"
    using I(6) L(5,6) held_ge[OF I(7) L(1) free] by (simp_all add: stock_ok_def)
  show "request_check (lk_request locks)" using I(5) L(3) by (simp add: requests_ok_def)
qed

lemma upd_key_comp:
  assumes "\<And>r. key (f r) = key r"
  shows "upd_key key k g (upd_key key k f t) = upd_key key k (\<lambda>r. g (f r)) t"
  using assms by (induction t) (auto simp: upd_key_def)

lemma map_upd_key_same:
  "(\<And>r. g (f r) = g r) \<Longrightarrow> map g (upd_key key k f t) = map g t"
  by (rule map_upd_key)

subsection \<open>A settlement\<close>

definition settled_status :: "request \<Rightarrow> qty \<Rightarrow> request_status" where
  "settled_status r q = (if r_qtyFulfilled r + q \<ge> r_qty r then Fulfilled
     else if r_qtyFulfilled r + q > 0 then Partially_fulfilled else Searching)"

definition settle_request :: "env \<Rightarrow> request \<Rightarrow> qty \<Rightarrow> request \<Rightarrow> request" where
  "settle_request env r0 q r =
     (let r' = r\<lparr>r_status := settled_status r0 q, r_qtyFulfilled := r_qtyFulfilled r0 + q\<rparr>
      in if settled_status r0 q = Fulfilled then r'\<lparr>r_closedAt := Some (now env)\<rparr> else r')"

definition settle_item :: "env \<Rightarrow> item \<Rightarrow> qty \<Rightarrow> qty \<Rightarrow> item \<Rightarrow> item" where
  "settle_item env it given reserved i = i\<lparr>i_qtyOnHand := i_qtyOnHand it - given,
     i_qtyReserved := i_qtyReserved it - reserved, i_updatedAt := now env\<rparr>"

definition settle_match :: "env \<Rightarrow> request \<Rightarrow> settle_options \<Rightarrow> match_row \<Rightarrow> match_row" where
  "settle_match env r0 opts m = m\<lparr>m_status := (if so_disputed opts then M_disputed
       else if r_qtyFulfilled r0 + so_finalQty opts \<ge> r_qty r0 then M_completed else M_partially_completed),
     m_closedAt := Some (now env), m_closeReason := Some (lit (so_closeReason opts)),
     m_inventoryApplied := True, m_reliabilityApplied := True\<rparr>"

definition settle_counters :: "settle_options \<Rightarrow> (counter_column \<times> nat) list" where
  "settle_counters opts = [(Col_completed, if so_finalQty opts > 0 then 1 else 0),
     (Col_requesterConfirmed, if so_requesterConfirmedPositive opts then 1 else 0)]"

lemma canTransition_settled: "canTransition (Some Matched) (settled_status r q)"
  by (simp add: settled_status_def canTransition_def)

definition settled :: "env \<Rightarrow> match_locks \<Rightarrow> settle_options \<Rightarrow> db \<Rightarrow> db \<Rightarrow> bool" where
  "settled env locks opts d d' \<longleftrightarrow>
     inventoryItems d' = upd_key i_id (i_id (lk_item locks))
          (settle_item env (lk_item locks) (so_finalQty opts) (m_qtyReserved (lk_match locks))) (inventoryItems d)
     \<and> requests d' = upd_key r_id (r_id (lk_request locks))
          (settle_request env (lk_request locks) (so_finalQty opts)) (requests d)
     \<and> matches d' = upd_key m_id (m_id (lk_match locks)) (settle_match env (lk_request locks) opts) (matches d)
     \<and> matchOffers d' = matchOffers d \<and> next_id d \<le> next_id d'
     \<and> map (\<lambda>c. (cv_id c, cv_matchId c)) (conversations d') = map (\<lambda>c. (cv_id c, cv_matchId c)) (conversations d)
     \<and> reliabilityStats d' = reliabilityStats
         ((if so_disputed opts then (\<lambda>x. bump env (m_requesterId (lk_match locks)) [(Col_disputes, 1)]
              (bump env (m_helperId (lk_match locks)) [(Col_disputes, 1)] x)) else id)
           (bump env (m_helperId (lk_match locks)) (settle_counters opts) d))"

lemma settleLocked_run:
  assumes ids: "ids_ok n i_id (inventoryItems d)" "ids_ok n r_id (requests d)"
    and rows: "lk_item locks \<in> set (inventoryItems d)" "lk_request locks \<in> set (requests d)"
    and free: "\<not> m_inventoryApplied (lk_match locks)" "\<not> m_reliabilityApplied (lk_match locks)"
    and st: "r_status (lk_request locks) = Matched" "request_check (lk_request locks)"
    and q: "0 \<le> so_finalQty opts" "r_qtyFulfilled (lk_request locks) + so_finalQty opts \<le> r_qty (lk_request locks)"
    and chk: "item_check (settle_item env (lk_item locks) (so_finalQty opts) (m_qtyReserved (lk_match locks)) (lk_item locks))"
  shows "\<exists>d' after. settleLocked env locks opts d = Inr (d', after) \<and> settled env locks opts d d'"
proof -
  let ?it = "lk_item locks" and ?r = "lk_request locks" and ?m = "lk_match locks" and ?q = "so_finalQty opts"
  define d2 where "d2 = update_match (m_id ?m) (settle_match env ?r opts)
    (d\<lparr>inventoryItems := upd_key i_id (i_id ?it) (settle_item env ?it ?q (m_qtyReserved ?m)) (inventoryItems d)\<rparr>)"
  have item: "update_item (i_id ?it) (\<lambda>i. i\<lparr>i_qtyOnHand := i_qtyOnHand ?it - ?q,
       i_qtyReserved := i_qtyReserved ?it - m_qtyReserved ?m, i_updatedAt := now env\<rparr>) d
     = Inr (d\<lparr>inventoryItems := upd_key i_id (i_id ?it) (settle_item env ?it ?q (m_qtyReserved ?m)) (inventoryItems d)\<rparr>)"
    using update_item_ok[where f = "settle_item env ?it ?q (m_qtyReserved ?m)", OF ids(1) rows(1) chk]
    by (simp add: settle_item_def[abs_def])
  have req: "requests d2 = requests d" "next_id d2 = next_id d" by (simp_all add: d2_def update_match_def)
  define st' where "st' = (\<lambda>r::request. (if settled_status ?r ?q = Fulfilled
      then r\<lparr>r_qtyFulfilled := r_qtyFulfilled ?r + ?q, r_closedAt := Some (now env)\<rparr>
      else r\<lparr>r_qtyFulfilled := r_qtyFulfilled ?r + ?q\<rparr>))"
  have chk': "request_check (st' (?r\<lparr>r_status := settled_status ?r ?q\<rparr>))" and idst: "\<And>r. r_id (st' r) = r_id r"
    using st(2) q by (simp_all add: request_check_def st'_def)
  have sr: "(\<lambda>r. st' (r\<lparr>r_status := settled_status ?r ?q\<rparr>)) = settle_request env ?r ?q"
    by (rule ext) (simp add: st'_def settle_request_def Let_def)
  have tr: "transitionRequest env ?r (settled_status ?r ?q) (so_actor opts) (so_closeReason opts) st' d2 =
    Inr (append_transition env (r_id ?r) (Some Matched) (settled_status ?r ?q) (so_actor opts) (Some (so_closeReason opts))
         (d2\<lparr>requests := upd_key r_id (r_id ?r) (settle_request env ?r ?q) (requests d)\<rparr>),
         st' (?r\<lparr>r_status := settled_status ?r ?q\<rparr>))"
    using transition_ok[of n d2 ?r "settled_status ?r ?q" st', OF _ _ _ chk' idst] ids(2) rows(2) st(1)
      canTransition_settled[of ?r ?q] by (simp add: req sr)
  have branch: "(if r_qtyFulfilled ?r + ?q \<ge> r_qty ?r
         then transitionRequest env ?r Fulfilled (so_actor opts) (so_closeReason opts)
             (\<lambda>r. r\<lparr>r_qtyFulfilled := r_qtyFulfilled ?r + ?q, r_closedAt := Some (now env)\<rparr>) d2
         else if r_qtyFulfilled ?r + ?q > 0 then
           transitionRequest env ?r Partially_fulfilled (so_actor opts) (so_closeReason opts)
             (\<lambda>r. r\<lparr>r_qtyFulfilled := r_qtyFulfilled ?r + ?q\<rparr>) d2
         else transitionRequest env ?r Searching (so_actor opts) (so_closeReason opts)
             (\<lambda>r. r\<lparr>r_qtyFulfilled := r_qtyFulfilled ?r + ?q\<rparr>) d2)
      = transitionRequest env ?r (settled_status ?r ?q) (so_actor opts) (so_closeReason opts) st' d2"
    by (simp add: settled_status_def st'_def)
  have mu: "(\<lambda>m. m\<lparr>m_status := (if so_disputed opts then M_disputed
         else if r_qty ?r \<le> r_qtyFulfilled ?r + ?q then M_completed else M_partially_completed),
       m_closedAt := Some (now env), m_closeReason := Some (lit (so_closeReason opts)),
       m_inventoryApplied := True, m_reliabilityApplied := True\<rparr>) = settle_match env ?r opts"
    by (rule ext) (simp add: settle_match_def)
  show ?thesis
    unfolding settleLocked_def settled_def Let_def free(1) item
    apply (simp only: not_False_eq_True if_True r_bind.simps mu d2_def[symmetric] branch tr prod.case free insertSystemMessage_ok)
    apply (simp add: core_simps update_conversation_def map_upd_key_same d2_def update_match_def
        applyCompleted_def applyDispute_def settle_counters_def)
    apply (simp add: bump_def append_transition_def)
    done
qed


lemma settle_item_check:
  assumes "item_check it" "0 \<le> q" "q \<le> res" "res \<le> i_qtyReserved it"
  shows "item_check (settle_item env it q res it)"
  using assms by (simp add: item_check_def settle_item_def)

text \<open>
  The invariant after a settlement, from the state in which the match was locked; \<open>pre\<close> is the
  confirmation the same transaction may have written before settling.
\<close>

lemma settle_inv:
  assumes inv: "db_inv d" and locks: "lockMatchRows d mid = Some locks"
    and act: "m_status (lk_match locks) = M_active"
    and q: "0 \<le> so_finalQty opts" "so_finalQty opts \<le> m_qtyReserved (lk_match locks)"
    and pre: "\<And>m. m_id (pre m) = m_id m \<and> m_requestId (pre m) = m_requestId m
       \<and> m_requesterId (pre m) = m_requesterId m \<and> m_helperId (pre m) = m_helperId m
       \<and> m_inventoryItemId (pre m) = m_inventoryItemId m \<and> m_qtyReserved (pre m) = m_qtyReserved m
       \<and> m_inventoryApplied (pre m) = m_inventoryApplied m \<and> m_reliabilityApplied (pre m) = m_reliabilityApplied m"
    and conf: "confirmed_ok (lk_match locks) (m_requesterConfirmedQty (pre (lk_match locks)))"
      "confirmed_ok (lk_match locks) (m_helperConfirmedQty (pre (lk_match locks)))"
  shows "\<exists>d' after. settleLocked env (locks\<lparr>lk_match := pre (lk_match locks)\<rparr>) opts (update_match mid pre d) = Inr (d', after)
     \<and> db_inv d'
     \<and> inventoryItems d' = upd_key i_id (i_id (lk_item locks))
          (settle_item env (lk_item locks) (so_finalQty opts) (m_qtyReserved (lk_match locks))) (inventoryItems d)
     \<and> requests d' = upd_key r_id (r_id (lk_request locks))
          (settle_request env (lk_request locks) (so_finalQty opts)) (requests d)
     \<and> matches d' = upd_key m_id mid (\<lambda>m. settle_match env (lk_request locks) opts (pre m)) (matches d)
     \<and> matchOffers d' = matchOffers d"
proof -
  let ?it = "lk_item locks" and ?r = "lk_request locks" and ?m = "lk_match locks" and ?q = "so_finalQty opts"
  let ?d1 = "update_match mid pre d" and ?locks = "locks\<lparr>lk_match := pre ?m\<rparr>"
  note C = db_invD[OF inv]
  note I = core_invD[OF C(1)] and L = locked_rows[OF C(1) locks] and A = locked_active[OF C(1) locks act]
  have t1: "inventoryItems ?d1 = inventoryItems d" "requests ?d1 = requests d" "next_id ?d1 = next_id d"
    "matches ?d1 = upd_key m_id mid pre (matches d)" "matchOffers ?d1 = matchOffers d"
    "conversations ?d1 = conversations d" "reliabilityStats ?d1 = reliabilityStats d"
    by (simp_all add: update_match_def)
  have fits: "r_qtyFulfilled ?r + ?q \<le> r_qty ?r" using A(1) q(2) by (simp add: serves_def)
  have chk: "item_check (settle_item env ?it ?q (m_qtyReserved ?m) ?it)"
    using settle_item_check[OF A(5) q A(7)] .
  have "\<exists>d' after. settleLocked env ?locks opts ?d1 = Inr (d', after) \<and> settled env ?locks opts ?d1 d'"
  proof (rule settleLocked_run)
    show "r_status (lk_request ?locks) = Matched" using A(1) by (simp add: serves_def)
    show "item_check (settle_item env (lk_item ?locks) ?q (m_qtyReserved (lk_match ?locks)) (lk_item ?locks))"
      using chk pre by simp
  qed (use I(1,2) L(3,5) A(2,3,6) q(1) fits pre[of ?m] in \<open>simp_all add: t1\<close>)
  then obtain d' after where run: "settleLocked env ?locks opts ?d1 = Inr (d', after)"
    and sd: "settled env ?locks opts ?d1 d'" by blast
  have comp: "upd_key m_id mid (settle_match env ?r opts) (upd_key m_id mid pre (matches d))
      = upd_key m_id mid (\<lambda>m. settle_match env ?r opts (pre m)) (matches d)"
    using pre by (intro upd_key_comp) simp
  have t: "inventoryItems d' = upd_key i_id (i_id ?it) (settle_item env ?it ?q (m_qtyReserved ?m)) (inventoryItems d)"
      "requests d' = upd_key r_id (r_id ?r) (settle_request env ?r ?q) (requests d)"
      "matches d' = upd_key m_id mid (\<lambda>m. settle_match env ?r opts (pre m)) (matches d)"
      "matchOffers d' = matchOffers d" "next_id d \<le> next_id d'"
      "map (\<lambda>c. (cv_id c, cv_matchId c)) (conversations d') = map (\<lambda>c. (cv_id c, cv_matchId c)) (conversations d)"
    using sd pre[of ?m] L(2) comp by (simp_all add: settled_def t1)
  have ss: "reliabilityStats d' = reliabilityStats
         ((if so_disputed opts then (\<lambda>x. bump env (m_requesterId ?m) [(Col_disputes, 1)]
              (bump env (m_helperId ?m) [(Col_disputes, 1)] x)) else id)
           (bump env (m_helperId ?m) (settle_counters opts) ?d1))"
    using sd pre[of ?m] by (simp add: settled_def)
  have "core_inv (next_id d) (inventoryItems d') (requests d') (matchOffers d') (matches d')"
    unfolding t(1-4) L(4,6) using L(2)[symmetric]
  proof (simp only:, intro core_close[OF C(1) L(1) act])
    show "m_id (settle_match env ?r opts (pre x)) = m_id x
      \<and> m_requestId (settle_match env ?r opts (pre x)) = m_requestId x
      \<and> m_inventoryItemId (settle_match env ?r opts (pre x)) = m_inventoryItemId x
      \<and> m_inventoryApplied (settle_match env ?r opts (pre x))
      \<and> m_status (settle_match env ?r opts (pre x)) \<noteq> M_active" for x
      using pre[of x] by (simp add: settle_match_def)
    have "confirmed_ok (settle_match env ?r opts (pre ?m)) c = confirmed_ok ?m c" for c
      using pre[of ?m] by (auto simp: confirmed_ok_def settle_match_def split: option.splits)
    then show "match_ok (settle_match env ?r opts (pre ?m))"
      using A(4) pre[of ?m] conf by (simp add: match_ok_def) (simp add: settle_match_def)
    show "request_check (settle_request env ?r ?q r)" if "r \<in> set (requests d)" "r_id r = m_requestId ?m" for r
      using ids_ok_inj[OF I(2) that(1) L(3)] that(2) L(4) A(6) fits q(1)
      by (simp add: settle_request_def Let_def request_check_def)
    show "item_check (settle_item env ?it ?q (m_qtyReserved ?m) i)
        \<and> i_qtyReserved (settle_item env ?it ?q (m_qtyReserved ?m) i) = i_qtyReserved i - m_qtyReserved ?m"
      if "i \<in> set (inventoryItems d)" "i_id i = m_inventoryItemId ?m" for i
    proof -
      have "i = ?it" using ids_ok_inj[OF I(1) that(1) L(5)] that(2) L(6) by simp
      with chk show ?thesis by (simp add: settle_item_def)
    qed
  qed (simp_all add: settle_request_def settle_item_def settled_status_def Let_def)
  then have "core_inv (next_id d') (inventoryItems d') (requests d') (matchOffers d') (matches d')"
    by (rule core_inv_mono) (rule t(5))
  moreover have "chat_inv (next_id d') (matches d') (conversations d')"
  proof (rule chat_inv_cong[OF C(2) t(6) _ t(5)])
    show "m_id ` set (matches d') = m_id ` set (matches d)"
      unfolding t(3) using pre by (intro upd_key_keys) (simp add: settle_match_def)
  qed
  moreover have "stats_inv (matchOffers d') (reliabilityStats d')"
    unfolding ss t(4) using C(3) by (auto intro!: stats_inv_bump_free simp: free_increment_def settle_counters_def t1)
  moreover have "labels_inv (reliabilityStats d')"
    unfolding ss using C(4) by (auto intro!: labels_inv_bump simp: t1)
  ultimately show ?thesis using run t by (auto simp: db_inv_def)
qed


end
