(* ===== verification/Match_Ops.thy ===== *)
theory Match_Ops
  imports Effects
begin

text \<open>
  The operations on a match keep the database invariant and never end in a constraint violation:
  confirming, auto-finalizing, setting a meeting state, cancelling.
\<close>

definition keeps :: "db \<Rightarrow> app_error + 'x \<Rightarrow> ('x \<Rightarrow> db) \<Rightarrow> bool" where
  "keeps d r st \<longleftrightarrow> (case r of Inl e \<Rightarrow> \<not> is_internal e | Inr x \<Rightarrow> db_inv (st x))"

lemma keeps_simps [simp]:
  "keeps d (Inl e) st = (\<not> is_internal e)" "keeps d (Inr x) st = db_inv (st x)"
  by (simp_all add: keeps_def)

lemma keeps_bind:
  assumes "keeps d r st" and "\<And>x. r = Inr x \<Longrightarrow> db_inv (st x) \<Longrightarrow> keeps d (k x) st'"
  shows "keeps d (r_bind r k) st'"
  using assms by (cases r) auto

lemma keeps_or_throw:
  assumes "\<not> is_internal e" and "\<And>x. opt = Some x \<Longrightarrow> keeps d (k x) st"
  shows "keeps d (r_bind (or_throw e opt) k) st"
  using assms by (cases opt) auto

subsection \<open>Confirming\<close>

definition confirm_row :: "match_row \<Rightarrow> uid \<Rightarrow> qty \<Rightarrow> match_row \<Rightarrow> match_row" where
  "confirm_row m0 viewer q m = (if m_requesterId m0 = viewer then m\<lparr>m_requesterConfirmedQty := Some q\<rparr>
     else m\<lparr>m_helperConfirmedQty := Some q\<rparr>)"

lemma confirm_row_fields [simp]:
  "m_id (confirm_row m0 v q m) = m_id m" "m_requestId (confirm_row m0 v q m) = m_requestId m"
  "m_requesterId (confirm_row m0 v q m) = m_requesterId m" "m_helperId (confirm_row m0 v q m) = m_helperId m"
  "m_inventoryItemId (confirm_row m0 v q m) = m_inventoryItemId m"
  "m_qtyReserved (confirm_row m0 v q m) = m_qtyReserved m" "m_status (confirm_row m0 v q m) = m_status m"
  "m_inventoryApplied (confirm_row m0 v q m) = m_inventoryApplied m"
  "m_reliabilityApplied (confirm_row m0 v q m) = m_reliabilityApplied m"
  by (simp_all add: confirm_row_def)

text \<open>The settlement a second confirmation triggers.\<close>

definition confirm_options :: "match_row \<Rightarrow> uid \<Rightarrow> qty \<Rightarrow> qty \<Rightarrow> settle_options" where
  "confirm_options m viewer q other =
     (let isRequester = (m_requesterId m = viewer);
          requesterQty = (if isRequester then q else other);
          helperQty = (if m_helperId m = viewer then q else other)
      in \<lparr>so_finalQty = min requesterQty helperQty, so_disputed = (requesterQty \<noteq> helperQty),
          so_closeReason = (if requesterQty \<noteq> helperQty then ''disputed_quantities'' else ''confirmed''),
          so_actor = (if isRequester then Requester_actor else Helper_actor),
          so_senderUserId = viewer, so_requesterConfirmedPositive = (requesterQty > 0)\<rparr>)"

definition my_confirmed :: "match_row \<Rightarrow> uid \<Rightarrow> qty option" where
  "my_confirmed m viewer = (if m_requesterId m = viewer then m_requesterConfirmedQty m else m_helperConfirmedQty m)"

definition peer_confirmed :: "match_row \<Rightarrow> uid \<Rightarrow> qty option" where
  "peer_confirmed m viewer = (if m_requesterId m = viewer then m_helperConfirmedQty m else m_requesterConfirmedQty m)"

lemma confirm_tx_cases:
  "confirm_tx env mid viewer q d = (case lockMatchRows d mid of
     None \<Rightarrow> Inl Not_found
   | Some locks \<Rightarrow> let m = lk_match locks in
       if m_requesterId m \<noteq> viewer \<and> m_helperId m \<noteq> viewer then Inl Not_found
       else if my_confirmed m viewer \<noteq> None \<or> m_status m \<noteq> M_active
       then if my_confirmed m viewer = Some q then Inr (d, [], False) else Inl Request_conflict
       else if q > m_qtyReserved m \<or> (\<not> lk_fractional locks \<and> \<not> is_integer q) then Inl (Validation ''qty'')
       else case peer_confirmed m viewer of
           None \<Rightarrow> Inr (update_match mid (confirm_row m viewer q) d, [], True)
         | Some other \<Rightarrow> r_bind (settleLocked env (locks\<lparr>lk_match := confirm_row m viewer q m\<rparr>)
               (confirm_options m viewer q other) (update_match mid (confirm_row m viewer q) d))
               (\<lambda>(d2, after). Inr (d2, after, False)))"
proof (cases "lockMatchRows d mid")
  case (Some locks)
  have c: "(\<lambda>m. if m_requesterId (lk_match locks) = viewer then m\<lparr>m_requesterConfirmedQty := Some q\<rparr>
      else m\<lparr>m_helperConfirmedQty := Some q\<rparr>) = confirm_row (lk_match locks) viewer q"
    by (rule ext) (simp add: confirm_row_def)
  show ?thesis
    unfolding confirm_tx_def Some or_throw_simps r_bind.simps option.case Let_def c
    by (simp add: confirm_options_def my_confirmed_def peer_confirmed_def confirm_row_def Let_def
        split: option.split)
qed (simp add: confirm_tx_def)

lemma confirm_row_ok:
  assumes "match_ok m" "m_requesterId m = v \<or> m_helperId m = v" "my_confirmed m v = None"
    and q: "0 \<le> q" "q \<le> m_qtyReserved m"
  shows "confirmed_ok m (m_requesterConfirmedQty (confirm_row m v q m))"
    "confirmed_ok m (m_helperConfirmedQty (confirm_row m v q m))"
    "peer_confirmed m v = None \<Longrightarrow> match_ok (confirm_row m v q m)"
  using assms by (auto simp: match_ok_def confirm_row_def confirmed_ok_def my_confirmed_def
      peer_confirmed_def split: option.splits if_splits)

lemma confirm_options_qty:
  assumes ok: "match_ok m" and v: "m_requesterId m = v \<or> m_helperId m = v"
    and p: "peer_confirmed m v = Some other" and q: "0 \<le> q" "q \<le> m_qtyReserved m"
  shows "so_finalQty (confirm_options m v q other) = min q other"
    "0 \<le> min q other" "min q other \<le> m_qtyReserved m"
proof -
  from ok p have "0 \<le> other \<and> other \<le> m_qtyReserved m"
    by (auto simp: match_ok_def confirmed_ok_def peer_confirmed_def split: if_splits option.splits)
  with q show "0 \<le> min q other" "min q other \<le> m_qtyReserved m" by (auto simp: min_def)
  show "so_finalQty (confirm_options m v q other) = min q other"
    using ok v by (auto simp: confirm_options_def Let_def match_ok_def min.commute)
qed

lemma confirm_keeps:
  assumes inv: "db_inv d" and q: "0 \<le> q"
  shows "keeps d (confirm_tx env mid viewer q d) fst"
proof (cases "lockMatchRows d mid")
  case None
  then show ?thesis by (simp add: confirm_tx_cases)
next
  case (Some locks)
  let ?m = "lk_match locks"
  note C = db_invD[OF inv]
  note L = locked_rows[OF C(1) Some]
  show ?thesis
  proof (cases "(m_requesterId ?m = viewer \<or> m_helperId ?m = viewer) \<and> my_confirmed ?m viewer = None
      \<and> m_status ?m = M_active \<and> \<not> (q > m_qtyReserved ?m \<or> (\<not> lk_fractional locks \<and> \<not> is_integer q))")
    case False
    then show ?thesis using inv Some by (auto simp: confirm_tx_cases Let_def)
  next
    case True
    then have go: "m_requesterId ?m = viewer \<or> m_helperId ?m = viewer" "my_confirmed ?m viewer = None"
        "m_status ?m = M_active" "q \<le> m_qtyReserved ?m"
        "confirm_tx env mid viewer q d = (case peer_confirmed ?m viewer of
           None \<Rightarrow> Inr (update_match mid (confirm_row ?m viewer q) d, [], True)
         | Some other \<Rightarrow> r_bind (settleLocked env (locks\<lparr>lk_match := confirm_row ?m viewer q ?m\<rparr>)
               (confirm_options ?m viewer q other) (update_match mid (confirm_row ?m viewer q) d))
               (\<lambda>(d2, after). Inr (d2, after, False)))"
      unfolding confirm_tx_cases[of env mid viewer q d] Some option.case Let_def by (simp_all only: simp_thms) auto
    note A = locked_active[OF C(1) Some go(3)]
    note R = confirm_row_ok[OF A(4) go(1,2) q go(4)]
    show ?thesis
    proof (cases "peer_confirmed ?m viewer")
      case None
      let ?d = "update_match mid (confirm_row ?m viewer q) d"
      have "core_inv (next_id d) (inventoryItems d) (requests d) (matchOffers d)
          (upd_key m_id mid (confirm_row ?m viewer q) (matches d))"
      proof (rule core_match_update[OF C(1)])
        fix m assume "m \<in> set (matches d)" "m_id m = mid"
        with ids_ok_inj[OF core_invD(4)[OF C(1)] _ L(1)] L(2) have "m = ?m" by simp
        then show "match_ok (confirm_row ?m viewer q m)" using R(3)[OF None] by simp
      qed simp
      moreover have "m_id ` set (upd_key m_id mid (confirm_row ?m viewer q) (matches d)) = m_id ` set (matches d)"
        by (rule upd_key_keys) simp
      ultimately have "db_inv ?d" using C by (auto simp: db_inv_def update_match_def chat_inv_def)
      then show ?thesis using None go by simp
    next
      case (Some other)
      note O = confirm_options_qty[OF A(4) go(1) Some q go(4)]
      have "\<exists>d' after. settleLocked env (locks\<lparr>lk_match := confirm_row ?m viewer q ?m\<rparr>)
          (confirm_options ?m viewer q other) (update_match mid (confirm_row ?m viewer q) d) = Inr (d', after) \<and> db_inv d'"
        using settle_inv[OF inv \<open>lockMatchRows d mid = Some locks\<close> go(3), where pre = "confirm_row ?m viewer q"
            and opts = "confirm_options ?m viewer q other" and env = env] O R(1,2) by auto
      with Some go show ?thesis by auto
    qed
  qed
qed

subsection \<open>Finalizing\<close>

lemma finalize_keeps:
  assumes inv: "db_inv d"
  shows "keeps d (finalize_tx env mid d) fst"
proof (cases "lockMatchRows d mid")
  case None
  then show ?thesis using inv by (simp add: finalize_tx_def)
next
  case (Some locks)
  let ?m = "lk_match locks"
  let ?cs = "List.map_filter id [m_requesterConfirmedQty ?m, m_helperConfirmedQty ?m]"
  note C = db_invD[OF inv]
  show ?thesis
  proof (cases "m_status ?m \<noteq> M_active \<or> m_inventoryApplied ?m \<or> length ?cs \<noteq> 1")
    case True
    then show ?thesis using inv Some by (simp add: finalize_tx_def Let_def)
  next
    case False
    then have act: "m_status ?m = M_active" and one: "length ?cs = 1" by auto
    note A = locked_active[OF C(1) Some act]
    have hd: "0 \<le> hd ?cs \<and> hd ?cs \<le> m_qtyReserved ?m"
      using A(4) one by (auto simp: match_ok_def confirmed_ok_def List.map_filter_simps split: option.splits)
    let ?opts = "\<lparr>so_finalQty = hd ?cs, so_disputed = False,
        so_closeReason = ''auto_finalized_unconfirmed_peer'', so_actor = System_actor,
        so_senderUserId = (if m_requesterConfirmedQty ?m \<noteq> None then m_requesterId ?m else m_helperId ?m),
        so_requesterConfirmedPositive = (case m_requesterConfirmedQty ?m of None \<Rightarrow> False | Some q \<Rightarrow> q > 0)\<rparr>"
    have idm: "update_match mid (\<lambda>m. m) d = d"
      by (simp add: update_match_def upd_key_def upd_where_def)
    have "\<exists>d' after. settleLocked env (locks\<lparr>lk_match := ?m\<rparr>) ?opts (update_match mid (\<lambda>m. m) d) = Inr (d', after) \<and> db_inv d'"
      using settle_inv[OF inv Some act, where pre = "\<lambda>m. m" and opts = ?opts and env = env] hd A(4)
      by (auto simp: match_ok_def)
    moreover have "finalize_tx env mid d = settleLocked env locks ?opts d"
      using False Some by (simp add: finalize_tx_def Let_def)
    ultimately show ?thesis using idm by auto
  qed
qed

subsection \<open>Cancelling\<close>

definition cancelled_request_status :: "cancel_options \<Rightarrow> request_status" where
  "cancelled_request_status opts = (if co_actor opts = Moderator_actor then Moderated
     else if co_actor opts = Requester_actor then Cancelled else Searching)"

definition cancel_request_row :: "env \<Rightarrow> cancel_options \<Rightarrow> request \<Rightarrow> request" where
  "cancel_request_row env opts r =
     (let r' = r\<lparr>r_status := cancelled_request_status opts\<rparr>
      in if cancelled_request_status opts = Searching then r' else r'\<lparr>r_closedAt := Some (now env)\<rparr>)"

definition release_item :: "env \<Rightarrow> item \<Rightarrow> qty \<Rightarrow> item \<Rightarrow> item" where
  "release_item env it reserved i = i\<lparr>i_qtyReserved := i_qtyReserved it - reserved, i_updatedAt := now env\<rparr>"

definition cancelled_match_status :: "cancel_options \<Rightarrow> match_status" where
  "cancelled_match_status opts = (if co_actor opts = Moderator_actor then M_cancelled_moderation
     else if co_unsafe opts then M_cancelled_unsafe
     else if co_actor opts = Requester_actor then M_cancelled_by_requester else M_cancelled_by_helper)"

definition cancel_match_row :: "env \<Rightarrow> cancel_options \<Rightarrow> match_row \<Rightarrow> match_row" where
  "cancel_match_row env opts m = m\<lparr>m_status := cancelled_match_status opts, m_closedAt := Some (now env),
     m_closeReason := Some (case co_note opts of
         Some n \<Rightarrow> if n = [] then lit (co_reason opts)
                  else lit (co_reason opts) @ lit '': '' @ redactContactDetails n
       | None \<Rightarrow> lit (co_reason opts)),
     m_inventoryApplied := True\<rparr>"

definition helper_penalty :: "cancel_options \<Rightarrow> match_row \<Rightarrow> (counter_column \<times> nat) list option" where
  "helper_penalty opts m = (if co_actor opts = Helper_actor \<and> \<not> co_unsafe opts
     then Some (if m_requesterMeetingState m \<in> set [Arrived, Exchanging]
                   \<or> m_helperMeetingState m \<in> set [Arrived, Exchanging]
                then [(Col_cancelledPostMeeting, 1)] else [(Col_cancelledPreMeeting, 1)])
     else None)"

definition cancelled_run :: "env \<Rightarrow> match_locks \<Rightarrow> cancel_options \<Rightarrow> db \<Rightarrow> db \<Rightarrow> bool" where
  "cancelled_run env locks opts d d' \<longleftrightarrow>
     inventoryItems d' = upd_key i_id (i_id (lk_item locks))
       (release_item env (lk_item locks) (m_qtyReserved (lk_match locks))) (inventoryItems d)
     \<and> requests d' = upd_key r_id (r_id (lk_request locks)) (cancel_request_row env opts) (requests d)
     \<and> matches d' = upd_key m_id (m_id (lk_match locks)) (cancel_match_row env opts) (matches d)
     \<and> matchOffers d' = matchOffers d \<and> next_id d \<le> next_id d'
     \<and> map (\<lambda>c. (cv_id c, cv_matchId c)) (conversations d') = map (\<lambda>c. (cv_id c, cv_matchId c)) (conversations d)
     \<and> reliabilityStats d' = (case helper_penalty opts (lk_match locks) of
          None \<Rightarrow> reliabilityStats d
        | Some inc \<Rightarrow> reliabilityStats (bump env (m_helperId (lk_match locks)) inc d))"

lemma canTransition_cancelled: "canTransition (Some Matched) (cancelled_request_status opts)"
  by (simp add: cancelled_request_status_def canTransition_def)

lemma delete_location_tables [core_simps]:
  "inventoryItems (delete_location u e d) = inventoryItems d"
  "requests (delete_location u e d) = requests d" "matchOffers (delete_location u e d) = matchOffers d"
  "matches (delete_location u e d) = matches d" "reliabilityStats (delete_location u e d) = reliabilityStats d"
  "conversations (delete_location u e d) = conversations d" "messages (delete_location u e d) = messages d"
  "next_id (delete_location u e d) = next_id d"
  by (simp_all add: delete_location_def)

lemma bump_stats_cong:
  "reliabilityStats a = reliabilityStats b \<Longrightarrow> reliabilityStats (bump env u inc a) = reliabilityStats (bump env u inc b)"
  by (simp add: bump_def)

lemma cancelMatchLocked_run:
  assumes ids: "ids_ok n i_id (inventoryItems d)" "ids_ok n r_id (requests d)"
    and rows: "lk_item locks \<in> set (inventoryItems d)" "lk_request locks \<in> set (requests d)"
    and act: "m_status (lk_match locks) = M_active" and free: "\<not> m_inventoryApplied (lk_match locks)"
    and st: "r_status (lk_request locks) = Matched" "request_check (lk_request locks)"
    and chk: "item_check (release_item env (lk_item locks) (m_qtyReserved (lk_match locks)) (lk_item locks))"
  shows "\<exists>d' after. cancelMatchLocked env locks opts d = Inr (d', after) \<and> cancelled_run env locks opts d d'"
proof -
  let ?it = "lk_item locks" and ?r = "lk_request locks" and ?m = "lk_match locks"
  let ?closing = "co_unsafe opts \<or> co_actor opts = Moderator_actor"
  let ?grace = "now env + CONVERSATION_GRACE_MS"
  define d1 where "d1 = d\<lparr>inventoryItems := upd_key i_id (i_id ?it) (release_item env ?it (m_qtyReserved ?m)) (inventoryItems d)\<rparr>"
  define d3 where "d3 = update_conversation (lk_conversationId locks)
       (if ?closing then (\<lambda>c. c\<lparr>cv_status := Conv_readonly, cv_expiresAt := Some ?grace\<rparr>)
        else (\<lambda>c. c\<lparr>cv_expiresAt := Some ?grace\<rparr>)) (update_match (m_id ?m) (cancel_match_row env opts) d1)"
  have item: "update_item (i_id ?it) (\<lambda>i. i\<lparr>i_qtyReserved := i_qtyReserved ?it - m_qtyReserved ?m,
       i_updatedAt := now env\<rparr>) d = Inr d1"
    using update_item_ok[where f = "release_item env ?it (m_qtyReserved ?m)", OF ids(1) rows(1) chk]
    by (simp add: release_item_def[abs_def] d1_def)
  have d3t: "requests d3 = requests d" "next_id d3 = next_id d" "matchOffers d3 = matchOffers d"
    "inventoryItems d3 = inventoryItems d1" "reliabilityStats d3 = reliabilityStats d"
    "matches d3 = upd_key m_id (m_id ?m) (cancel_match_row env opts) (matches d)"
    "map (\<lambda>c. (cv_id c, cv_matchId c)) (conversations d3) = map (\<lambda>c. (cv_id c, cv_matchId c)) (conversations d)"
    by (simp_all add: d3_def d1_def update_match_def update_conversation_def map_upd_key_same)
  define st' where "st' = (\<lambda>r::request. if cancelled_request_status opts = Searching then r
      else r\<lparr>r_closedAt := Some (now env)\<rparr>)"
  have idst: "\<And>r. r_id (st' r) = r_id r"
    and chk': "request_check (st' (?r\<lparr>r_status := cancelled_request_status opts\<rparr>))"
    using st(2) by (simp_all add: st'_def request_check_def)
  have sr: "(\<lambda>r. st' (r\<lparr>r_status := cancelled_request_status opts\<rparr>)) = cancel_request_row env opts"
    by (rule ext) (simp add: st'_def cancel_request_row_def Let_def)
  define actor where "actor = (if co_actor opts = Moderator_actor then Moderator_actor
      else if co_actor opts = Requester_actor then Requester_actor else Helper_actor)"
  have branch: "(if co_actor opts = Moderator_actor then
           transitionRequest env ?r Moderated Moderator_actor (co_reason opts) (\<lambda>r. r\<lparr>r_closedAt := Some (now env)\<rparr>) d3
         else if co_actor opts = Requester_actor then
           transitionRequest env ?r Cancelled Requester_actor (co_reason opts) (\<lambda>r. r\<lparr>r_closedAt := Some (now env)\<rparr>) d3
         else transitionRequest env ?r Searching Helper_actor (co_reason opts) id d3)
      = transitionRequest env ?r (cancelled_request_status opts) actor (co_reason opts) st' d3"
    by (simp add: cancelled_request_status_def st'_def actor_def id_def)
  have tr: "transitionRequest env ?r (cancelled_request_status opts) actor (co_reason opts) st' d3 =
    Inr (append_transition env (r_id ?r) (Some Matched) (cancelled_request_status opts) actor (Some (co_reason opts))
         (d3\<lparr>requests := upd_key r_id (r_id ?r) (cancel_request_row env opts) (requests d)\<rparr>),
         st' (?r\<lparr>r_status := cancelled_request_status opts\<rparr>))"
    using transition_ok[of n d3 ?r "cancelled_request_status opts" st', OF _ _ _ chk' idst] ids(2) rows(2) st(1)
      canTransition_cancelled[of opts] by (simp add: d3t sr)
  have mu: "(\<lambda>m. m\<lparr>m_status := (if co_actor opts = Moderator_actor then M_cancelled_moderation
                    else if co_unsafe opts then M_cancelled_unsafe
                    else if co_actor opts = Requester_actor then M_cancelled_by_requester
                    else M_cancelled_by_helper), m_closedAt := Some (now env),
       m_closeReason := Some (case co_note opts of
              Some n \<Rightarrow> if n = [] then lit (co_reason opts)
                        else lit (co_reason opts) @ lit '': '' @ redactContactDetails n
            | None \<Rightarrow> lit (co_reason opts)), m_inventoryApplied := True\<rparr>) = cancel_match_row env opts"
    by (rule ext) (simp add: cancel_match_row_def cancelled_match_status_def split: option.split)
  show ?thesis
    unfolding cancelMatchLocked_def Let_def
    apply (simp only: act free not_False_eq_True not_not simp_thms if_True if_False item r_bind.simps mu
        d3_def[symmetric] branch tr prod.case insertSystemMessage_ok)
    apply (auto simp: cancelled_run_def core_simps d3t helper_penalty_def applyHelperCancel_def
        bump_def d1_def split: option.split)
    done
qed

lemma release_item_check:
  assumes "item_check it" "0 \<le> res" "res \<le> i_qtyReserved it"
  shows "item_check (release_item env it res it)"
  using assms by (simp add: item_check_def release_item_def)

lemma cancel_inv:
  assumes inv: "db_inv d" and locks: "lockMatchRows d mid = Some locks"
    and act: "m_status (lk_match locks) = M_active"
  shows "\<exists>d' after. cancelMatchLocked env locks opts d = Inr (d', after) \<and> cancelled_run env locks opts d d' \<and> db_inv d'"
proof -
  let ?it = "lk_item locks" and ?r = "lk_request locks" and ?m = "lk_match locks"
  note C = db_invD[OF inv]
  note I = core_invD[OF C(1)] and L = locked_rows[OF C(1) locks] and A = locked_active[OF C(1) locks act]
  have chk: "item_check (release_item env ?it (m_qtyReserved ?m) ?it)"
    using release_item_check[OF A(5) _ A(7)] A(4) by (simp add: match_ok_def)
  obtain d' after where run: "cancelMatchLocked env locks opts d = Inr (d', after)"
    and cr: "cancelled_run env locks opts d d'"
    using cancelMatchLocked_run[OF I(1,2) L(5,3) act A(2) _ A(6) chk, of opts] A(1) unfolding serves_def by blast
  have t: "inventoryItems d' = upd_key i_id (m_inventoryItemId ?m) (release_item env ?it (m_qtyReserved ?m)) (inventoryItems d)"
      "requests d' = upd_key r_id (m_requestId ?m) (cancel_request_row env opts) (requests d)"
      "matches d' = upd_key m_id (m_id ?m) (cancel_match_row env opts) (matches d)"
      "matchOffers d' = matchOffers d" "next_id d \<le> next_id d'"
      "map (\<lambda>c. (cv_id c, cv_matchId c)) (conversations d') = map (\<lambda>c. (cv_id c, cv_matchId c)) (conversations d)"
    using cr L(4,6) by (simp_all add: cancelled_run_def)
  have "core_inv (next_id d) (inventoryItems d') (requests d') (matchOffers d') (matches d')"
    unfolding t(1-4)
  proof (intro core_close[OF C(1) L(1) act])
    show "m_id (cancel_match_row env opts x) = m_id x \<and> m_requestId (cancel_match_row env opts x) = m_requestId x
      \<and> m_inventoryItemId (cancel_match_row env opts x) = m_inventoryItemId x
      \<and> m_inventoryApplied (cancel_match_row env opts x) \<and> m_status (cancel_match_row env opts x) \<noteq> M_active" for x
      by (simp add: cancel_match_row_def cancelled_match_status_def)
    have "confirmed_ok (cancel_match_row env opts ?m) c = confirmed_ok ?m c" for c
      by (simp add: confirmed_ok_def cancel_match_row_def split: option.splits)
    then show "match_ok (cancel_match_row env opts ?m)"
      using A(4) by (simp add: match_ok_def) (simp add: cancel_match_row_def cancelled_match_status_def)
    show "request_check (cancel_request_row env opts r)" if "r \<in> set (requests d)" "r_id r = m_requestId ?m" for r
      using I(5) that(1) by (simp add: requests_ok_def request_check_def cancel_request_row_def Let_def)
    show "item_check (release_item env ?it (m_qtyReserved ?m) i)
        \<and> i_qtyReserved (release_item env ?it (m_qtyReserved ?m) i) = i_qtyReserved i - m_qtyReserved ?m"
      if "i \<in> set (inventoryItems d)" "i_id i = m_inventoryItemId ?m" for i
    proof -
      have "i = ?it" using ids_ok_inj[OF I(1) that(1) L(5)] that(2) L(6) by simp
      with chk show ?thesis by (simp add: release_item_def)
    qed
  qed (simp_all add: cancel_request_row_def release_item_def cancelled_request_status_def Let_def)
  then have "core_inv (next_id d') (inventoryItems d') (requests d') (matchOffers d') (matches d')"
    by (rule core_inv_mono) (rule t(5))
  moreover have "chat_inv (next_id d') (matches d') (conversations d')"
  proof (rule chat_inv_cong[OF C(2) t(6) _ t(5)])
    show "m_id ` set (matches d') = m_id ` set (matches d)"
      unfolding t(3) by (intro upd_key_keys) (simp add: cancel_match_row_def)
  qed
  moreover have "stats_inv (matchOffers d') (reliabilityStats d')" "labels_inv (reliabilityStats d')"
    using cr C(3,4) unfolding t(4) cancelled_run_def
    by (auto intro!: stats_inv_bump_free labels_inv_bump simp: free_increment_def helper_penalty_def split: if_splits)
  ultimately show ?thesis using run cr by (auto simp: db_inv_def)
qed

lemma cancelMatchInTx_keeps:
  assumes inv: "db_inv d"
  shows "keeps d (cancelMatchInTx env mid opts d) fst"
  unfolding cancelMatchInTx_def
proof (rule keeps_or_throw)
  fix locks assume locks: "lockMatchRows d mid = Some locks"
  show "keeps d (cancelMatchLocked env locks opts d) fst"
  proof (cases "m_status (lk_match locks) = M_active")
    case True
    then show ?thesis using cancel_inv[OF inv locks True, of env opts] by auto
  qed (simp add: cancelMatchLocked_def Let_def)
qed simp

lemma cancel_keeps:
  assumes inv: "db_inv d"
  shows "keeps d (cancel_tx env mid viewer input d) fst"
  unfolding cancel_tx_def
proof (rule keeps_or_throw)
  fix locks assume locks: "lockMatchRows d mid = Some locks"
  have "keeps d (cancelMatchLocked env locks opts d) fst" for opts
  proof (cases "m_status (lk_match locks) = M_active")
    case True
    then show ?thesis using cancel_inv[OF inv locks True, of env opts] by auto
  qed (simp add: cancelMatchLocked_def Let_def)
  then show "keeps d (let match = lk_match locks; isRequester = m_requesterId match = viewer;
        isHelper = m_helperId match = viewer
      in if \<not> isRequester \<and> \<not> isHelper then Inl Not_found
         else cancelMatchLocked env locks
               \<lparr>co_actor = if isRequester then Requester_actor else Helper_actor,
                  co_cancellerUserId = Some viewer, co_reason = cancel_reason_token (ci_reason input),
                  co_unsafe = ci_reason input = Unsafe, co_note = ci_note input\<rparr> d) fst"
    by (simp add: Let_def)
qed simp


end
