(* ===== verification/Offers.thy ===== *)
theory Offers
  imports Matches
begin

text \<open>
  \<open>server/src/modules/offers/service.ts\<close>: the pending list and the answer of the asked helper.
  Accepting reserves stock, creates the match with its conversation and moves the request to
  matched in one transaction; when the stock is gone the offer is voided instead, and that
  transaction commits before the error is thrown.
\<close>

definition computeReserveQty :: "qty \<Rightarrow> qty \<Rightarrow> qty \<Rightarrow> bool \<Rightarrow> qty" where
  "computeReserveQty offerQty remainingNeed available fractional =
     (let q = min (min offerQty remainingNeed) available;
          q' = (if fractional then q else of_int \<lfloor>q\<rfloor>)
      in if q' > 0 then q' else 0)"

definition listPendingOffers :: "env \<Rightarrow> uid \<Rightarrow> db \<Rightarrow> offer_view list" where
  "listPendingOffers env helper d =
     List.map_filter (offer_source d)
       (sort_key o_respondBy
          (filter (\<lambda>x. o_helperId x = helper \<and> o_status x = Offered \<and> o_respondBy x > now env)
             (matchOffers d)))"

subsection \<open>Declining\<close>

definition own_open_offer :: "env \<Rightarrow> uid \<Rightarrow> uid \<Rightarrow> db \<Rightarrow> app_error + match_offer \<times> request" where
  "own_open_offer env helper oid d =
     r_bind (or_throw Not_found (find (\<lambda>x. o_id x = oid \<and> o_helperId x = helper) (matchOffers d))) (\<lambda>offer.
       if o_status offer \<noteq> Offered then Inl Request_conflict
       else if o_respondBy offer \<le> now env then Inl Offer_expired_err
       else r_bind (or_throw Not_found (by_key r_id (o_requestId offer) (requests d))) (\<lambda>request.
         Inr (offer, request)))"

definition decline_tx :: "env \<Rightarrow> uid \<Rightarrow> uid \<Rightarrow> bool \<Rightarrow> db \<Rightarrow> app_error + db \<times> request" where
  "decline_tx env helper oid alsoStopReceiving d =
     r_bind (own_open_offer env helper oid d) (\<lambda>(offer, request).
       let d1 = update_offer oid (\<lambda>x. x\<lparr>o_status := Declined, o_respondedAt := Some (now env)\<rparr>) d;
           d2 = applyOfferResponded env helper d1 in
       r_bind
         (if r_status request = Offering
          then r_bind (transitionRequest env request Searching Helper_actor ''offer-declined'' id d2)
                 (\<lambda>(d', _). Inr d')
          else Inr d2) (\<lambda>d3.
       Inr (if alsoStopReceiving
            then upsert_availability helper (r_eventId request) False None (now env) d3 else d3,
            request)))"

definition declineOffer :: "env \<Rightarrow> uid \<Rightarrow> uid \<Rightarrow> bool \<Rightarrow> db \<Rightarrow> (offer_view \<times> match_view option) outcome" where
  "declineOffer env helper oid alsoStopReceiving d =
     commit d (decline_tx env helper oid alsoStopReceiving d) (\<lambda>(d', request).
       (d', Match_job (r_id request) 0 # emitRequestUpdate (r_id request) (r_requesterId request) d',
        r_bind (or_throw Not_found (loadOfferView d' oid)) (\<lambda>v. Inr (v, None))))"

subsection \<open>Accepting\<close>

datatype accept_outcome = Accept_ok uid request | Accept_void request

definition new_match :: "env \<Rightarrow> match_offer \<Rightarrow> request \<Rightarrow> item \<Rightarrow> qty \<Rightarrow> string \<times> string \<Rightarrow> match_row" where
  "new_match env offer request it reserveQty aliases =
     \<lparr>m_id = 0, m_requestId = r_id request, m_offerId = o_id offer, m_eventId = r_eventId request,
      m_requesterId = r_requesterId request, m_helperId = o_helperId offer,
      m_inventoryItemId = i_id it, m_qtyReserved = reserveQty, m_proximity = o_proximity offer,
      m_status = M_active, m_requesterAlias = fst aliases, m_helperAlias = snd aliases,
      m_requesterMeetingState = Deciding, m_helperMeetingState = Deciding,
      m_requesterConfirmedQty = None, m_helperConfirmedQty = None, m_inventoryApplied = False,
      m_reliabilityApplied = False, m_createdAt = now env, m_closedAt = None,
      m_closeReason = None\<rparr>"

definition new_conversation :: "env \<Rightarrow> uid \<Rightarrow> conversation" where
  "new_conversation env mid = \<lparr>cv_id = 0, cv_matchId = mid, cv_status = Conv_open,
     cv_expiresAt = None, cv_createdAt = now env\<rparr>"

definition conflict_if_duplicate :: "app_error + 'a \<Rightarrow> app_error + 'a" where
  "conflict_if_duplicate r =
     (case r of Inl e \<Rightarrow> Inl (if e = Internal ''23505'' then Request_conflict else e) | Inr a \<Rightarrow> Inr a)"

definition void_offer_tx :: "env \<Rightarrow> match_offer \<Rightarrow> request \<Rightarrow> db \<Rightarrow> app_error + db \<times> accept_outcome" where
  "void_offer_tx env offer request d =
     r_bind (transitionRequest env request Searching System_actor ''insufficient-inventory'' id
        (update_offer (o_id offer) (\<lambda>x. x\<lparr>o_status := Offer_lapsed, o_respondedAt := Some (now env)\<rparr>) d))
       (\<lambda>(d', _). Inr (d', Accept_void request))"

text \<open>The part after the reservation: match, transition, conversation, system message, counters.\<close>

definition create_match_tx ::
  "env \<Rightarrow> match_offer \<Rightarrow> request \<Rightarrow> item \<Rightarrow> qty \<Rightarrow> string \<times> string \<Rightarrow> db \<Rightarrow> app_error + db \<times> accept_outcome" where
  "create_match_tx env offer request it reserveQty aliases d =
     r_bind (conflict_if_duplicate (insert_match (new_match env offer request it reserveQty aliases) d))
       (\<lambda>(d3, match).
     r_bind (transitionRequest env request Matched Helper_actor ''offer-accepted'' id d3) (\<lambda>(d4, _).
     r_bind (insert_conversation (new_conversation env (m_id match)) d4) (\<lambda>(d5, conv).
     r_bind (insertSystemMessage env (cv_id conv) (o_helperId offer) ''match.matched'' d5) (\<lambda>d6.
     Inr (applyAccepted env (o_helperId offer) d6, Accept_ok (m_id match) request)))))"

text \<open>The outer option is \<open>None\<close> while the alias loop has not ended within the given draws.\<close>

definition accept_tx ::
  "env \<Rightarrow> (int \<times> int) list \<Rightarrow> uid \<Rightarrow> uid \<Rightarrow> db \<Rightarrow> (app_error + db \<times> accept_outcome) option" where
  "accept_tx env draws helper oid d =
     (case own_open_offer env helper oid d of
        Inl e \<Rightarrow> Some (Inl e)
      | Inr (offer, request) \<Rightarrow>
          if r_status request \<noteq> Offering then Some (Inl Request_conflict)
          else (case by_key i_id (o_inventoryItemId offer) (inventoryItems d) of
            None \<Rightarrow> Some (Inl Not_found)
          | Some it \<Rightarrow>
              let fractional = (case by_key c_id (r_categoryId request) (categories d) of
                                  None \<Rightarrow> False | Some c \<Rightarrow> c_fractional c);
                  available = (if i_active it then i_qtyOnHand it - i_qtyReserved it else 0);
                  reserveQty = computeReserveQty (o_qty offer)
                                 (r_qty request - r_qtyFulfilled request) available fractional
              in if reserveQty \<le> 0 then Some (void_offer_tx env offer request d)
                 else (case update_item (i_id it)
                         (\<lambda>i. i\<lparr>i_qtyReserved := i_qtyReserved it + reserveQty,
                                i_updatedAt := now env\<rparr>) d of
                     Inl e \<Rightarrow> Some (Inl e)
                   | Inr d1 \<Rightarrow>
                       let d2 = update_offer oid
                                  (\<lambda>x. x\<lparr>o_status := Accepted, o_respondedAt := Some (now env)\<rparr>) d1;
                           exclude = map u_pseudonym (filter
                                       (\<lambda>u. u_id u \<in> {r_requesterId request, helper}) (users d2))
                       in (case generateMatchAliases exclude draws of
                             None \<Rightarrow> None
                           | Some aliases \<Rightarrow>
                               Some (create_match_tx env offer request it reserveQty aliases d2)))))"

definition notify_accepted :: "uid \<Rightarrow> uid \<Rightarrow> notify_job" where
  "notify_accepted requester mid = \<lparr>nj_userId = requester, nj_type = N_match_accepted,
     nj_titleKey = ''notifications.match_accepted'', nj_bodyKey = ''match.matched'', nj_params = [],
     nj_deepLink = Some (Match_link mid), nj_dedupeKey = Some (Match_accept_key mid)\<rparr>"

definition emitOfferExpired :: "uid \<Rightarrow> uid \<Rightarrow> db \<Rightarrow> effect list" where
  "emitOfferExpired helper oid d =
     (case loadOfferView d oid of None \<Rightarrow> [] | Some v \<Rightarrow> [Publish helper Offer_expired (P_offer v)])"

definition acceptOffer ::
  "env \<Rightarrow> (int \<times> int) list \<Rightarrow> uid \<Rightarrow> uid \<Rightarrow> db \<Rightarrow> (offer_view \<times> match_view option) outcome option" where
  "acceptOffer env draws helper oid d =
     map_option (\<lambda>tx. commit d tx (\<lambda>(d', oc). case oc of
         Accept_void request \<Rightarrow>
           (d', Match_job (r_id request) 0
                # emitRequestUpdate (r_id request) (r_requesterId request) d',
            Inl Insufficient_inventory)
       | Accept_ok mid request \<Rightarrow>
           (d', emitMatchUpdate mid d' @ emitOfferExpired helper oid d'
                @ emitRequestUpdate (r_id request) (r_requesterId request) d'
                @ [Notify_job (notify_accepted (r_requesterId request) mid)],
            r_bind (getMatchView d' mid helper) (\<lambda>match.
              r_bind (or_throw Not_found (loadOfferView d' oid)) (\<lambda>v. Inr (v, Some match))))))
       (accept_tx env draws helper oid d)"

definition respondToOffer ::
  "env \<Rightarrow> (int \<times> int) list \<Rightarrow> uid \<Rightarrow> uid \<Rightarrow> bool \<Rightarrow> bool \<Rightarrow> db
    \<Rightarrow> (offer_view \<times> match_view option) outcome option" where
  "respondToOffer env draws helper oid accept alsoStopReceiving d =
     (if accept then acceptOffer env draws helper oid d
      else Some (declineOffer env helper oid alsoStopReceiving d))"

subsection \<open>The reservation clamp\<close>

lemma computeReserveQty_nonneg: "0 \<le> computeReserveQty a b c f"
  by (simp add: computeReserveQty_def Let_def)

lemma computeReserveQty_le:
  assumes "0 < computeReserveQty a b c f"
  shows "computeReserveQty a b c f \<le> a \<and> computeReserveQty a b c f \<le> b \<and> computeReserveQty a b c f \<le> c"
  using assms of_int_floor_le[of "min (min a b) c"]
  by (auto simp: computeReserveQty_def Let_def split: if_splits)

lemma computeReserveQty_whole: "\<not> f \<Longrightarrow> is_integer (computeReserveQty a b c f)"
  by (simp add: computeReserveQty_def Let_def is_integer_def)

lemma computeReserveQty_greatest:
  assumes "0 < q" "q \<le> a" "q \<le> b" "q \<le> c" "f \<or> is_integer q"
  shows "q \<le> computeReserveQty a b c f"
proof (cases f)
  case False
  define m where "m = (of_int \<lfloor>min (min a b) c\<rfloor> :: rat)"
  have "of_int \<lfloor>q\<rfloor> \<le> m" unfolding m_def using assms by (intro of_int_le_iff[THEN iffD2] floor_mono) simp
  then have "q \<le> m" using assms(5) False by (auto simp: is_integer_def)
  then show ?thesis unfolding computeReserveQty_def Let_def m_def[symmetric]
    using assms(1) False by (simp only: if_False) simp
qed (use assms in \<open>simp add: computeReserveQty_def Let_def\<close>)

end
