(* ===== verification/Matching.thy ===== *)
theory Matching
  imports Settlement
begin

text \<open>
  \<open>server/src/workers/matching.ts\<close>: the sequential matching engine. A pass over a searching or
  offering request either closes it (expired, no match), waits, makes one offer to the best ranked
  eligible helper, or widens the search radius.
\<close>

subsection \<open>Ranking\<close>

definition DISTANCE_WEIGHT :: rat where "DISTANCE_WEIGHT = 3"
definition FAIRNESS_WEIGHT :: rat where "FAIRNESS_WEIGHT = 8/10"
definition RELIABILITY_WEIGHT :: rat where "RELIABILITY_WEIGHT = 2"
definition FAIRNESS_RECENT_OFFERS_CAP :: nat where "FAIRNESS_RECENT_OFFERS_CAP = 5"

fun BUCKET_RANK :: "proximity_bucket \<Rightarrow> rat" where
  "BUCKET_RANK Very_nearby = 0"
| "BUCKET_RANK Nearby = 1"
| "BUCKET_RANK Short_walk = 2"
| "BUCKET_RANK Farther = 3"
| "BUCKET_RANK Unknown_proximity = 4"

record candidate =
  cn_helperId :: uid
  cn_itemId :: uid
  cn_availableQty :: qty
  cn_distanceM :: "qty option"
  cn_recentOffers :: nat
  cn_counters :: reliability_counters

definition scoreCandidate :: "candidate \<Rightarrow> rat \<Rightarrow> rat" where
  "scoreCandidate c jitter =
     DISTANCE_WEIGHT * BUCKET_RANK (bucketForDistanceM (cn_distanceM c))
     + FAIRNESS_WEIGHT * of_nat (min (cn_recentOffers c) FAIRNESS_RECENT_OFFERS_CAP)
     - RELIABILITY_WEIGHT * rankingReliability (cn_counters c)
     + jitter"

text \<open>\<open>rng()\<close> is called once per candidate in order; the draws are the function of that position.\<close>

definition scored :: "(nat \<Rightarrow> rat) \<Rightarrow> candidate list \<Rightarrow> (candidate \<times> rat) list" where
  "scored rng cs = map (\<lambda>(c, i). (c, scoreCandidate c (rng i))) (zip cs [0..<length cs])"

definition rankCandidates :: "(nat \<Rightarrow> rat) \<Rightarrow> candidate list \<Rightarrow> candidate list" where
  "rankCandidates rng cs = map fst (sort_key snd (scored rng cs))"

subsection \<open>The candidate query\<close>

definition live_location :: "env \<Rightarrow> uid \<Rightarrow> uid \<Rightarrow> db \<Rightarrow> geopoint option" where
  "live_location env u eid d =
     map_option ml_geog (find (\<lambda>l. ml_userId l = u \<and> ml_eventId l = eid \<and> ml_expiresAt l > now env)
       (memberLocations d))"

definition distance_between :: "env \<Rightarrow> geopoint option \<Rightarrow> geopoint option \<Rightarrow> qty option" where
  "distance_between env a b =
     (case (a, b) of (Some x, Some y) \<Rightarrow> Some (distanceM env x y) | _ \<Rightarrow> None)"

definition item_available :: "item \<Rightarrow> qty" where
  "item_available i = i_qtyOnHand i - i_qtyReserved i"

definition eligible_item :: "env \<Rightarrow> request \<Rightarrow> uid \<Rightarrow> item \<Rightarrow> bool" where
  "eligible_item env r u i \<longleftrightarrow> i_userId i = u \<and> i_eventId i = r_eventId r
     \<and> i_categoryId i = r_categoryId r \<and> i_active i
     \<and> (case i_expiresAt i of None \<Rightarrow> True | Some t \<Rightarrow> t > now env)
     \<and> item_available i > 0"

definition blocked_pair :: "db \<Rightarrow> uid \<Rightarrow> uid \<Rightarrow> bool" where
  "blocked_pair d a b \<longleftrightarrow>
     list_ex (\<lambda>x. (bl_blockerId x = a \<and> bl_blockedId x = b) \<or> (bl_blockerId x = b \<and> bl_blockedId x = a))
       (blocks d)"

definition active_match_count :: "db \<Rightarrow> uid \<Rightarrow> nat" where
  "active_match_count d u = length (filter (\<lambda>m. m_helperId m = u \<and> m_status m = M_active) (matches d))"

definition within_radius :: "env \<Rightarrow> event \<Rightarrow> request \<Rightarrow> geopoint option \<Rightarrow> geopoint option \<Rightarrow> bool" where
  "within_radius env ev r hl rl \<longleftrightarrow>
     rl = None
     \<or> (hl \<noteq> None \<and> (case distance_between env hl rl of None \<Rightarrow> False
                        | Some x \<Rightarrow> x \<le> of_int (r_currentRadiusM r)))
     \<or> (hl = None \<and> r_currentRadiusM r \<ge> e_maxMatchRadiusM ev)"

definition eligible_helper :: "env \<Rightarrow> event \<Rightarrow> request \<Rightarrow> db \<Rightarrow> user \<Rightarrow> bool" where
  "eligible_helper env ev r d u \<longleftrightarrow>
     list_ex (\<lambda>m. mb_userId m = u_id u \<and> mb_eventId m = r_eventId r \<and> mb_leftAt m = None
                  \<and> \<not> mb_banned m) (memberships d)
     \<and> list_ex (\<lambda>a. av_userId a = u_id u \<and> av_eventId a = r_eventId r \<and> av_isOn a
                  \<and> (case av_until a of None \<Rightarrow> True | Some t \<Rightarrow> t > now env)) (availability d)
     \<and> u_status u = User_active \<and> u_canHelp u \<and> u_deletedAt u = None
     \<and> u_id u \<noteq> r_requesterId r
     \<and> \<not> blocked_pair d (u_id u) (r_requesterId r)
     \<and> \<not> list_ex (\<lambda>x. o_requestId x = r_id r \<and> o_helperId x = u_id u) (matchOffers d)
     \<and> active_match_count d (u_id u) < maxActiveMatchesPerHelper
     \<and> within_radius env ev r (live_location env (u_id u) (r_eventId r) d)
         (live_location env (r_requesterId r) (r_eventId r) d)"

text \<open>\<open>DISTINCT ON (u.id) .. ORDER BY u.id, available DESC\<close>: the fullest eligible item of a user.\<close>

fun best_item :: "item list \<Rightarrow> item option" where
  "best_item [] = None"
| "best_item (i # is) =
     (case best_item is of
        None \<Rightarrow> Some i
      | Some j \<Rightarrow> if item_available j > item_available i then Some j else Some i)"

definition recent_offer_count :: "env \<Rightarrow> db \<Rightarrow> uid \<Rightarrow> nat" where
  "recent_offer_count env d u =
     length (filter (\<lambda>x. o_helperId x = u \<and> o_offeredAt x > now env - 30 * 60000) (matchOffers d))"

definition rowToCandidate :: "env \<Rightarrow> request \<Rightarrow> db \<Rightarrow> user \<Rightarrow> item \<Rightarrow> candidate" where
  "rowToCandidate env r d u i =
     \<lparr>cn_helperId = u_id u, cn_itemId = i_id i, cn_availableQty = item_available i,
      cn_distanceM = distance_between env (live_location env (u_id u) (r_eventId r) d)
                       (live_location env (r_requesterId r) (r_eventId r) d),
      cn_recentOffers = recent_offer_count env d (u_id u),
      cn_counters = rowToCounters (by_key rs_userId (u_id u) (reliabilityStats d))\<rparr>"

text \<open>\<open>ORDER BY distance_m ASC NULLS LAST LIMIT 8\<close>; ties keep the table's order.\<close>

definition nulls_last :: "(candidate \<Rightarrow> qty option)  \<Rightarrow> candidate list \<Rightarrow> candidate list" where
  "nulls_last f cs = sort_key (\<lambda>c. case f c of None \<Rightarrow> 0 | Some x \<Rightarrow> x) (filter (\<lambda>c. f c \<noteq> None) cs)
     @ filter (\<lambda>c. f c = None) cs"

definition candidates_for :: "env \<Rightarrow> event \<Rightarrow> request \<Rightarrow> db \<Rightarrow> candidate list" where
  "candidates_for env ev r d =
     take 8 (nulls_last cn_distanceM
       (List.map_filter
         (\<lambda>u. map_option (rowToCandidate env r d u)
                (best_item (filter (eligible_item env r (u_id u)) (inventoryItems d))))
         (filter (eligible_helper env ev r d) (users d))))"

subsection \<open>The pass\<close>

definition PAUSED_RETRY_DELAY_MS :: int where "PAUSED_RETRY_DELAY_MS = 30000"
definition NO_CANDIDATE_RETRY_DELAY_MS :: int where "NO_CANDIDATE_RETRY_DELAY_MS = 20000"
definition OFFER_TIMEOUT_SLACK_MS :: int where "OFFER_TIMEOUT_SLACK_MS = 500"

definition notify_no_helper :: "uid \<Rightarrow> uid \<Rightarrow> notify_job" where
  "notify_no_helper requester rid = \<lparr>nj_userId = requester, nj_type = N_no_helper_found,
     nj_titleKey = ''notifications.no_helper_found'', nj_bodyKey = ''request.noMatch'',
     nj_params = [], nj_deepLink = None, nj_dedupeKey = Some (No_match_key rid)\<rparr>"

definition notify_offer :: "uid \<Rightarrow> uid \<Rightarrow> notify_job" where
  "notify_offer helper oid = \<lparr>nj_userId = helper, nj_type = N_match_offer,
     nj_titleKey = ''offer.title'', nj_bodyKey = ''notifications.vaguePreview'', nj_params = [],
     nj_deepLink = Some (Offer_link oid), nj_dedupeKey = Some (Offer_key oid)\<rparr>"

definition supersede_open :: "env \<Rightarrow> uid \<Rightarrow> db \<Rightarrow> db \<times> match_offer list" where
  "supersede_open env rid d =
     (let isOpen = (\<lambda>x. o_requestId x = rid \<and> o_status x = Offered) in
      (d\<lparr>matchOffers := upd_where isOpen
            (\<lambda>x. x\<lparr>o_status := Superseded, o_respondedAt := Some (now env)\<rparr>) (matchOffers d)\<rparr>,
       filter isOpen (matchOffers d)))"

text \<open>Part (a): the request is past its expiry.\<close>

definition expire_request_tx :: "env \<Rightarrow> request \<Rightarrow> db \<Rightarrow> app_error + db \<times> after_commit list" where
  "expire_request_tx env request d =
     (let rid = r_id request;
          (d1, superseded) = supersede_open env rid d;
          offerCount = length (filter (\<lambda>x. o_requestId x = rid) (matchOffers d1)) in
      r_bind (transitionRequest env request (if offerCount > 0 then Expired else No_match) System_actor
                ''expiry'' (\<lambda>r. r\<lparr>r_closedAt := Some (now env)\<rparr>) d1) (\<lambda>(d2, _).
        Inr (d2,
          [\<lambda>d'. map (\<lambda>x. Publish (o_helperId x) Offer_expired (P_offer_status (o_id x) Superseded))
                   superseded
                @ emitRequestUpdate rid (r_requesterId request) d'
                @ [Notify_job (notify_no_helper (r_requesterId request) rid)]])))"

text \<open>Parts (e) and (f): the first ranked candidate whose clamped quantity is positive.\<close>

definition offer_quantity :: "qty \<Rightarrow> bool \<Rightarrow> candidate \<Rightarrow> qty" where
  "offer_quantity remaining fractional c =
     (let q = min remaining (cn_availableQty c) in if fractional then q else of_int \<lfloor>q\<rfloor>)"

definition new_offer :: "env \<Rightarrow> event \<Rightarrow> request \<Rightarrow> candidate \<Rightarrow> qty \<Rightarrow> match_offer" where
  "new_offer env ev request winner q =
     \<lparr>o_id = 0, o_requestId = r_id request, o_helperId = cn_helperId winner,
      o_inventoryItemId = cn_itemId winner, o_qty = q,
      o_proximity = bucketForDistanceM (cn_distanceM winner), o_status = Offered,
      o_offeredAt = now env, o_respondBy = now env + e_offerResponseSeconds ev * 1000,
      o_respondedAt = None\<rparr>"

definition make_offer_tx ::
  "env \<Rightarrow> event \<Rightarrow> request \<Rightarrow> candidate \<Rightarrow> qty \<Rightarrow> db \<Rightarrow> app_error + db \<times> after_commit list" where
  "make_offer_tx env ev request winner q d =
     r_bind (insert_offer (new_offer env ev request winner q) d) (\<lambda>(d1, offer).
     r_bind (transitionRequest env request Offering System_actor ''offer-created''
               (\<lambda>r. r\<lparr>r_attemptCount := r_attemptCount request + 1\<rparr>) d1) (\<lambda>(d2, _).
     let helper = cn_helperId winner; oid = o_id offer in
     Inr (applyOfferReceived env helper d2,
       [\<lambda>d'. Offer_timeout_job oid (max 0 (o_respondBy offer - now env) + OFFER_TIMEOUT_SLACK_MS)
             # (case loadOfferView d' oid of None \<Rightarrow> [] | Some v \<Rightarrow> [Publish helper Offer_new (P_offer v)])
             @ [Notify_job (notify_offer helper oid)]
             @ emitRequestUpdate (r_id request) (r_requesterId request) d'])))"

text \<open>Part (g): nobody was eligible.\<close>

definition widen_tx :: "env \<Rightarrow> event \<Rightarrow> request \<Rightarrow> db \<Rightarrow> app_error + db \<times> after_commit list" where
  "widen_tx env ev request d =
     (let rid = r_id request in
      if r_currentRadiusM request < e_maxMatchRadiusM ev
      then let widened = min (r_currentRadiusM request * radiusExpansionFactor) (e_maxMatchRadiusM ev) in
        r_bind (update_request rid (\<lambda>r. r\<lparr>r_currentRadiusM := widened\<rparr>) d) (\<lambda>d1.
          Inr (d1, [\<lambda>_. [Match_job rid 0]]))
      else Inr (d, [\<lambda>_. [Match_job rid NO_CANDIDATE_RETRY_DELAY_MS]]))"

text \<open>Parts (d) to (g), for a request that is searching.\<close>

definition search_tx ::
  "env \<Rightarrow> (nat \<Rightarrow> rat) \<Rightarrow> event \<Rightarrow> request \<Rightarrow> db \<Rightarrow> app_error + db \<times> after_commit list" where
  "search_tx env rng ev request d =
     (let fractional = (case by_key c_id (r_categoryId request) (categories d) of
                          None \<Rightarrow> False | Some c \<Rightarrow> c_fractional c);
          remaining = r_qty request - r_qtyFulfilled request;
          ranked = rankCandidates rng (candidates_for env ev request d) in
      case find (\<lambda>c. offer_quantity remaining fractional c > 0) ranked of
        Some winner \<Rightarrow>
          make_offer_tx env ev request winner (offer_quantity remaining fractional winner) d
      | None \<Rightarrow> widen_tx env ev request d)"

text \<open>Part (c): the open offer of an offering request, if it is past its deadline, is swept.\<close>

definition sweep_offer_tx :: "env \<Rightarrow> request \<Rightarrow> match_offer option \<Rightarrow> db \<Rightarrow> app_error + db \<times> request \<times> after_commit list" where
  "sweep_offer_tx env request open_offer d =
     (let d1 = (case open_offer of None \<Rightarrow> d
                | Some x \<Rightarrow> update_offer (o_id x)
                    (\<lambda>x. x\<lparr>o_status := Offer_lapsed, o_respondedAt := Some (now env)\<rparr>) d) in
      r_bind (transitionRequest env request Searching System_actor ''offer-timeout'' id d1) (\<lambda>(d2, r').
        Inr (d2, r', (case open_offer of None \<Rightarrow> []
          | Some x \<Rightarrow> [\<lambda>_. [Publish (o_helperId x) Offer_expired (P_offer_status (o_id x) Offer_lapsed)]]))))"

definition pass_tx :: "env \<Rightarrow> (nat \<Rightarrow> rat) \<Rightarrow> uid \<Rightarrow> db \<Rightarrow> app_error + db \<times> after_commit list" where
  "pass_tx env rng rid d =
     (case by_key r_id rid (requests d) of
        None \<Rightarrow> Inr (d, [])
      | Some request \<Rightarrow>
          if r_status request \<noteq> Searching \<and> r_status request \<noteq> Offering then Inr (d, [])
          else if r_expiresAt request \<le> now env then expire_request_tx env request d
          else (case by_key e_id (r_eventId request) (events d) of
              None \<Rightarrow> Inr (d, [\<lambda>_. [Match_job rid PAUSED_RETRY_DELAY_MS]])
            | Some ev \<Rightarrow>
                if e_status ev \<noteq> Active \<or> e_matchingPaused ev
                then Inr (d, [\<lambda>_. [Match_job rid PAUSED_RETRY_DELAY_MS]])
                else if r_status request = Offering
                then (let open_offer = find (\<lambda>x. o_requestId x = rid \<and> o_status x = Offered) (matchOffers d) in
                  if (case open_offer of None \<Rightarrow> False | Some x \<Rightarrow> o_respondBy x > now env)
                  then Inr (d, [])
                  else r_bind (sweep_offer_tx env request open_offer d) (\<lambda>(d1, request', after1).
                    r_bind (search_tx env rng ev request' d1) (\<lambda>(d2, after2).
                      Inr (d2, after1 @ after2))))
                else search_tx env rng ev request d))"

definition runMatchPass :: "env \<Rightarrow> (nat \<Rightarrow> rat) \<Rightarrow> uid \<Rightarrow> db \<Rightarrow> unit outcome" where
  "runMatchPass env rng rid d =
     commit d (pass_tx env rng rid d) (\<lambda>(d', after). (d', run_after after d', Inr ()))"

subsection \<open>Offer timeout\<close>

definition expire_offer_tx :: "env \<Rightarrow> uid \<Rightarrow> db \<Rightarrow> app_error + db \<times> after_commit list" where
  "expire_offer_tx env oid d =
     (case by_key o_id oid (matchOffers d) of
        None \<Rightarrow> Inr (d, [])
      | Some offer \<Rightarrow>
          if o_status offer \<noteq> Offered \<or> o_respondBy offer > now env then Inr (d, [])
          else
            let d1 = update_offer oid (\<lambda>x. x\<lparr>o_status := Offer_lapsed, o_respondedAt := Some (now env)\<rparr>) d in
            r_bind (case by_key r_id (o_requestId offer) (requests d) of
                None \<Rightarrow> Inr d1
              | Some request \<Rightarrow>
                  if r_status request = Offering
                  then r_bind (transitionRequest env request Searching System_actor ''offer-timeout'' id d1)
                         (\<lambda>(d', _). Inr d')
                  else Inr d1) (\<lambda>d2.
            Inr (d2, [\<lambda>_. [Publish (o_helperId offer) Offer_expired (P_offer_status (o_id offer) Offer_lapsed),
                           Match_job (o_requestId offer) 0]])))"

definition expireOffer :: "env \<Rightarrow> uid \<Rightarrow> db \<Rightarrow> unit outcome" where
  "expireOffer env oid d =
     commit d (expire_offer_tx env oid d) (\<lambda>(d', after). (d', run_after after d', Inr ()))"

datatype match_job = Run_job uid | Finalize_match_job uid

definition processMatch :: "env \<Rightarrow> (nat \<Rightarrow> rat) \<Rightarrow> match_job \<Rightarrow> db \<Rightarrow> unit outcome" where
  "processMatch env rng job d = (case job of
     Finalize_match_job mid \<Rightarrow> autoFinalizeMatch env mid d
   | Run_job rid \<Rightarrow> runMatchPass env rng rid d)"

end
