(* ===== verification/Offer_Ops.thy ===== *)
theory Offer_Ops
  imports Match_Ops Offers Matching
begin

text \<open>
  Answering an offer, the matching pass and the offer timeout keep the database invariant and never
  end in a constraint violation.
\<close>

subsection \<open>Transitions of a request without a match\<close>

lemma transition_inv:
  assumes inv: "db_inv d" and r: "request \<in> set (requests d)" "canTransition (Some (r_status request)) to"
    and st: "r_status request \<noteq> Matched" "to \<noteq> Matched"
    and opn: "r_status request = Offering \<Longrightarrow>
       \<forall>x \<in> set (matchOffers d). o_requestId x = r_id request \<longrightarrow> o_status x \<noteq> Offered"
    and f: "\<And>r. r_id (set_f r) = r_id r \<and> r_requesterId (set_f r) = r_requesterId r \<and> r_status (set_f r) = r_status r
       \<and> r_qty (set_f r) = r_qty r \<and> r_qtyFulfilled (set_f r) = r_qtyFulfilled r"
  shows "\<exists>d'. transitionRequest env request to actor reason set_f d = Inr (d', set_f (request\<lparr>r_status := to\<rparr>))
     \<and> db_inv d' \<and> matchOffers d' = matchOffers d \<and> matches d' = matches d \<and> inventoryItems d' = inventoryItems d
     \<and> requests d' = upd_key r_id (r_id request) (\<lambda>r. set_f (r\<lparr>r_status := to\<rparr>)) (requests d)
     \<and> d' = append_transition env (r_id request) (Some (r_status request)) to actor (Some reason)
              (d\<lparr>requests := upd_key r_id (r_id request) (\<lambda>r. set_f (r\<lparr>r_status := to\<rparr>)) (requests d)\<rparr>)"
proof -
  let ?g = "\<lambda>r. set_f (r\<lparr>r_status := to\<rparr>)"
  note C = db_invD[OF inv]
  note I = core_invD[OF C(1)]
  have only: "r' = request" if "r' \<in> set (requests d)" "r_id r' = r_id request" for r'
    using ids_ok_inj[OF I(2) that(1) r(1) that(2)] .
  have chk: "request_check (?g request)"
    using I(5) r(1) f[of "request\<lparr>r_status := to\<rparr>"] by (simp add: requests_ok_def request_check_def)
  have run: "transitionRequest env request to actor reason set_f d =
    Inr (append_transition env (r_id request) (Some (r_status request)) to actor (Some reason)
           (d\<lparr>requests := upd_key r_id (r_id request) ?g (requests d)\<rparr>), ?g request)"
    using transition_ok[where st = set_f, OF I(2) r chk] f by simp
  have "core_inv (next_id d) (inventoryItems d) (upd_key r_id (r_id request) ?g (requests d)) (matchOffers d) (matches d)"
  proof (rule core_request_update[OF C(1)])
    show "request_check (?g r')" if "r' \<in> set (requests d)" "r_id r' = r_id request" for r'
      using only[OF that] chk by simp
    show "r_status r' \<noteq> Matched \<and> r_status (?g r') \<noteq> Matched" if "r' \<in> set (requests d)" "r_id r' = r_id request" for r'
      using only[OF that] st f by simp
    show "o_status x \<noteq> Offered" if "r' \<in> set (requests d)" "r_id r' = r_id request" "r_status r' = Offering"
      "x \<in> set (matchOffers d)" "o_requestId x = r_id request" for r' x
      using only[OF that(1,2)] opn that by simp
  qed (use f in simp_all)
  then have "db_inv (append_transition env (r_id request) (Some (r_status request)) to actor (Some reason)
           (d\<lparr>requests := upd_key r_id (r_id request) ?g (requests d)\<rparr>))"
    using C(2-4) by (auto simp: db_inv_def core_simps chat_inv_def ids_ok_def intro: core_inv_mono)
  with run show ?thesis by (simp add: core_simps)
qed

subsection \<open>Closing an open offer\<close>

definition closes :: "(match_offer \<Rightarrow> match_offer) \<Rightarrow> bool" where
  "closes f \<longleftrightarrow> (\<forall>x. o_id (f x) = o_id x \<and> o_requestId (f x) = o_requestId x \<and> o_helperId (f x) = o_helperId x
     \<and> o_qty (f x) = o_qty x \<and> o_status (f x) \<noteq> Offered)"

lemma closes_status [simp]: "s \<noteq> Offered \<Longrightarrow> closes (\<lambda>x. x\<lparr>o_status := s, o_respondedAt := t\<rparr>)"
  by (simp add: closes_def)

lemma close_where_inv:
  assumes inv: "db_inv d" and f: "closes f"
  shows "db_inv (d\<lparr>matchOffers := upd_where P f (matchOffers d)\<rparr>)"
proof -
  note C = db_invD[OF inv]
  have "core_inv (next_id d) (inventoryItems d) (requests d) (upd_where P f (matchOffers d)) (matches d)"
    using f by (intro core_offers_close[OF C(1)]) (simp add: closes_def)
  moreover have "stats_inv (upd_where P f (matchOffers d)) (reliabilityStats d)"
    using C(3) f by (auto simp: closes_def intro: stats_inv_fewer open_count_close)
  ultimately show ?thesis using C by (simp add: db_inv_def)
qed

lemma update_offer_eq: "update_offer k f d = d\<lparr>matchOffers := upd_where (\<lambda>x. o_id x = k) f (matchOffers d)\<rparr>"
  by (simp add: update_offer_def upd_key_def)

lemma update_offer_inv: "db_inv d \<Longrightarrow> closes f \<Longrightarrow> db_inv (update_offer k f d)"
  unfolding update_offer_eq by (rule close_where_inv)

lemma closed_none_left:
  assumes inv: "db_inv d" and x: "x \<in> set (matchOffers d)" "o_status x = Offered" and f: "closes f"
  shows "\<forall>y \<in> set (matchOffers (update_offer (o_id x) f d)). o_requestId y = o_requestId x \<longrightarrow> o_status y \<noteq> Offered"
proof (intro ballI impI notI)
  fix y assume y: "y \<in> set (matchOffers (update_offer (o_id x) f d))" "o_requestId y = o_requestId x" "o_status y = Offered"
  then obtain y0 where y0: "y0 \<in> set (matchOffers d)" "y = (if o_id y0 = o_id x then f y0 else y0)"
    by (auto simp: update_offer_def upd_key_mem)
  with y(3) f have "y \<in> set (matchOffers d)" "o_id y \<noteq> o_id x" by (auto simp: closes_def split: if_splits)
  with core_invD(12)[OF db_invD(1)[OF inv]] x y show False unfolding one_open_def by blast
qed

text \<open>An open offer of a reachable database is awaited by its request.\<close>

lemma open_offer_request:
  assumes inv: "db_inv d" and x: "x \<in> set (matchOffers d)" "o_status x = Offered"
    and r: "r \<in> set (requests d)" "r_id r = o_requestId x"
  shows "r_status r = Offering" "r_requesterId r \<noteq> o_helperId x" "0 < o_qty x"
proof -
  note I = core_invD[OF db_invD(1)[OF inv]]
  from I(11) x obtain r' where r': "r' \<in> set (requests d)" "r_id r' = o_requestId x" "r_status r' = Offering"
    "r_requesterId r' \<noteq> o_helperId x" unfolding offer_rows_ok_def awaited_def by blast
  with ids_ok_inj[OF I(2) r(1) r'(1)] r(2) show "r_status r = Offering" "r_requesterId r \<noteq> o_helperId x" by auto
  from I(11) x show "0 < o_qty x" by (simp add: offer_rows_ok_def)
qed

subsection \<open>Declining\<close>

lemma own_open_offer_Inr:
  "own_open_offer env helper oid d = Inr (x, r) \<Longrightarrow> x \<in> set (matchOffers d) \<and> o_id x = oid \<and> o_helperId x = helper
     \<and> o_status x = Offered \<and> now env < o_respondBy x \<and> r \<in> set (requests d) \<and> r_id r = o_requestId x"
  by (auto simp: own_open_offer_def result_elims find_Some_iff split: if_splits dest!: by_key_Some_mem)

lemma own_open_offer_Inl: "own_open_offer env helper oid d = Inl e \<Longrightarrow> \<not> is_internal e"
  by (auto simp: own_open_offer_def result_elims split: if_splits)

lemma upsert_availability_tables [core_simps]:
  "inventoryItems (upsert_availability u e b t w d) = inventoryItems d"
  "requests (upsert_availability u e b t w d) = requests d"
  "matchOffers (upsert_availability u e b t w d) = matchOffers d"
  "matches (upsert_availability u e b t w d) = matches d"
  "conversations (upsert_availability u e b t w d) = conversations d"
  "reliabilityStats (upsert_availability u e b t w d) = reliabilityStats d"
  "next_id (upsert_availability u e b t w d) = next_id d"
  by (simp_all add: upsert_availability_def)

lemma respond_inv:
  assumes inv: "db_inv d" and x: "x \<in> set (matchOffers d)" "o_status x = Offered" and f: "closes f"
    and inc: "inc = [(Col_offersResponded30d, 1)] \<or> inc = [(Col_accepted, 1), (Col_offersResponded30d, 1)]"
  shows "stats_inv (upd_key o_id (o_id x) f (matchOffers d)) (reliabilityStats (bump env (o_helperId x) inc d))"
proof (rule stats_inv_respond[OF db_invD(3)[OF inv] _ inc])
  fix v
  have close: "\<And>y. o_status (f y) \<noteq> Offered" using f by (simp add: closes_def)
  show "open_count (upd_key o_id (o_id x) f (matchOffers d)) v + (if v = o_helperId x then 1 else 0)
      \<le> open_count (matchOffers d) v"
  proof (cases "v = o_helperId x")
    case True
    have "distinct (map o_id (matchOffers d))"
      using core_invD(3)[OF db_invD(1)[OF inv]] by (simp add: ids_ok_def)
    with True open_count_close_one[OF x this close] show ?thesis by simp
  next
    case False
    then show ?thesis using open_count_close[OF close] by (simp add: upd_key_def)
  qed
qed

lemma decline_keeps:
  assumes inv: "db_inv d"
  shows "keeps d (decline_tx env helper oid stop d) fst"
proof (cases "own_open_offer env helper oid d")
  case (Inl e)
  then show ?thesis using own_open_offer_Inl[OF Inl] by (simp add: decline_tx_def)
next
  case (Inr p)
  obtain x r where p: "p = (x, r)" by (cases p)
  with own_open_offer_Inr[of env helper oid d x r] Inr
  have x: "x \<in> set (matchOffers d)" "o_id x = oid" "o_helperId x = helper" "o_status x = Offered"
    and r: "r \<in> set (requests d)" "r_id r = o_requestId x" by auto
  let ?f = "\<lambda>x. x\<lparr>o_status := Declined, o_respondedAt := Some (now env)\<rparr>"
  let ?d1 = "update_offer oid ?f d"
  let ?d2 = "applyOfferResponded env helper ?d1"
  have f: "closes ?f" by simp
  note C = db_invD[OF inv]
  note O = open_offer_request[OF inv x(1,4) r]
  have d1: "db_inv ?d1" using inv f by (rule update_offer_inv)
  have "stats_inv (matchOffers ?d2) (reliabilityStats ?d2)"
    using respond_inv[OF inv x(1,4) f, of "[(Col_offersResponded30d, 1)]" env] x(2,3)
    by (simp add: applyOfferResponded_def update_offer_def core_simps bump_def)
  moreover have "labels_inv (reliabilityStats ?d2)"
    using db_invD(4)[OF d1] by (simp add: applyOfferResponded_def labels_inv_bump)
  ultimately have d2: "db_inv ?d2"
    using db_invD[OF d1] by (simp add: db_inv_def applyOfferResponded_def core_simps)
  have none: "\<forall>y \<in> set (matchOffers ?d2). o_requestId y = r_id r \<longrightarrow> o_status y \<noteq> Offered"
    using closed_none_left[OF inv x(1,4) f] x(2) r(2) by (simp add: applyOfferResponded_def core_simps)
  have "r \<in> set (requests ?d2)" using r(1) by (simp add: applyOfferResponded_def core_simps update_offer_def)
  then obtain d3 r' where d3: "transitionRequest env r Searching Helper_actor ''offer-declined'' id ?d2 = Inr (d3, r')" "db_inv d3"
    using transition_inv[OF d2, of r Searching id env Helper_actor "''offer-declined''"] O(1) none
    by (auto simp: canTransition_def)
  have "db_inv (if stop then upsert_availability helper (r_eventId r) False None (now env) d3 else d3)"
    using d3(2) by (simp add: db_inv_def core_simps)
  then show ?thesis using Inr p O(1) d3(1) by (simp add: decline_tx_def Let_def)
qed

subsection \<open>Accepting\<close>

definition reserve_item :: "env \<Rightarrow> item \<Rightarrow> qty \<Rightarrow> item \<Rightarrow> item" where
  "reserve_item env it q i = i\<lparr>i_qtyReserved := i_qtyReserved it + q, i_updatedAt := now env\<rparr>"

definition accept_row :: "env \<Rightarrow> match_offer \<Rightarrow> match_offer" where
  "accept_row env x = x\<lparr>o_status := Accepted, o_respondedAt := Some (now env)\<rparr>"

definition reserved_db :: "env \<Rightarrow> match_offer \<Rightarrow> item \<Rightarrow> qty \<Rightarrow> db \<Rightarrow> db" where
  "reserved_db env x it q d = update_offer (o_id x) (accept_row env)
     (d\<lparr>inventoryItems := upd_key i_id (i_id it) (reserve_item env it q) (inventoryItems d)\<rparr>)"

lemma append_transition_map_cv:
  "map f (conversations (append_transition env rid fr t a re d)) = map f (conversations d)"
  by (simp add: core_simps)

lemma create_match_run:
  assumes inv: "db_inv d" and x: "x \<in> set (matchOffers d)" "o_status x = Offered"
    and r: "r \<in> set (requests d)" "r_id r = o_requestId x"
    and it: "it \<in> set (inventoryItems d)" "i_id it = o_inventoryItemId x"
    and q: "0 < q" "q \<le> r_qty r - r_qtyFulfilled r" "q \<le> i_qtyOnHand it - i_qtyReserved it"
  shows "\<exists>d'. create_match_tx env x r it q aliases (reserved_db env x it q d) = Inr (d', Accept_ok (next_id d) r)
     \<and> db_inv d'
     \<and> matches d' = matches d @ [(new_match env x r it q aliases)\<lparr>m_id := next_id d\<rparr>]
     \<and> inventoryItems d' = upd_key i_id (i_id it) (reserve_item env it q) (inventoryItems d)
     \<and> requests d' = upd_key r_id (r_id r) (\<lambda>r. r\<lparr>r_status := Matched\<rparr>) (requests d)
     \<and> matchOffers d' = upd_key o_id (o_id x) (accept_row env) (matchOffers d)"
proof -
  note C = db_invD[OF inv]
  note I = core_invD[OF C(1)]
  note O = open_offer_request[OF inv x r]
  let ?n = "next_id d" and ?d2 = "reserved_db env x it q d"
  define m where "m = (new_match env x r it q aliases)\<lparr>m_id := ?n\<rparr>"
  have m: "m_id m = ?n" "m_requestId m = r_id r" "m_requesterId m = r_requesterId r" "m_status m = M_active"
    "m_inventoryItemId m = i_id it" "m_qtyReserved m = q" "m_helperId m = o_helperId x"
    by (simp_all add: m_def new_match_def)
  have ok: "match_ok m" using q(1) O(2) by (simp add: match_ok_def m_def new_match_def confirmed_ok_def)
  have d2: "inventoryItems ?d2 = upd_key i_id (i_id it) (reserve_item env it q) (inventoryItems d)"
    "matchOffers ?d2 = upd_key o_id (o_id x) (accept_row env) (matchOffers d)" "requests ?d2 = requests d"
    "matches ?d2 = matches d" "conversations ?d2 = conversations d" "reliabilityStats ?d2 = reliabilityStats d"
    "next_id ?d2 = ?n" "messages ?d2 = messages d"
    by (simp_all add: reserved_db_def update_offer_def)
  have none: "y \<in> set (matches d) \<Longrightarrow> m_status y = M_active \<Longrightarrow> m_requestId y \<noteq> r_id r" for y
  proof
    assume y: "y \<in> set (matches d)" "m_status y = M_active" "m_requestId y = r_id r"
    with I(8) obtain r' where r': "r' \<in> set (requests d)" "serves r' y" unfolding all_served_def by blast
    then have "r_id r' = r_id r" "r_status r' = Matched" using y(3) by (simp_all add: serves_def)
    moreover from this have "r' = r" using ids_ok_inj[OF I(2) r'(1) r(1)] by blast
    ultimately show False using O(1) by simp
  qed
  have ins: "insert_match (new_match env x r it q aliases) ?d2 =
      Inr (?d2\<lparr>matches := matches d @ [m], next_id := Suc ?n\<rparr>, m)"
  proof -
    have "list_all (match_unique m) (matches d)"
      using none by (fastforce simp: list_all_iff match_unique_def m(2,4))
    then show ?thesis by (simp add: insert_match_Inr d2 m_def[symmetric])
  qed
  define d3 where "d3 = ?d2\<lparr>matches := matches d @ [m], next_id := Suc ?n\<rparr>"
  have tr: "transitionRequest env r Matched Helper_actor ''offer-accepted'' id d3 =
      Inr (append_transition env (r_id r) (Some Offering) Matched Helper_actor (Some ''offer-accepted'')
             (d3\<lparr>requests := upd_key r_id (r_id r) (\<lambda>r. r\<lparr>r_status := Matched\<rparr>) (requests d)\<rparr>),
           r\<lparr>r_status := Matched\<rparr>)"
    using transition_ok[of ?n d3 r Matched id env Helper_actor "''offer-accepted''"] I(2,5) r(1) O(1)
    by (simp add: d3_def d2 canTransition_def requests_ok_def request_check_def)
  define d4 where "d4 = append_transition env (r_id r) (Some Offering) Matched Helper_actor (Some ''offer-accepted'')
             (d3\<lparr>requests := upd_key r_id (r_id r) (\<lambda>r. r\<lparr>r_status := Matched\<rparr>) (requests d)\<rparr>)"
  have d4: "conversations d4 = conversations d" "next_id d4 = Suc (Suc ?n)" "messages d4 = messages d"
    by (simp_all add: d4_def d3_def core_simps d2)
  define cv where "cv = (new_conversation env ?n)\<lparr>cv_id := next_id d4\<rparr>"
  have fresh: "cv_matchId c \<noteq> ?n" if "c \<in> set (conversations d)" for c
    using C(2) I(4) that by (force simp: chat_inv_def ids_ok_def)
  have conv: "insert_conversation (new_conversation env (m_id m)) d4 =
      Inr (d4\<lparr>conversations := conversations d @ [cv], next_id := Suc (next_id d4)\<rparr>, cv)"
  proof -
    have "cv_matchId cv = ?n" by (simp add: cv_def new_conversation_def)
    with fresh have "list_all (conversation_unique cv) (conversations d4)"
      by (metis d4(1) conversation_unique_def list_all_iff)
    then show ?thesis by (simp add: insert_conversation_Inr d4 cv_def m(1))
  qed
  define d5 where "d5 = d4\<lparr>conversations := conversations d @ [cv], next_id := Suc (next_id d4)\<rparr>"
  obtain d6 where d6: "insertSystemMessage env (cv_id cv) (o_helperId x) ''match.matched'' d5 = Inr d6"
    "inventoryItems d6 = inventoryItems ?d2" "matchOffers d6 = matchOffers ?d2"
    "requests d6 = upd_key r_id (r_id r) (\<lambda>r. r\<lparr>r_status := Matched\<rparr>) (requests d)"
    "matches d6 = matches d @ [m]" "conversations d6 = conversations d @ [cv]"
    "reliabilityStats d6 = reliabilityStats d" "next_id d6 = Suc (Suc (Suc (Suc ?n)))"
    by (simp add: insertSystemMessage_ok d5_def d4_def d3_def core_simps d2)
  define d' where "d' = applyAccepted env (o_helperId x) d6"
  have run: "create_match_tx env x r it q aliases ?d2 = Inr (d', Accept_ok ?n r)"
    by (simp add: create_match_tx_def conflict_if_duplicate_def ins d3_def[symmetric] tr
        d4_def[symmetric] conv[unfolded m(1), folded d5_def] d6(1) d'_def m(1))
  have t: "inventoryItems d' = inventoryItems ?d2" "matchOffers d' = matchOffers ?d2"
    "requests d' = upd_key r_id (r_id r) (\<lambda>r. r\<lparr>r_status := Matched\<rparr>) (requests d)"
    "matches d' = matches d @ [m]" "conversations d' = conversations d @ [cv]"
    "next_id d' = Suc (Suc (Suc (Suc ?n)))"
    using d6 by (simp_all add: d'_def applyAccepted_def core_simps)
  have "core_inv (Suc ?n) (inventoryItems d') (requests d') (matchOffers d') (matches d')"
    unfolding t d2 m(5)[symmetric]
  proof (rule core_accept[OF C(1) x r])
    show "item_check (reserve_item env it q i) \<and> i_qtyReserved (reserve_item env it q i) = i_qtyReserved i + m_qtyReserved m"
      if "i \<in> set (inventoryItems d)" "i_id i = m_inventoryItemId m" for i
    proof -
      have "i = it" using ids_ok_inj[OF I(1) that(1) it(1)] that(2) m(5) by simp
      with I(6) it(1) q show ?thesis by (auto simp: stock_ok_def item_check_def reserve_item_def m(6))
    qed
    show "m_inventoryItemId m \<in> i_id ` set (inventoryItems d)" using it(1) m(5) by auto
    show "m_qtyReserved m \<le> r_qty r - r_qtyFulfilled r" using q(2) m(6) by simp
  qed (simp_all add: m ok reserve_item_def accept_row_def)
  then have core: "core_inv (next_id d') (inventoryItems d') (requests d') (matchOffers d') (matches d')"
    by (rule core_inv_mono) (simp add: t(6))
  have chat: "chat_inv (next_id d') (matches d') (conversations d')"
    using C(2) fresh I(4) unfolding t
    by (auto simp: chat_inv_def cv_def new_conversation_def m(1) ids_ok_def d4(2) less_Suc_eq)
  have "stats_inv (matchOffers d') (reliabilityStats d')" unfolding t d2
    using respond_inv[OF inv x, of "accept_row env" "[(Col_accepted, 1), (Col_offersResponded30d, 1)]" env]
    by (simp add: closes_def accept_row_def d'_def applyAccepted_def bump_def d6(7))
  moreover have "labels_inv (reliabilityStats d')"
    using C(4) by (simp add: d'_def applyAccepted_def labels_inv_bump d6(7))
  ultimately have "db_inv d'" using core chat by (simp add: db_inv_def)
  then show ?thesis using run t d2 m_def by auto
qed

lemma void_offer_keeps:
  assumes inv: "db_inv d" and x: "x \<in> set (matchOffers d)" "o_status x = Offered"
    and r: "r \<in> set (requests d)" "r_id r = o_requestId x"
  shows "keeps d (void_offer_tx env x r d) fst"
proof -
  let ?f = "\<lambda>x. x\<lparr>o_status := Offer_lapsed, o_respondedAt := Some (now env)\<rparr>"
  let ?d1 = "update_offer (o_id x) ?f d"
  have f: "closes ?f" by simp
  note O = open_offer_request[OF inv x r]
  have d1: "db_inv ?d1" using inv f by (rule update_offer_inv)
  have "r \<in> set (requests ?d1)" using r(1) by (simp add: update_offer_def)
  then show ?thesis
    using transition_inv[OF d1, of r Searching id env System_actor "''insufficient-inventory''"] O(1)
      closed_none_left[OF inv x f] r(2)
    by (auto simp: void_offer_tx_def canTransition_def)
qed

lemma accept_keeps:
  assumes inv: "db_inv d" and run: "accept_tx env draws helper oid d = Some tx"
  shows "keeps d tx fst"
proof (cases "own_open_offer env helper oid d")
  case (Inl e)
  then show ?thesis using own_open_offer_Inl[OF Inl] run by (auto simp: accept_tx_def)
next
  case (Inr p)
  obtain x r where p: "p = (x, r)" by (cases p)
  with own_open_offer_Inr[of env helper oid d x r] Inr
  have x: "x \<in> set (matchOffers d)" "o_id x = oid" "o_helperId x = helper" "o_status x = Offered"
    and r: "r \<in> set (requests d)" "r_id r = o_requestId x" by auto
  note O = open_offer_request[OF inv x(1,4) r]
  show ?thesis
  proof (cases "by_key i_id (o_inventoryItemId x) (inventoryItems d)")
    case None
    then show ?thesis using run Inr p O(1) by (auto simp: accept_tx_def)
  next
    case (Some it)
    then have it: "it \<in> set (inventoryItems d)" "i_id it = o_inventoryItemId x" by (auto dest: by_key_Some_mem)
    define fr where "fr = (case by_key c_id (r_categoryId r) (categories d) of None \<Rightarrow> False | Some c \<Rightarrow> c_fractional c)"
    define av where "av = (if i_active it then i_qtyOnHand it - i_qtyReserved it else 0)"
    define q where "q = computeReserveQty (o_qty x) (r_qty r - r_qtyFulfilled r) av fr"
    show ?thesis
    proof (cases "q \<le> 0")
      case True
      then have "tx = void_offer_tx env x r d"
        using run Inr p O(1) Some by (auto simp: accept_tx_def Let_def fr_def av_def q_def)
      then show ?thesis using void_offer_keeps[OF inv x(1,4) r] by simp
    next
      case False
      then have q: "0 < q" "q \<le> r_qty r - r_qtyFulfilled r" "q \<le> av"
        using computeReserveQty_le[of "o_qty x" "r_qty r - r_qtyFulfilled r" av fr] by (auto simp: q_def)
      then have act: "i_active it" and qa: "q \<le> i_qtyOnHand it - i_qtyReserved it"
        by (auto simp: av_def split: if_splits)
      have "item_check (reserve_item env it q it)"
        using core_invD(6)[OF db_invD(1)[OF inv]] it(1) q(1) qa
        by (auto simp: stock_ok_def item_check_def reserve_item_def)
      then have up: "update_item (i_id it) (\<lambda>i. i\<lparr>i_qtyReserved := i_qtyReserved it + q, i_updatedAt := now env\<rparr>) d
          = Inr (d\<lparr>inventoryItems := upd_key i_id (i_id it) (reserve_item env it q) (inventoryItems d)\<rparr>)"
        using update_item_ok[where f = "reserve_item env it q", OF core_invD(1)[OF db_invD(1)[OF inv]] it(1)]
        by (simp add: reserve_item_def[abs_def])
      have ar: "(\<lambda>x. x\<lparr>o_status := Accepted, o_respondedAt := Some (now env)\<rparr>) = accept_row env"
        by (rule ext) (simp add: accept_row_def)
      from run Inr p O(1) Some False obtain aliases where
        "create_match_tx env x r it q aliases (reserved_db env x it q d) = tx"
        by (auto simp: accept_tx_def Let_def fr_def[symmetric] av_def[symmetric] q_def[symmetric] up ar
            reserved_db_def x(2) split: option.splits)
      then show ?thesis using create_match_run[OF inv x(1,4) r it q(1,2) qa, of env aliases] by force
    qed
  qed
qed


end
