(* ===== verification/Ranking.thy ===== *)
theory Ranking
  imports Matching "HOL-Library.Multiset"
begin

text \<open>
  What the ranking and the candidate query of the matching engine guarantee: a ranking is a
  permutation ordered by score, and every candidate is an eligible helper with stock.
\<close>

subsection \<open>The ranking\<close>

lemma map_fst_scored: "map fst (scored rng cs) = cs"
  by (rule nth_equalityI) (auto simp: scored_def split_def)

lemma scored_set: "p \<in> set (scored rng cs) \<Longrightarrow> \<exists>i < length cs. p = (cs ! i, scoreCandidate (cs ! i) (rng i))"
  by (auto simp: scored_def set_zip)

lemma rank_mset: "mset (rankCandidates rng cs) = mset cs"
proof -
  have "mset (rankCandidates rng cs) = mset (map fst (scored rng cs))"
    unfolding rankCandidates_def mset_map by simp
  then show ?thesis by (simp add: map_fst_scored)
qed

lemma rank_set: "set (rankCandidates rng cs) = set cs"
  using rank_mset[of rng cs] by (metis set_mset_mset)

lemma rank_nth_le:
  assumes "i \<le> j" "j < length cs"
  shows "\<exists>a b. a < length cs \<and> b < length cs \<and> rankCandidates rng cs ! i = cs ! a \<and> rankCandidates rng cs ! j = cs ! b
     \<and> scoreCandidate (cs ! a) (rng a) \<le> scoreCandidate (cs ! b) (rng b)"
proof -
  let ?s = "sort_key snd (scored rng cs)"
  have len: "length ?s = length cs" by (simp add: scored_def)
  have "sorted (map snd ?s)" by simp
  then have "map snd ?s ! i \<le> map snd ?s ! j" using assms len by (intro sorted_nth_mono) simp_all
  then have le: "snd (?s ! i) \<le> snd (?s ! j)" using assms len by (metis (mono_tags) le_less_trans nth_map)
  have "?s ! i \<in> set (scored rng cs)" "?s ! j \<in> set (scored rng cs)"
    using assms len nth_mem[of i ?s] nth_mem[of j ?s] by auto
  with scored_set obtain a b where "a < length cs" "b < length cs"
    "?s ! i = (cs ! a, scoreCandidate (cs ! a) (rng a))" "?s ! j = (cs ! b, scoreCandidate (cs ! b) (rng b))" by metis
  with le assms len show ?thesis
    by (intro exI[of _ a] exI[of _ b]) (simp add: rankCandidates_def)
qed

subsection \<open>The candidates\<close>

lemma best_item_mem: "best_item is = Some i \<Longrightarrow> i \<in> set is"
  by (induction "is" arbitrary: i) (auto split: option.splits if_splits)

lemma best_item_None: "best_item is = None \<Longrightarrow> is = []"
  by (cases "is") (auto split: option.splits if_splits)

lemma best_item_max: "best_item is = Some i \<Longrightarrow> j \<in> set is \<Longrightarrow> item_available j \<le> item_available i"
proof (induction "is" arbitrary: i)
  case (Cons k ks)
  then show ?case
  proof (cases "best_item ks")
    case None
    then have "ks = []" by (rule best_item_None)
    with Cons.prems None show ?thesis by simp
  next
    case (Some b)
    with Cons.prems have "i = (if item_available b > item_available k then b else k)" by (simp split: if_splits)
    with Cons.IH[OF Some] Cons.prems(2) show ?thesis by (cases "j = k") (fastforce split: if_splits)+
  qed
qed simp

lemma nulls_last_set: "set (nulls_last f cs) = set cs"
  by (auto simp: nulls_last_def)

lemma map_filter_mem: "y \<in> set (List.map_filter f xs) \<Longrightarrow> \<exists>x \<in> set xs. f x = Some y"
  by (auto simp: List.map_filter_def)

lemma candidates_for_mem:
  assumes "c \<in> set (candidates_for env ev r d)"
  shows "\<exists>u i. u \<in> set (users d) \<and> eligible_helper env ev r d u \<and> i \<in> set (inventoryItems d)
     \<and> eligible_item env r (u_id u) i \<and> c = rowToCandidate env r d u i
     \<and> (\<forall>j \<in> set (inventoryItems d). eligible_item env r (u_id u) j \<longrightarrow> item_available j \<le> item_available i)"
proof -
  from assms have "c \<in> set (nulls_last cn_distanceM
       (List.map_filter (\<lambda>u. map_option (rowToCandidate env r d u)
                (best_item (filter (eligible_item env r (u_id u)) (inventoryItems d))))
         (filter (eligible_helper env ev r d) (users d))))"
    unfolding candidates_for_def by (rule in_set_takeD)
  then obtain u where u: "u \<in> set (users d)" "eligible_helper env ev r d u"
    "map_option (rowToCandidate env r d u) (best_item (filter (eligible_item env r (u_id u)) (inventoryItems d))) = Some c"
    unfolding nulls_last_set by (auto dest!: map_filter_mem)
  then obtain i where i: "best_item (filter (eligible_item env r (u_id u)) (inventoryItems d)) = Some i"
    "c = rowToCandidate env r d u i" by auto
  with best_item_mem[OF i(1)] best_item_max[OF i(1)] u(1,2) show ?thesis by auto
qed

lemma candidates_for_le: "length (candidates_for env ev r d) \<le> 8"
  by (simp add: candidates_for_def)

text \<open>The first ranked candidate that can serve the request, as the pass picks it.\<close>

lemma winner_eligible:
  assumes "find P (rankCandidates rng (candidates_for env ev r d)) = Some c"
  shows "P c \<and> cn_helperId c \<noteq> r_requesterId r
     \<and> (\<forall>x \<in> set (matchOffers d). o_requestId x = r_id r \<longrightarrow> o_helperId x \<noteq> cn_helperId c)"
proof -
  from assms have "P c" "c \<in> set (rankCandidates rng (candidates_for env ev r d))"
    by (auto simp: find_Some_iff)
  then have "P c" "c \<in> set (candidates_for env ev r d)" by (simp_all only: rank_set)
  with candidates_for_mem show ?thesis
    by (fastforce simp: eligible_helper_def rowToCandidate_def list_ex_iff)
qed

end
