(* ===== verification/Pass_Ops.thy ===== *)
theory Pass_Ops
  imports Offer_Ops Ranking
begin

text \<open>
  Every branch of the matching pass and of the offer timeout keeps the database invariant and never
  ends in a constraint violation.
\<close>

subsection \<open>Making an offer\<close>

lemma make_offer_keeps:
  assumes inv: "db_inv d" and r: "r \<in> set (requests d)" "r_status r = Searching"
    and c: "cn_helperId c \<noteq> r_requesterId r" "0 < q"
      "\<forall>x \<in> set (matchOffers d). o_requestId x = r_id r \<longrightarrow> o_helperId x \<noteq> cn_helperId c"
  shows "keeps d (make_offer_tx env ev r c q d) fst"
proof -
  let ?n = "next_id d"
  let ?set = "\<lambda>x. x\<lparr>r_attemptCount := r_attemptCount r + 1\<rparr> :: request"
  let ?g = "\<lambda>x. ?set (x\<lparr>r_status := Offering\<rparr>)"
  define x where "x = (new_offer env ev r c q)\<lparr>o_id := ?n\<rparr>"
  have x: "o_id x = ?n" "o_requestId x = r_id r" "o_helperId x = cn_helperId c" "o_qty x = q" "o_status x = Offered"
    by (simp_all add: x_def new_offer_def)
  note C = db_invD[OF inv]
  note I = core_invD[OF C(1)]
  have only: "y = r" if "y \<in> set (requests d)" "r_id y = r_id r" for y using ids_ok_inj[OF I(2) that(1) r(1) that(2)] .
  have chk: "request_check (?g r)" using I(5) r(1) by (simp add: requests_ok_def request_check_def)
  have "list_all (offer_unique x) (matchOffers d)"
    using c(3) x by (auto simp: list_all_iff offer_unique_def)
  then have ins: "insert_offer (new_offer env ev r c q) d = Inr (d\<lparr>matchOffers := matchOffers d @ [x], next_id := Suc ?n\<rparr>, x)"
    by (simp add: insert_offer_Inr x_def[symmetric])
  define d1 where "d1 = d\<lparr>matchOffers := matchOffers d @ [x], next_id := Suc ?n\<rparr>"
  define d2 where "d2 = append_transition env (r_id r) (Some Searching) Offering System_actor (Some ''offer-created'')
      (d1\<lparr>requests := upd_key r_id (r_id r) ?g (requests d)\<rparr>)"
  have tr: "transitionRequest env r Offering System_actor ''offer-created'' ?set d1 = Inr (d2, ?g r)"
    using transition_ok[where st = ?set, of ?n d1 r Offering env System_actor "''offer-created''"] I(2) r chk
    by (simp add: d1_def d2_def canTransition_def)
  define d3 where "d3 = applyOfferReceived env (cn_helperId c) d2"
  have t: "inventoryItems d3 = inventoryItems d" "requests d3 = upd_key r_id (r_id r) ?g (requests d)"
    "matchOffers d3 = matchOffers d @ [x]" "matches d3 = matches d" "conversations d3 = conversations d"
    "next_id d3 = Suc (Suc ?n)"
    by (simp_all add: d3_def d2_def d1_def applyOfferReceived_def core_simps)
  have "core_inv (Suc ?n) (inventoryItems d3) (requests d3) (matchOffers d3) (matches d3)"
    unfolding t
    by (rule core_offer_insert[OF C(1) x(1) _ x(2) _ r(1) refl r(2) refl]) (use x c only chk in auto)
  then have "core_inv (next_id d3) (inventoryItems d3) (requests d3) (matchOffers d3) (matches d3)"
    by (rule core_inv_mono) (simp add: t)
  moreover have "chat_inv (next_id d3) (matches d3) (conversations d3)"
    using C(2) by (auto simp: t chat_inv_def ids_ok_def)
  moreover have "stats_inv (matchOffers d3) (reliabilityStats d3)"
    unfolding t(3) unfolding d3_def applyOfferReceived_def
    by (rule stats_inv_receive) (use C(3) x in \<open>simp_all add: d2_def d1_def core_simps\<close>)
  moreover have "labels_inv (reliabilityStats d3)"
    using C(4) by (simp add: d3_def applyOfferReceived_def labels_inv_bump d2_def d1_def core_simps)
  ultimately have "db_inv d3" by (simp add: db_inv_def)
  then show ?thesis using tr by (simp add: make_offer_tx_def ins d1_def[symmetric] d3_def Let_def)
qed

subsection \<open>Widening and searching\<close>

lemma request_note_inv:
  assumes inv: "db_inv d" and f: "\<And>r. r_id (f r) = r_id r \<and> r_requesterId (f r) = r_requesterId r
     \<and> r_status (f r) = r_status r \<and> r_qty (f r) = r_qty r \<and> r_qtyFulfilled (f r) = r_qtyFulfilled r"
  shows "db_inv (d\<lparr>requests := upd_where P f (requests d)\<rparr>)"
proof -
  note C = db_invD[OF inv]
  have "core_inv (next_id d) (inventoryItems d) (upd_where P f (requests d)) (matchOffers d) (matches d)"
    using C(1) f by (rule core_request_note)
  with C show ?thesis by (simp add: db_inv_def)
qed

lemma widen_keeps:
  assumes inv: "db_inv d"
  shows "keeps d (widen_tx env ev r d) fst"
proof -
  let ?f = "\<lambda>x. x\<lparr>r_currentRadiusM := min (r_currentRadiusM r * radiusExpansionFactor) (e_maxMatchRadiusM ev)\<rparr> :: request"
  have "request_check (?f y)" if "y \<in> set (requests d)" for y
    using core_invD(5)[OF db_invD(1)[OF inv]] that by (simp add: requests_ok_def request_check_def)
  then have "update_request (r_id r) ?f d = Inr (d\<lparr>requests := upd_key r_id (r_id r) ?f (requests d)\<rparr>)"
    by (simp add: update_request_Inr)
  moreover have "db_inv (d\<lparr>requests := upd_key r_id (r_id r) ?f (requests d)\<rparr>)"
    unfolding upd_key_def using inv by (rule request_note_inv) simp
  ultimately show ?thesis using inv by (simp add: widen_tx_def Let_def)
qed

lemma search_keeps:
  assumes inv: "db_inv d" and r: "r \<in> set (requests d)" "r_status r = Searching"
  shows "keeps d (search_tx env rng ev r d) fst"
proof -
  define fr where "fr = (case by_key c_id (r_categoryId r) (categories d) of None \<Rightarrow> False | Some c \<Rightarrow> c_fractional c)"
  define P where "P = (\<lambda>c. offer_quantity (r_qty r - r_qtyFulfilled r) fr c > 0)"
  have eq: "search_tx env rng ev r d = (case find P (rankCandidates rng (candidates_for env ev r d)) of
      Some w \<Rightarrow> make_offer_tx env ev r w (offer_quantity (r_qty r - r_qtyFulfilled r) fr w) d
    | None \<Rightarrow> widen_tx env ev r d)"
    by (simp add: search_tx_def Let_def fr_def P_def cong: option.case_cong)
  show ?thesis
  proof (cases "find P (rankCandidates rng (candidates_for env ev r d))")
    case None
    with eq widen_keeps[OF inv] show ?thesis by simp
  next
    case (Some c)
    with winner_eligible[OF Some] make_offer_keeps[OF inv r, of c] show ?thesis by (simp add: eq P_def)
  qed
qed

subsection \<open>Expiring a request\<close>

lemma supersede_fst: "fst (supersede_open env rid d) = d\<lparr>matchOffers := upd_where
     (\<lambda>x. o_requestId x = rid \<and> o_status x = Offered)
     (\<lambda>x. x\<lparr>o_status := Superseded, o_respondedAt := Some (now env)\<rparr>) (matchOffers d)\<rparr>"
  by (simp add: supersede_open_def Let_def)

lemma supersede_inv: "db_inv d \<Longrightarrow> db_inv (fst (supersede_open env rid d))"
  unfolding supersede_fst by (erule close_where_inv) (rule closes_status, simp)

lemma upd_where_either: "y \<in> set (upd_where P f t) \<Longrightarrow> (\<exists>x \<in> set t. P x \<and> y = f x) \<or> (y \<in> set t \<and> \<not> P y)"
  by (auto simp: upd_where_def)

lemma supersede_none_open:
  assumes "x \<in> set (matchOffers (fst (supersede_open env rid d)))"
  shows "o_requestId x = rid \<longrightarrow> o_status x \<noteq> Offered"
proof -
  from assms have "x \<in> set (upd_where (\<lambda>x. o_requestId x = rid \<and> o_status x = Offered)
    (\<lambda>x. x\<lparr>o_status := Superseded, o_respondedAt := Some (now env)\<rparr>) (matchOffers d))"
    by (simp add: supersede_fst)
  from upd_where_either[OF this] show ?thesis by (elim disjE bexE conjE) simp_all
qed

lemma supersede_requests [simp]: "requests (fst (supersede_open env rid d)) = requests d"
  by (simp add: supersede_fst)

text \<open>A transition of a request with no open offer either runs or is refused by the table.\<close>

lemma transition_keeps:
  assumes inv: "db_inv d" and r: "r \<in> set (requests d)" and st: "r_status r \<noteq> Matched" "to \<noteq> Matched"
    and none: "\<forall>x \<in> set (matchOffers d). o_requestId x = r_id r \<longrightarrow> o_status x \<noteq> Offered"
    and f: "\<And>r. r_id (f r) = r_id r \<and> r_requesterId (f r) = r_requesterId r \<and> r_status (f r) = r_status r
       \<and> r_qty (f r) = r_qty r \<and> r_qtyFulfilled (f r) = r_qtyFulfilled r"
  shows "keeps d0 (transitionRequest env r to actor reason f d) fst"
proof (cases "canTransition (Some (r_status r)) to")
  case True
  then obtain d' where "transitionRequest env r to actor reason f d = Inr (d', f (r\<lparr>r_status := to\<rparr>))" "db_inv d'"
    using transition_inv[OF inv r True st _ f] none by blast
  then show ?thesis by simp
next
  case False
  then have "transitionRequest env r to actor reason f d = Inl Request_conflict" by (simp add: transitionRequest_Inl)
  then show ?thesis by simp
qed

lemma expire_request_keeps:
  assumes inv: "db_inv d" and r: "r \<in> set (requests d)" "r_status r = Searching \<or> r_status r = Offering"
  shows "keeps d (expire_request_tx env r d) fst"
proof -
  obtain d1 sup where s: "supersede_open env (r_id r) d = (d1, sup)" by (cases "supersede_open env (r_id r) d") auto
  have d1: "db_inv d1" "requests d1 = requests d" "\<forall>x \<in> set (matchOffers d1). o_requestId x = r_id r \<longrightarrow> o_status x \<noteq> Offered"
    using supersede_inv[OF inv, of env "r_id r"] supersede_requests[of env "r_id r" d]
      supersede_none_open[of _ env "r_id r" d] by (auto simp: s)
  have "keeps d (transitionRequest env r to System_actor ''expiry'' (\<lambda>r. r\<lparr>r_closedAt := Some (now env)\<rparr>) d1) fst"
    if "to \<noteq> Matched" for to
    using r d1 that by (intro transition_keeps) auto
  then show ?thesis unfolding expire_request_tx_def s Let_def prod.case
    by (rule keeps_bind) auto
qed

subsection \<open>The pass and the offer timeout\<close>

lemma sweep_offer_run:
  assumes inv: "db_inv d" and r: "r \<in> set (requests d)" "r_status r = Offering"
    and x: "opn = find (\<lambda>x. o_requestId x = r_id r \<and> o_status x = Offered) (matchOffers d)"
  shows "\<exists>d' after. sweep_offer_tx env r opn d = Inr (d', r\<lparr>r_status := Searching\<rparr>, after) \<and> db_inv d'
     \<and> r\<lparr>r_status := Searching\<rparr> \<in> set (requests d')"
proof -
  let ?f = "\<lambda>x. x\<lparr>o_status := Offer_lapsed, o_respondedAt := Some (now env)\<rparr> :: match_offer"
  define d1 where "d1 = (case opn of None \<Rightarrow> d | Some x \<Rightarrow> update_offer (o_id x) ?f d)"
  have d1: "db_inv d1" "requests d1 = requests d"
    using inv update_offer_inv[OF inv] by (auto simp: d1_def update_offer_def split: option.splits)
  have none: "\<forall>y \<in> set (matchOffers d1). o_requestId y = r_id r \<longrightarrow> o_status y \<noteq> Offered"
  proof (cases opn)
    case None
    with x show ?thesis by (auto simp: d1_def find_None_iff dest!: sym[of None])
  next
    case (Some y)
    with x have y: "y \<in> set (matchOffers d)" "o_status y = Offered" "o_requestId y = r_id r"
      by (auto simp: find_Some_iff dest!: sym[of "Some _"])
    from Some closed_none_left[OF inv y(1,2), of ?f] y(3) show ?thesis by (simp add: d1_def)
  qed
  obtain d' where "transitionRequest env r Searching System_actor ''offer-timeout'' id d1 = Inr (d', r\<lparr>r_status := Searching\<rparr>)"
    "db_inv d'" "requests d' = upd_key r_id (r_id r) (\<lambda>r. r\<lparr>r_status := Searching\<rparr>) (requests d1)"
    using transition_inv[OF d1(1), of r Searching id env System_actor "''offer-timeout''"] r d1(2) none
    by (auto simp: canTransition_def)
  moreover from this r d1(2) have "r\<lparr>r_status := Searching\<rparr> \<in> set (requests d')" by (auto simp: upd_key_mem intro!: bexI[of _ r])
  ultimately show ?thesis by (simp add: sweep_offer_tx_def d1_def[symmetric])
qed

lemma pass_keeps:
  assumes inv: "db_inv d"
  shows "keeps d (pass_tx env rng rid d) fst"
proof (cases "by_key r_id rid (requests d)")
  case None
  with inv show ?thesis by (simp add: pass_tx_def)
next
  case (Some r)
  then have r: "r \<in> set (requests d)" "r_id r = rid" by (auto dest: by_key_Some_mem)
  show ?thesis
  proof (cases "r_status r = Searching \<or> r_status r = Offering")
    case False
    with Some inv show ?thesis by (simp add: pass_tx_def)
  next
    case open_: True
    have off: "keeps d (r_bind (sweep_offer_tx env r opn d) (\<lambda>(d1, request', after1).
          r_bind (search_tx env rng ev request' d1) (\<lambda>(d2, after2). Inr (d2, after1 @ after2)))) fst"
      if st: "r_status r = Offering" and opn: "opn = find (\<lambda>x. o_requestId x = r_id r \<and> o_status x = Offered) (matchOffers d)" for opn ev
    proof -
      obtain d1 after where s: "sweep_offer_tx env r opn d = Inr (d1, r\<lparr>r_status := Searching\<rparr>, after)" "db_inv d1"
        "r\<lparr>r_status := Searching\<rparr> \<in> set (requests d1)" using sweep_offer_run[OF inv r(1) st opn] by blast
      have "keeps d1 (search_tx env rng ev (r\<lparr>r_status := Searching\<rparr>) d1) fst" using s(2,3) by (rule search_keeps) simp
      then show ?thesis using s(1)
        by (cases "search_tx env rng ev (r\<lparr>r_status := Searching\<rparr>) d1") auto
    qed
    show ?thesis using Some open_ inv expire_request_keeps[OF inv r(1) open_] search_keeps[OF inv r(1)] off r(2)
      by (auto simp: pass_tx_def Let_def split: option.splits)
  qed
qed

lemma expire_offer_keeps:
  assumes inv: "db_inv d"
  shows "keeps d (expire_offer_tx env oid d) fst"
proof (cases "by_key o_id oid (matchOffers d)")
  case None
  with inv show ?thesis by (simp add: expire_offer_tx_def)
next
  case (Some x)
  then have x: "x \<in> set (matchOffers d)" "o_id x = oid" by (auto dest: by_key_Some_mem)
  let ?f = "\<lambda>x. x\<lparr>o_status := Offer_lapsed, o_respondedAt := Some (now env)\<rparr> :: match_offer"
  let ?d1 = "update_offer oid ?f d"
  have d1: "db_inv ?d1" using inv by (rule update_offer_inv) simp
  show ?thesis
  proof (cases "o_status x = Offered \<and> o_respondBy x \<le> now env")
    case False
    with Some inv show ?thesis by (auto simp: expire_offer_tx_def)
  next
    case True
    show ?thesis
    proof (cases "by_key r_id (o_requestId x) (requests d)")
      case None
      with Some True d1 show ?thesis by (auto simp: expire_offer_tx_def)
    next
      case (Some r)
      then have r: "r \<in> set (requests d)" "r_id r = o_requestId x" by (auto dest: by_key_Some_mem)
      have st: "r_status r = Offering" using open_offer_request[OF inv x(1) _ r] True by simp
      obtain d' r' where "transitionRequest env r Searching System_actor ''offer-timeout'' id ?d1 = Inr (d', r')" "db_inv d'"
        using transition_inv[OF d1, of r Searching id env System_actor "''offer-timeout''"] r st
          closed_none_left[OF inv x(1), of ?f] True x(2)
        by (auto simp: canTransition_def update_offer_def)
      with \<open>by_key o_id oid (matchOffers d) = Some x\<close> Some True st show ?thesis
        by (auto simp: expire_offer_tx_def)
    qed
  qed
qed

end
