(* ===== verification/Availability_Service.thy ===== *)
theory Availability_Service
  imports Events
begin

text \<open>
  \<open>server/src/modules/availability/service.ts\<close>: the helping-now switch and the coarse location ping.
  A location row exists once per member and event, coarsened, with a time to live.
\<close>

definition getAvailability :: "env \<Rightarrow> uid \<Rightarrow> uid \<Rightarrow> db \<Rightarrow> availability_view" where
  "getAvailability env u eid d =
     (case find (\<lambda>a. av_userId a = u \<and> av_eventId a = eid) (availability d) of
        None \<Rightarrow> \<lparr>ay_on = False, ay_until = None\<rparr>
      | Some row \<Rightarrow>
          let on = av_isOn row \<and> (case av_until row of None \<Rightarrow> True | Some t \<Rightarrow> t > now env)
          in \<lparr>ay_on = on, ay_until = (if on then av_until row else None)\<rparr>)"

record auth_context =
  au_userId :: uid
  au_status :: user_status
  au_canRequest :: bool
  au_canHelp :: bool

definition setAvailability :: "env \<Rightarrow> auth_context \<Rightarrow> uid \<Rightarrow> set_availability_input \<Rightarrow> db \<Rightarrow> availability_view outcome" where
  "setAvailability env auth eid input d =
     (if \<not> si_on input
      then (upsert_availability (au_userId auth) eid False None (now env) d, [],
            Inr \<lparr>ay_on = False, ay_until = None\<rparr>)
      else case resolveEvent d (Event_uuid eid) of
        None \<Rightarrow> (d, [], Inl Not_found)
      | Some event \<Rightarrow>
          if getMembership d eid (au_userId auth) = None then (d, [], Inl Forbidden)
          else if e_status event = Paused then (d, [], Inl Event_paused)
          else if e_status event \<noteq> Active then (d, [], Inl Event_not_active)
          else if \<not> au_canHelp auth \<or> au_status auth \<noteq> User_active then (d, [], Inl Account_restricted)
          else let until = (case si_durationMinutes input of
                      Some n \<Rightarrow> if n \<noteq> 0 then Some (now env + n * 60000)
                               else if si_untilEventEnd input then Some (e_endsAt event) else None
                    | None \<Rightarrow> if si_untilEventEnd input then Some (e_endsAt event) else None)
               in (upsert_availability (au_userId auth) eid True until (now env) d, [],
                   Inr \<lparr>ay_on = True, ay_until = until\<rparr>))"

definition mayShareLocation :: "env \<Rightarrow> uid \<Rightarrow> uid \<Rightarrow> db \<Rightarrow> bool" where
  "mayShareLocation env u eid d \<longleftrightarrow>
     (case find (\<lambda>a. av_userId a = u \<and> av_eventId a = eid \<and> av_isOn a) (availability d) of
        None \<Rightarrow> False
      | Some a \<Rightarrow> (case av_until a of None \<Rightarrow> True | Some t \<Rightarrow> t > now env))
     \<or> list_ex (\<lambda>r. r_requesterId r = u \<and> r_eventId r = eid \<and> r_status r \<in> {Searching, Offering})
         (requests d)"

definition putLocation :: "env \<Rightarrow> uid \<Rightarrow> uid \<Rightarrow> geopoint \<Rightarrow> db \<Rightarrow> instant outcome" where
  "putLocation env u eid coords d =
     (if \<not> mayShareLocation env u eid d then (d, [], Inl Forbidden)
      else let d1 = upsert_location env u eid coords d;
               d2 = (if list_ex (\<lambda>c. cr_userId c = u \<and> cr_kind c = ''location'' \<and> cr_granted c)
                          (consentRecords d1)
                     then d1
                     else d1\<lparr>consentRecords := consentRecords d1 @
                            [\<lparr>cr_id = next_id d1, cr_userId = u, cr_kind = ''location'',
                              cr_granted = True, cr_createdAt = now env\<rparr>],
                          next_id := Suc (next_id d1)\<rparr>)
           in (d2, [], Inr (now env + LOCATION_TTL_MINUTES env * 60000)))"

definition deleteLocation :: "uid \<Rightarrow> uid \<Rightarrow> db \<Rightarrow> db" where
  "deleteLocation u eid d = delete_location u eid d"

end
