(* ===== verification/Requests.thy ===== *)
theory Requests
  imports Settlement Availability_Service
begin

text \<open>
  \<open>server/src/modules/requests/service.ts\<close>: the requester's side. Creation checks the event, the
  membership, the account and the category limits and stores a redacted note; cancel, renew and
  continue go through the transition table.
\<close>

definition ACTIVE_REQUEST_STATUSES :: "request_status list" where
  "ACTIVE_REQUEST_STATUSES = [Searching, Offering, Matched]"

definition active_request_count :: "db \<Rightarrow> uid \<Rightarrow> nat" where
  "active_request_count d u =
     length (filter (\<lambda>r. r_requesterId r = u \<and> r_status r \<in> set ACTIVE_REQUEST_STATUSES) (requests d))"

definition enqueueMatching :: "env \<Rightarrow> uid \<Rightarrow> instant \<Rightarrow> effect list" where
  "enqueueMatching env rid expiresAt =
     [Match_job rid 0, Match_job rid (max 0 (expiresAt - now env) + 1000)]"

definition findByIdempotencyKey :: "db \<Rightarrow> uid \<Rightarrow> string \<Rightarrow> request option" where
  "findByIdempotencyKey d u key =
     find (\<lambda>r. r_requesterId r = u \<and> r_idempotencyKey r = key) (requests d)"

definition new_request :: "env \<Rightarrow> uid \<Rightarrow> uid \<Rightarrow> create_request_input \<Rightarrow> request" where
  "new_request env u eid input =
     \<lparr>r_id = 0, r_eventId = eid, r_requesterId = u, r_categoryId = ri_categoryId input,
      r_qty = ri_qty input, r_qtyFulfilled = 0, r_unit = ri_unit input,
      r_urgency = ri_urgency input,
      r_note = (case ri_note input of None \<Rightarrow> None
                | Some n \<Rightarrow> if n = [] then None else Some (redactContactDetails n)),
      r_areaHint = ri_areaHint input, r_status = Searching,
      r_currentRadiusM = initialSearchRadiusM, r_attemptCount = 0,
      r_expiresAt = now env + ri_expiresInMinutes input * 60000, r_createdAt = now env,
      r_closedAt = None, r_idempotencyKey = ri_idempotencyKey input\<rparr>"

definition aborted_request_insert :: "app_error + 'a \<Rightarrow> app_error + 'a" where
  "aborted_request_insert r =
     (case r of Inl e \<Rightarrow> Inl (if e = Internal ''23505'' then Internal ''25P02'' else e) | Inr a \<Rightarrow> Inr a)"

definition create_request_tx :: "env \<Rightarrow> uid \<Rightarrow> uid \<Rightarrow> create_request_input \<Rightarrow> db \<Rightarrow> app_error + db \<times> request" where
  "create_request_tx env u eid input d =
     (if active_request_count d u \<ge> maxActiveRequestsPerUser then Inl Rate_limited
      else let d1 = (case ri_coords input of None \<Rightarrow> d | Some c \<Rightarrow> upsert_location env u eid c d) in
        r_bind (aborted_request_insert (insert_request (new_request env u eid input) d1)) (\<lambda>(d2, row).
          Inr (recordCreationTransition env (r_id row) Requester_actor (Some ''created'') d2, row)))"

definition createRequest :: "env \<Rightarrow> auth_context \<Rightarrow> create_request_input \<Rightarrow> db \<Rightarrow> request_view outcome" where
  "createRequest env auth input d =
     (let u = au_userId auth in
      case findByIdempotencyKey d u (ri_idempotencyKey input) of
        Some replay \<Rightarrow> (d, [], Inr (toRequestView replay (slugFor d (r_categoryId replay))
                                  (activeMatchIdFor d (r_id replay))))
      | None \<Rightarrow>
      (case resolveEvent d (Event_uuid (ri_eventId input)) of None \<Rightarrow> (d, [], Inl Not_found) | Some event \<Rightarrow>
      (case getMembership d (e_id event) u of None \<Rightarrow> (d, [], Inl Forbidden) | Some membership \<Rightarrow>
       if mb_banned membership then (d, [], Inl Forbidden)
       else if e_status event = Paused then (d, [], Inl Event_paused)
       else if e_status event \<noteq> Active then (d, [], Inl Event_not_active)
       else if e_matchingPaused event then (d, [], Inl Event_paused)
       else if \<not> au_canRequest auth \<or> au_status auth \<noteq> User_active then (d, [], Inl Account_restricted)
       else (case find (\<lambda>c. c_id (ef_category c) = ri_categoryId input)
                    (effectiveEventCategories d (e_id event)) of
           None \<Rightarrow> (d, [], Inl Prohibited_category)
         | Some effective \<Rightarrow>
             let category = ef_category effective;
                 allowedUnits = c_unit category # c_altUnits category in
             if ri_unit input \<notin> set allowedUnits then (d, [], Inl (Validation ''unit''))
             else if ri_qty input > ef_maxRequestQty effective then (d, [], Inl (Validation ''qty''))
             else if \<not> c_fractional category \<and> \<not> is_integer (ri_qty input)
             then (d, [], Inl (Validation ''qty''))
             else commit d (create_request_tx env u (e_id event) input d) (\<lambda>(d', created).
               (d', enqueueMatching env (r_id created) (r_expiresAt created)
                      @ emitRequestUpdate (r_id created) u d',
                Inr (toRequestView created (c_slug category) None)))))))"

definition listMyRequests :: "db \<Rightarrow> uid \<Rightarrow> uid option \<Rightarrow> request_view list" where
  "listMyRequests d u eid =
     take 50 (List.map_filter
       (\<lambda>r. map_option (\<lambda>c. toRequestView r (c_slug c) (activeMatchIdFor d (r_id r)))
              (by_key c_id (r_categoryId r) (categories d)))
       (sort_key (\<lambda>r. - r_createdAt r)
         (filter (\<lambda>r. r_requesterId r = u \<and> (case eid of None \<Rightarrow> True | Some e \<Rightarrow> r_eventId r = e))
           (requests d))))"

definition getMyRequest :: "db \<Rightarrow> uid \<Rightarrow> uid \<Rightarrow> app_error + request_view" where
  "getMyRequest d u rid =
     r_bind (or_throw Not_found (loadRequestView d rid)) (\<lambda>view.
     r_bind (or_throw Not_found (by_key r_id rid (requests d))) (\<lambda>row.
       if r_requesterId row \<noteq> u then Inl Not_found else Inr view))"

definition lockOwnRequest :: "db \<Rightarrow> uid \<Rightarrow> uid \<Rightarrow> app_error + request" where
  "lockOwnRequest d u rid =
     r_bind (or_throw Not_found (by_key r_id rid (requests d))) (\<lambda>row.
       if r_requesterId row \<noteq> u then Inl Not_found else Inr row)"

text \<open>\<open>UPDATE match_offers SET status = 'superseded' WHERE request_id = .. AND status = 'offered'\<close>.\<close>

definition supersede_offers :: "env \<Rightarrow> uid \<Rightarrow> db \<Rightarrow> db \<times> match_offer list" where
  "supersede_offers env rid d =
     (let isOpen = (\<lambda>x. o_requestId x = rid \<and> o_status x = Offered) in
      (d\<lparr>matchOffers := upd_where isOpen
            (\<lambda>x. x\<lparr>o_status := Superseded, o_respondedAt := Some (now env)\<rparr>) (matchOffers d)\<rparr>,
       filter isOpen (matchOffers d)))"

definition requester_cancel :: "uid \<Rightarrow> cancel_options" where
  "requester_cancel u = \<lparr>co_actor = Requester_actor, co_cancellerUserId = Some u,
     co_reason = ''requester-cancel'', co_unsafe = False, co_note = None\<rparr>"

definition cancel_request_tx :: "env \<Rightarrow> uid \<Rightarrow> uid \<Rightarrow> db \<Rightarrow> app_error + db \<times> after_commit list" where
  "cancel_request_tx env u rid d =
     r_bind (lockOwnRequest d u rid) (\<lambda>request.
       if r_status request = Matched
       then (case activeMatchIdFor d rid of
               None \<Rightarrow> Inl Request_conflict
             | Some mid \<Rightarrow> cancelMatchInTx env mid (requester_cancel u) d)
       else if r_status request \<noteq> Searching \<and> r_status request \<noteq> Offering then Inl Request_conflict
       else let (d1, superseded) = supersede_offers env rid d in
         r_bind (transitionRequest env request Cancelled Requester_actor ''owner-cancel''
                   (\<lambda>r. r\<lparr>r_closedAt := Some (now env)\<rparr>) d1) (\<lambda>(d2, _).
           Inr (d2, map (\<lambda>x _. [Publish (o_helperId x) Offer_expired (P_offer_status (o_id x) Superseded)])
                      superseded)))"

definition cancelRequest :: "env \<Rightarrow> uid \<Rightarrow> uid \<Rightarrow> db \<Rightarrow> request_view outcome" where
  "cancelRequest env u rid d =
     commit d (cancel_request_tx env u rid d) (\<lambda>(d', after).
       (d', run_after after d' @ emitRequestUpdate rid u d', getMyRequest d' u rid))"

definition renew_tx :: "env \<Rightarrow> uid \<Rightarrow> uid \<Rightarrow> int \<Rightarrow> db \<Rightarrow> app_error + db \<times> request" where
  "renew_tx env u rid expiresInMinutes d =
     r_bind (lockOwnRequest d u rid) (\<lambda>request.
       if r_status request \<notin> {Expired, No_match, Cancelled} then Inl Request_conflict
       else transitionRequest env request Searching Requester_actor ''renew''
              (\<lambda>r. r\<lparr>r_expiresAt := now env + expiresInMinutes * 60000,
                     r_currentRadiusM := initialSearchRadiusM, r_closedAt := None\<rparr>) d)"

definition renewRequest :: "env \<Rightarrow> uid \<Rightarrow> uid \<Rightarrow> int \<Rightarrow> db \<Rightarrow> request_view outcome" where
  "renewRequest env u rid expiresInMinutes d =
     commit d (renew_tx env u rid expiresInMinutes d) (\<lambda>(d', renewed).
       (d', enqueueMatching env rid (r_expiresAt renewed) @ emitRequestUpdate rid u d',
        getMyRequest d' u rid))"

definition continue_tx :: "env \<Rightarrow> uid \<Rightarrow> uid \<Rightarrow> bool \<Rightarrow> db \<Rightarrow> app_error + db \<times> request \<times> bool" where
  "continue_tx env u rid continueSearching d =
     r_bind (lockOwnRequest d u rid) (\<lambda>request.
       if r_status request \<noteq> Partially_fulfilled then Inl Request_conflict
       else if continueSearching
       then if r_qty request - r_qtyFulfilled request \<le> 0 then Inl Request_conflict
            else r_bind (transitionRequest env request Searching Requester_actor ''continue''
                   (\<lambda>r. r\<lparr>r_expiresAt := now env + 15 * 60000,
                          r_currentRadiusM := initialSearchRadiusM, r_closedAt := None\<rparr>) d)
                   (\<lambda>(d', row). Inr (d', row, True))
       else r_bind (transitionRequest env request
                 (if r_qtyFulfilled request > 0 then Fulfilled else Cancelled)
                 Requester_actor ''close-after-partial''
                 (\<lambda>r. r\<lparr>r_closedAt := Some (now env)\<rparr>) d)
              (\<lambda>(d', row). Inr (d', row, False)))"

definition continueRequest :: "env \<Rightarrow> uid \<Rightarrow> uid \<Rightarrow> bool \<Rightarrow> db \<Rightarrow> request_view outcome" where
  "continueRequest env u rid continueSearching d =
     commit d (continue_tx env u rid continueSearching d) (\<lambda>(d', row, enqueue).
       (d', (if enqueue then enqueueMatching env rid (r_expiresAt row) else [])
            @ emitRequestUpdate rid u d',
        getMyRequest d' u rid))"

end
