(* ===== verification/Inventory.thy ===== *)
theory Inventory
  imports Events Views
begin

text \<open>
  \<open>server/src/modules/inventory/service.ts\<close>: a helper's stock at an event. Only the reservation side
  (offers, settlement) writes \<open>qty_reserved\<close>; the owner edits \<open>qty_on_hand\<close> and never below it.
\<close>

definition toInventoryView :: "item \<Rightarrow> string \<Rightarrow> inventory_view" where
  "toInventoryView it categorySlug =
     \<lparr>iv_id = i_id it, iv_eventId = i_eventId it, iv_categoryId = i_categoryId it,
      iv_categorySlug = categorySlug, iv_qtyTotal = i_qtyOnHand it,
      iv_qtyAvailable = i_qtyOnHand it - i_qtyReserved it, iv_qtyReserved = i_qtyReserved it,
      iv_unit = i_unit it, iv_details = i_details it, iv_active = i_active it,
      iv_updatedAt = i_updatedAt it\<rparr>"

definition listMyInventory :: "db \<Rightarrow> uid \<Rightarrow> uid \<Rightarrow> app_error + inventory_view list" where
  "listMyInventory d u eid =
     r_bind (or_throw Forbidden (getMembership d eid u)) (\<lambda>_.
       Inr (List.map_filter
         (\<lambda>i. map_option (\<lambda>c. toInventoryView i (c_slug c)) (by_key c_id (i_categoryId i) (categories d)))
         (sort_key (\<lambda>i. - i_createdAt i)
           (filter (\<lambda>i. i_userId i = u \<and> i_eventId i = eid) (inventoryItems d)))))"

definition find_item_by_key :: "db \<Rightarrow> uid \<Rightarrow> string \<Rightarrow> item option" where
  "find_item_by_key d u key =
     find (\<lambda>i. i_userId i = u \<and> i_idempotencyKey i = Some key) (inventoryItems d)"

definition new_item :: "env \<Rightarrow> uid \<Rightarrow> uid \<Rightarrow> add_inventory_input \<Rightarrow> instant \<Rightarrow> item" where
  "new_item env u eid input endsAt =
     \<lparr>i_id = 0, i_userId = u, i_eventId = eid, i_categoryId = ai_categoryId input,
      i_qtyOnHand = ai_qty input, i_qtyReserved = 0, i_unit = ai_unit input,
      i_details = ai_details input, i_active = True, i_createdAt = now env, i_updatedAt = now env,
      i_expiresAt = Some (endsAt + 24 * 3600000), i_idempotencyKey = ai_idempotencyKey input\<rparr>"

text \<open>
  A unique violation inside the transaction leaves it aborted: the recovery query of the \<open>catch\<close>
  runs on the same transaction and fails with 25P02 when the key is set.
\<close>

definition aborted_if_duplicate :: "bool \<Rightarrow> app_error + 'a \<Rightarrow> app_error + 'a" where
  "aborted_if_duplicate requery r =
     (case r of Inl e \<Rightarrow> Inl (if e = Internal ''23505'' \<and> requery then Internal ''25P02'' else e)
              | Inr a \<Rightarrow> Inr a)"

definition add_item_tx :: "env \<Rightarrow> uid \<Rightarrow> uid \<Rightarrow> add_inventory_input \<Rightarrow> instant \<Rightarrow> db \<Rightarrow> app_error + db \<times> item" where
  "add_item_tx env u eid input endsAt d =
     (if length (filter (\<lambda>i. i_userId i = u \<and> i_eventId i = eid \<and> i_active i) (inventoryItems d))
           \<ge> maxInventoryItemsPerEvent
      then Inl (Validation ''items'')
      else aborted_if_duplicate (ai_idempotencyKey input \<notin> {None, Some []})
             (insert_item (new_item env u eid input endsAt) d))"

definition addInventory :: "env \<Rightarrow> uid \<Rightarrow> uid \<Rightarrow> add_inventory_input \<Rightarrow> db \<Rightarrow> inventory_view outcome" where
  "addInventory env u eid input d =
     (case (case ai_idempotencyKey input of
              None \<Rightarrow> None
            | Some key \<Rightarrow> if key = [] then None else find_item_by_key d u key) of
        Some existing \<Rightarrow> (d, [], Inr (toInventoryView existing (slugFor d (i_categoryId existing))))
      | None \<Rightarrow>
      (case resolveEvent d (Event_uuid eid) of None \<Rightarrow> (d, [], Inl Not_found) | Some event \<Rightarrow>
       if e_status event \<noteq> Active \<and> e_status event \<noteq> Scheduled then (d, [], Inl Event_not_active)
       else if getMembership d eid u = None then (d, [], Inl Forbidden)
       else (case find (\<lambda>c. c_id (ef_category c) = ai_categoryId input) (effectiveEventCategories d eid) of
           None \<Rightarrow> (d, [], Inl Prohibited_category)
         | Some effective \<Rightarrow>
             let category = ef_category effective;
                 allowedUnits = c_unit category # c_altUnits category in
             if ai_unit input \<notin> set allowedUnits then (d, [], Inl (Validation ''unit''))
             else if ai_qty input > ef_maxOfferQty effective then (d, [], Inl (Validation ''qty''))
             else commit d (add_item_tx env u eid input (e_endsAt event) d) (\<lambda>(d', created).
               (d', [], Inr (toInventoryView created (c_slug category)))))))"

definition own_item :: "db \<Rightarrow> uid \<Rightarrow> uid \<Rightarrow> item option" where
  "own_item d u iid = find (\<lambda>i. i_id i = iid \<and> i_userId i = u) (inventoryItems d)"

definition update_item_tx :: "env \<Rightarrow> uid \<Rightarrow> uid \<Rightarrow> update_inventory_input \<Rightarrow> db \<Rightarrow> app_error + db \<times> item" where
  "update_item_tx env u iid input d =
     r_bind (or_throw Not_found (own_item d u iid)) (\<lambda>it.
       if (case ui_qtyTotal input of None \<Rightarrow> False | Some q \<Rightarrow> q < i_qtyReserved it)
       then Inl Insufficient_inventory
       else r_bind (update_item iid (\<lambda>i. i\<lparr>i_updatedAt := now env,
              i_qtyOnHand := or_else (ui_qtyTotal input) (i_qtyOnHand i),
              i_details := or_else (ui_details input) (i_details i),
              i_active := or_else (ui_active input) (i_active i)\<rparr>) d) (\<lambda>d'.
         r_bind (or_throw (Internal ''no row'') (by_key i_id iid (inventoryItems d'))) (\<lambda>updated.
           Inr (d', updated))))"

definition updateInventory :: "env \<Rightarrow> uid \<Rightarrow> uid \<Rightarrow> update_inventory_input \<Rightarrow> db \<Rightarrow> inventory_view outcome" where
  "updateInventory env u iid input d =
     commit d (update_item_tx env u iid input d) (\<lambda>(d', updated).
       (d', [], Inr (toInventoryView updated (slugFor d' (i_categoryId updated)))))"

definition deleteInventory :: "env \<Rightarrow> uid \<Rightarrow> uid \<Rightarrow> db \<Rightarrow> unit outcome" where
  "deleteInventory env u iid d =
     (case own_item d u iid of
        None \<Rightarrow> (d, [], Inl Not_found)
      | Some it \<Rightarrow>
          if list_ex (\<lambda>x. o_inventoryItemId x = iid) (matchOffers d)
             \<or> list_ex (\<lambda>m. m_inventoryItemId m = iid) (matches d)
          then commit d (update_item iid (\<lambda>i. i\<lparr>i_active := False, i_updatedAt := now env\<rparr>) d)
                 (\<lambda>d'. (d', [], Inr ()))
          else (d\<lparr>inventoryItems := filter (\<lambda>i. i_id i \<noteq> iid) (inventoryItems d)\<rparr>, [], Inr ()))"

end
