(* ===== verification/Chat.thy ===== *)
theory Chat
  imports Settlement
begin

text \<open>
  \<open>server/src/modules/chat/service.ts\<close>: the anonymous conversation of a match. Participants are shown
  by alias only, texts are redacted before they are stored, and a conversation past its grace
  window reads as read-only before the sweeper gets to it.
\<close>

record chat_context =
  cx_conversation :: conversation
  cx_match :: match_row

definition contextForViewer :: "db \<Rightarrow> uid \<Rightarrow> uid \<Rightarrow> app_error + chat_context" where
  "contextForViewer d cid viewer =
     r_bind (or_throw Not_found (by_key cv_id cid (conversations d))) (\<lambda>cv.
     r_bind (or_throw Not_found (by_key m_id (cv_matchId cv) (matches d))) (\<lambda>m.
       if m_requesterId m \<noteq> viewer \<and> m_helperId m \<noteq> viewer then Inl Not_found
       else Inr \<lparr>cx_conversation = cv, cx_match = m\<rparr>))"

definition effectiveStatus :: "env \<Rightarrow> conversation \<Rightarrow> conversation_status" where
  "effectiveStatus env cv =
     (if cv_status cv = Conv_open
         \<and> (case cv_expiresAt cv of None \<Rightarrow> False | Some t \<Rightarrow> t \<le> now env)
      then Conv_readonly else cv_status cv)"

definition toMessage :: "message \<Rightarrow> match_row \<Rightarrow> uid \<Rightarrow> message_view" where
  "toMessage row m viewer =
     \<lparr>xv_id = ms_id row, xv_conversationId = ms_conversationId row,
      xv_senderAlias = (if ms_senderId row = m_requesterId m then m_requesterAlias m else m_helperAlias m),
      xv_mine = (ms_senderId row = viewer), xv_kind = ms_kind row, xv_body = ms_body row,
      xv_createdAt = ms_createdAt row, xv_deliveredAt = ms_deliveredAt row, xv_readAt = ms_readAt row\<rparr>"

definition getConversationView :: "env \<Rightarrow> uid \<Rightarrow> uid \<Rightarrow> db \<Rightarrow> app_error + conversation_view" where
  "getConversationView env cid viewer d =
     r_bind (contextForViewer d cid viewer) (\<lambda>cx.
       Inr \<lparr>cw_id = cv_id (cx_conversation cx), cw_matchId = m_id (cx_match cx),
            cw_status = effectiveStatus env (cx_conversation cx),
            cw_expiresAt = cv_expiresAt (cx_conversation cx),
            cw_quickReplies = map fst QUICK_REPLIES\<rparr>)"

subsection \<open>Reading\<close>

text \<open>
  A cursor is the (createdAt, id) of the last row of the previous page; \<open>Bad_cursor\<close> is a text that
  \<open>decodeCursor\<close> rejects.
\<close>

datatype cursor = No_cursor | Bad_cursor | Cursor instant uid

definition decodeCursor :: "cursor \<Rightarrow> app_error + (instant \<times> uid) option" where
  "decodeCursor c = (case c of
     No_cursor \<Rightarrow> Inr None
   | Bad_cursor \<Rightarrow> Inl (Validation ''cursor'')
   | Cursor t i \<Rightarrow> Inr (Some (t, i)))"

definition after_cursor :: "(instant \<times> uid) option \<Rightarrow> message \<Rightarrow> bool" where
  "after_cursor c m = (case c of
     None \<Rightarrow> True
   | Some (t, i) \<Rightarrow> ms_createdAt m > t \<or> (ms_createdAt m = t \<and> ms_id m > i))"

fun msg_insert :: "message \<Rightarrow> message list \<Rightarrow> message list" where
  "msg_insert m [] = [m]"
| "msg_insert m (x # xs) =
     (if ms_createdAt m < ms_createdAt x \<or> (ms_createdAt m = ms_createdAt x \<and> ms_id m \<le> ms_id x)
      then m # x # xs else x # msg_insert m xs)"

definition msg_sort :: "message list \<Rightarrow> message list" where
  "msg_sort ms = foldr msg_insert ms []"

definition page_rows :: "db \<Rightarrow> uid \<Rightarrow> (instant \<times> uid) option \<Rightarrow> nat \<Rightarrow> message list" where
  "page_rows d cid c limit =
     take limit (msg_sort
       (filter (\<lambda>m. ms_conversationId m = cid \<and> after_cursor c m) (messages d)))"

definition listMessages ::
  "env \<Rightarrow> uid \<Rightarrow> uid \<Rightarrow> cursor \<Rightarrow> nat \<Rightarrow> db \<Rightarrow> (message_view list \<times> cursor) outcome" where
  "listMessages env cid viewer c limit d =
     (case contextForViewer d cid viewer of
        Inl e \<Rightarrow> (d, [], Inl e)
      | Inr cx \<Rightarrow>
      (case decodeCursor c of Inl e \<Rightarrow> (d, [], Inl e) | Inr decoded \<Rightarrow>
         let rows = page_rows d cid decoded limit;
             undelivered = map ms_id (filter (\<lambda>m. ms_senderId m \<noteq> viewer \<and> ms_deliveredAt m = None) rows);
             deliver = (\<lambda>m. m\<lparr>ms_deliveredAt := Some (now env)\<rparr>);
             d' = (if undelivered \<noteq> []
                   then d\<lparr>messages := upd_where (\<lambda>m. ms_id m \<in> set undelivered \<and> ms_deliveredAt m = None)
                          deliver (messages d)\<rparr>
                   else d);
             shown = upd_where (\<lambda>m. ms_id m \<in> set undelivered) deliver rows
         in (d', [], Inr (map (\<lambda>m. toMessage m (cx_match cx) viewer) shown,
               if length rows = limit \<and> rows \<noteq> []
               then Cursor (ms_createdAt (last rows)) (ms_id (last rows)) else No_cursor))))"

subsection \<open>Sending\<close>

definition findExisting :: "db \<Rightarrow> uid \<Rightarrow> string \<Rightarrow> message option" where
  "findExisting d viewer cmid =
     find (\<lambda>m. ms_senderId m = viewer \<and> ms_clientMsgId m = Some cmid) (messages d)"

definition peer_of :: "match_row \<Rightarrow> uid \<Rightarrow> uid" where
  "peer_of m viewer = (if m_requesterId m = viewer then m_helperId m else m_requesterId m)"

definition notify_message :: "env \<Rightarrow> uid \<Rightarrow> uid \<Rightarrow> uid \<Rightarrow> notify_job" where
  "notify_message env peer cid mid = \<lparr>nj_userId = peer, nj_type = N_new_message,
     nj_titleKey = ''notifications.new_message'', nj_bodyKey = ''notifications.vaguePreview'',
     nj_params = [], nj_deepLink = Some (Match_link mid),
     nj_dedupeKey = Some (Message_key cid (now env div 60000))\<rparr>"

definition message_body :: "send_message_input \<Rightarrow> app_error + utext" where
  "message_body input =
     (if mi_quick input
      then if mi_body input \<in> set (map (lit \<circ> fst) QUICK_REPLIES) then Inr (mi_body input)
           else Inl (Validation ''body'')
      else Inr (redactContactDetails (mi_body input)))"

definition new_message :: "env \<Rightarrow> uid \<Rightarrow> uid \<Rightarrow> send_message_input \<Rightarrow> utext \<Rightarrow> message" where
  "new_message env cid viewer input body =
     \<lparr>ms_id = 0, ms_conversationId = cid, ms_senderId = viewer,
      ms_kind = (if mi_quick input then Quick_message else Text_message), ms_body = body,
      ms_clientMsgId = Some (mi_clientMsgId input), ms_createdAt = now env,
      ms_deliveredAt = None, ms_readAt = None\<rparr>"

definition sendMessage :: "env \<Rightarrow> uid \<Rightarrow> uid \<Rightarrow> send_message_input \<Rightarrow> db \<Rightarrow> message_view outcome" where
  "sendMessage env cid viewer input d =
     (case contextForViewer d cid viewer of
        Inl e \<Rightarrow> (d, [], Inl e)
      | Inr cx \<Rightarrow>
      let m = cx_match cx in
      (case findExisting d viewer (mi_clientMsgId input) of
        Some replay \<Rightarrow> (d, [], Inr (toMessage replay m viewer))
      | None \<Rightarrow>
      if effectiveStatus env (cx_conversation cx) \<noteq> Conv_open then (d, [], Inl Request_conflict)
      else (case message_body input of Inl e \<Rightarrow> (d, [], Inl e) | Inr body \<Rightarrow>
      (case insert_message (new_message env cid viewer input body) d of
        Inl e \<Rightarrow> (d, [], Inl e)
      | Inr (d', row) \<Rightarrow>
          let peer = peer_of m viewer in
          (d', [Publish peer Message_new (P_message (toMessage row m peer)),
                Notify_job (notify_message env peer cid (m_id m))],
           Inr (toMessage row m viewer))))))"

definition markRead :: "env \<Rightarrow> uid \<Rightarrow> uid \<Rightarrow> db \<Rightarrow> unit outcome" where
  "markRead env cid viewer d =
     (case contextForViewer d cid viewer of
        Inl e \<Rightarrow> (d, [], Inl e)
      | Inr cx \<Rightarrow>
          (d\<lparr>messages := upd_where
                (\<lambda>m. ms_conversationId m = cid \<and> ms_senderId m \<noteq> viewer \<and> ms_readAt m = None)
                (\<lambda>m. m\<lparr>ms_readAt := Some (now env),
                       ms_deliveredAt := (case ms_deliveredAt m of
                          None \<Rightarrow> Some (now env) | Some t \<Rightarrow> Some t)\<rparr>) (messages d)\<rparr>,
           [Publish (peer_of (cx_match cx) viewer) Conversation_update (P_read_by_peer cid)], Inr ()))"

end
