(* ===== verification/Safety.thy ===== *)
theory Safety
  imports Chat
begin

text \<open>
  \<open>server/src/modules/safety/service.ts\<close>: reports, whose subject is resolved on the server, and
  blocking the peer of a match, which cancels the match when it is still active.
\<close>

definition REPORTS_PER_DAY :: nat where "REPORTS_PER_DAY = 10"
definition EVIDENCE_MESSAGE_LIMIT :: nat where "EVIDENCE_MESSAGE_LIMIT = 50"

definition URGENT_REPORT_CATEGORIES :: "report_category list" where
  "URGENT_REPORT_CATEGORIES = [Threat, Unsafe_meeting, Hate_speech]"

definition URGENT_RISK_FLAG :: string where "URGENT_RISK_FLAG = ''urgent_report''"

fun resolutionKeyFor :: "report_status \<Rightarrow> string option" where
  "resolutionKeyFor Report_resolved = Some ''reports.resolved.action_taken''"
| "resolutionKeyFor Report_dismissed = Some ''reports.resolved.no_action''"
| "resolutionKeyFor _ = None"

definition toReportView :: "report \<Rightarrow> report_view" where
  "toReportView row = \<lparr>pv_id = rp_id row, pv_category = rp_category row, pv_status = rp_status row,
     pv_createdAt = rp_createdAt row, pv_resolutionKey = resolutionKeyFor (rp_status row)\<rparr>"

definition loadMatchForParticipant :: "db \<Rightarrow> uid \<Rightarrow> uid \<Rightarrow> app_error + match_row" where
  "loadMatchForParticipant d mid u =
     r_bind (or_throw Not_found (by_key m_id mid (matches d))) (\<lambda>m.
       if m_requesterId m \<noteq> u \<and> m_helperId m \<noteq> u then Inl Not_found else Inr m)"

definition snapshotEvidence :: "db \<Rightarrow> match_row \<Rightarrow> evidence_message list option" where
  "snapshotEvidence d m =
     (case by_key cv_matchId (m_id m) (conversations d) of
        None \<Rightarrow> None
      | Some cv \<Rightarrow>
          let rows = take EVIDENCE_MESSAGE_LIMIT (rev (msg_sort
                       (filter (\<lambda>x. ms_conversationId x = cv_id cv) (messages d)))) in
          if rows = [] then None
          else Some (map (\<lambda>x. \<lparr>ev_senderAlias =
                 (if ms_senderId x = m_requesterId m then m_requesterAlias m else m_helperAlias m),
                 ev_body = ms_body x, ev_createdAt = ms_createdAt x\<rparr>) (rev rows)))"

record report_subject =
  sj_userId :: "uid option"
  sj_eventId :: "uid option"
  sj_matchId :: "uid option"
  sj_evidence :: "evidence_message list option"

definition resolve_subject :: "db \<Rightarrow> uid \<Rightarrow> create_report_input \<Rightarrow> app_error + report_subject" where
  "resolve_subject d u input =
     (case pi_matchId input of
        Some mid \<Rightarrow> r_bind (loadMatchForParticipant d mid u) (\<lambda>m.
          Inr \<lparr>sj_userId = Some (peer_of m u), sj_eventId = Some (m_eventId m),
               sj_matchId = Some (m_id m),
               sj_evidence = (if pi_preserveConversation input then snapshotEvidence d m else None)\<rparr>)
      | None \<Rightarrow> (case pi_eventId input of
          Some eid \<Rightarrow> r_bind (or_throw Not_found (by_key e_id eid (events d))) (\<lambda>e.
            Inr \<lparr>sj_userId = None, sj_eventId = Some (e_id e), sj_matchId = None, sj_evidence = None\<rparr>)
        | None \<Rightarrow> Inl (Validation ''matchId'')))"

definition new_report :: "env \<Rightarrow> uid \<Rightarrow> create_report_input \<Rightarrow> report_subject \<Rightarrow> uid \<Rightarrow> report" where
  "new_report env u input s rid = \<lparr>rp_id = rid, rp_reporterId = Some u,
     rp_subjectUserId = sj_userId s, rp_subjectEventId = sj_eventId s, rp_matchId = sj_matchId s,
     rp_category = pi_category input,
     rp_note = (case pi_note input of None \<Rightarrow> None
                | Some n \<Rightarrow> if n = [] then None else Some (redactContactDetails n)),
     rp_evidence = sj_evidence s, rp_status = Report_open, rp_resolution = None,
     rp_resolvedBy = None, rp_createdAt = now env, rp_resolvedAt = None\<rparr>"

definition flag_subject :: "uid \<Rightarrow> db \<Rightarrow> db" where
  "flag_subject u d = d\<lparr>users := upd_where
     (\<lambda>x. u_id x = u \<and> URGENT_RISK_FLAG \<notin> set (u_riskFlags x))
     (\<lambda>x. x\<lparr>u_riskFlags := u_riskFlags x @ [URGENT_RISK_FLAG]\<rparr>) (users d)\<rparr>"

text \<open>\<open>allowed\<close> is the rate limiter's answer, true when the limiter itself fails.\<close>

definition createReport :: "env \<Rightarrow> bool \<Rightarrow> uid \<Rightarrow> create_report_input \<Rightarrow> db \<Rightarrow> report_view outcome" where
  "createReport env allowed u input d =
     (if \<not> allowed then (d, [], Inl Rate_limited)
      else case resolve_subject d u input of
        Inl e \<Rightarrow> (d, [], Inl e)
      | Inr s \<Rightarrow>
          let row = new_report env u input s (next_id d);
              d1 = d\<lparr>reports := reports d @ [row], next_id := Suc (next_id d)\<rparr>;
              d2 = (case sj_userId s of
                      Some v \<Rightarrow> if pi_category input \<in> set URGENT_REPORT_CATEGORIES
                               then flag_subject v d1 else d1
                    | None \<Rightarrow> d1)
          in (d2, [], Inr (toReportView row)))"

definition listMyReports :: "db \<Rightarrow> uid \<Rightarrow> report_view list" where
  "listMyReports d u = map toReportView (take 100
     (sort_key (\<lambda>r. - rp_createdAt r) (filter (\<lambda>r. rp_reporterId r = Some u) (reports d))))"

definition insert_block :: "env \<Rightarrow> uid \<Rightarrow> uid \<Rightarrow> db \<Rightarrow> db" where
  "insert_block env a b d =
     (if list_ex (\<lambda>x. bl_blockerId x = a \<and> bl_blockedId x = b) (blocks d) then d
      else d\<lparr>blocks := blocks d @ [\<lparr>bl_blockerId = a, bl_blockedId = b, bl_createdAt = now env\<rparr>]\<rparr>)"

definition blockViaMatch :: "env \<Rightarrow> uid \<Rightarrow> uid \<Rightarrow> db \<Rightarrow> unit outcome" where
  "blockViaMatch env u mid d =
     (case loadMatchForParticipant d mid u of
        Inl e \<Rightarrow> (d, [], Inl e)
      | Inr m \<Rightarrow>
          let d1 = insert_block env u (peer_of m u) d in
          if m_status m = M_active then cancelMatchForModeration env (m_id m) ''blocked'' d1
          else (d1, [], Inr ()))"

end
