(* ===== verification/Retention.thy ===== *)
theory Retention
  imports Matching
begin

text \<open>
  \<open>server/src/workers/retention.ts\<close>: the idempotent set-based sweeps. \<open>expire_requests\<close> and
  \<open>expire_offers\<close> only enqueue work for the matching engine; the others delete or close what is past
  its date.
\<close>

definition day_ms :: int where "day_ms = 86400000"

definition purgeLocations :: "env \<Rightarrow> db \<Rightarrow> db" where
  "purgeLocations env d = d\<lparr>memberLocations :=
     filter (\<lambda>l. \<not> ml_expiresAt l < now env) (memberLocations d)\<rparr>"

definition expireRequests :: "env \<Rightarrow> db \<Rightarrow> effect list" where
  "expireRequests env d = map (\<lambda>r. Match_job (r_id r) 0)
     (filter (\<lambda>r. r_status r \<in> {Searching, Offering} \<and> r_expiresAt r \<le> now env) (requests d))"

definition expireOffers :: "env \<Rightarrow> db \<Rightarrow> effect list" where
  "expireOffers env d = map (\<lambda>x. Offer_timeout_job (o_id x) 0)
     (filter (\<lambda>x. o_status x = Offered \<and> o_respondBy x < now env - 2000) (matchOffers d))"

definition expireAvailability :: "env \<Rightarrow> db \<Rightarrow> db" where
  "expireAvailability env d =
     (let off = (\<lambda>a. a\<lparr>av_isOn := False, av_updatedAt := now env\<rparr>);
          t1 = upd_where (\<lambda>a. av_isOn a \<and> (case av_until a of None \<Rightarrow> False | Some t \<Rightarrow> t < now env))
                 off (availability d);
          t2 = upd_where (\<lambda>a. av_isOn a \<and> list_ex (\<lambda>e. e_id e = av_eventId a \<and> e_endsAt e < now env)
                 (events d)) off t1
      in d\<lparr>availability := t2\<rparr>)"

definition stale_conversation :: "env \<Rightarrow> db \<Rightarrow> conversation \<Rightarrow> bool" where
  "stale_conversation env d c \<longleftrightarrow> cv_status c = Conv_open
     \<and> (case cv_expiresAt c of None \<Rightarrow> False | Some t \<Rightarrow> t < now env)
     \<and> by_key m_id (cv_matchId c) (matches d) \<noteq> None"

definition expireConversations :: "env \<Rightarrow> db \<Rightarrow> db \<times> effect list" where
  "expireConversations env d =
     (d\<lparr>conversations := upd_where (stale_conversation env d)
          (\<lambda>c. c\<lparr>cv_status := Conv_readonly\<rparr>) (conversations d)\<rparr>,
      concat (map (\<lambda>c. case by_key m_id (cv_matchId c) (matches d) of
          None \<Rightarrow> []
        | Some m \<Rightarrow>
            let view = P_conversation \<lparr>cw_id = cv_id c, cw_matchId = cv_matchId c,
                  cw_status = Conv_readonly, cw_expiresAt = cv_expiresAt c,
                  cw_quickReplies = map fst QUICK_REPLIES\<rparr>
            in [Publish (m_requesterId m) Conversation_update view,
                Publish (m_helperId m) Conversation_update view])
        (filter (stale_conversation env d) (conversations d))))"

definition past_retention :: "env \<Rightarrow> event \<Rightarrow> bool" where
  "past_retention env e \<longleftrightarrow> e_endsAt e + e_retentionDays e * day_ms < now env"

definition purge_target :: "env \<Rightarrow> db \<Rightarrow> conversation \<Rightarrow> bool" where
  "purge_target env d c \<longleftrightarrow> cv_status c \<noteq> Conv_expired
     \<and> (case by_key m_id (cv_matchId c) (matches d) of None \<Rightarrow> False
        | Some m \<Rightarrow> (case by_key e_id (m_eventId m) (events d) of None \<Rightarrow> False
           | Some e \<Rightarrow> past_retention env e))"

definition purgeMessages :: "env \<Rightarrow> db \<Rightarrow> db" where
  "purgeMessages env d =
     (let target = map cv_id (filter (purge_target env d) (conversations d)) in
      d\<lparr>messages := filter (\<lambda>x. ms_conversationId x \<notin> set target) (messages d),
        conversations := upd_where (\<lambda>c. cv_id c \<in> set target)
          (\<lambda>c. c\<lparr>cv_status := Conv_expired\<rparr>) (conversations d)\<rparr>)"

definition purgeOtpsSessions :: "env \<Rightarrow> db \<Rightarrow> db" where
  "purgeOtpsSessions env d =
     d\<lparr>otpCodes := filter (\<lambda>x. \<not> oc_expiresAt x < now env - 3600000) (otpCodes d),
       sessions := filter (\<lambda>s. \<not> (se_expiresAt s < now env - 30 * day_ms
          \<or> (case se_revokedAt s of None \<Rightarrow> False | Some t \<Rightarrow> t < now env - 30 * day_ms))) (sessions d)\<rparr>"

definition retired_event :: "env \<Rightarrow> db \<Rightarrow> uid \<Rightarrow> bool" where
  "retired_event env d eid = list_ex (\<lambda>e. e_id e = eid \<and> past_retention env e) (events d)"

definition anonymizeClosed :: "env \<Rightarrow> db \<Rightarrow> db" where
  "anonymizeClosed env d =
     (let d1 = d\<lparr>requests := upd_where
            (\<lambda>r. retired_event env d (r_eventId r) \<and> r_status r \<notin> {Searching, Offering, Matched}
                 \<and> (r_note r \<noteq> None \<or> r_areaHint r \<noteq> None))
            (\<lambda>r. r\<lparr>r_note := None, r_areaHint := None\<rparr>) (requests d)\<rparr>
      in d1\<lparr>matchOffers := filter (\<lambda>x.
            \<not> (list_ex (\<lambda>r. r_id r = o_requestId x \<and> retired_event env d1 (r_eventId r)) (requests d1)
               \<and> \<not> list_ex (\<lambda>m. m_offerId m = o_id x) (matches d1))) (matchOffers d1)\<rparr>)"

definition purgeNotifications :: "env \<Rightarrow> db \<Rightarrow> db" where
  "purgeNotifications env d = d\<lparr>notifications :=
     filter (\<lambda>x. \<not> nt_createdAt x < now env - 30 * day_ms) (notifications d)\<rparr>"

subsection \<open>Event lifecycle and time-boxed moderation\<close>

definition activate_events :: "env \<Rightarrow> db \<Rightarrow> db" where
  "activate_events env d = d\<lparr>events := upd_where
     (\<lambda>e. e_status e = Scheduled \<and> e_startsAt e \<le> now env \<and> e_endsAt e > now env)
     (\<lambda>e. e\<lparr>e_status := Active\<rparr>) (events d)\<rparr>"

definition complete_events :: "env \<Rightarrow> db \<Rightarrow> db" where
  "complete_events env d =
     (let due = (\<lambda>e. e_status e \<in> {Scheduled, Active} \<and> e_endsAt e \<le> now env);
          d1 = d\<lparr>events := upd_where due (\<lambda>e. e\<lparr>e_status := Completed\<rparr>) (events d)\<rparr>
      in if list_ex due (events d)
         then d1\<lparr>availability := upd_where
                (\<lambda>a. av_isOn a \<and> list_ex (\<lambda>e. e_id e = av_eventId a \<and> e_status e = Completed) (events d1))
                (\<lambda>a. a\<lparr>av_isOn := False, av_updatedAt := now env\<rparr>) (availability d1)\<rparr>
         else d1)"

definition archive_events :: "env \<Rightarrow> db \<Rightarrow> db" where
  "archive_events env d = d\<lparr>events := upd_where
     (\<lambda>e. e_status e = Completed \<and> past_retention env e)
     (\<lambda>e. e\<lparr>e_status := Archived\<rparr>) (events d)\<rparr>"

definition suspension_over :: "env \<Rightarrow> user \<Rightarrow> bool" where
  "suspension_over env u \<longleftrightarrow> u_status u = User_suspended
     \<and> (case u_suspendedUntil u of None \<Rightarrow> False | Some t \<Rightarrow> t < now env)"

definition lift_suspensions :: "env \<Rightarrow> db \<Rightarrow> db" where
  "lift_suspensions env d =
     (let over = filter (suspension_over env) (users d);
          d1 = d\<lparr>users := upd_where (suspension_over env)
                  (\<lambda>u. u\<lparr>u_status := User_active, u_suspendedUntil := None\<rparr>) (users d)\<rparr>
      in fold (\<lambda>u. insert_audit env None ''auto_unsuspend'' (Some (User_target (u_id u)))
                     (Some (lit ''suspension expired'')) None) over d1)"

definition restricts :: "uid \<Rightarrow> moderation_action \<Rightarrow> bool" where
  "restricts u a \<longleftrightarrow> ma_targetUserId a = Some u
     \<and> ma_action a \<in> {Act_restrict_requests, Act_restrict_helping}"

definition restore_flags :: "env \<Rightarrow> db \<Rightarrow> db" where
  "restore_flags env d = d\<lparr>users := upd_where
     (\<lambda>u. (\<not> u_canRequest u \<or> \<not> u_canHelp u)
        \<and> list_ex (\<lambda>a. restricts (u_id u) a
             \<and> (case ma_expiresAt a of None \<Rightarrow> False | Some t \<Rightarrow> t < now env)) (moderationActions d)
        \<and> \<not> list_ex (\<lambda>a. restricts (u_id u) a
             \<and> (case ma_expiresAt a of None \<Rightarrow> True | Some t \<Rightarrow> t \<ge> now env)) (moderationActions d))
     (\<lambda>u. u\<lparr>u_canRequest := True, u_canHelp := True\<rparr>) (users d)\<rparr>"

definition eventLifecycle :: "env \<Rightarrow> db \<Rightarrow> db" where
  "eventLifecycle env d =
     restore_flags env (lift_suspensions env (archive_events env (complete_events env
       (activate_events env d))))"

datatype retention_task = Purge_locations | Expire_requests | Expire_offers | Expire_availability
  | Expire_conversations | Purge_messages | Purge_otps_sessions | Anonymize_closed
  | Purge_notifications | Event_lifecycle

fun runRetentionTask :: "env \<Rightarrow> retention_task \<Rightarrow> db \<Rightarrow> unit outcome" where
  "runRetentionTask env Purge_locations d = (purgeLocations env d, [], Inr ())"
| "runRetentionTask env Expire_requests d = (d, expireRequests env d, Inr ())"
| "runRetentionTask env Expire_offers d = (d, expireOffers env d, Inr ())"
| "runRetentionTask env Expire_availability d = (expireAvailability env d, [], Inr ())"
| "runRetentionTask env Expire_conversations d =
     (fst (expireConversations env d), snd (expireConversations env d), Inr ())"
| "runRetentionTask env Purge_messages d = (purgeMessages env d, [], Inr ())"
| "runRetentionTask env Purge_otps_sessions d = (purgeOtpsSessions env d, [], Inr ())"
| "runRetentionTask env Anonymize_closed d = (anonymizeClosed env d, [], Inr ())"
| "runRetentionTask env Purge_notifications d = (purgeNotifications env d, [], Inr ())"
| "runRetentionTask env Event_lifecycle d = (eventLifecycle env d, [], Inr ())"

end
