(* ===== verification/Service_Ops.thy ===== *)
theory Service_Ops
  imports Pass_Ops Requests Inventory Safety Retention
begin

text \<open>
  The handlers as the routes and workers call them: each outcome leaves a database that satisfies the
  invariant, and an error it returns is one of the typed errors, never a constraint violation.
\<close>

definition outcome_ok :: "'v outcome \<Rightarrow> bool" where
  "outcome_ok x \<longleftrightarrow> db_inv (fst x) \<and> (case snd (snd x) of Inl e \<Rightarrow> \<not> is_internal e | Inr _ \<Rightarrow> True)"

lemma outcome_ok_simps [simp]:
  "outcome_ok (d, es, Inl e) \<longleftrightarrow> db_inv d \<and> \<not> is_internal e" "outcome_ok (d, es, Inr v) \<longleftrightarrow> db_inv d"
  by (simp_all add: outcome_ok_def)

lemma outcome_ok_iff: "outcome_ok (d, es, r) \<longleftrightarrow> db_inv d \<and> (\<forall>e. r = Inl e \<longrightarrow> \<not> is_internal e)"
  by (auto simp: outcome_ok_def split: sum.splits)

lemma commit_ok:
  assumes "db_inv d" "keeps d tx st" "\<And>x. tx = Inr x \<Longrightarrow> db_inv (st x) \<Longrightarrow> outcome_ok (k x)"
  shows "outcome_ok (commit d tx k)"
  using assms by (cases tx) auto

lemma r_bind_typed:
  assumes "\<And>e. r = Inl e \<Longrightarrow> \<not> is_internal e" "\<And>x e. r = Inr x \<Longrightarrow> k x = Inl e \<Longrightarrow> \<not> is_internal e"
  shows "r_bind r k = Inl e \<Longrightarrow> \<not> is_internal e"
  using assms by (cases r) auto

lemma or_throw_typed: "or_throw e opt = Inl e' \<Longrightarrow> \<not> is_internal e \<Longrightarrow> \<not> is_internal e'"
  by (cases opt) auto

subsection \<open>Matches\<close>

lemma getMatchView_typed: "getMatchView d mid u = Inl e \<Longrightarrow> \<not> is_internal e"
  by (auto simp: getMatchView_def result_elims split: if_splits)

lemma confirmCompletion_ok: "db_inv d \<Longrightarrow> zConfirmCompletion q \<Longrightarrow> outcome_ok (confirmCompletion env mid u q d)"
  unfolding confirmCompletion_def
  by (rule commit_ok[OF _ confirm_keeps])
     (auto simp: zConfirmCompletion_def outcome_ok_iff dest: getMatchView_typed)

lemma autoFinalizeMatch_ok: "db_inv d \<Longrightarrow> outcome_ok (autoFinalizeMatch env mid d)"
  unfolding autoFinalizeMatch_def by (rule commit_ok[OF _ finalize_keeps]) auto

lemma cancelMatch_ok: "db_inv d \<Longrightarrow> outcome_ok (cancelMatch env mid u input d)"
  unfolding cancelMatch_def
  by (rule commit_ok[OF _ cancel_keeps]) (auto simp: outcome_ok_iff dest: getMatchView_typed)

lemma cancelMatchForModeration_ok: "db_inv d \<Longrightarrow> outcome_ok (cancelMatchForModeration env mid reason d)"
  unfolding cancelMatchForModeration_def by (rule commit_ok[OF _ cancelMatchInTx_keeps]) auto

lemma setMeetingState_ok:
  assumes inv: "db_inv d"
  shows "outcome_ok (setMeetingState env mid u st d)"
proof -
  have f: "db_inv (update_match mid (\<lambda>m. if b then m\<lparr>m_requesterMeetingState := st\<rparr>
      else m\<lparr>m_helperMeetingState := st\<rparr>) d)" (is "db_inv (update_match mid ?f d)") for b
  proof -
    note C = db_invD[OF inv]
    have "core_inv (next_id d) (inventoryItems d) (requests d) (matchOffers d) (upd_key m_id mid ?f (matches d))"
      by (rule core_match_update[OF C(1)]) (auto simp: match_ok_def confirmed_ok_def split: option.splits)
    moreover have "chat_inv (next_id d) (upd_key m_id mid ?f (matches d)) (conversations d)"
      by (rule chat_inv_cong[OF C(2) refl]) (simp_all add: upd_key_keys)
    ultimately show ?thesis using C(3,4) by (simp add: db_inv_def update_match_def)
  qed
  show ?thesis unfolding setMeetingState_def
    by (rule commit_ok[OF inv, of _ id])
       (use f[of True] f[of False] in \<open>auto simp: outcome_ok_iff keeps_def Let_def result_elims split: sum.splits if_splits
          dest: getMatchView_typed\<close>)
qed

subsection \<open>Offers and the engine\<close>

lemma loadOfferView_typed: "r_bind (or_throw Not_found v) (\<lambda>v. Inr (v, w)) = Inl e \<Longrightarrow> \<not> is_internal e"
  by (cases v) auto

lemma declineOffer_ok: "db_inv d \<Longrightarrow> outcome_ok (declineOffer env u oid stop d)"
  unfolding declineOffer_def
  by (rule commit_ok[OF _ decline_keeps]) (auto simp: outcome_ok_iff dest: loadOfferView_typed)

lemma acceptOffer_ok:
  assumes inv: "db_inv d" and run: "acceptOffer env draws u oid d = Some x"
  shows "outcome_ok x"
proof -
  from run obtain tx where tx: "accept_tx env draws u oid d = Some tx" by (auto simp: acceptOffer_def)
  note K = accept_keeps[OF inv tx]
  show ?thesis
  proof (cases tx)
    case (Inl e)
    with K run tx inv show ?thesis by (auto simp: acceptOffer_def)
  next
    case (Inr p)
    then obtain d' oc where "tx = Inr (d', oc)" by (cases p) auto
    with K run tx show ?thesis
      by (cases oc) (auto simp: acceptOffer_def outcome_ok_iff result_elims dest: getMatchView_typed)
  qed
qed

lemma runMatchPass_ok: "db_inv d \<Longrightarrow> outcome_ok (runMatchPass env rng rid d)"
  unfolding runMatchPass_def by (rule commit_ok[OF _ pass_keeps]) auto

lemma expireOffer_ok: "db_inv d \<Longrightarrow> outcome_ok (expireOffer env oid d)"
  unfolding expireOffer_def by (rule commit_ok[OF _ expire_offer_keeps]) auto

lemma processMatch_ok: "db_inv d \<Longrightarrow> outcome_ok (processMatch env rng job d)"
  by (cases job) (simp_all add: processMatch_def autoFinalizeMatch_ok runMatchPass_ok)

subsection \<open>Requests\<close>

lemma same_core_tables:
  "inventoryItems d' = inventoryItems d \<Longrightarrow> requests d' = requests d \<Longrightarrow> matchOffers d' = matchOffers d
     \<Longrightarrow> matches d' = matches d \<Longrightarrow> conversations d' = conversations d
     \<Longrightarrow> reliabilityStats d' = reliabilityStats d \<Longrightarrow> next_id d \<le> next_id d' \<Longrightarrow> same_core d d'"
  by (simp add: same_core_def)

lemma upsert_location_core: "same_core d (upsert_location env u eid c d)"
  by (rule same_core_tables) (simp_all add: upsert_location_def Let_def)

lemma getMyRequest_typed: "getMyRequest d u rid = Inl e \<Longrightarrow> \<not> is_internal e"
  by (auto simp: getMyRequest_def result_elims split: if_splits)

lemma lockOwnRequest_Inr: "lockOwnRequest d u rid = Inr r \<Longrightarrow> r \<in> set (requests d) \<and> r_id r = rid \<and> r_requesterId r = u"
  by (auto simp: lockOwnRequest_def result_elims split: if_splits dest!: by_key_Some_mem)

lemma lockOwnRequest_keeps:
  assumes "\<And>r. r \<in> set (requests d) \<Longrightarrow> r_id r = rid \<Longrightarrow> r_requesterId r = u \<Longrightarrow> keeps d (k r) st"
  shows "keeps d (r_bind (lockOwnRequest d u rid) k) st"
proof (cases "lockOwnRequest d u rid")
  case (Inl e)
  then have "\<not> is_internal e" by (auto simp: lockOwnRequest_def result_elims split: if_splits)
  with Inl show ?thesis by simp
next
  case (Inr r)
  with lockOwnRequest_Inr[OF Inr] assms[of r] show ?thesis by simp
qed

lemma create_request_keeps:
  assumes inv: "db_inv d" and q: "0 < ri_qty input" and new: "findByIdempotencyKey d u (ri_idempotencyKey input) = None"
  shows "keeps d (create_request_tx env u eid input d) fst"
proof (cases "active_request_count d u \<ge> maxActiveRequestsPerUser")
  case True
  then show ?thesis by (simp add: create_request_tx_def)
next
  case False
  define d1 where "d1 = (case ri_coords input of None \<Rightarrow> d | Some c \<Rightarrow> upsert_location env u eid c d)"
  have sc: "same_core d d1" using upsert_location_core by (auto simp: d1_def split: option.split)
  then have d1: "db_inv d1" "requests d1 = requests d" using inv same_core_inv by (auto simp: same_core_def)
  define r where "r = (new_request env u eid input)\<lparr>r_id := next_id d1\<rparr>"
  have r: "r_id r = next_id d1" "request_check r" "r_status r = Searching"
    using q by (simp_all add: r_def new_request_def request_check_def)
  have uq: "list_all (request_unique r) (requests d1)"
    using new by (auto simp: findByIdempotencyKey_def find_None_iff list_all_iff request_unique_def d1(2) r_def new_request_def)
  have ins: "insert_request (new_request env u eid input) d1 =
      Inr (d1\<lparr>requests := requests d @ [r], next_id := Suc (next_id d1)\<rparr>, r)"
    using r uq by (simp add: insert_request_Inr r_def[symmetric] d1(2))
  define d2 where "d2 = d1\<lparr>requests := requests d @ [r], next_id := Suc (next_id d1)\<rparr>"
  note C = db_invD[OF d1(1)]
  have "core_inv (next_id d2) (inventoryItems d2) (requests d2) (matchOffers d2) (matches d2)"
    using core_request_insert[OF C(1) r] by (simp add: d2_def d1(2))
  then have "db_inv d2" using C by (auto simp: db_inv_def d2_def chat_inv_def ids_ok_def)
  moreover have "same_core d2 (recordCreationTransition env (r_id r) Requester_actor (Some ''created'') d2)"
    by (rule same_core_tables) (simp_all add: recordCreationTransition_def core_simps)
  ultimately have "db_inv (recordCreationTransition env (r_id r) Requester_actor (Some ''created'') d2)"
    by (rule same_core_inv)
  then show ?thesis using False ins
    by (simp add: create_request_tx_def d1_def[symmetric] aborted_request_insert_def d2_def)
qed

lemma createRequest_ok:
  assumes inv: "db_inv d" and z: "zCreateRequest input"
  shows "outcome_ok (createRequest env auth input d)"
proof -
  have "outcome_ok (commit d (create_request_tx env (au_userId auth) eid input d) (\<lambda>(d', created).
     (d', es d' created, Inr (vw created))))"
    if "findByIdempotencyKey d (au_userId auth) (ri_idempotencyKey input) = None" for eid es vw
    using z that by (intro commit_ok[OF inv create_request_keeps[OF inv]]) (auto simp: zCreateRequest_def zQty_def)
  with inv show ?thesis
    by (auto simp: createRequest_def Let_def split: option.split)
qed

lemma renew_keeps:
  assumes inv: "db_inv d"
  shows "keeps d (renew_tx env u rid n d) fst"
  unfolding renew_tx_def
proof (rule lockOwnRequest_keeps)
  fix r assume r: "r \<in> set (requests d)"
  show "keeps d (if r_status r \<notin> {Expired, No_match, Cancelled} then Inl Request_conflict
     else transitionRequest env r Searching Requester_actor ''renew''
       (\<lambda>r. r\<lparr>r_expiresAt := now env + n * 60000, r_currentRadiusM := initialSearchRadiusM, r_closedAt := None\<rparr>) d) fst"
  proof (cases "r_status r \<in> {Expired, No_match, Cancelled}")
    case True
    then show ?thesis
      using transition_inv[OF inv r, of Searching "\<lambda>r. r\<lparr>r_expiresAt := now env + n * 60000,
        r_currentRadiusM := initialSearchRadiusM, r_closedAt := None\<rparr>" env Requester_actor "''renew''"]
      by (auto simp: canTransition_def)
  qed simp
qed

lemma renewRequest_ok: "db_inv d \<Longrightarrow> outcome_ok (renewRequest env u rid n d)"
  unfolding renewRequest_def
  by (rule commit_ok[OF _ renew_keeps]) (auto simp: outcome_ok_iff dest: getMyRequest_typed)

lemma continue_keeps:
  assumes inv: "db_inv d"
  shows "keeps d (continue_tx env u rid b d) fst"
  unfolding continue_tx_def
proof (rule lockOwnRequest_keeps)
  fix r assume r: "r \<in> set (requests d)"
  let ?go = "\<lambda>r. r\<lparr>r_expiresAt := now env + 15 * 60000, r_currentRadiusM := initialSearchRadiusM, r_closedAt := None\<rparr> :: request"
  let ?stop = "\<lambda>r. r\<lparr>r_closedAt := Some (now env)\<rparr> :: request"
  show "keeps d (if r_status r \<noteq> Partially_fulfilled then Inl Request_conflict
       else if b
       then if r_qty r - r_qtyFulfilled r \<le> 0 then Inl Request_conflict
            else r_bind (transitionRequest env r Searching Requester_actor ''continue'' ?go d) (\<lambda>(d', row). Inr (d', row, True))
       else r_bind (transitionRequest env r (if r_qtyFulfilled r > 0 then Fulfilled else Cancelled)
                 Requester_actor ''close-after-partial'' ?stop d) (\<lambda>(d', row). Inr (d', row, False))) fst"
  proof (cases "r_status r = Partially_fulfilled")
    case True
    then show ?thesis
      using transition_inv[OF inv r, of Searching ?go env Requester_actor "''continue''"]
        transition_inv[OF inv r, of Fulfilled ?stop env Requester_actor "''close-after-partial''"]
        transition_inv[OF inv r, of Cancelled ?stop env Requester_actor "''close-after-partial''"]
      by (auto simp: canTransition_def)
  qed simp
qed

lemma continueRequest_ok: "db_inv d \<Longrightarrow> outcome_ok (continueRequest env u rid b d)"
  unfolding continueRequest_def
  by (rule commit_ok[OF _ continue_keeps]) (auto simp: outcome_ok_iff dest: getMyRequest_typed)

lemma supersede_offers_eq: "supersede_offers = supersede_open"
  by (simp add: fun_eq_iff supersede_offers_def supersede_open_def)

lemma cancel_request_keeps:
  assumes inv: "db_inv d"
  shows "keeps d (cancel_request_tx env u rid d) fst"
  unfolding cancel_request_tx_def
proof (rule lockOwnRequest_keeps)
  fix r assume r: "r \<in> set (requests d)" "r_id r = rid"
  obtain d1 sup where s: "supersede_open env rid d = (d1, sup)" by (cases "supersede_open env rid d") auto
  have d1: "db_inv d1" "requests d1 = requests d" "\<forall>x \<in> set (matchOffers d1). o_requestId x = rid \<longrightarrow> o_status x \<noteq> Offered"
    using supersede_inv[OF inv, of env rid] supersede_requests[of env rid d] supersede_none_open[of _ env rid d]
    by (auto simp: s)
  have "keeps d (transitionRequest env r Cancelled Requester_actor ''owner-cancel''
      (\<lambda>r. r\<lparr>r_closedAt := Some (now env)\<rparr>) d1) fst" if "r_status r \<noteq> Matched"
    using r d1 that by (intro transition_keeps) auto
  then have "keeps d (r_bind (transitionRequest env r Cancelled Requester_actor ''owner-cancel''
      (\<lambda>r. r\<lparr>r_closedAt := Some (now env)\<rparr>) d1) (\<lambda>(d2, _). Inr (d2, k d2))) fst" if "r_status r \<noteq> Matched" for k
    using that by (intro keeps_bind) auto
  then show "keeps d (if r_status r = Matched
       then (case activeMatchIdFor d rid of
               None \<Rightarrow> Inl Request_conflict
             | Some mid \<Rightarrow> cancelMatchInTx env mid (requester_cancel u) d)
       else if r_status r \<noteq> Searching \<and> r_status r \<noteq> Offering then Inl Request_conflict
       else let (d1, superseded) = supersede_offers env rid d in
         r_bind (transitionRequest env r Cancelled Requester_actor ''owner-cancel''
                   (\<lambda>r. r\<lparr>r_closedAt := Some (now env)\<rparr>) d1) (\<lambda>(d2, _).
           Inr (d2, map (\<lambda>x _. [Publish (o_helperId x) Offer_expired (P_offer_status (o_id x) Superseded)])
                      superseded))) fst"
    using cancelMatchInTx_keeps[OF inv] by (auto simp: supersede_offers_eq s split: option.split)
qed

lemma cancelRequest_ok: "db_inv d \<Longrightarrow> outcome_ok (cancelRequest env u rid d)"
  unfolding cancelRequest_def
  by (rule commit_ok[OF _ cancel_request_keeps]) (auto simp: outcome_ok_iff dest: getMyRequest_typed)

subsection \<open>Inventory\<close>

lemma addInventory_ok:
  assumes inv: "db_inv d" and z: "zAddInventory input"
  shows "outcome_ok (addInventory env u eid input d)"
proof -
  have tx: "keeps d (add_item_tx env u eid input endsAt d) fst"
    if new: "(case ai_idempotencyKey input of None \<Rightarrow> None
            | Some key \<Rightarrow> if key = [] then None else find_item_by_key d u key) = None" for endsAt
  proof (cases "length (filter (\<lambda>i. i_userId i = u \<and> i_eventId i = eid \<and> i_active i) (inventoryItems d)) \<ge> maxInventoryItemsPerEvent")
    case True
    then show ?thesis by (simp add: add_item_tx_def)
  next
    case False
    define i where "i = (new_item env u eid input endsAt)\<lparr>i_id := next_id d\<rparr>"
    have i: "i_id i = next_id d" "item_check i" "i_qtyReserved i = 0"
      using z by (simp_all add: i_def new_item_def item_check_def zAddInventory_def zQty_def)
    have "list_all (item_unique i) (inventoryItems d)"
    proof (cases "ai_idempotencyKey input")
      case None
      then show ?thesis by (simp add: list_all_iff item_unique_def i_def new_item_def)
    next
      case (Some key)
      with z new have "find_item_by_key d u key = None"
        by (auto simp: zAddInventory_def zIdempotencyKey_def split: if_splits)
      with Some show ?thesis
        by (auto simp: find_item_by_key_def find_None_iff list_all_iff item_unique_def i_def new_item_def)
    qed
    then have ins: "insert_item (new_item env u eid input endsAt) d =
        Inr (d\<lparr>inventoryItems := inventoryItems d @ [i], next_id := Suc (next_id d)\<rparr>, i)"
      using i by (simp add: insert_item_Inr i_def[symmetric])
    note C = db_invD[OF inv]
    have "db_inv (d\<lparr>inventoryItems := inventoryItems d @ [i], next_id := Suc (next_id d)\<rparr>)"
      using core_item_insert[OF C(1) i] C(2-4) by (auto simp: db_inv_def chat_inv_def ids_ok_def)
    with False ins show ?thesis by (simp add: add_item_tx_def aborted_if_duplicate_def)
  qed
  then have "outcome_ok (commit d (add_item_tx env u eid input endsAt d) (\<lambda>(d', created). (d', [], Inr (vw created))))"
    if "(case ai_idempotencyKey input of None \<Rightarrow> None
            | Some key \<Rightarrow> if key = [] then None else find_item_by_key d u key) = None" for endsAt vw
    using that by (intro commit_ok[OF inv]) auto
  with inv show ?thesis
    by (auto simp: addInventory_def Let_def split: option.split)
qed

lemma update_item_inv:
  assumes inv: "db_inv d" and h: "\<And>i. i_id (h i) = i_id i \<and> i_qtyReserved (h i) = i_qtyReserved i"
    and chk: "\<And>i. i \<in> set (inventoryItems d) \<Longrightarrow> i_id i = k \<Longrightarrow> item_check (h i)"
  shows "update_item k h d = Inr (d\<lparr>inventoryItems := upd_key i_id k h (inventoryItems d)\<rparr>)
     \<and> db_inv (d\<lparr>inventoryItems := upd_key i_id k h (inventoryItems d)\<rparr>)"
  using core_item_update[OF db_invD(1)[OF inv] h chk] chk db_invD[OF inv]
  by (auto simp: update_item_Inr db_inv_def)

lemma own_item_Some: "own_item d u iid = Some i \<Longrightarrow> i \<in> set (inventoryItems d) \<and> i_id i = iid \<and> i_userId i = u"
  by (auto simp: own_item_def find_Some_iff)

lemma update_item_keeps:
  assumes inv: "db_inv d" and z: "zUpdateInventory input"
  shows "keeps d (update_item_tx env u iid input d) fst"
proof (cases "own_item d u iid")
  case None
  then show ?thesis by (simp add: update_item_tx_def)
next
  case (Some it)
  let ?h = "\<lambda>i. i\<lparr>i_updatedAt := now env,
              i_qtyOnHand := or_else (ui_qtyTotal input) (i_qtyOnHand i),
              i_details := or_else (ui_details input) (i_details i),
              i_active := or_else (ui_active input) (i_active i)\<rparr> :: item"
  note it = own_item_Some[OF Some]
  note I = core_invD[OF db_invD(1)[OF inv]]
  show ?thesis
  proof (cases "case ui_qtyTotal input of None \<Rightarrow> False | Some q \<Rightarrow> q < i_qtyReserved it")
    case True
    with Some show ?thesis by (simp add: update_item_tx_def)
  next
    case False
    have chk: "item_check (?h i)" if i: "i \<in> set (inventoryItems d)" "i_id i = iid" for i
    proof -
      have "i = it" using ids_ok_inj[OF I(1) i(1)] it i(2) by metis
      moreover have "item_check it" using I(6) it by (simp add: stock_ok_def)
      ultimately show ?thesis using False by (auto simp: item_check_def or_else_def split: option.splits)
    qed
    have U: "update_item iid ?h d = Inr (d\<lparr>inventoryItems := upd_key i_id iid ?h (inventoryItems d)\<rparr>)
       \<and> db_inv (d\<lparr>inventoryItems := upd_key i_id iid ?h (inventoryItems d)\<rparr>)"
      using chk by (intro update_item_inv[OF inv]) simp_all
    have "by_key i_id iid (upd_key i_id iid ?h (inventoryItems d)) = Some (?h it)"
      using it I(1) by (auto simp: by_key_upd_key ids_ok_by_key)
    with U Some False show ?thesis by (simp add: update_item_tx_def)
  qed
qed

lemma updateInventory_ok: "db_inv d \<Longrightarrow> zUpdateInventory input \<Longrightarrow> outcome_ok (updateInventory env u iid input d)"
  unfolding updateInventory_def by (rule commit_ok[OF _ update_item_keeps]) auto

lemma deleteInventory_ok:
  assumes inv: "db_inv d"
  shows "outcome_ok (deleteInventory env u iid d)"
proof -
  let ?off = "\<lambda>i. i\<lparr>i_active := False, i_updatedAt := now env\<rparr> :: item"
  note I = core_invD[OF db_invD(1)[OF inv]]
  have "item_check (?off i)" if "i \<in> set (inventoryItems d)" for i
    using I(6) that by (auto simp: stock_ok_def item_check_def)
  then have U: "update_item iid ?off d = Inr (d\<lparr>inventoryItems := upd_key i_id iid ?off (inventoryItems d)\<rparr>)
     \<and> db_inv (d\<lparr>inventoryItems := upd_key i_id iid ?off (inventoryItems d)\<rparr>)"
    by (intro update_item_inv[OF inv]) simp_all
  have D: "db_inv (d\<lparr>inventoryItems := filter (\<lambda>i. i_id i \<noteq> iid) (inventoryItems d)\<rparr>)"
    if "\<not> list_ex (\<lambda>m. m_inventoryItemId m = iid) (matches d)"
    using core_item_delete[OF db_invD(1)[OF inv], of iid] that db_invD[OF inv]
    by (auto simp: db_inv_def list_ex_iff)
  show ?thesis using U D inv by (auto simp: deleteInventory_def split: option.split)
qed

subsection \<open>Retention\<close>

lemma same_core_ok: "db_inv d \<Longrightarrow> same_core d d' \<Longrightarrow> outcome_ok (d', es, Inr v)"
  by (simp add: same_core_inv)

lemma fold_audit_core:
  "same_core d (fold (\<lambda>u. insert_audit env None a (Some (User_target (u_id u))) r None) us d)"
proof (induction us arbitrary: d)
  case (Cons u us)
  have "same_core d (insert_audit env None a (Some (User_target (u_id u))) r None d)" by (simp add: same_core_def insert_audit_def)
  with Cons show ?case by (auto intro: same_core_trans)
qed simp

lemma eventLifecycle_core: "same_core d (eventLifecycle env d)"
proof -
  have a: "same_core x (activate_events env x)" "same_core x (complete_events env x)" "same_core x (archive_events env x)"
    "same_core x (restore_flags env x)" for x
    by (simp_all add: same_core_def activate_events_def complete_events_def archive_events_def restore_flags_def Let_def)
  have "same_core x (lift_suspensions env x)" for x
    unfolding lift_suspensions_def Let_def
    by (rule same_core_trans[OF _ fold_audit_core]) (simp add: same_core_def)
  note b = this
  show ?thesis unfolding eventLifecycle_def
    by (rule same_core_trans[OF same_core_trans[OF same_core_trans[OF same_core_trans[OF a(1) a(2)] a(3)] b] a(4)])
qed

lemma anonymizeClosed_inv:
  assumes inv: "db_inv d"
  shows "db_inv (anonymizeClosed env d)"
proof -
  define d1 where "d1 = d\<lparr>requests := upd_where
            (\<lambda>r. retired_event env d (r_eventId r) \<and> r_status r \<notin> {Searching, Offering, Matched}
                 \<and> (r_note r \<noteq> None \<or> r_areaHint r \<noteq> None))
            (\<lambda>r. r\<lparr>r_note := None, r_areaHint := None\<rparr>) (requests d)\<rparr>"
  have d1: "db_inv d1" unfolding d1_def using inv by (rule request_note_inv) simp
  note C = db_invD[OF d1]
  have "db_inv (d1\<lparr>matchOffers := filter P (matchOffers d1)\<rparr>)" for P
    using core_offers_filter[OF C(1)] stats_inv_fewer[OF C(3) open_count_filter] C by (simp add: db_inv_def)
  then show ?thesis unfolding anonymizeClosed_def d1_def[symmetric] Let_def .
qed

lemma relabelled_conversations:
  "map (\<lambda>c. (cv_id c, cv_matchId c)) (upd_where P (\<lambda>c. c\<lparr>cv_status := s\<rparr>) cs) = map (\<lambda>c. (cv_id c, cv_matchId c)) cs"
  by (simp add: upd_where_def)

lemma sweeps_core:
  "same_core d (purgeLocations env d)" "same_core d (expireAvailability env d)"
  "same_core d (fst (expireConversations env d))" "same_core d (purgeMessages env d)"
  "same_core d (purgeOtpsSessions env d)" "same_core d (purgeNotifications env d)"
  by (simp_all add: same_core_def purgeLocations_def expireAvailability_def expireConversations_def
      purgeMessages_def purgeOtpsSessions_def purgeNotifications_def relabelled_conversations Let_def)

lemma runRetentionTask_ok:
  assumes inv: "db_inv d"
  shows "outcome_ok (runRetentionTask env t d)"
  by (cases t) (simp_all add: inv anonymizeClosed_inv sweeps_core[THEN same_core_inv[OF inv]]
      eventLifecycle_core[THEN same_core_inv[OF inv]])

subsection \<open>Chat and safety\<close>

lemma contextForViewer_typed: "contextForViewer d c u = Inl e \<Longrightarrow> \<not> is_internal e"
  by (auto simp: contextForViewer_def result_elims split: if_splits)

lemma listMessages_ok: "db_inv d \<Longrightarrow> outcome_ok (listMessages env c u cur n d)"
  unfolding listMessages_def Let_def
  by (auto split: sum.split dest: contextForViewer_typed intro: same_core_inv
      simp: same_core_def decodeCursor_def split: cursor.splits)

lemma sendMessage_ok:
  assumes inv: "db_inv d"
  shows "outcome_ok (sendMessage env c u input d)"
proof -
  have typed: "message_body input = Inl e \<Longrightarrow> \<not> is_internal e" for e
    by (auto simp: message_body_def split: if_splits)
  have ins: "\<exists>d' row. insert_message (new_message env c u input body) d = Inr (d', row) \<and> db_inv d'"
    if "findExisting d u (mi_clientMsgId input) = None" for body
  proof -
    let ?m = "(new_message env c u input body)\<lparr>ms_id := next_id d\<rparr>"
    have "list_all (message_unique ?m) (messages d)"
      using that by (auto simp: findExisting_def find_None_iff list_all_iff message_unique_def new_message_def)
    then have "insert_message (new_message env c u input body) d =
        Inr (d\<lparr>messages := messages d @ [?m], next_id := Suc (next_id d)\<rparr>, ?m)"
      by (simp add: insert_message_Inr)
    moreover have "db_inv (d\<lparr>messages := messages d @ [?m], next_id := Suc (next_id d)\<rparr>)"
      using inv by (rule same_core_inv) (simp add: same_core_def)
    ultimately show ?thesis by blast
  qed
  show ?thesis
  proof (cases "findExisting d u (mi_clientMsgId input)")
    case (Some m)
    with inv show ?thesis
      by (auto simp: sendMessage_def Let_def split: sum.split dest: contextForViewer_typed)
  next
    case None
    show ?thesis
    proof (cases "message_body input")
      case (Inl e)
      with inv None show ?thesis
        by (auto simp: sendMessage_def Let_def split: sum.split dest: contextForViewer_typed typed)
    next
      case (Inr body)
      from ins[OF None, of body] obtain d' row where
        "insert_message (new_message env c u input body) d = Inr (d', row)" "db_inv d'" by blast
      with inv None Inr show ?thesis
        by (auto simp: sendMessage_def Let_def split: sum.split dest: contextForViewer_typed)
    qed
  qed
qed

lemma markRead_ok: "db_inv d \<Longrightarrow> outcome_ok (markRead env c u d)"
  unfolding markRead_def
  by (auto split: sum.split dest: contextForViewer_typed intro: same_core_inv simp: same_core_def)

lemma loadMatchForParticipant_typed: "loadMatchForParticipant d mid u = Inl e \<Longrightarrow> \<not> is_internal e"
  by (auto simp: loadMatchForParticipant_def result_elims split: if_splits)

lemma resolve_subject_typed: "resolve_subject d u input = Inl e \<Longrightarrow> \<not> is_internal e"
  by (auto simp: resolve_subject_def result_elims dest: loadMatchForParticipant_typed split: option.splits)

lemma createReport_ok: "db_inv d \<Longrightarrow> outcome_ok (createReport env allowed u input d)"
  unfolding createReport_def Let_def
  by (auto split: sum.split option.split dest: resolve_subject_typed intro: same_core_inv
      simp: same_core_def flag_subject_def)

lemma blockViaMatch_ok:
  assumes inv: "db_inv d"
  shows "outcome_ok (blockViaMatch env u mid d)"
proof -
  have "db_inv (insert_block env a b d)" for a b
    using inv by (rule same_core_inv) (simp add: same_core_def insert_block_def)
  with inv show ?thesis unfolding blockViaMatch_def Let_def
    by (auto split: sum.split dest: loadMatchForParticipant_typed intro: cancelMatchForModeration_ok)
qed

end
