(* ===== verification/Audit_Trail.thy ===== *)
theory Audit_Trail
  imports Service_Ops "HOL-Library.Sublist"
begin

text \<open>
  What the stored rows say of the past and of the people in it. The transitions of a request form a
  run of its state machine that ends in its present status; notes and chat texts carry no contact
  number; every stored location is coarse; the two aliases of a match differ. Every operation keeps
  these facts (\<open>books\<close>).
\<close>

subsection \<open>Runs of the state machine\<close>

fun is_run :: "request_status option \<Rightarrow> request_transition list \<Rightarrow> bool" where
  "is_run s [] = True"
| "is_run s (t # ts) = (rt_fromStatus t = s \<and> canTransition s (rt_toStatus t) \<and> is_run (Some (rt_toStatus t)) ts)"

fun ends_in :: "request_status option \<Rightarrow> request_transition list \<Rightarrow> request_status option" where
  "ends_in s [] = s"
| "ends_in s (t # ts) = ends_in (Some (rt_toStatus t)) ts"

lemma is_run_snoc: "is_run s (ts @ [t]) \<longleftrightarrow>
    is_run s ts \<and> rt_fromStatus t = ends_in s ts \<and> canTransition (ends_in s ts) (rt_toStatus t)"
  by (induction ts arbitrary: s) auto

lemma ends_in_snoc: "ends_in s (ts @ [t]) = Some (rt_toStatus t)"
  by (induction ts arbitrary: s) auto

definition history :: "uid \<Rightarrow> request_transition list \<Rightarrow> request_transition list" where
  "history rid ts = filter (\<lambda>t. rt_requestId t = rid) ts"

definition audited :: "request_transition list \<Rightarrow> request \<Rightarrow> bool" where
  "audited ts r \<longleftrightarrow> is_run None (history (r_id r) ts) \<and> ends_in None (history (r_id r) ts) = Some (r_status r)"

text \<open>
  \<open>bs\<close> is a base: an earlier audit log, which the present one extends, and the ids of requests that
  existed then, none of which has gone.
\<close>

definition trail_inv :: "request_transition list \<times> uid set \<Rightarrow> nat \<Rightarrow> request list \<Rightarrow> request_transition list \<Rightarrow> bool" where
  "trail_inv bs n rs ts \<longleftrightarrow> ids_ok n r_id rs \<and> (\<forall>t \<in> set ts. rt_requestId t < n) \<and> (\<forall>r \<in> set rs. audited ts r)
     \<and> prefix (fst bs) ts \<and> snd bs \<subseteq> r_id ` set rs"

definition note_ok :: "request \<Rightarrow> bool" where
  "note_ok r \<longleftrightarrow> (case r_note r of None \<Rightarrow> True | Some n \<Rightarrow> \<not> has_contact_number n)"

definition body_ok :: "message \<Rightarrow> bool" where
  "body_ok m \<longleftrightarrow> (case ms_kind m of
     Text_message \<Rightarrow> \<not> has_contact_number (ms_body m)
   | Quick_message \<Rightarrow> ms_body m \<in> set (map (lit \<circ> fst) QUICK_REPLIES)
   | System_message \<Rightarrow> ms_clientMsgId m = None)"

definition coarse :: "member_location \<Rightarrow> bool" where
  "coarse l \<longleftrightarrow> coarsen (fst (ml_geog l)) (snd (ml_geog l)) = ml_geog l"

definition books :: "request_transition list \<times> uid set \<Rightarrow> db \<Rightarrow> bool" where
  "books bs d \<longleftrightarrow> trail_inv bs (next_id d) (requests d) (requestTransitions d)
     \<and> list_all note_ok (requests d) \<and> list_all body_ok (messages d)
     \<and> list_all coarse (memberLocations d)
     \<and> list_all (\<lambda>m. m_requesterAlias m \<noteq> m_helperAlias m) (matches d)"

lemma booksD:
  assumes "books bs d"
  shows "trail_inv bs (next_id d) (requests d) (requestTransitions d)" "list_all note_ok (requests d)"
    "list_all body_ok (messages d)" "list_all coarse (memberLocations d)"
    "list_all (\<lambda>m. m_requesterAlias m \<noteq> m_helperAlias m) (matches d)"
  using assms by (simp_all add: books_def)

subsection \<open>Writes\<close>

lemma trail_inv_mono: "trail_inv bs n rs ts \<Longrightarrow> n \<le> n' \<Longrightarrow> trail_inv bs n' rs ts"
  by (auto simp: trail_inv_def intro: ids_ok_mono)

text \<open>A write that leaves the five tables alone.\<close>

lemma books_frame:
  "books bs d \<Longrightarrow> requests d' = requests d \<Longrightarrow> requestTransitions d' = requestTransitions d
    \<Longrightarrow> messages d' = messages d \<Longrightarrow> memberLocations d' = memberLocations d \<Longrightarrow> matches d' = matches d
    \<Longrightarrow> next_id d \<le> next_id d' \<Longrightarrow> books bs d'"
  by (auto simp: books_def intro: trail_inv_mono)

lemma trail_inv_move:
  assumes inv: "trail_inv bs n rs ts" and r: "request \<in> set rs"
    and t: "rt_requestId t = r_id request" "rt_fromStatus t = Some (r_status request)" "rt_toStatus t = to"
    and ok: "canTransition (Some (r_status request)) to"
    and f: "\<And>r. r_id (f r) = r_id r" "\<And>r. r_status (f r) = to"
  shows "trail_inv bs (Suc n) (upd_key r_id (r_id request) f rs) (ts @ [t])"
proof -
  from inv have ids: "ids_ok n r_id rs" and fresh: "\<forall>t \<in> set ts. rt_requestId t < n" and au: "\<forall>r \<in> set rs. audited ts r"
    by (simp_all add: trail_inv_def)
  have "audited (ts @ [t]) y" if y: "y \<in> set (upd_key r_id (r_id request) f rs)" for y
  proof -
    from y obtain x where x: "x \<in> set rs" "y = (if r_id x = r_id request then f x else x)" by (auto simp: upd_key_mem)
    with au have a: "audited ts x" by blast
    show ?thesis
    proof (cases "r_id x = r_id request")
      case True
      then have "x = request" using ids_ok_inj[OF ids x(1) r] by blast
      with a x(2) t ok f show ?thesis by (simp add: audited_def history_def is_run_snoc ends_in_snoc)
    next
      case False
      with a x(2) t(1) show ?thesis by (auto simp: audited_def history_def)
    qed
  qed
  moreover have "r_id request < n" using ids r by (auto simp: ids_ok_def)
  moreover have "prefix (fst bs) (ts @ [t])" using inv by (simp add: trail_inv_def)
  moreover have "snd bs \<subseteq> r_id ` set (upd_key r_id (r_id request) f rs)"
    using inv by (simp add: trail_inv_def upd_key_keys f(1))
  ultimately show ?thesis using ids fresh t(1) f(1)
    by (simp add: trail_inv_def less_Suc_eq ids_ok_mono[OF ids_ok_upd_key])
qed

lemma books_move:
  assumes inv: "books bs d" and r: "request \<in> set (requests d)"
    and run: "transitionRequest env request to actor reason f d = Inr (d', u)"
    and f: "\<And>r. r_id (f r) = r_id r \<and> r_status (f r) = r_status r \<and> r_note (f r) = r_note r"
  shows "books bs d' \<and> u \<in> set (requests d')"
proof -
  let ?g = "\<lambda>r. f (r\<lparr>r_status := to\<rparr>)"
  from run have ok: "canTransition (Some (r_status request)) to"
    and u: "by_key r_id (r_id request) (upd_key r_id (r_id request) ?g (requests d)) = Some u"
    and d': "d' = append_transition env (r_id request) (Some (r_status request)) to actor (Some reason)
              (d\<lparr>requests := upd_key r_id (r_id request) ?g (requests d)\<rparr>)"
    by (simp_all add: transitionRequest_Inr)
  have "trail_inv bs (Suc (next_id d)) (upd_key r_id (r_id request) ?g (requests d))
     (requestTransitions d @ [\<lparr>rt_id = next_id d, rt_requestId = r_id request, rt_fromStatus = Some (r_status request),
       rt_toStatus = to, rt_actor = actor, rt_reason = Some reason, rt_createdAt = now env\<rparr>])"
    by (rule trail_inv_move[OF booksD(1)[OF inv] r _ _ _ ok]) (use f in simp_all)
  moreover have "list_all note_ok (upd_key r_id (r_id request) ?g (requests d))"
    using booksD(2)[OF inv] f by (auto simp: list_all_iff upd_key_mem note_ok_def)
  ultimately have "books bs d'" using booksD[OF inv] by (simp add: books_def d' append_transition_def)
  moreover have "u \<in> set (requests d')" using by_key_Some_mem[OF u] by (simp add: d' core_simps)
  ultimately show ?thesis by blast
qed

lemma books_update_match:
  "books bs d \<Longrightarrow> (\<And>m. m_requesterAlias (f m) = m_requesterAlias m \<and> m_helperAlias (f m) = m_helperAlias m)
    \<Longrightarrow> books bs (update_match k f d)"
  by (auto simp: books_def update_match_def list_all_iff upd_key_mem split: if_splits)

lemma books_system_message:
  "books bs d \<Longrightarrow> insertSystemMessage env c u key d = Inr d' \<Longrightarrow> books bs d'"
  by (auto simp: insertSystemMessage_def result_elims books_def body_ok_def intro: trail_inv_mono)

subsection \<open>Transactions\<close>

definition keeps_books :: "request_transition list \<times> uid set \<Rightarrow> app_error + 'x \<Rightarrow> ('x \<Rightarrow> db) \<Rightarrow> bool" where
  "keeps_books bs r st \<longleftrightarrow> (case r of Inl e \<Rightarrow> True | Inr x \<Rightarrow> books bs (st x))"

lemma keeps_books_simps [simp]: "keeps_books bs (Inl e) st" "keeps_books bs (Inr x) st = books bs (st x)"
  by (simp_all add: keeps_books_def)

lemma keeps_books_bind:
  assumes "\<And>x. r = Inr x \<Longrightarrow> keeps_books bs (k x) st"
  shows "keeps_books bs (r_bind r k) st"
  using assms by (cases r) auto

lemma keeps_books_D: "keeps_books bs r st \<Longrightarrow> r = Inr x \<Longrightarrow> books bs (st x)"
  by simp

lemma r_bind_assoc: "r_bind (r_bind r k) l = r_bind r (\<lambda>x. r_bind (k x) l)"
  by (cases r) simp_all

lemma keeps_books_guard: "(\<not> c \<Longrightarrow> keeps_books bs x st) \<Longrightarrow> keeps_books bs (if c then Inl e else x) st"
  by simp

text \<open>A transition followed by writes elsewhere.\<close>

lemma keeps_books_move:
  assumes "books bs d" "request \<in> set (requests d)"
    and "\<And>r. r_id (f r) = r_id r \<and> r_status (f r) = r_status r \<and> r_note (f r) = r_note r"
    and "\<And>d' u. books bs d' \<Longrightarrow> u \<in> set (requests d') \<Longrightarrow> keeps_books bs (k (d', u)) st"
  shows "keeps_books bs (r_bind (transitionRequest env request to actor reason f d) k) st"
proof (rule keeps_books_bind)
  fix x assume "transitionRequest env request to actor reason f d = Inr x"
  with books_move[OF assms(1,2) _ assms(3)] assms(4) show "keeps_books bs (k x) st" by (cases x) blast
qed

lemma keeps_books_transition:
  assumes "books bs d" "request \<in> set (requests d)"
    and "\<And>r. r_id (f r) = r_id r \<and> r_status (f r) = r_status r \<and> r_note (f r) = r_note r"
  shows "keeps_books bs (transitionRequest env request to actor reason f d) fst"
  using books_move[OF assms(1,2) _ assms(3), of env to actor reason]
  by (cases "transitionRequest env request to actor reason f d") auto

lemma lock_request:
  "lockMatchRows d mid = Some locks \<Longrightarrow> lk_request locks \<in> set (requests d)"
  by (auto simp: lockMatchRows_def split: option.splits dest!: by_key_Some_mem)

lemma keeps_books_message:
  assumes "books bs d" and "\<And>d'. books bs d' \<Longrightarrow> keeps_books bs (k d') st"
  shows "keeps_books bs (r_bind (insertSystemMessage env c u key d) k) st"
  using assms by (auto intro!: keeps_books_bind dest: books_system_message)

lemma keeps_books_conversation:
  assumes "books bs d" and "\<And>d' conv. books bs d' \<Longrightarrow> keeps_books bs (k (d', conv)) st"
  shows "keeps_books bs (r_bind (insert_conversation c d) k) st"
proof (rule keeps_books_bind)
  fix x assume "insert_conversation c d = Inr x"
  then have "books bs (fst x)" using assms(1)
    by (cases x) (auto simp: insert_conversation_Inr intro: books_frame)
  with assms(2) show "keeps_books bs (k x) st" by (cases x) auto
qed

lemma books_elsewhere [simp]:
  "books bs (bump env u inc d) = books bs d" "books bs (update_conversation k g d) = books bs d"
  "books bs (update_offer k h d) = books bs d" "books bs (d\<lparr>inventoryItems := it\<rparr>) = books bs d"
  "books bs (d\<lparr>matchOffers := os\<rparr>) = books bs d" "books bs (d\<lparr>availability := av\<rparr>) = books bs d"
  "books bs (upsert_availability u e b t w d) = books bs d" "books bs (d\<lparr>conversations := cs\<rparr>) = books bs d"
  by (simp_all add: books_def bump_def update_conversation_def update_offer_def upsert_availability_def)

lemma update_item_books: "update_item k h d = Inr d' \<Longrightarrow> books bs d' = books bs d \<and> requests d' = requests d"
  by (auto simp: update_item_Inr)

lemma delete_location_books: "books bs d \<Longrightarrow> books bs (delete_location u e d)"
  by (auto simp: delete_location_def books_def list_all_iff)

lemma settle_books:
  assumes b: "books bs d" and r: "lk_request locks \<in> set (requests d)"
  shows "keeps_books bs (settleLocked env locks opts d) fst"
  unfolding settleLocked_def Let_def
proof (rule keeps_books_bind, goal_cases)
  case (1 d1)
  then have d1: "books bs d1" "requests d1 = requests d"
    using b by (auto split: if_splits dest: update_item_books)
  have d2: "books bs (update_match k (\<lambda>m. m\<lparr>m_status := s, m_closedAt := c, m_closeReason := cr,
     m_inventoryApplied := True, m_reliabilityApplied := True\<rparr>) d1)"
    "requests (update_match k f d1) = requests d" for k s c cr f
  proof -
    show "books bs (update_match k (\<lambda>m. m\<lparr>m_status := s, m_closedAt := c, m_closeReason := cr,
       m_inventoryApplied := True, m_reliabilityApplied := True\<rparr>) d1)"
      using d1(1) by (rule books_update_match) simp
    show "requests (update_match k f d1) = requests d" using d1(2) by (simp add: update_match_def)
  qed
  note rest = keeps_books_move[OF d2(1)]
  show ?case
    by (auto intro!: rest keeps_books_message simp: d2(2) r applyCompleted_def applyDispute_def)
qed

lemma cancel_books:
  assumes b: "books bs d" and r: "lk_request locks \<in> set (requests d)"
  shows "keeps_books bs (cancelMatchLocked env locks opts d) fst"
  unfolding cancelMatchLocked_def Let_def
proof (rule keeps_books_guard, rule keeps_books_bind, goal_cases)
  case (1 d1)
  then have d1: "books bs d1" "requests d1 = requests d"
    using b by (auto split: if_splits dest: update_item_books)
  have d2: "books bs (update_conversation c g (update_match k (\<lambda>m. m\<lparr>m_status := s, m_closedAt := t,
       m_closeReason := cr, m_inventoryApplied := True\<rparr>) d1))"
    "requests (update_conversation c g (update_match k f d1)) = requests d" for c g k s t cr f
  proof -
    show "books bs (update_conversation c g (update_match k (\<lambda>m. m\<lparr>m_status := s, m_closedAt := t,
       m_closeReason := cr, m_inventoryApplied := True\<rparr>) d1))"
      unfolding books_elsewhere using d1(1) by (rule books_update_match) simp
    show "requests (update_conversation c g (update_match k f d1)) = requests d"
      using d1(2) by (simp add: update_match_def update_conversation_def)
  qed
  note rest = keeps_books_move[OF d2(1)]
  show ?case
    by (auto intro!: rest keeps_books_message simp: d2(2) r applyHelperCancel_def delete_location_books split: option.split)
qed

lemma cancelMatchInTx_books: "books bs d \<Longrightarrow> keeps_books bs (cancelMatchInTx env mid opts d) fst"
  unfolding cancelMatchInTx_def
  by (rule keeps_books_bind) (auto simp: or_throw_Inr dest: lock_request intro: cancel_books)

lemma cancel_tx_books: "books bs d \<Longrightarrow> keeps_books bs (cancel_tx env mid u input d) fst"
  unfolding cancel_tx_def Let_def
  by (intro keeps_books_bind keeps_books_guard cancel_books) (auto simp: or_throw_Inr dest: lock_request)

lemma finalize_books: "books bs d \<Longrightarrow> keeps_books bs (finalize_tx env mid d) fst"
  unfolding finalize_tx_def Let_def by (auto split: option.split intro!: settle_books dest: lock_request)

lemma settle_on_books:
  assumes b: "books bs d" and r: "lk_request locks \<in> set (requests d)"
    and f: "\<And>m. m_requesterAlias (f m) = m_requesterAlias m \<and> m_helperAlias (f m) = m_helperAlias m"
  shows "keeps_books bs (r_bind (settleLocked env (locks\<lparr>lk_match := m\<rparr>) opts (update_match mid f d))
      (\<lambda>(d2, after). Inr (d2, after, False))) fst"
proof (rule keeps_books_bind)
  fix x assume x: "settleLocked env (locks\<lparr>lk_match := m\<rparr>) opts (update_match mid f d) = Inr x"
  have "books bs (fst x)"
    by (rule keeps_books_D[OF settle_books[OF books_update_match[OF b f]] x]) (simp add: r update_match_def)
  then show "keeps_books bs (case x of (d2, after) \<Rightarrow> Inr (d2, after, False)) fst" by (cases x) simp
qed

lemma confirm_books: "books bs d \<Longrightarrow> keeps_books bs (confirm_tx env mid u q d) fst"
  unfolding confirm_tx_def Let_def
proof (rule keeps_books_bind, goal_cases)
  case (1 locks)
  then have r: "lk_request locks \<in> set (requests d)" by (simp add: or_throw_Inr lock_request)
  show ?case
    by (auto intro!: keeps_books_guard settle_on_books[OF 1(1) r] books_update_match[OF 1(1)] split: option.split)
       (rule 1(1))+
qed

lemma decline_books: "books bs d \<Longrightarrow> keeps_books bs (decline_tx env u oid stop d) fst"
  unfolding decline_tx_def Let_def
  by (auto intro!: keeps_books_bind[of "own_open_offer env u oid d"] keeps_books_move
      simp: r_bind_assoc applyOfferResponded_def update_offer_def core_simps dest!: own_open_offer_Inr)

lemma gen_until_ok: "gen_until ok draws = Some (a, rest) \<Longrightarrow> ok a"
  by (induction ok draws rule: gen_until.induct) (auto simp: Let_def split: if_splits)

lemma match_aliases:
  assumes "generateMatchAliases ex draws = Some aliases"
  shows "fst aliases \<noteq> snd aliases \<and> fst aliases \<notin> set ex \<and> snd aliases \<notin> set ex"
proof -
  from assms obtain rest1 rest2 where
    "gen_until (\<lambda>a. a \<notin> set ex) draws = Some (fst aliases, rest1)"
    "gen_until (\<lambda>a. \<not> (a = fst aliases \<or> a \<in> set ex)) rest1 = Some (snd aliases, rest2)"
    by (auto simp: generateMatchAliases_def split: option.splits)
  from this[THEN gen_until_ok] show ?thesis by auto
qed

lemma accept_books:
  assumes b: "books bs d" and run: "accept_tx env draws u oid d = Some tx"
  shows "keeps_books bs tx fst"
proof (cases "own_open_offer env u oid d")
  case (Inl e)
  with run show ?thesis by (auto simp: accept_tx_def)
next
  case (Inr p)
  obtain x r where p: "p = (x, r)" by (cases p)
  with own_open_offer_Inr Inr have r: "r \<in> set (requests d)" by blast
  have void: "keeps_books bs (void_offer_tx env x r d) fst"
    unfolding void_offer_tx_def using b r by (auto intro!: keeps_books_move simp: update_offer_def)
  have match: "keeps_books bs (create_match_tx env x r it q aliases d2) fst"
    if "books bs d2" "r \<in> set (requests d2)" "fst aliases \<noteq> snd aliases" for it q aliases d2
    unfolding create_match_tx_def
  proof (rule keeps_books_bind, goal_cases)
    case (1 y)
    obtain d3 m where y: "y = (d3, m)" by (cases y)
    with 1 have "insert_match (new_match env x r it q aliases) d2 = Inr (d3, m)"
      by (auto simp: conflict_if_duplicate_def split: sum.splits)
    then have d3: "d3 = d2\<lparr>matches := matches d2 @ [(new_match env x r it q aliases)\<lparr>m_id := next_id d2\<rparr>],
        next_id := Suc (next_id d2)\<rparr>" by (simp add: insert_match_Inr)
    then have "books bs d3" using that by (auto simp: books_def new_match_def intro: trail_inv_mono)
    then show ?case using that(2) d3 unfolding y
      by (auto intro!: keeps_books_move keeps_books_conversation keeps_books_message simp: applyAccepted_def)
  qed
  note differ = match_aliases[THEN conjunct1]
  show ?thesis using run Inr p b r
    by (auto simp: accept_tx_def Let_def void update_offer_def split: if_splits option.splits sum.splits
        dest!: update_item_books differ intro!: match)
qed

lemma insert_offer_books: "books bs d \<Longrightarrow> insert_offer x d = Inr (d', y) \<Longrightarrow> books bs d' \<and> requests d' = requests d"
  by (auto simp: insert_offer_Inr intro: books_frame)

lemma audited_cong: "r_id y = r_id x \<Longrightarrow> r_status y = r_status x \<Longrightarrow> audited ts y = audited ts x"
  by (simp add: audited_def)

text \<open>An update of requests that leaves status and note rules alone.\<close>

lemma books_note:
  assumes b: "books bs d" and f: "\<And>r. r_id (f r) = r_id r \<and> r_status (f r) = r_status r"
    and n: "\<And>r. note_ok r \<Longrightarrow> note_ok (f r)"
  shows "books bs (d\<lparr>requests := upd_where P f (requests d)\<rparr>)"
proof -
  have "audited ts (f x) = audited ts x" for ts x using f by (intro audited_cong) simp_all
  moreover have "map r_id (upd_where P f (requests d)) = map r_id (requests d)" using f by (simp add: upd_where_def)
  then have "r_id ` set (upd_where P f (requests d)) = r_id ` set (requests d)" by (metis list.set_map)
  ultimately have "trail_inv bs (next_id d) (upd_where P f (requests d)) (requestTransitions d)"
    using booksD(1)[OF b] f by (auto simp: trail_inv_def dest!: upd_where_either intro: ids_ok_upd_where)
  moreover have "list_all note_ok (upd_where P f (requests d))"
    using booksD(2)[OF b] n by (auto simp: list_all_iff dest!: upd_where_either)
  ultimately show ?thesis using booksD[OF b] by (simp add: books_def)
qed

lemma search_books:
  assumes b: "books bs d" and r: "r \<in> set (requests d)"
  shows "keeps_books bs (search_tx env rng ev r d) fst"
proof -
  have widen: "keeps_books bs (widen_tx env ev r d) fst"
  proof -
    let ?f = "\<lambda>x. x\<lparr>r_currentRadiusM := min (r_currentRadiusM r * radiusExpansionFactor) (e_maxMatchRadiusM ev)\<rparr> :: request"
    have "books bs (d\<lparr>requests := upd_key r_id (r_id r) ?f (requests d)\<rparr>)"
      unfolding upd_key_def using b by (rule books_note) (simp_all add: note_ok_def)
    then show ?thesis using b
      by (auto simp: widen_tx_def Let_def update_request_Inr intro!: keeps_books_bind)
  qed
  have "keeps_books bs (make_offer_tx env ev r c q d) fst" for c q
    unfolding make_offer_tx_def Let_def
    using b r by (auto intro!: keeps_books_bind[of "insert_offer x d" for x] keeps_books_move
        simp: applyOfferReceived_def dest!: insert_offer_books[OF b])
  with widen show ?thesis by (auto simp: search_tx_def Let_def split: option.split)
qed

lemma supersede_books [simp]: "books bs (fst (supersede_open env rid d)) = books bs d"
  by (simp add: supersede_fst)

lemma pass_books:
  assumes b: "books bs d"
  shows "keeps_books bs (pass_tx env rng rid d) fst"
proof (cases "by_key r_id rid (requests d)")
  case None
  with b show ?thesis by (simp add: pass_tx_def)
next
  case (Some r)
  then have r: "r \<in> set (requests d)" by (auto dest: by_key_Some_mem)
  have exp: "keeps_books bs (expire_request_tx env r d) fst"
  proof -
    obtain d1 sup where s: "supersede_open env (r_id r) d = (d1, sup)" by (cases "supersede_open env (r_id r) d") auto
    then have "books bs d1" "r \<in> set (requests d1)"
      using b r supersede_books[of bs env "r_id r" d] supersede_requests[of env "r_id r" d] by simp_all
    then show ?thesis by (auto simp: expire_request_tx_def s Let_def intro!: keeps_books_move)
  qed
  have sweep: "keeps_books bs (r_bind (sweep_offer_tx env r opn d) (\<lambda>(d1, request', after1).
          r_bind (search_tx env rng ev request' d1) (\<lambda>(d2, after2). Inr (d2, after1 @ after2)))) fst" for opn ev
  proof -
    have s: "keeps_books bs (r_bind (search_tx env rng ev u d') k) fst"
      if "books bs d'" "u \<in> set (requests d')" "\<And>d2 a. books bs d2 \<Longrightarrow> keeps_books bs (k (d2, a)) fst" for d' u k
      by (rule keeps_books_bind) (use that(3) in \<open>auto dest: keeps_books_D[OF search_books[OF that(1,2)]]\<close>)
    show ?thesis using b r
      by (auto simp: sweep_offer_tx_def Let_def r_bind_assoc update_offer_def intro!: keeps_books_move s split: option.split)
  qed
  from Some b exp sweep search_books[OF b r] show ?thesis
    by (auto simp: pass_tx_def Let_def split: option.split)
qed

lemma expire_offer_books: "books bs d \<Longrightarrow> keeps_books bs (expire_offer_tx env oid d) fst"
  by (auto simp: expire_offer_tx_def Let_def r_bind_assoc update_offer_def split: option.split
      intro!: keeps_books_move dest: by_key_Some_mem)

lemma lockOwnRequest_books:
  assumes "\<And>r. r \<in> set (requests d) \<Longrightarrow> keeps_books bs (k r) st"
  shows "keeps_books bs (r_bind (lockOwnRequest d u rid) k) st"
  using assms by (auto intro!: keeps_books_bind dest: lockOwnRequest_Inr)

lemma renew_books: "books bs d \<Longrightarrow> keeps_books bs (renew_tx env u rid n d) fst"
  unfolding renew_tx_def
  by (auto intro!: lockOwnRequest_books keeps_books_transition)

lemma continue_books: "books bs d \<Longrightarrow> keeps_books bs (continue_tx env u rid b d) fst"
  unfolding continue_tx_def by (auto intro!: lockOwnRequest_books keeps_books_move)

lemma cancel_request_books: "books bs d \<Longrightarrow> keeps_books bs (cancel_request_tx env u rid d) fst"
  unfolding cancel_request_tx_def supersede_offers_eq
  by (auto intro!: lockOwnRequest_books cancelMatchInTx_books keeps_books_move
      simp: supersede_open_def Let_def split: option.split)

lemma trail_inv_create:
  assumes "trail_inv bs n rs ts" "r_id r = n" "r_status r = Searching"
    "rt_requestId t = n" "rt_fromStatus t = None" "rt_toStatus t = Searching"
  shows "trail_inv bs (Suc n) (rs @ [r]) (ts @ [t])"
proof -
  have "history n ts = []" using assms(1) by (auto simp: history_def trail_inv_def filter_empty_conv)
  moreover have "r_id x < n" if "x \<in> set rs" for x using assms(1) that by (auto simp: trail_inv_def ids_ok_def)
  ultimately show ?thesis using assms
    by (auto simp: trail_inv_def audited_def history_def canTransition_def less_Suc_eq intro: ids_ok_insert)
qed

lemma coarsen_stored: "books bs d \<Longrightarrow> books bs (upsert_location env u e c d)"
  by (auto simp: books_def upsert_location_def Let_def list_all_iff upd_where_def coarse_def coarsen_idem)

lemma create_request_books:
  assumes b: "books bs d"
  shows "keeps_books bs (create_request_tx env u eid input d) fst"
proof -
  define d1 where "d1 = (case ri_coords input of None \<Rightarrow> d | Some c \<Rightarrow> upsert_location env u eid c d)"
  have d1: "books bs d1" using b by (auto simp: d1_def coarsen_stored split: option.split)
  let ?r = "(new_request env u eid input)\<lparr>r_id := next_id d1\<rparr>"
  have "trail_inv bs (Suc (next_id d1)) (requests d1 @ [?r])
    (requestTransitions d1 @ [\<lparr>rt_id = Suc (next_id d1), rt_requestId = next_id d1, rt_fromStatus = None,
       rt_toStatus = Searching, rt_actor = Requester_actor, rt_reason = Some ''created'', rt_createdAt = now env\<rparr>])"
    by (rule trail_inv_create[OF booksD(1)[OF d1]]) (simp_all add: new_request_def)
  moreover have "note_ok ?r" by (auto simp: note_ok_def new_request_def redact_no_contact_number split: option.split)
  ultimately have "books bs (recordCreationTransition env (next_id d1) Requester_actor (Some ''created'')
      (d1\<lparr>requests := requests d1 @ [?r], next_id := Suc (next_id d1)\<rparr>))"
    using booksD[OF d1] by (auto simp: books_def recordCreationTransition_def append_transition_def intro: trail_inv_mono)
  then show ?thesis
    by (auto simp: create_request_tx_def d1_def[symmetric] insert_request_Inr aborted_request_insert_def
        split: sum.splits intro!: keeps_books_bind)
qed

subsection \<open>Handlers\<close>

lemma commit_books:
  assumes "books bs d" "keeps_books bs tx st" "\<And>x. books bs (st x) \<Longrightarrow> books bs (fst (k x))"
  shows "books bs (fst (commit d tx k))"
  using assms by (cases tx) auto

lemma match_handlers_books:
  assumes b: "books bs d"
  shows "books bs (fst (confirmCompletion env mid u q d))" "books bs (fst (autoFinalizeMatch env mid d))"
    "books bs (fst (cancelMatch env mid u input d))" "books bs (fst (cancelMatchForModeration env mid reason d))"
    "books bs (fst (setMeetingState env mid u ms d))"
proof -
  show "books bs (fst (confirmCompletion env mid u q d))" unfolding confirmCompletion_def
    by (rule commit_books[OF b confirm_books[OF b]]) auto
  show "books bs (fst (autoFinalizeMatch env mid d))" unfolding autoFinalizeMatch_def
    by (rule commit_books[OF b finalize_books[OF b]]) auto
  show "books bs (fst (cancelMatch env mid u input d))" unfolding cancelMatch_def
    by (rule commit_books[OF b cancel_tx_books[OF b]]) auto
  show "books bs (fst (cancelMatchForModeration env mid reason d))" unfolding cancelMatchForModeration_def
    by (rule commit_books[OF b cancelMatchInTx_books[OF b]]) auto
  show "books bs (fst (setMeetingState env mid u ms d))" unfolding setMeetingState_def Let_def
    by (intro commit_books[OF b, of _ id] keeps_books_bind keeps_books_guard)
       (auto intro!: books_update_match[OF b])
qed

lemma engine_books:
  assumes b: "books bs d"
  shows "books bs (fst (declineOffer env u oid stop d))" "books bs (fst (expireOffer env oid d))"
    "books bs (fst (processMatch env rng job d))"
    "acceptOffer env draws u oid d = Some x \<Longrightarrow> books bs (fst x)"
proof -
  show "books bs (fst (declineOffer env u oid stop d))" unfolding declineOffer_def
    by (rule commit_books[OF b decline_books[OF b]]) auto
  show "books bs (fst (expireOffer env oid d))" unfolding expireOffer_def
    by (rule commit_books[OF b expire_offer_books[OF b]]) auto
  have "books bs (fst (runMatchPass env rng rid d))" for rid unfolding runMatchPass_def
    by (rule commit_books[OF b pass_books[OF b]]) auto
  then show "books bs (fst (processMatch env rng job d))"
    by (cases job) (simp_all add: processMatch_def match_handlers_books[OF b])
  assume run: "acceptOffer env draws u oid d = Some x"
  then obtain tx where tx: "accept_tx env draws u oid d = Some tx" by (auto simp: acceptOffer_def)
  note K = accept_books[OF b tx]
  show "books bs (fst x)"
  proof (cases tx)
    case (Inl e)
    with run tx b show ?thesis by (auto simp: acceptOffer_def)
  next
    case (Inr p)
    then obtain d' oc where "tx = Inr (d', oc)" by (cases p) auto
    with K run tx show ?thesis by (cases oc) (auto simp: acceptOffer_def)
  qed
qed

lemma request_handlers_books:
  assumes b: "books bs d"
  shows "books bs (fst (createRequest env auth input d))" "books bs (fst (cancelRequest env u rid d))"
    "books bs (fst (renewRequest env u rid n d))" "books bs (fst (continueRequest env u rid c d))"
proof -
  have "books bs (fst (commit d (create_request_tx env (au_userId auth) eid input d) (\<lambda>(d', created).
     (d', es d' created, Inr (vw created)))))" for eid es vw
    by (rule commit_books[OF b create_request_books[OF b]]) auto
  then show "books bs (fst (createRequest env auth input d))"
    using b by (auto simp: createRequest_def Let_def split: option.split)
  show "books bs (fst (cancelRequest env u rid d))" unfolding cancelRequest_def
    by (rule commit_books[OF b cancel_request_books[OF b]]) auto
  show "books bs (fst (renewRequest env u rid n d))" unfolding renewRequest_def
    by (rule commit_books[OF b renew_books[OF b]]) auto
  show "books bs (fst (continueRequest env u rid c d))" unfolding continueRequest_def
    by (rule commit_books[OF b continue_books[OF b]]) auto
qed

lemma inventory_books:
  assumes b: "books bs d"
  shows "books bs (fst (addInventory env u eid ai d))" "books bs (fst (updateInventory env u iid ui d))"
    "books bs (fst (deleteInventory env u iid d))"
proof -
  have "keeps_books bs (add_item_tx env u eid ai endsAt d) fst" for endsAt
    using b by (auto simp: keeps_books_def add_item_tx_def aborted_if_duplicate_def insert_item_Inr
        split: sum.splits if_splits intro: books_frame)
  then have "books bs (fst (commit d (add_item_tx env u eid ai endsAt d) (\<lambda>(d', created). (d', [], Inr (vw created)))))" for endsAt vw
    by (rule commit_books[OF b]) auto
  then show "books bs (fst (addInventory env u eid ai d))"
    using b by (auto simp: addInventory_def Let_def split: option.split)
  show "books bs (fst (updateInventory env u iid ui d))"
    unfolding updateInventory_def update_item_tx_def using b
    by (intro commit_books[of _ _ _ fst] keeps_books_bind keeps_books_guard) (auto dest!: update_item_books)
  have "keeps_books bs (update_item iid f d) id" for f
    by (cases "update_item iid f d") (use b in \<open>auto dest!: update_item_books\<close>)
  then have "books bs (fst (commit d (update_item iid f d) (\<lambda>d'. (d', [], Inr ()))))" for f
    by (rule commit_books[OF b]) auto
  then show "books bs (fst (deleteInventory env u iid d))"
    using b by (auto simp: deleteInventory_def split: option.split)
qed

lemma books_other_tables [simp]:
  "books bs (d\<lparr>memberships := a1\<rparr>) = books bs d" "books bs (d\<lparr>events := a2\<rparr>) = books bs d"
  "books bs (d\<lparr>users := a3\<rparr>) = books bs d" "books bs (d\<lparr>otpCodes := a4, sessions := a5\<rparr>) = books bs d"
  "books bs (d\<lparr>eventCategories := a8\<rparr>) = books bs d" "books bs (d\<lparr>notifications := a6\<rparr>) = books bs d" "books bs (d\<lparr>blocks := a7\<rparr>) = books bs d"
  by (simp_all add: books_def)

lemma fold_audit_books: "books bs d \<Longrightarrow> books bs (fold (\<lambda>u. insert_audit env None a (Some (User_target (u_id u))) r None) us d)"
proof (induction us arbitrary: d)
  case (Cons u us)
  have "books bs (insert_audit env None a (Some (User_target (u_id u))) r None d)"
    using Cons.prems by (auto simp: insert_audit_def intro: books_frame)
  with Cons.IH show ?case by simp
qed simp

lemma retention_books:
  assumes b: "books bs d"
  shows "books bs (fst (runRetentionTask env t d))"
proof (cases t)
  case Purge_locations
  then show ?thesis using b by (auto simp: purgeLocations_def books_def list_all_iff)
next
  case Purge_messages
  then show ?thesis using b by (auto simp: purgeMessages_def Let_def books_def list_all_iff)
next
  case Anonymize_closed
  have "books bs (d\<lparr>requests := upd_where P (\<lambda>r. r\<lparr>r_note := None, r_areaHint := None\<rparr>) (requests d)\<rparr>)" for P
    using b by (rule books_note) (simp_all add: note_ok_def)
  then show ?thesis using Anonymize_closed by (simp add: anonymizeClosed_def Let_def)
next
  case Event_lifecycle
  have "books bs (complete_events env d0)" if "books bs d0" for d0
    using that by (auto simp: complete_events_def Let_def books_def)
  then show ?thesis using Event_lifecycle b
    by (simp add: eventLifecycle_def restore_flags_def lift_suspensions_def Let_def archive_events_def
        activate_events_def fold_audit_books)
qed (use b in \<open>simp_all add: expireAvailability_def expireConversations_def purgeOtpsSessions_def
  purgeNotifications_def Let_def\<close>)

lemma books_messages:
  assumes b: "books bs d" and f: "\<And>m. ms_kind (f m) = ms_kind m \<and> ms_body (f m) = ms_body m \<and> ms_clientMsgId (f m) = ms_clientMsgId m"
  shows "books bs (d\<lparr>messages := upd_where P f (messages d)\<rparr>)"
proof -
  have "body_ok (f m) = body_ok m" for m using f[of m] by (cases "ms_kind m") (simp_all add: body_ok_def)
  with b show ?thesis by (auto simp: books_def list_all_iff dest!: upd_where_either)
qed

lemma message_body_ok:
  "message_body input = Inr body \<Longrightarrow> body_ok ((new_message env c u input body)\<lparr>ms_id := k\<rparr>)"
  by (auto simp: message_body_def new_message_def body_ok_def redact_no_contact_number split: if_splits)

lemma chat_books:
  assumes b: "books bs d"
  shows "books bs (fst (listMessages env c u cur n d))" "books bs (fst (sendMessage env c u input d))"
    "books bs (fst (markRead env c u d))"
proof -
  show "books bs (fst (listMessages env c u cur n d))" unfolding listMessages_def Let_def
    by (auto split: sum.split intro!: books_messages b)
  have "books bs d'" if "message_body input = Inr body" "insert_message (new_message env c u input body) d = Inr (d', row)" for body d' row
    using b that message_body_ok[OF that(1)] by (auto simp: insert_message_Inr books_def intro: trail_inv_mono)
  then show "books bs (fst (sendMessage env c u input d))" unfolding sendMessage_def Let_def
    using b by (auto split: sum.split option.split)
  show "books bs (fst (markRead env c u d))" unfolding markRead_def
    by (auto split: sum.split intro!: books_messages b)
qed

lemma safety_books:
  assumes b: "books bs d"
  shows "books bs (fst (createReport env allowed u ri d))" "books bs (fst (blockViaMatch env u mid d))"
proof -
  have "books bs (d\<lparr>reports := rs, next_id := Suc (next_id d)\<rparr>)" for rs using b by (rule books_frame) simp_all
  then show "books bs (fst (createReport env allowed u ri d))" unfolding createReport_def Let_def
    using b by (auto split: sum.split option.split simp: flag_subject_def)
  have "books bs (insert_block env x y d)" for x y using b by (simp add: insert_block_def)
  then show "books bs (fst (blockViaMatch env u mid d))" unfolding blockViaMatch_def Let_def
    using b by (auto split: sum.split intro: match_handlers_books(4))
qed

lemma location_books:
  assumes b: "books bs d"
  shows "books bs (fst (setAvailability env auth eid si d))" "books bs (fst (putLocation env u eid c d))"
    "books bs (leaveEvent env u eid d)"
proof -
  show "books bs (fst (setAvailability env auth eid si d))"
    using b by (simp add: setAvailability_def Let_def split: option.split)
  show "books bs (fst (putLocation env u eid c d))"
    using coarsen_stored[OF b, of env u eid c] b by (auto simp: putLocation_def Let_def intro: books_frame)
  have "books bs (d\<lparr>memberships := ms, availability := av\<rparr>)" for ms av using b by (rule books_frame) simp_all
  then show "books bs (leaveEvent env u eid d)" unfolding leaveEvent_def by (rule delete_location_books)
qed

lemma event_books:
  assumes b: "books bs d"
  shows "books bs (fst (createEvent env lower allowed invite code u ei d))" "books bs (fst (joinEvent env u ref iv d))"
    "books bs (fst (muteEvent u eid mu d))" "answerAttendance env nd u eid att d = Some x \<Longrightarrow> books bs (fst x)"
proof -
  have mem: "books bs (insert_membership env u k r d0)" if "books bs d0" for k r d0
    using that by (rule books_frame) (simp_all add: insert_membership_def)
  have "keeps_books bs (create_event_tx env u ei center ic code d) fst" for center ic
  proof -
    have "books bs d'" if "insert_event e d = Inr (d', e')" for e d' e'
      using that b by (auto simp: insert_event_def Let_def checked_insert_def split: if_splits intro: books_frame)
    then show ?thesis unfolding create_event_tx_def Let_def
      by (auto intro!: keeps_books_bind mem split: option.splits if_splits)
  qed
  then have "books bs (fst (commit d (create_event_tx env u ei center ic code d) (\<lambda>(d', created).
      (d', [], Inr (buildEventDetail d' created (Some u), ic)))))" for center ic
    by (rule commit_books[OF b]) auto
  then show "books bs (fst (createEvent env lower allowed invite code u ei d))" using b by (simp add: createEvent_def Let_def)
  show "books bs (fst (joinEvent env u ref iv d))" using b mem by (auto simp: joinEvent_def Let_def split: option.split)
  show "books bs (fst (muteEvent u eid mu d))" using b by (simp add: muteEvent_def Let_def)
  assume "answerAttendance env nd u eid att d = Some x"
  then show "books bs (fst x)" using b location_books(3)[OF b]
    by (auto simp: answerAttendance_def split: option.splits if_splits)
qed

end
