(* ===== verification/Moderation_Ops.thy ===== *)
theory Moderation_Ops
  imports Data_Requests Audit_Trail
begin

text \<open>
  Moderation and account deletion keep both invariants, and what they leave behind. Cancelling a list
  of active matches one after the other always succeeds: each of them is still active when its turn comes.
\<close>

subsection \<open>Cancelling one match\<close>

text \<open>The foreign key of \<open>requests.category_id\<close>, all that a lock of an active match needs besides the invariant.\<close>

definition categories_known :: "db \<Rightarrow> bool" where
  "categories_known d \<longleftrightarrow> list_all (\<lambda>r. list_ex (\<lambda>c. c_id c = r_categoryId r) (categories d)) (requests d)"

lemma by_key_known: "list_ex (\<lambda>x. key x = k) t \<Longrightarrow> \<exists>x. by_key key k t = Some x"
  by (induction t) (auto simp: by_key_Cons)

lemma by_key_mem: "x \<in> set t \<Longrightarrow> \<exists>y. by_key key (key x) t = Some y"
  by (rule by_key_known) (auto simp: list_ex_iff)

lemma lock_active:
  assumes inv: "db_inv d" and cats: "categories_known d" and m: "m \<in> set (matches d)" "m_status m = M_active"
  shows "\<exists>locks. lockMatchRows d (m_id m) = Some locks \<and> lk_match locks = m"
proof -
  note C = db_invD[OF inv]
  note I = core_invD[OF C(1)]
  have bm: "by_key m_id (m_id m) (matches d) = Some m" using ids_ok_by_key[OF I(4)] m(1) by blast
  obtain r where r: "r \<in> set (requests d)" "r_id r = m_requestId m"
    using I(8) m unfolding all_served_def serves_def by blast
  then have br: "by_key r_id (m_requestId m) (requests d) = Some r" using ids_ok_by_key[OF I(2)] by blast
  have "\<not> m_inventoryApplied m" using I(7) m by (auto simp: matches_ok_def match_ok_def)
  then obtain i where i: "i \<in> set (inventoryItems d)" "i_id i = m_inventoryItemId m"
    using I(7) m(1) by (force simp: matches_ok_def)
  then have bi: "by_key i_id (m_inventoryItemId m) (inventoryItems d) = Some i" using ids_ok_by_key[OF I(1)] by blast
  obtain c where bc: "by_key c_id (r_categoryId r) (categories d) = Some c"
    using cats r(1) by_key_known[of c_id "r_categoryId r" "categories d"] by (auto simp: categories_known_def list_all_iff)
  have "m_id m \<in> cv_matchId ` set (conversations d)" using C(2) m(1) by (simp add: chat_inv_def)
  then obtain cv where cv: "cv \<in> set (conversations d)" "cv_matchId cv = m_id m" by force
  then obtain cv' where bv: "by_key cv_matchId (m_id m) (conversations d) = Some cv'"
    using by_key_mem[of cv "conversations d" cv_matchId] by auto
  show ?thesis by (simp add: lockMatchRows_def bm br bi bc bv)
qed

text \<open>What lies outside the exchange: a cancellation leaves these tables alone.\<close>

definition aside :: "db \<Rightarrow> db \<Rightarrow> bool" where
  "aside d d' \<longleftrightarrow> users d' = users d \<and> sessions d' = sessions d \<and> availability d' = availability d
     \<and> events d' = events d \<and> categories d' = categories d \<and> moderationActions d' = moderationActions d
     \<and> auditLog d' = auditLog d \<and> dataRequests d' = dataRequests d"

lemma aside_refl [simp]: "aside d d"
  by (simp add: aside_def)

lemma aside_trans: "aside a b \<Longrightarrow> aside b c \<Longrightarrow> aside a c"
  by (simp add: aside_def)

lemma aside_writes:
  "update_item k f d = Inr d1 \<Longrightarrow> aside d d1"
  "transitionRequest env r to actor reason st d = Inr (d1, u) \<Longrightarrow> aside d d1"
  "insertSystemMessage env c s key d = Inr d1 \<Longrightarrow> aside d d1"
  "aside d (update_match k g d)" "aside d (update_conversation k h d)" "aside d (bump env v inc d)"
  "aside d (delete_location v e d)" "aside d (applyHelperCancel env v b d)"
  by (auto simp: aside_def update_item_Inr transitionRequest_Inr append_transition_def insertSystemMessage_def
      insert_message_Inr update_match_def update_conversation_def bump_def delete_location_def applyHelperCancel_def
      result_elims)

definition keeps_aside :: "db \<Rightarrow> app_error + 'x \<Rightarrow> ('x \<Rightarrow> db) \<Rightarrow> bool" where
  "keeps_aside d r st \<longleftrightarrow> (case r of Inl e \<Rightarrow> True | Inr x \<Rightarrow> aside d (st x))"

lemma keeps_aside_simps [simp]: "keeps_aside d (Inl e) st" "keeps_aside d (Inr x) st = aside d (st x)"
  by (simp_all add: keeps_aside_def)

lemma keeps_aside_bind:
  assumes "\<And>x. r = Inr x \<Longrightarrow> aside d (st x)" "\<And>x. r = Inr x \<Longrightarrow> aside d (st x) \<Longrightarrow> keeps_aside d (k x) st'"
  shows "keeps_aside d (r_bind r k) st'"
  using assms by (cases r) auto

lemma cancelMatchLocked_aside: "keeps_aside d (cancelMatchLocked env locks opts d) fst"
proof -
  have tr: "aside d (fst x)" if "transitionRequest env r to actor reason st d2 = Inr x" "aside d d2" for r to actor reason st d2 x
    using aside_trans[OF that(2) aside_writes(2)[of env r to actor reason st d2 "fst x" "snd x"]] that(1) by simp
  have branch: "aside d (fst x)"
    if "(if p then transitionRequest env r t1 a1 m1 f1 d2 else if q then transitionRequest env r t2 a2 m2 f2 d2
        else transitionRequest env r t3 a3 m3 f3 d2) = Inr x" "aside d d2"
    for p q r t1 a1 m1 f1 t2 a2 m2 f2 t3 a3 m3 f3 d2 x
    using that by (auto split: if_splits intro: tr)
  have up: "aside d (update_conversation c h (update_match k g x))" if "aside d x" for c h k g x
    using that aside_trans aside_writes(4,5) by blast
  have sys: "aside d d7" if "insertSystemMessage env c s key d6 = Inr d7" "aside d d6" for c s key d6 d7
    using aside_trans[OF that(2) aside_writes(3)[OF that(1)]] .
  have rest: "aside d (if b then applyHelperCancel env v p (case w of Some u \<Rightarrow> if b' then delete_location u e d4 else d4 | None \<Rightarrow> d4)
      else (case w of Some u \<Rightarrow> if b' then delete_location u e d4 else d4 | None \<Rightarrow> d4))"
    if "aside d d4" for b v p w b' e d4
    using that by (auto split: option.split simp: aside_def applyHelperCancel_def bump_def delete_location_def)
  show ?thesis
    unfolding cancelMatchLocked_def Let_def
    apply (split if_split, intro conjI impI)
     apply simp
    apply (rule keeps_aside_bind[where st = "\<lambda>x. x"])
     apply (auto split: if_splits intro: aside_writes)[1]
    apply (rule keeps_aside_bind[where st = fst])
     apply (erule branch, erule up)
    apply (simp only: case_prod_unfold)
    apply (rule keeps_aside_bind[where st = "\<lambda>x. x"])
     apply (erule sys, erule rest)
    apply simp
    done
qed


lemma moderation_cancel_simps [simp]:
  "co_actor (moderation_cancel reason) = Moderator_actor" "co_note (moderation_cancel reason) = None"
  by (simp_all add: moderation_cancel_def)

lemma categories_known_cong:
  assumes "categories_known d" "categories d' = categories d"
    and "\<And>r. r \<in> set (requests d') \<Longrightarrow> \<exists>r0 \<in> set (requests d). r_categoryId r = r_categoryId r0"
  shows "categories_known d'"
  using assms unfolding categories_known_def list_all_iff by metis

lemma cancel_one:
  assumes inv: "db_inv d" and cats: "categories_known d" and m: "m \<in> set (matches d)" "m_status m = M_active"
  shows "\<exists>d' es. cancelMatchForModeration env (m_id m) reason d = (d', es, Inr ()) \<and> db_inv d' \<and> categories_known d'
     \<and> aside d d'
     \<and> matches d' = upd_key m_id (m_id m) (cancel_match_row env (moderation_cancel reason)) (matches d)
     \<and> requests d' = upd_key r_id (m_requestId m) (cancel_request_row env (moderation_cancel reason)) (requests d)"
proof -
  let ?opts = "moderation_cancel reason"
  obtain locks where l: "lockMatchRows d (m_id m) = Some locks" "lk_match locks = m"
    using lock_active[OF inv cats m] by blast
  then obtain d' after where run: "cancelMatchLocked env locks ?opts d = Inr (d', after)"
    and cr: "cancelled_run env locks ?opts d d'" and d': "db_inv d'"
    using cancel_inv[OF inv l(1), of env ?opts] m(2) by auto
  note R = locked_rows[OF db_invD(1)[OF inv] l(1)]
  have t: "matches d' = upd_key m_id (m_id m) (cancel_match_row env ?opts) (matches d)"
    "requests d' = upd_key r_id (m_requestId m) (cancel_request_row env ?opts) (requests d)"
    using cr R(4) l(2) by (simp_all add: cancelled_run_def)
  have a: "aside d d'" using cancelMatchLocked_aside[of d env locks ?opts] run by simp
  have "categories_known d'"
    using cats a t(2) by (intro categories_known_cong[OF cats])
      (auto simp: aside_def upd_key_mem cancel_request_row_def Let_def)
  then show ?thesis using run d' t a l(1) by (simp add: cancelMatchForModeration_def cancelMatchInTx_def)
qed

subsection \<open>Cancelling a list of matches\<close>

lemma cancel_each_ok: "db_inv d \<Longrightarrow> outcome_ok (cancel_each env reason ms d)"
proof (induction ms arbitrary: d)
  case (Cons m ms)
  obtain d1 es r where c: "cancelMatchForModeration env m reason d = (d1, es, r)" by (cases "cancelMatchForModeration env m reason d") auto
  with cancelMatchForModeration_ok[OF Cons.prems, of env m reason] have d1: "outcome_ok (d1, es, r)" by simp
  show ?case
  proof (cases r)
    case (Inr u)
    obtain d2 es' r' where e: "cancel_each env reason ms d1 = (d2, es', r')" by (cases "cancel_each env reason ms d1") auto
    with Cons.IH[of d1] d1 Inr have "outcome_ok (d2, es', r')" by simp
    with c Inr e show ?thesis by (simp add: outcome_ok_iff)
  qed (use c d1 in simp)
qed simp

lemma cancel_each_books: "books bs d \<Longrightarrow> books bs (fst (cancel_each env reason ms d))"
proof (induction ms arbitrary: d)
  case (Cons m ms)
  have "books bs (fst (cancelMatchForModeration env m reason d))" using Cons.prems by (rule match_handlers_books)
  with Cons.IH show ?case by (auto split: prod.split sum.split) (metis fst_conv)+
qed simp

lemma cancel_each_run:
  assumes "db_inv d" "categories_known d" "distinct ms"
    and "\<And>k. k \<in> set ms \<Longrightarrow> \<exists>m \<in> set (matches d). m_id m = k \<and> m_status m = M_active"
  shows "\<exists>d' es. cancel_each env reason ms d = (d', es, Inr ()) \<and> db_inv d' \<and> aside d d'
     \<and> (\<forall>m \<in> set (matches d'). m_status m = M_active \<longrightarrow> m \<in> set (matches d) \<and> m_id m \<notin> set ms)
     \<and> (\<forall>r \<in> set (requests d'). r_status r \<in> {Searching, Offering} \<longrightarrow> r \<in> set (requests d))"
  using assms
proof (induction ms arbitrary: d)
  case (Cons k ms)
  from Cons.prems(4)[of k] obtain m where m: "m \<in> set (matches d)" "m_id m = k" "m_status m = M_active" by auto
  then obtain d1 es where one: "cancelMatchForModeration env k reason d = (d1, es, Inr ())" "db_inv d1"
      "categories_known d1" "aside d d1"
      "matches d1 = upd_key m_id k (cancel_match_row env (moderation_cancel reason)) (matches d)"
      "requests d1 = upd_key r_id (m_requestId m) (cancel_request_row env (moderation_cancel reason)) (requests d)"
    using cancel_one[OF Cons.prems(1,2) m(1,3), of env reason] by auto
  have st: "m_status (cancel_match_row env (moderation_cancel reason) x) \<noteq> M_active"
    "r_status (cancel_request_row env (moderation_cancel reason) y) = Moderated"
    "m_id (cancel_match_row env (moderation_cancel reason) x) = m_id x" for x y
    by (simp_all add: cancel_match_row_def cancelled_match_status_def cancel_request_row_def cancelled_request_status_def Let_def)
  have "\<exists>m \<in> set (matches d1). m_id m = j \<and> m_status m = M_active" if j: "j \<in> set ms" for j
  proof -
    from j Cons.prems(3) have "j \<noteq> k" by auto
    moreover obtain m2 where "m2 \<in> set (matches d)" "m_id m2 = j" "m_status m2 = M_active" using Cons.prems(4)[of j, OF list.set_intros(2)[OF j]] by auto
    ultimately show ?thesis unfolding one(5) using upd_key_other[of m2 "matches d" m_id k] by blast
  qed
  then obtain d2 es2 where rest: "cancel_each env reason ms d1 = (d2, es2, Inr ())" "db_inv d2" "aside d1 d2"
      "\<And>m. m \<in> set (matches d2) \<Longrightarrow> m_status m = M_active \<Longrightarrow> m \<in> set (matches d1) \<and> m_id m \<notin> set ms"
      "\<And>r. r \<in> set (requests d2) \<Longrightarrow> r_status r \<in> {Searching, Offering} \<Longrightarrow> r \<in> set (requests d1)"
    using Cons.IH[OF one(2,3)] Cons.prems(3) by fastforce
  have "m \<in> set (matches d) \<and> m_id m \<notin> set (k # ms)" if "m \<in> set (matches d2)" "m_status m = M_active" for m
    using rest(4)[OF that] that(2) st(1) unfolding one(5) by (auto simp: upd_key_mem split: if_splits) (metis that(2))
  moreover have "r \<in> set (requests d)" if "r \<in> set (requests d2)" "r_status r \<in> {Searching, Offering}" for r
    using rest(5)[OF that] that(2) st(2) unfolding one(6) by (auto simp: upd_key_mem split: if_splits)
  moreover have "cancel_each env reason (k # ms) d = (d2, es @ es2, Inr ())" using one(1) rest(1) by simp
  moreover have "aside d d2" using one(4) rest(3) by (rule aside_trans)
  ultimately show ?case using rest(2) by blast
qed auto

text \<open>Every other match stays as it is.\<close>

lemma cancel_each_others:
  assumes "db_inv d" "categories_known d" "distinct ms"
    and "\<And>k. k \<in> set ms \<Longrightarrow> \<exists>m \<in> set (matches d). m_id m = k \<and> m_status m = M_active"
    and "x \<in> set (matches d)" "m_id x \<notin> set ms"
  shows "x \<in> set (matches (fst (cancel_each env reason ms d)))"
  using assms
proof (induction ms arbitrary: d)
  case (Cons k ms)
  from Cons.prems(4)[of k] obtain m where m: "m \<in> set (matches d)" "m_id m = k" "m_status m = M_active" by auto
  then obtain d1 es where one: "cancelMatchForModeration env k reason d = (d1, es, Inr ())" "db_inv d1"
      "categories_known d1"
      "matches d1 = upd_key m_id k (cancel_match_row env (moderation_cancel reason)) (matches d)"
    using cancel_one[OF Cons.prems(1,2) m(1,3), of env reason] by auto
  have others: "y \<in> set (matches d1)" if "y \<in> set (matches d)" "m_id y \<noteq> k" for y
    unfolding one(4) using that by (rule upd_key_other)
  have "\<exists>m \<in> set (matches d1). m_id m = j \<and> m_status m = M_active" if j: "j \<in> set ms" for j
  proof -
    from j Cons.prems(3) have "j \<noteq> k" by auto
    moreover obtain m2 where "m2 \<in> set (matches d)" "m_id m2 = j" "m_status m2 = M_active"
      using Cons.prems(4)[of j, OF list.set_intros(2)[OF j]] by auto
    ultimately show ?thesis using others by blast
  qed
  moreover have "distinct ms" "m_id x \<notin> set ms" "x \<in> set (matches d1)"
    using Cons.prems(3,5,6) others by simp_all
  ultimately have "x \<in> set (matches (fst (cancel_each env reason ms d1)))"
    using Cons.IH[OF one(2,3)] by blast
  with one(1) show ?case by (cases "cancel_each env reason ms d1") simp
qed simp

text \<open>A match that has closed meanwhile ends the loop: the matches after it stay as they are.\<close>

lemma cancel_each_stops:
  assumes "by_key m_id k (matches d) = Some m" "m_status m \<noteq> M_active"
  shows "\<exists>e. cancel_each env reason (k # ms) d = (d, [], Inl e)"
  using assms by (auto simp: cancelMatchForModeration_def cancelMatchInTx_def lockMatchRows_def cancelMatchLocked_def
      commit_def Let_def split: option.split)


subsection \<open>Closing open requests\<close>

definition close_with ::
  "env \<Rightarrow> request_status \<Rightarrow> transition_actor \<Rightarrow> string \<Rightarrow> request \<Rightarrow> db \<Rightarrow> app_error + db" where
  "close_with env to actor reason request d =
     r_bind (transitionRequest env request to actor reason (\<lambda>r. r\<lparr>r_closedAt := Some (now env)\<rparr>)
       (fst (supersede_open env (r_id request) d))) (\<lambda>(d2, _). Inr d2)"

lemma close_with_uses:
  "close_for_moderation env reason = close_with env Moderated Moderator_actor reason"
  "close_for_deletion env = close_with env Cancelled System_actor ''account_deleted''"
  by (simp_all add: fun_eq_iff close_for_moderation_def close_for_deletion_def close_with_def supersede_fst)

definition closed_row :: "env \<Rightarrow> request_status \<Rightarrow> request \<Rightarrow> request" where
  "closed_row env to r = r\<lparr>r_status := to, r_closedAt := Some (now env)\<rparr>"

lemma close_step:
  assumes inv: "db_inv d" and r: "r \<in> set (requests d)" "r_status r \<in> {Searching, Offering}" and to: "to \<in> {Moderated, Cancelled}"
  shows "\<exists>d'. close_with env to actor reason r d = Inr d' \<and> db_inv d' \<and> aside d d' \<and> matches d' = matches d
     \<and> requests d' = upd_key r_id (r_id r) (closed_row env to) (requests d)"
proof -
  let ?d1 = "fst (supersede_open env (r_id r) d)"
  have f: "(\<lambda>x. x\<lparr>r_status := to\<rparr>\<lparr>r_closedAt := Some (now env)\<rparr>) = closed_row env to"
    by (rule ext) (simp add: closed_row_def)
  obtain d' u where t: "transitionRequest env r to actor reason (\<lambda>r. r\<lparr>r_closedAt := Some (now env)\<rparr>) ?d1 = Inr (d', u)"
    and d': "db_inv d'" "matches d' = matches ?d1" "requests d' = upd_key r_id (r_id r) (closed_row env to) (requests ?d1)"
    using transition_inv[OF supersede_inv[OF inv, of env "r_id r"], of r to "\<lambda>r. r\<lparr>r_closedAt := Some (now env)\<rparr>" env actor reason]
      r to supersede_none_open[of _ env "r_id r" d] by (auto simp: canTransition_def closed_row_def[abs_def])
  have "aside d ?d1" by (simp add: supersede_fst aside_def)
  then have "aside d d'" using aside_writes(2)[OF t] by (rule aside_trans)
  with t d' show ?thesis by (simp add: close_with_def supersede_fst)
qed

lemma close_all:
  assumes "db_inv d" "distinct (map r_id rs)" "set rs \<subseteq> {r \<in> set (requests d). r_status r \<in> {Searching, Offering}}"
    and to: "to \<in> {Moderated, Cancelled}"
  shows "\<exists>d'. r_fold (close_with env to actor reason) rs d = Inr d' \<and> db_inv d' \<and> aside d d' \<and> matches d' = matches d
     \<and> requests d' = upd_where (\<lambda>r. r_id r \<in> r_id ` set rs) (closed_row env to) (requests d)"
  using assms(1-3)
proof (induction rs arbitrary: d)
  case Nil
  then show ?case by (simp add: upd_where_def)
next
  case (Cons r rs)
  then have r: "r \<in> set (requests d)" "r_status r \<in> {Searching, Offering}" by auto
  obtain d1 where one: "close_with env to actor reason r d = Inr d1" "db_inv d1" "aside d d1" "matches d1 = matches d"
    "requests d1 = upd_key r_id (r_id r) (closed_row env to) (requests d)"
    using close_step[OF Cons.prems(1) r to, of env actor reason] by blast
  have "set rs \<subseteq> {r \<in> set (requests d1). r_status r \<in> {Searching, Offering}}"
  proof
    fix x assume x: "x \<in> set rs"
    with Cons.prems(2) have "r_id x \<noteq> r_id r" by (auto simp: image_iff)
    moreover have "x \<in> set (requests d)" "r_status x \<in> {Searching, Offering}" using x Cons.prems(3) by auto
    ultimately show "x \<in> {r \<in> set (requests d1). r_status r \<in> {Searching, Offering}}"
      unfolding one(5) using upd_key_other[of x "requests d" r_id "r_id r"] by simp
  qed
  moreover have "distinct (map r_id rs)" using Cons.prems(2) by simp
  ultimately obtain d' where rest: "r_fold (close_with env to actor reason) rs d1 = Inr d'" "db_inv d'" "aside d1 d'"
    "matches d' = matches d1"
    "requests d' = upd_where (\<lambda>r. r_id r \<in> r_id ` set rs) (closed_row env to) (requests d1)"
    using Cons.IH[OF one(2)] by blast
  have "requests d' = upd_where (\<lambda>x. r_id x \<in> r_id ` set (r # rs)) (closed_row env to) (requests d)"
    unfolding rest(5) one(5) upd_key_def upd_where_def by (auto simp: closed_row_def)
  then show ?case using one(1,3,4) rest(1-4) by (auto intro: aside_trans)
qed

lemma close_all_books:
  assumes "books bs d" "distinct (map r_id rs)" "set rs \<subseteq> set (requests d)"
  shows "keeps_books bs (r_fold (close_with env to actor reason) rs d) (\<lambda>x. x)"
  using assms
proof (induction rs arbitrary: d)
  case (Cons r rs)
  show ?case
  proof (cases "close_with env to actor reason r d")
    case (Inr d1)
    then obtain u where t: "transitionRequest env r to actor reason (\<lambda>r. r\<lparr>r_closedAt := Some (now env)\<rparr>)
        (fst (supersede_open env (r_id r) d)) = Inr (d1, u)"
      by (auto simp: close_with_def r_bind_Inr)
    have "books bs d1"
      using books_move[OF _ _ t] Cons.prems by simp
    moreover have "set rs \<subseteq> set (requests d1)"
    proof
      fix x assume x: "x \<in> set rs"
      with Cons.prems(2) have "r_id x \<noteq> r_id r" by (auto simp: image_iff)
      moreover have "x \<in> set (requests d)" using x Cons.prems(3) by auto
      ultimately show "x \<in> set (requests d1)" using t by (auto simp: transitionRequest_Inr core_simps intro: upd_key_other)
    qed
    ultimately show ?thesis using Cons Inr by simp
  qed simp
qed simp


subsection \<open>Writes outside the exchange\<close>

text \<open>
  What the components around the exchange (accounts, administration, notifications, settings) do to
  the database: the tables of the exchange stay, except for the counter row of a new account.
\<close>

definition stats_grown :: "reliability_row list \<Rightarrow> reliability_row list \<Rightarrow> bool" where
  "stats_grown rows rows' \<longleftrightarrow> rows' = rows \<or> (\<exists>u t. rows' = ensure_stats u t rows)"

lemma stats_grown_simps [simp]: "stats_grown rows rows" "stats_grown rows (ensure_stats u t rows)"
  by (auto simp: stats_grown_def)

definition outside :: "db \<Rightarrow> db \<Rightarrow> bool" where
  "outside d d' \<longleftrightarrow> inventoryItems d' = inventoryItems d \<and> requests d' = requests d
     \<and> requestTransitions d' = requestTransitions d \<and> matchOffers d' = matchOffers d
     \<and> matches d' = matches d \<and> conversations d' = conversations d \<and> messages d' = messages d
     \<and> memberLocations d' = memberLocations d \<and> next_id d \<le> next_id d'
     \<and> stats_grown (reliabilityStats d) (reliabilityStats d')"

lemma fresh_counters: "rowToCounters (by_key rs_userId v (ensure_stats u t rows)) = rowToCounters (by_key rs_userId v rows)"
proof (cases "by_key rs_userId u rows")
  case None
  then have "by_key rs_userId v (rows @ [fresh_stats u t]) = (if v = u then Some (fresh_stats u t) else by_key rs_userId v rows)"
    using by_key_insert[of rs_userId "fresh_stats u t" rows v] by (simp add: fresh_stats_def)
  with None show ?thesis by (simp add: ensure_stats_def rowToCounters_def fresh_stats_def new_counters_def)
qed (simp add: ensure_stats_def)

lemma fresh_label: "reliabilityLabel (rowToCounters (Some (fresh_stats u t))) = New_helper"
  by (simp add: rowToCounters_def fresh_stats_def reliabilityLabel_def)

lemma outside_inv: "db_inv d \<Longrightarrow> outside d d' \<Longrightarrow> db_inv d'"
proof -
  assume inv: "db_inv d" and o': "outside d d'"
  note C = db_invD[OF inv]
  have "stats_inv (matchOffers d) (ensure_stats u t (reliabilityStats d))" for u t
    using C(3) by (simp add: stats_inv_def fresh_counters)
  moreover have "labels_inv (ensure_stats u t (reliabilityStats d))" for u t
    using C(4) by (auto simp: labels_inv_def ensure_stats_def fresh_label) (simp add: fresh_stats_def)
  ultimately show "db_inv d'" using o' C
    by (auto simp: outside_def stats_grown_def db_inv_def intro: core_inv_mono chat_inv_cong[where ms = "matches d" and cs = "conversations d"])
qed

lemma outside_books: "books bs d \<Longrightarrow> outside d d' \<Longrightarrow> books bs d'"
  by (auto simp: outside_def intro: books_frame)

lemma outside_refl [simp]: "outside d d"
  by (simp add: outside_def)


subsection \<open>Moderation\<close>

lemmas side_writes = insert_action_def audit_action_def insert_audit_def update_user_def update_event_def
  revoke_sessions_def Let_def

definition continues :: "(db \<Rightarrow> unit outcome) \<Rightarrow> bool" where
  "continues k \<longleftrightarrow> (\<forall>d. (db_inv d \<longrightarrow> outcome_ok (k d)) \<and> (\<forall>bs. books bs d \<longrightarrow> books bs (fst (k d))))"

lemma continues_simps [simp]:
  "continues (publish_only es)" "continues (cancel_each env reason ms)" "continues (cancelMatchForModeration env mid reason)"
  by (simp_all add: continues_def publish_only_def cancel_each_ok cancel_each_books cancelMatchForModeration_ok match_handlers_books)

lemma continues_publish [simp]: "continues k \<Longrightarrow> continues (\<lambda>d. then_publish before after (k d))"
  by (fastforce simp: continues_def then_publish_def outcome_ok_iff split: prod.split sum.split)

lemma continues_books: "continues k \<Longrightarrow> books bs d \<Longrightarrow> books bs (fst (k d))"
  unfolding continues_def by blast

lemma requireUser_typed: "requireUser d u = Inl e \<Longrightarrow> \<not> is_internal e"
  by (auto simp: requireUser_def result_elims split: option.splits)

lemma requireEvent_typed: "requireEvent d u = Inl e \<Longrightarrow> \<not> is_internal e"
  by (auto simp: requireEvent_def result_elims split: option.splits)

lemma moderate_tx_typed:
  assumes "action \<noteq> Act_event_disable" "moderate_tx env actor action input d = Inl e"
  shows "\<not> is_internal e"
  using assms requireUser_typed requireEvent_typed
  by (cases action) (auto simp: warn_tx_def restrict_tx_def suspend_tx_def unsuspend_tx_def event_pause_tx_def
      event_approve_tx_def match_cancel_tx_def report_tx_def result_elims Let_def insert_action_def split: option.splits)

lemma moderate_tx_outside:
  assumes "action \<noteq> Act_event_disable" "moderate_tx env actor action input d = Inr (d', k)"
  shows "outside d d' \<and> continues k"
  using assms
  by (cases action) (auto simp: warn_tx_def restrict_tx_def suspend_tx_def unsuspend_tx_def event_pause_tx_def
      event_approve_tx_def match_cancel_tx_def report_tx_def result_elims side_writes outside_def split: option.splits if_splits)

definition open_of_event :: "uid \<Rightarrow> db \<Rightarrow> request list" where
  "open_of_event e d = filter (\<lambda>r. r_eventId r = e \<and> r_status r \<in> {Searching, Offering}) (requests d)"

lemma ids_ok_filter_distinct: "ids_ok n key t \<Longrightarrow> distinct (map key (filter P t))"
  by (simp add: ids_ok_def distinct_map_filter)

lemma event_disable_run:
  assumes inv: "db_inv d" and e: "requireEvent d (md_targetEventId input) = Inr event"
  shows "\<exists>d2 d4. event_disable_tx env actor input d = Inr (d4, cancel_each env ''event_disabled''
        (active_match_ids (\<lambda>m. m_eventId m = e_id event) d2))
     \<and> db_inv d2 \<and> outside d2 d4
     \<and> aside (update_event (e_id event) (\<lambda>x. x\<lparr>e_status := Disabled\<rparr>) d) d2 \<and> matches d2 = matches d
     \<and> requests d2 = upd_where (\<lambda>r. r_id r \<in> r_id ` set (open_of_event (e_id event) d)) (closed_row env Moderated) (requests d)
     \<and> users d4 = users d2 \<and> events d4 = events d2 \<and> categories d4 = categories d2"
proof -
  define d1 where "d1 = update_event (e_id event) (\<lambda>x. x\<lparr>e_status := Disabled\<rparr>) d"
  have o1: "outside d d1" by (simp add: d1_def update_event_def outside_def)
  have d1: "db_inv d1" "requests d1 = requests d" "matches d1 = matches d"
    using outside_inv[OF inv o1] o1 by (simp_all add: outside_def)
  let ?rs = "open_of_event (e_id event) d"
  have "distinct (map r_id ?rs)"
    using core_invD(2)[OF db_invD(1)[OF inv]] by (auto simp: open_of_event_def intro: ids_ok_filter_distinct)
  then obtain d2 where d2: "r_fold (close_with env Moderated Moderator_actor (md_reason input)) ?rs d1 = Inr d2"
    "db_inv d2" "aside d1 d2" "matches d2 = matches d1"
    "requests d2 = upd_where (\<lambda>r. r_id r \<in> r_id ` set ?rs) (closed_row env Moderated) (requests d1)"
    using close_all[OF d1(1), of ?rs Moderated env Moderator_actor "md_reason input"] by (auto simp: open_of_event_def d1)
  have rs: "filter (\<lambda>r. r_eventId r = e_id event \<and> r_status r \<in> {Searching, Offering}) (requests d1) = ?rs"
    by (simp add: open_of_event_def d1)
  have "event_disable_tx env actor input d = Inr (audit_action env actor (action_token Act_event_disable)
      (Event_target (e_id event)) (md_reason input) None
      (fst (insert_action env actor Act_event_disable (md_reason input) None (Some (e_id event)) None None None d2)),
      cancel_each env ''event_disabled'' (active_match_ids (\<lambda>m. m_eventId m = e_id event) d2))"
    unfolding event_disable_tx_def e r_bind.simps Let_def d1_def[symmetric] rs close_with_uses(1) d2(1)
    by (simp add: case_prod_unfold)
  moreover have "outside d2 (audit_action env actor (action_token Act_event_disable)
      (Event_target (e_id event)) (md_reason input) None
      (fst (insert_action env actor Act_event_disable (md_reason input) None (Some (e_id event)) None None None d2)))"
    by (simp add: side_writes outside_def)
  moreover have "users (audit_action env actor a tg re me (fst (insert_action env actor b c p q r s t d2))) = users d2"
    "events (audit_action env actor a tg re me (fst (insert_action env actor b c p q r s t d2))) = events d2"
    "categories (audit_action env actor a tg re me (fst (insert_action env actor b c p q r s t d2))) = categories d2"
    for a tg re me b c p q r s t by (simp_all add: side_writes)
  ultimately show ?thesis using d2 d1 by (intro exI[of _ d2] exI conjI) (assumption | simp add: d1_def[symmetric])+
qed

lemma moderate_ok:
  assumes inv: "db_inv d"
  shows "outcome_ok (moderate env actor input d)"
proof -
  have "outcome_ok (commit d (moderate_tx env (ac_userId actor) a input d) (\<lambda>(d', after). after d'))" for a
  proof (cases "moderate_tx env (ac_userId actor) a input d")
    case (Inl e)
    have "\<not> is_internal e"
    proof (cases "a = Act_event_disable")
      case True
      with Inl have "\<exists>e'. requireEvent d (md_targetEventId input) = Inl e' \<and> e = e'"
        using event_disable_run[OF inv, of input _ env "ac_userId actor"]
        by (cases "requireEvent d (md_targetEventId input)") (auto simp: event_disable_tx_def)
      then show ?thesis using requireEvent_typed by blast
    qed (use Inl moderate_tx_typed in blast)
    with Inl inv show ?thesis by simp
  next
    case (Inr p)
    obtain d' k where p: "p = (d', k)" by (cases p)
    have "db_inv d' \<and> continues k"
    proof (cases "a = Act_event_disable")
      case True
      then obtain ev where "requireEvent d (md_targetEventId input) = Inr ev"
        using Inr by (cases "requireEvent d (md_targetEventId input)") (auto simp: event_disable_tx_def)
      from event_disable_run[OF inv this, of env "ac_userId actor"] show ?thesis
        using True Inr p by (auto intro: outside_inv)
    qed (use Inr p moderate_tx_outside outside_inv[OF inv] in blast)
    with Inr p show ?thesis by (simp add: continues_def)
  qed
  with inv show ?thesis by (simp add: moderate_def split: option.split)
qed

lemma moderate_books:
  assumes b: "books bs d"
  shows "books bs (fst (moderate env actor input d))"
proof -
  have "books bs (fst (commit d (moderate_tx env (ac_userId actor) a input d) (\<lambda>(d', after). after d')))" for a
  proof (cases "moderate_tx env (ac_userId actor) a input d")
    case (Inr p)
    obtain d' k where p: "p = (d', k)" by (cases p)
    have "books bs d' \<and> continues k"
    proof (cases "a = Act_event_disable")
      case True
      define d1 where "d1 = (\<lambda>event :: event. update_event (e_id event) (\<lambda>x. x\<lparr>e_status := Disabled\<rparr>) d)"
      have d1: "books bs (d1 ev)" "requests (d1 ev) = requests d" for ev using b by (simp_all add: d1_def update_event_def)
      have "distinct (map r_id (filter P (requests d)))" for P
        using booksD(1)[OF b] by (auto simp: trail_inv_def intro: ids_ok_filter_distinct)
      note K = close_all_books[OF d1(1), unfolded d1(2), OF this]
      from True Inr p have "event_disable_tx env (ac_userId actor) input d = Inr (d', k)" by simp
      then obtain ev d2 where d2: "r_fold (close_with env Moderated Moderator_actor (md_reason input))
          (filter (\<lambda>r. r_eventId r = e_id ev \<and> r_status r \<in> {Searching, Offering}) (requests d)) (d1 ev) = Inr d2"
        and k: "k = cancel_each env ''event_disabled'' (active_match_ids (\<lambda>m. m_eventId m = e_id ev) d2)" "outside d2 d'"
        unfolding event_disable_tx_def Let_def close_with_uses(1)
        by (auto simp: r_bind_Inr case_prod_unfold side_writes outside_def d1_def)
      have "books bs d2" by (rule keeps_books_D[OF K d2]) auto
      with k show ?thesis by (simp add: outside_books)
    qed (use Inr p moderate_tx_outside outside_books[OF b] in blast)
    with Inr p show ?thesis by (simp add: continues_books)
  qed (use b in simp)
  with b show ?thesis by (simp add: moderate_def split: option.split)
qed


subsection \<open>Account deletion\<close>

lemma core_items_update_where:
  assumes inv: "core_inv n is rs os ms"
    and h: "\<And>i. i_id (h i) = i_id i \<and> i_qtyReserved (h i) = i_qtyReserved i"
    and chk: "\<And>i. i \<in> set is \<Longrightarrow> P i \<Longrightarrow> item_check (h i)"
  shows "core_inv n (upd_where P h is) rs os ms"
proof (rule core_invI)
  let ?is = "upd_where P h is"
  note I = core_invD[OF inv]
  show "ids_ok n i_id ?is" using I(1) h by (intro ids_ok_upd_where) auto
  show "stock_ok ?is ms" using I(6) h chk by (auto simp: stock_ok_def dest!: upd_where_either)
  have "map i_id ?is = map i_id is" using h by (simp add: upd_where_def)
  then have "i_id ` set ?is = i_id ` set is" by (metis list.set_map)
  with I(7) show "matches_ok ?is ms" by (simp add: matches_ok_def)
qed (use core_invD[OF inv] in simp_all)

lemma collapse_inventory_run:
  assumes inv: "db_inv d"
  shows "\<exists>d'. collapse_inventory env u d = Inr d' \<and> db_inv d'
     \<and> d' = d\<lparr>inventoryItems := upd_where (\<lambda>i. i_userId i = u) (collapse_item env) (inventoryItems d)\<rparr>"
proof -
  note C = db_invD[OF inv]
  have chk: "item_check (collapse_item env i)" if "i \<in> set (inventoryItems d)" for i
    using core_invD(6)[OF C(1)] that by (auto simp: stock_ok_def item_check_def collapse_item_def)
  have "core_inv (next_id d) (upd_where (\<lambda>i. i_userId i = u) (collapse_item env) (inventoryItems d))
      (requests d) (matchOffers d) (matches d)"
    using chk by (intro core_items_update_where[OF C(1)]) (simp_all add: collapse_item_def)
  with C chk show ?thesis by (auto simp: collapse_inventory_def list_all_iff db_inv_def)
qed

definition open_of_user :: "uid \<Rightarrow> db \<Rightarrow> request list" where
  "open_of_user u d = filter (\<lambda>r. r_requesterId r = u \<and> r_status r \<in> {Searching, Offering}) (requests d)"

lemma cancel_open_requests_run:
  assumes inv: "db_inv d"
  shows "\<exists>d'. cancel_open_requests env u d = Inr d' \<and> db_inv d' \<and> aside d d' \<and> matches d' = matches d
     \<and> requests d' = upd_where (\<lambda>r. r_id r \<in> r_id ` set (open_of_user u d)) (closed_row env Cancelled) (requests d)"
proof -
  have "distinct (map r_id (open_of_user u d))"
    using core_invD(2)[OF db_invD(1)[OF inv]] by (auto simp: open_of_user_def intro: ids_ok_filter_distinct)
  from close_all[OF inv this, of Cancelled env System_actor "''account_deleted''"] show ?thesis
    by (auto simp: cancel_open_requests_def close_with_uses(2) open_of_user_def)
qed

lemma drop_devices_inv: "db_inv d \<Longrightarrow> db_inv (drop_devices u d)"
  by (erule same_core_inv) (simp add: same_core_def drop_devices_def)

lemma performAccountDeletion_ok:
  assumes inv: "db_inv d"
  shows "outcome_ok (performAccountDeletion env seed u d)"
proof -
  let ?c = "cancel_each env ''account_deleted'' (active_match_ids (\<lambda>m. m_requesterId m = u \<or> m_helperId m = u) d) d"
  obtain d1 es r where c: "?c = (d1, es, r)" by (cases ?c) auto
  have c_ok: "outcome_ok (d1, es, r)" using cancel_each_ok[OF inv, of env "''account_deleted''" "active_match_ids (\<lambda>m. m_requesterId m = u \<or> m_helperId m = u) d"] unfolding c .
  show ?thesis
  proof (cases r)
    case (Inl e)
    with c c_ok show ?thesis by (simp add: performAccountDeletion_def)
  next
    case (Inr x)
    with c_ok have "db_inv d1" by simp
    then obtain d2 where d2: "cancel_open_requests env u d1 = Inr d2" "db_inv d2"
      using cancel_open_requests_run by blast
    then obtain d3 where d3: "collapse_inventory env u (drop_devices u d2) = Inr d3" "db_inv d3"
      using collapse_inventory_run[OF drop_devices_inv] by blast
    have "outside d3 (update_user u (anonymized env seed) (drop_personal u d3))"
      by (simp add: outside_def update_user_def drop_personal_def)
    with d2 d3 c Inr show ?thesis by (simp add: performAccountDeletion_def outside_inv)
  qed
qed

lemma performAccountDeletion_books:
  assumes b: "books bs d"
  shows "books bs (fst (performAccountDeletion env seed u d))"
proof -
  let ?c = "cancel_each env ''account_deleted'' (active_match_ids (\<lambda>m. m_requesterId m = u \<or> m_helperId m = u) d) d"
  obtain d1 es r where c: "?c = (d1, es, r)" by (cases ?c) auto
  have d1: "books bs d1" using cancel_each_books[OF b, of env "''account_deleted''" "active_match_ids (\<lambda>m. m_requesterId m = u \<or> m_helperId m = u) d"] unfolding c by simp
  have "distinct (map r_id (filter P (requests d1)))" for P
    using booksD(1)[OF d1] by (auto simp: trail_inv_def intro: ids_ok_filter_distinct)
  note K = close_all_books[OF d1 this]
  have d2: "books bs d2" if "cancel_open_requests env u d1 = Inr d2" for d2
    using that unfolding cancel_open_requests_def close_with_uses(2) by (rule keeps_books_D[OF K, rotated]) auto
  have d3: "books bs (drop_devices u x)" if "books bs x" for x
    using that by (auto simp: drop_devices_def books_def list_all_iff)
  have d4: "books bs y" if "collapse_inventory env u x = Inr y" "books bs x" for x y
    using that by (auto simp: collapse_inventory_def split: if_splits)
  have d5: "books bs (update_user u f (drop_personal u x))" if "books bs x" for f x
    using that by (simp add: update_user_def drop_personal_def) (auto intro: books_frame)
  show ?thesis using c d1
    by (auto simp: performAccountDeletion_def split: sum.split intro: d2 d3 d4)
       (blast intro: d2 d3 d4 d5)
qed

end
