(* ===== verification/Exchange.thy ===== *)
theory Exchange
  imports Moderation_Ops
begin

text \<open>
  The server as a transition system. An operation is one handler call of a route, a realtime client
  or a worker; it runs atomically on the database (its transaction holds the rows it writes) at an
  instant of its own. Between operations the components around the exchange (accounts, administration,
  notifications, settings, seeding) may change the tables the exchange does not own (\<open>outside\<close>).
\<close>

subsection \<open>Operations\<close>

datatype op =
    Create_request auth_context create_request_input
  | Cancel_request uid uid
  | Renew_request uid uid int
  | Continue_request uid uid bool
  | Add_inventory uid uid add_inventory_input
  | Update_inventory uid uid update_inventory_input
  | Delete_inventory uid uid
  | Set_availability auth_context uid set_availability_input
  | Put_location uid uid geopoint
  | Delete_location uid uid
  | Respond_offer "(int \<times> int) list" uid uid bool bool
  | Run_match_job "nat \<Rightarrow> rat" match_job
  | Expire_offer uid
  | Set_meeting_state uid uid meeting_state
  | Confirm_completion uid uid qty
  | Cancel_match uid uid cancel_match_input
  | Moderate_match uid string
  | List_messages uid uid cursor nat
  | Send_message uid uid send_message_input
  | Mark_read uid uid
  | Create_report bool uid create_report_input
  | Block_peer uid uid
  | Create_event "utext \<Rightarrow> utext" bool string string uid create_event_input
  | Join_event uid event_ref "string option"
  | Leave_event uid uid
  | Mute_event uid uid bool
  | Answer_attendance "instant \<Rightarrow> instant" uid uid bool
  | Retention retention_task
  | Moderate actor moderate_input
  | Delete_account string uid

type_synonym response = "db \<times> effect list \<times> app_error option"

definition response_of :: "'v outcome \<Rightarrow> response" where
  "response_of x = (fst x, fst (snd x), (case snd (snd x) of Inl e \<Rightarrow> Some e | Inr _ \<Rightarrow> None))"

lemma response_of_simps [simp]:
  "response_of (d, es, Inl e) = (d, es, Some e)" "response_of (d, es, Inr v) = (d, es, None)"
  by (simp_all add: response_of_def)

text \<open>
  \<open>None\<close> is a call that does not return: the alias generator never drew two different names, or the
  walk over the days of an event does not end.
\<close>

fun exec_op :: "env \<Rightarrow> op \<Rightarrow> db \<Rightarrow> response option" where
  "exec_op env (Create_request auth input) d = Some (response_of (createRequest env auth input d))"
| "exec_op env (Cancel_request u rid) d = Some (response_of (cancelRequest env u rid d))"
| "exec_op env (Renew_request u rid n) d = Some (response_of (renewRequest env u rid n d))"
| "exec_op env (Continue_request u rid b) d = Some (response_of (continueRequest env u rid b d))"
| "exec_op env (Add_inventory u eid input) d = Some (response_of (addInventory env u eid input d))"
| "exec_op env (Update_inventory u iid input) d = Some (response_of (updateInventory env u iid input d))"
| "exec_op env (Delete_inventory u iid) d = Some (response_of (deleteInventory env u iid d))"
| "exec_op env (Set_availability auth eid input) d = Some (response_of (setAvailability env auth eid input d))"
| "exec_op env (Put_location u eid c) d = Some (response_of (putLocation env u eid c d))"
| "exec_op env (Delete_location u eid) d = Some (deleteLocation u eid d, [], None)"
| "exec_op env (Respond_offer draws u oid accept stop) d =
     map_option response_of (respondToOffer env draws u oid accept stop d)"
| "exec_op env (Run_match_job rng job) d = Some (response_of (processMatch env rng job d))"
| "exec_op env (Expire_offer oid) d = Some (response_of (expireOffer env oid d))"
| "exec_op env (Set_meeting_state u mid st) d = Some (response_of (setMeetingState env mid u st d))"
| "exec_op env (Confirm_completion u mid q) d = Some (response_of (confirmCompletion env mid u q d))"
| "exec_op env (Cancel_match u mid input) d = Some (response_of (cancelMatch env mid u input d))"
| "exec_op env (Moderate_match mid reason) d = Some (response_of (cancelMatchForModeration env mid reason d))"
| "exec_op env (List_messages u cid c n) d = Some (response_of (listMessages env cid u c n d))"
| "exec_op env (Send_message u cid input) d = Some (response_of (sendMessage env cid u input d))"
| "exec_op env (Mark_read u cid) d = Some (response_of (markRead env cid u d))"
| "exec_op env (Create_report allowed u input) d = Some (response_of (createReport env allowed u input d))"
| "exec_op env (Block_peer u mid) d = Some (response_of (blockViaMatch env u mid d))"
| "exec_op env (Create_event lower allowed invite code u input) d =
     Some (response_of (createEvent env lower allowed invite code u input d))"
| "exec_op env (Join_event u ref invite) d = Some (response_of (joinEvent env u ref invite d))"
| "exec_op env (Leave_event u eid) d = Some (leaveEvent env u eid d, [], None)"
| "exec_op env (Mute_event u eid b) d = Some (response_of (muteEvent u eid b d))"
| "exec_op env (Answer_attendance next_day u eid b) d =
     map_option response_of (answerAttendance env next_day u eid b d)"
| "exec_op env (Retention task) d = Some (response_of (runRetentionTask env task d))"
| "exec_op env (Moderate actor input) d = Some (response_of (moderate env actor input d))"
| "exec_op env (Delete_account seed u) d = Some (response_of (performAccountDeletion env seed u d))"

text \<open>
  What the route's schema lets through. The event code of \<open>createEvent\<close> is drawn from
  \<open>shortCode()\<close>; the code relies on the draw not being in use.
\<close>

fun op_valid :: "op \<Rightarrow> db \<Rightarrow> bool" where
  "op_valid (Create_request auth input) d = zCreateRequest input"
| "op_valid (Renew_request u rid n) d = zExpiresInMinutes n"
| "op_valid (Add_inventory u eid input) d = zAddInventory input"
| "op_valid (Update_inventory u iid input) d = zUpdateInventory input"
| "op_valid (Set_availability auth eid input) d = zSetAvailability input"
| "op_valid (Put_location u eid c) d = zCoords c"
| "op_valid (Confirm_completion u mid q) d = zConfirmCompletion q"
| "op_valid (Cancel_match u mid input) d = zCancelMatch input"
| "op_valid (Send_message u cid input) d = zSendMessage input"
| "op_valid (Create_report allowed u input) d = zCreateReport input"
| "op_valid (Create_event lower allowed invite code u input) d =
     (zCreateEvent input \<and> list_all (\<lambda>e. e_code e \<noteq> code) (events d))"
| "op_valid _ d = True"

subsection \<open>The remaining handlers\<close>

lemma insert_membership_core: "same_core d (insert_membership env u eid role d)"
  by (rule same_core_tables) (simp_all add: insert_membership_def)

lemma setAvailability_ok: "db_inv d \<Longrightarrow> outcome_ok (setAvailability env auth eid input d)"
proof -
  have "same_core d (upsert_availability u e b t w d)" for u e b t w by (rule same_core_tables) (simp_all add: core_simps)
  then show "db_inv d \<Longrightarrow> ?thesis"
    by (auto simp: setAvailability_def Let_def split: option.split intro: same_core_inv)
qed

lemma putLocation_ok: "db_inv d \<Longrightarrow> outcome_ok (putLocation env u eid c d)"
proof -
  let ?d1 = "upsert_location env u eid c d"
  have "same_core ?d1 (if b then ?d1 else ?d1\<lparr>consentRecords := consentRecords ?d1 @ [x], next_id := Suc (next_id ?d1)\<rparr>)" for b x
    by (simp add: same_core_def)
  then have "same_core d (if b then ?d1 else ?d1\<lparr>consentRecords := consentRecords ?d1 @ [x], next_id := Suc (next_id ?d1)\<rparr>)" for b x
    by (rule same_core_trans[OF upsert_location_core])
  then show "db_inv d \<Longrightarrow> ?thesis" using same_core_inv
    by (fastforce simp: putLocation_def Let_def simp del: if_split)
qed

lemma delete_location_core: "same_core d (delete_location u eid d)"
  by (rule same_core_tables) (simp_all add: delete_location_def)

lemma leaveEvent_core: "same_core d (leaveEvent env u eid d)"
  by (rule same_core_tables) (simp_all add: leaveEvent_def delete_location_def)

lemma createEvent_ok:
  assumes inv: "db_inv d" and code: "list_all (\<lambda>e. e_code e \<noteq> code) (events d)"
  shows "outcome_ok (createEvent env lower allowed invite code u input d)"
proof -
  have "keeps d (create_event_tx env u input center ic code d) fst" for center ic
  proof -
    let ?e = "(new_event env u input center ic code)\<lparr>e_id := next_id d\<rparr>"
    have ins: "insert_event (new_event env u input center ic code) d =
        Inr (d\<lparr>events := events d @ [?e], next_id := Suc (next_id d)\<rparr>, ?e)"
      using code by (auto simp: insert_event_def Let_def checked_insert_def new_event_def list_all_iff)
    have "db_inv (insert_membership env u k r (d\<lparr>events := es, next_id := Suc (next_id d)\<rparr>))"
      "db_inv (insert_membership env u k r (d\<lparr>events := es, next_id := Suc (next_id d), eventCategories := cs\<rparr>))" for k r es cs
      by (auto intro!: same_core_inv[OF inv] same_core_trans[OF _ insert_membership_core] simp: same_core_def)
    then show ?thesis by (auto simp: create_event_tx_def ins Let_def split: option.split)
  qed
  then have "outcome_ok (commit d (create_event_tx env u input center ic code d) (\<lambda>(d', created).
      (d', [], Inr (buildEventDetail d' created (Some u), ic))))" for center ic
    by (rule commit_ok[OF inv]) auto
  with inv show ?thesis by (simp add: createEvent_def Let_def)
qed

lemma joinEvent_ok: "db_inv d \<Longrightarrow> outcome_ok (joinEvent env u ref invite d)"
  by (auto simp: joinEvent_def Let_def split: option.split
      intro: same_core_inv same_core_inv[OF _ insert_membership_core] simp: same_core_def)

lemma muteEvent_ok: "db_inv d \<Longrightarrow> outcome_ok (muteEvent u eid b d)"
  by (auto simp: muteEvent_def Let_def intro: same_core_inv simp: same_core_def)

lemma answerAttendance_ok: "db_inv d \<Longrightarrow> answerAttendance env nd u eid b d = Some x \<Longrightarrow> outcome_ok x"
  by (auto simp: answerAttendance_def split: option.splits if_splits intro: same_core_inv[OF _ leaveEvent_core])

subsection \<open>Every operation\<close>

definition response_ok :: "response \<Rightarrow> bool" where
  "response_ok x \<longleftrightarrow> db_inv (fst x) \<and> (case snd (snd x) of None \<Rightarrow> True | Some e \<Rightarrow> \<not> is_internal e)"

lemma response_ok_of [simp]: "response_ok (response_of x) = outcome_ok x"
  by (cases x; cases "snd (snd x)") (auto simp: response_ok_def response_of_def outcome_ok_def)

lemma response_ok_plain [simp]: "response_ok (d, es, None) = db_inv d"
  by (simp add: response_ok_def)

lemma respondToOffer_ok: "db_inv d \<Longrightarrow> respondToOffer env draws u oid a s d = Some x \<Longrightarrow> outcome_ok x"
  by (auto simp: respondToOffer_def acceptOffer_ok declineOffer_ok split: if_splits)

lemmas handlers_ok = createRequest_ok cancelRequest_ok renewRequest_ok continueRequest_ok addInventory_ok
  updateInventory_ok deleteInventory_ok setAvailability_ok putLocation_ok respondToOffer_ok processMatch_ok
  expireOffer_ok setMeetingState_ok confirmCompletion_ok cancelMatch_ok cancelMatchForModeration_ok
  listMessages_ok sendMessage_ok markRead_ok createReport_ok blockViaMatch_ok createEvent_ok joinEvent_ok
  muteEvent_ok answerAttendance_ok runRetentionTask_ok moderate_ok performAccountDeletion_ok

lemma exec_op_ok:
  assumes "db_inv d" "op_valid op d" "exec_op env op d = Some x"
  shows "response_ok x"
  using assms
  by (cases op) (auto simp: handlers_ok deleteLocation_def
      intro: same_core_inv[OF _ delete_location_core] same_core_inv[OF _ leaveEvent_core])

subsection \<open>The system\<close>

text \<open>
  A run starts with an empty exchange: no inventory, requests, transitions, offers, matches,
  conversations, messages, counters or locations. Users, events, categories and the other tables
  are arbitrary, and the components around the exchange may rewrite them between operations.
\<close>

definition initial_db :: "db \<Rightarrow> bool" where
  "initial_db d \<longleftrightarrow> inventoryItems d = [] \<and> requests d = [] \<and> requestTransitions d = []
     \<and> matchOffers d = [] \<and> matches d = [] \<and> conversations d = [] \<and> messages d = []
     \<and> reliabilityStats d = [] \<and> memberLocations d = []"

inductive step :: "db \<Rightarrow> db \<Rightarrow> bool" where
  operation: "op_valid op d \<Longrightarrow> exec_op env op d = Some (d', es, r) \<Longrightarrow> step d d'"
| elsewhere: "outside d d' \<Longrightarrow> step d d'"

inductive reachable :: "db \<Rightarrow> bool" where
  start: "initial_db d \<Longrightarrow> reachable d"
| next_step: "reachable d \<Longrightarrow> step d d' \<Longrightarrow> reachable d'"

inductive_cases stepE: "step d d'"

text \<open>
  The interfaces of a fact about runs: what every operation, and every step outside, keeps is kept
  along every run; if the initial states have it too, every reachable state has it.
\<close>

locale step_invariant =
  fixes inv :: "db \<Rightarrow> bool"
  assumes inv_operation: "inv d \<Longrightarrow> op_valid op d \<Longrightarrow> exec_op env op d = Some (d', es, r) \<Longrightarrow> inv d'"
    and inv_outside: "inv d \<Longrightarrow> outside d d' \<Longrightarrow> inv d'"
begin

lemma inv_step: "inv d \<Longrightarrow> step d d' \<Longrightarrow> inv d'"
  by (auto elim: stepE intro: inv_operation inv_outside)

lemma inv_run: "step\<^sup>*\<^sup>* d d' \<Longrightarrow> inv d \<Longrightarrow> inv d'"
  by (induction rule: rtranclp_induct) (auto intro: inv_step)

end

locale exchange_invariant = step_invariant +
  assumes inv_initial: "initial_db d \<Longrightarrow> inv d"
begin

lemma inv_reachable: "reachable d \<Longrightarrow> inv d"
  by (induction rule: reachable.induct) (auto intro: inv_initial inv_step)

end

lemma initial_db_inv: "initial_db d \<Longrightarrow> db_inv d"
  by (auto simp: initial_db_def db_inv_def chat_inv_def stats_inv_def labels_inv_def ids_ok_def stats_of_def
      open_count_def core_inv_def requests_ok_def stock_ok_def matches_ok_def all_served_def one_active_def
      matched_backed_def offer_rows_ok_def one_open_def asked_once_def rowToCounters_def new_counters_def)

interpretation ledger: exchange_invariant db_inv
proof
  show "db_inv d" if "initial_db d" for d using that by (rule initial_db_inv)
  show "db_inv d'" if "db_inv d" "op_valid op d" "exec_op env op d = Some (d', es, r)" for d d' env op es r
    using exec_op_ok[OF that] by (simp add: response_ok_def)
  show "db_inv d'" if "db_inv d" "outside d d'" for d d'
    using that by (rule outside_inv)
qed

lemma respondToOffer_books:
  "books bs d \<Longrightarrow> respondToOffer env draws u oid a s d = Some x \<Longrightarrow> books bs (fst x)"
  by (auto simp: respondToOffer_def engine_books split: if_splits)

lemma response_of_fst [simp]: "fst (response_of x) = fst x"
  by (simp add: response_of_def)

lemma exec_op_books:
  assumes "books bs d" "exec_op env op d = Some x"
  shows "books bs (fst x)"
  using assms
  by (cases op) (auto simp: deleteLocation_def match_handlers_books engine_books request_handlers_books
      inventory_books retention_books chat_books safety_books location_books event_books
      delete_location_books moderate_books performAccountDeletion_books dest: respondToOffer_books event_books(4))

interpretation base_books: step_invariant "books bs" for bs
proof
  show "books bs d'" if "books bs d" "op_valid op d" "exec_op env op d = Some (d', es, r)" for d d' env op es r
    using exec_op_books[OF that(1,3)] by simp
  show "books bs d'" if "books bs d" "outside d d'" for d d'
    using that by (rule outside_books)
qed

interpretation ledger_books: exchange_invariant "books ([], {})"
proof
  show "books ([], {}) d" if "initial_db d" for d
    using that by (simp add: initial_db_def books_def trail_inv_def ids_ok_def)
qed

lemmas reachable_inv = ledger.inv_reachable
lemmas reachable_books = ledger_books.inv_reachable

subsection \<open>Requests over time\<close>

lemma reachable_run: "step\<^sup>*\<^sup>* d d' \<Longrightarrow> reachable d \<Longrightarrow> reachable d'"
  by (induction rule: rtranclp_induct) (auto intro: next_step)

lemma books_rebase: "books bs d \<Longrightarrow> books (requestTransitions d, r_id ` set (requests d)) d"
  by (simp add: books_def trail_inv_def)

lemma books_run:
  assumes "reachable d" "step\<^sup>*\<^sup>* d d'"
  shows "books (requestTransitions d, r_id ` set (requests d)) d'"
  using base_books.inv_run[OF assms(2)] books_rebase[OF reachable_books[OF assms(1)]] by blast

lemma is_run_edges: "is_run (Some s) ts \<Longrightarrow> \<exists>t. ends_in (Some s) ts = Some t \<and> request_edge\<^sup>*\<^sup>* s t"
proof (induction ts arbitrary: s)
  case (Cons t ts)
  then have "is_run (Some (rt_toStatus t)) ts" "request_edge s (rt_toStatus t)"
    by (simp_all add: request_edge_def)
  with Cons.IH obtain u where "ends_in (Some (rt_toStatus t)) ts = Some u" "request_edge\<^sup>*\<^sup>* (rt_toStatus t) u"
    "request_edge s (rt_toStatus t)" by blast
  then show ?case by (auto intro: converse_rtranclp_into_rtranclp)
qed simp

lemma is_run_append: "is_run s (xs @ ys) \<longleftrightarrow> is_run s xs \<and> is_run (ends_in s xs) ys"
  by (induction xs arbitrary: s) auto

lemma ends_in_append: "ends_in s (xs @ ys) = ends_in (ends_in s xs) ys"
  by (induction xs arbitrary: s) auto

text \<open>Along a run a request stays in the table and its status moves along edges of the state machine.\<close>

lemma request_path:
  assumes d: "reachable d" and run: "step\<^sup>*\<^sup>* d d'" and r: "r \<in> set (requests d)"
  shows "\<exists>r' \<in> set (requests d'). r_id r' = r_id r \<and> request_edge\<^sup>*\<^sup>* (r_status r) (r_status r')"
proof -
  note T = booksD(1)[OF books_run[OF d run], unfolded trail_inv_def fst_conv snd_conv]
  from T r obtain r' where r': "r' \<in> set (requests d')" "r_id r' = r_id r" by force
  from T obtain more where more: "requestTransitions d' = requestTransitions d @ more" by (auto simp: prefix_def)
  have "audited (requestTransitions d) r" using booksD(1)[OF reachable_books[OF d]] r by (simp add: trail_inv_def)
  then have e: "ends_in None (history (r_id r) (requestTransitions d)) = Some (r_status r)" by (simp add: audited_def)
  have "audited (requestTransitions d') r'" using T r'(1) by blast
  then have "is_run (Some (r_status r)) (history (r_id r) more)"
    "ends_in (Some (r_status r)) (history (r_id r) more) = Some (r_status r')"
    using e by (simp_all add: audited_def r'(2) more history_def is_run_append ends_in_append)
  with is_run_edges[of "r_status r"] r' show ?thesis by fastforce
qed

end
