(* ===== verification/Scenario.thy ===== *)
theory Scenario
  imports Exchange
begin

text \<open>
  A small exchange that the witnesses of the properties run: one event, one category, a requester and
  a helper, and the calls that take a request from creation to settlement.
\<close>

definition sample_user :: "uid \<Rightarrow> string \<Rightarrow> user" where
  "sample_user k name = \<lparr>u_id = k, u_pseudonym = name, u_avatarSeed = ''a'', u_locale = ''en'', u_role = User_role,
     u_status = User_active, u_phoneEnc = None, u_phoneHmac = None, u_phoneVerifiedAt = None, u_emailEnc = None,
     u_emailHmac = None, u_emailVerifiedAt = Some 0, u_username = None, u_passwordHash = None,
     u_passwordSetAt = None, u_mustChangePassword = False, u_canRequest = True, u_canHelp = True,
     u_suspendedUntil = None, u_riskFlags = [], u_pseudonymChangedAt = None, u_createdAt = 0, u_deletedAt = None\<rparr>"

definition sample_event :: event where
  "sample_event = \<lparr>e_id = 3, e_code = ''ABCDEFGH'', e_title = [], e_description = [], e_type = Relief_operation,
     e_status = Active, e_visibility = Public, e_publicApproved = True, e_inviteCode = None, e_areaLabel = [],
     e_center = (0, 0), e_radiusM = 500, e_maxMatchRadiusM = 5000, e_offerResponseSeconds = 45,
     e_startsAt = 0, e_endsAt = 1000000000, e_timezone = ''UTC'', e_safetyInfo = None, e_medicalInfo = None,
     e_matchingPaused = False, e_retentionDays = 7, e_createdBy = None, e_createdAt = 0\<rparr>"

definition sample_category :: category where
  "sample_category = \<lparr>c_id = 4, c_slug = ''water'', c_group = Hydration, c_name = [], c_namePlural = None,
     c_description = None, c_icon = ''drop'', c_unit = Bottle, c_altUnits = [], c_fractional = False,
     c_sealedRequired = False, c_expiryRelevant = False, c_restricted = False, c_warningKey = None,
     c_maxRequestQty = 10, c_maxOfferQty = 10, c_sortOrder = 0, c_active = True\<rparr>"

definition sample_membership :: "uid \<Rightarrow> uid \<Rightarrow> membership" where
  "sample_membership k u = \<lparr>mb_id = k, mb_userId = u, mb_eventId = 3, mb_role = Member_role, mb_muted = False,
     mb_banned = False, mb_joinedAt = 0, mb_leftAt = None\<rparr>"

definition sample_start :: db where
  "sample_start = empty_db\<lparr>users := [sample_user 1 ''Asha'', sample_user 2 ''Ravi''], events := [sample_event],
     categories := [sample_category], memberships := [sample_membership 5 1, sample_membership 6 2],
     availability := [\<lparr>av_userId = 2, av_eventId = 3, av_isOn = True, av_until = None, av_updatedAt = 0\<rparr>],
     next_id := 10\<rparr>"

definition sample_env :: "instant \<Rightarrow> env" where
  "sample_env t = \<lparr>now = t, distanceM = (\<lambda>_ _. 100), LOCATION_TTL_MINUTES = 30\<rparr>"

definition sample_request :: create_request_input where
  "sample_request = \<lparr>ri_eventId = 3, ri_categoryId = 4, ri_qty = 2, ri_unit = Bottle, ri_urgency = Soon,
     ri_note = None, ri_expiresInMinutes = 15, ri_coords = None, ri_areaHint = None,
     ri_safetyAcknowledged = True, ri_idempotencyKey = ''request-1''\<rparr>"

definition sample_item :: add_inventory_input where
  "sample_item = \<lparr>ai_categoryId = 4, ai_qty = 5, ai_unit = Bottle, ai_details = [], ai_idempotencyKey = Some ''item-0001''\<rparr>"

definition sample_auth :: auth_context where
  "sample_auth = \<lparr>au_userId = 1, au_status = User_active, au_canRequest = True, au_canHelp = True\<rparr>"

definition after_op :: "instant \<Rightarrow> op \<Rightarrow> db \<Rightarrow> db" where
  "after_op t op d = (case exec_op (sample_env t) op d of None \<Rightarrow> d | Some (d', _) \<Rightarrow> d')"

definition sample_row :: request where
  "sample_row = \<lparr>r_id = 11, r_eventId = 3, r_requesterId = 1, r_categoryId = 4, r_qty = 2, r_qtyFulfilled = 0,
     r_unit = Bottle, r_urgency = Soon, r_note = None, r_areaHint = None, r_status = Offering,
     r_currentRadiusM = 400, r_attemptCount = 1, r_expiresAt = 902000, r_createdAt = 2000, r_closedAt = None,
     r_idempotencyKey = ''request-1''\<rparr>"

definition sample_stock :: item where
  "sample_stock = \<lparr>i_id = 10, i_userId = 2, i_eventId = 3, i_categoryId = 4, i_qtyOnHand = 5, i_qtyReserved = 0,
     i_unit = Bottle, i_details = [], i_active = True, i_createdAt = 1000, i_updatedAt = 1000,
     i_expiresAt = Some 1086400000, i_idempotencyKey = Some ''item-0001''\<rparr>"

definition sample_offer :: match_offer where
  "sample_offer = \<lparr>o_id = 13, o_requestId = 11, o_helperId = 2, o_inventoryItemId = 10, o_qty = 2,
     o_proximity = Unknown_proximity, o_status = Offered, o_offeredAt = 3000, o_respondBy = 48000,
     o_respondedAt = None\<rparr>"

definition sample_match :: match_row where
  "sample_match = \<lparr>m_id = 15, m_requestId = 11, m_offerId = 13, m_eventId = 3, m_requesterId = 1, m_helperId = 2,
     m_inventoryItemId = 10, m_qtyReserved = 2, m_proximity = Unknown_proximity, m_status = M_active,
     m_requesterAlias = ''Blue Sparrow'', m_helperAlias = ''Green Mango'', m_requesterMeetingState = Deciding,
     m_helperMeetingState = Deciding, m_requesterConfirmedQty = None, m_helperConfirmedQty = None,
     m_inventoryApplied = False, m_reliabilityApplied = False, m_createdAt = 4000, m_closedAt = None,
     m_closeReason = None\<rparr>"

definition sample_stats :: reliability_row where
  "sample_stats = \<lparr>rs_userId = 2, rs_accepted = 0, rs_completed = 0, rs_requesterConfirmed = 0,
     rs_cancelledPreMeeting = 0, rs_cancelledPostMeeting = 0, rs_timeouts = 0, rs_noShows = 0, rs_disputes = 0,
     rs_offersReceived30d = 1, rs_offersResponded30d = 0, rs_label = New_helper, rs_updatedAt = 3000\<rparr>"

definition sample_log :: "request_transition list" where
  "sample_log =
    [\<lparr>rt_id = 12, rt_requestId = 11, rt_fromStatus = None, rt_toStatus = Searching, rt_actor = Requester_actor,
      rt_reason = Some ''created'', rt_createdAt = 2000\<rparr>,
     \<lparr>rt_id = 14, rt_requestId = 11, rt_fromStatus = Some Searching, rt_toStatus = Offering,
      rt_actor = System_actor, rt_reason = Some ''offer-created'', rt_createdAt = 3000\<rparr>]"

text \<open>After the helper stocked five bottles, the requester asked for two and a pass made the offer.\<close>

definition offered_db :: db where
  "offered_db = sample_start\<lparr>inventoryItems := [sample_stock], requests := [sample_row],
     requestTransitions := sample_log, matchOffers := [sample_offer], reliabilityStats := [sample_stats],
     next_id := 15\<rparr>"

text \<open>After the helper accepted.\<close>

definition matched_db :: db where
  "matched_db = sample_start\<lparr>inventoryItems := [sample_stock\<lparr>i_qtyReserved := 2, i_updatedAt := 4000\<rparr>],
     requests := [sample_row\<lparr>r_status := Matched\<rparr>],
     requestTransitions := sample_log @
      [\<lparr>rt_id = 16, rt_requestId = 11, rt_fromStatus = Some Offering, rt_toStatus = Matched,
        rt_actor = Helper_actor, rt_reason = Some ''offer-accepted'', rt_createdAt = 4000\<rparr>],
     matchOffers := [sample_offer\<lparr>o_status := Accepted, o_respondedAt := Some 4000\<rparr>],
     matches := [sample_match],
     conversations := [\<lparr>cv_id = 17, cv_matchId = 15, cv_status = Conv_open, cv_expiresAt = None, cv_createdAt = 4000\<rparr>],
     messages := [\<lparr>ms_id = 18, ms_conversationId = 17, ms_senderId = 2, ms_kind = System_message,
       ms_body = lit ''match.matched'', ms_clientMsgId = None, ms_createdAt = 4000, ms_deliveredAt = None,
       ms_readAt = None\<rparr>],
     reliabilityStats := [sample_stats\<lparr>rs_accepted := 1, rs_offersResponded30d := 1, rs_updatedAt := 4000\<rparr>],
     next_id := 19\<rparr>"

lemma offered_run:
  "after_op 3000 (Run_match_job (\<lambda>_. 0) (Run_job 11))
     (after_op 2000 (Create_request sample_auth sample_request)
       (after_op 1000 (Add_inventory 2 3 sample_item) sample_start)) = offered_db"
  by code_simp

lemma matched_run: "after_op 4000 (Respond_offer [(0, 0), (1, 1)] 2 13 True False) offered_db = matched_db"
  by code_simp

lemma after_op_reachable:
  assumes "reachable d" "op_valid op d"
  shows "reachable (after_op t op d)"
proof (cases "exec_op (sample_env t) op d")
  case None
  with assms(1) show ?thesis by (simp add: after_op_def)
next
  case (Some x)
  obtain d' es r where "x = (d', es, r)" by (cases x)
  with Some assms show ?thesis by (auto simp: after_op_def intro: next_step operation)
qed


lemma start_reachable: "reachable sample_start"
  by (rule start) (simp add: initial_db_def sample_start_def empty_db_def)

lemma offered_reachable: "reachable offered_db"
  unfolding offered_run[symmetric]
  by (intro after_op_reachable start_reachable)
     (simp_all add: sample_request_def sample_item_def zCreateRequest_def zAddInventory_def zQty_def
        zExpiresInMinutes_def zIdempotencyKey_def)

lemma matched_reachable: "reachable matched_db"
  unfolding matched_run[symmetric] by (intro after_op_reachable offered_reachable) simp


text \<open>After the helper confirmed the hand-over of two bottles, in the match the requester still sees open.\<close>

definition confirmed_db :: db where
  "confirmed_db = matched_db\<lparr>matches := [sample_match\<lparr>m_helperConfirmedQty := Some 2\<rparr>]\<rparr>"

lemma confirmed_run: "after_op 5000 (Confirm_completion 2 15 2) matched_db = confirmed_db"
  by code_simp

lemma confirmed_reachable: "reachable confirmed_db"
  unfolding confirmed_run[symmetric]
  by (intro after_op_reachable matched_reachable) (simp add: zConfirmCompletion_def)

definition sample_locks :: match_locks where
  "sample_locks = \<lparr>lk_match = sample_match, lk_request = sample_row\<lparr>r_status := Matched\<rparr>,
     lk_item = sample_stock\<lparr>i_qtyReserved := 2, i_updatedAt := 4000\<rparr>, lk_fractional = False, lk_conversationId = 17\<rparr>"

lemma sample_lock:
  "lockMatchRows matched_db 15 = Some sample_locks"
  "lockMatchRows confirmed_db 15 = Some (sample_locks\<lparr>lk_match := sample_match\<lparr>m_helperConfirmedQty := Some 2\<rparr>\<rparr>)"
  by code_simp+

end
