(* ===== verification/Outcomes.thy ===== *)
theory Outcomes
  imports Scenario
begin

text \<open>
  What the handlers of the exchange do, branch by branch, from a reachable database: settling,
  finalizing, cancelling, answering an offer, and retrying a request that already succeeded.
\<close>

subsection \<open>Settling a match\<close>

lemma locks_inv: "reachable d \<Longrightarrow> lockMatchRows d mid = Some locks \<Longrightarrow>
    core_inv (next_id d) (inventoryItems d) (requests d) (matchOffers d) (matches d)"
  by (simp add: db_invD(1)[OF reachable_inv])

lemma confirm_second:
  assumes inv: "db_inv d" and locks: "lockMatchRows d mid = Some locks"
    and act: "m_status (lk_match locks) = M_active"
    and v: "viewer = m_requesterId (lk_match locks) \<or> viewer = m_helperId (lk_match locks)"
    and mine: "my_confirmed (lk_match locks) viewer = None"
    and peer: "peer_confirmed (lk_match locks) viewer = Some other"
    and q: "0 \<le> q" "q \<le> m_qtyReserved (lk_match locks)" "lk_fractional locks \<or> is_integer q"
  shows "\<exists>d' es r. confirmCompletion env mid viewer q d = (d', es, r)
     \<and> inventoryItems d' = upd_key i_id (i_id (lk_item locks))
         (settle_item env (lk_item locks) (min q other) (m_qtyReserved (lk_match locks))) (inventoryItems d)
     \<and> requests d' = upd_key r_id (r_id (lk_request locks))
         (settle_request env (lk_request locks) (min q other)) (requests d)
     \<and> matches d' = upd_key m_id mid (\<lambda>m. settle_match env (lk_request locks)
         (confirm_options (lk_match locks) viewer q other) (confirm_row (lk_match locks) viewer q m)) (matches d)"
proof -
  let ?m = "lk_match locks" and ?o = "confirm_options (lk_match locks) viewer q other"
  note A = locked_active[OF db_invD(1)[OF inv] locks act]
  have v': "m_requesterId ?m = viewer \<or> m_helperId ?m = viewer" using v by blast
  note O = confirm_options_qty[OF A(4) v' peer q(1,2)]
  note R = confirm_row_ok[OF A(4) v' mine q(1,2)]
  obtain d' after where s: "settleLocked env (locks\<lparr>lk_match := confirm_row ?m viewer q ?m\<rparr>) ?o
      (update_match mid (confirm_row ?m viewer q) d) = Inr (d', after)"
    "inventoryItems d' = upd_key i_id (i_id (lk_item locks))
         (settle_item env (lk_item locks) (so_finalQty ?o) (m_qtyReserved ?m)) (inventoryItems d)"
    "requests d' = upd_key r_id (r_id (lk_request locks)) (settle_request env (lk_request locks) (so_finalQty ?o)) (requests d)"
    "matches d' = upd_key m_id mid (\<lambda>m. settle_match env (lk_request locks) ?o (confirm_row ?m viewer q m)) (matches d)"
    using settle_inv[OF inv locks act, where pre = "confirm_row ?m viewer q" and opts = ?o and env = env] O R(1,2) by auto
  have "confirm_tx env mid viewer q d = Inr (d', after, False)"
    using locks act v' mine peer q s(1) by (auto simp: confirm_tx_cases Let_def)
  then show ?thesis using s(2-4) O(1) by (simp add: confirmCompletion_def)
qed

text \<open>
  C14: The second confirmation of an active match settles it once, at the smaller of the two quantities:
  that much leaves the item, the whole reservation is released, the request is credited and becomes
  fulfilled, partially fulfilled or searching again, and the match is disputed exactly when the two
  sides named different quantities.
\<close>

theorem second_confirmation_settles:
  assumes "reachable d" and "lockMatchRows d mid = Some locks"
    and "m_status (lk_match locks) = M_active"
    and "viewer = m_requesterId (lk_match locks) \<or> viewer = m_helperId (lk_match locks)"
    and "my_confirmed (lk_match locks) viewer = None"
    and "peer_confirmed (lk_match locks) viewer = Some other"
    and "0 \<le> q" "q \<le> m_qtyReserved (lk_match locks)" "lk_fractional locks \<or> is_integer q"
  shows "\<exists>d' es r it rq m. confirmCompletion env mid viewer q d = (d', es, r)
     \<and> it \<in> set (inventoryItems d') \<and> i_id it = i_id (lk_item locks)
     \<and> i_qtyOnHand it = i_qtyOnHand (lk_item locks) - min q other
     \<and> i_qtyReserved it = i_qtyReserved (lk_item locks) - m_qtyReserved (lk_match locks)
     \<and> rq \<in> set (requests d') \<and> r_id rq = r_id (lk_request locks)
     \<and> r_qtyFulfilled rq = r_qtyFulfilled (lk_request locks) + min q other
     \<and> r_status rq = (if r_qtyFulfilled rq \<ge> r_qty (lk_request locks) then Fulfilled
                      else if r_qtyFulfilled rq > 0 then Partially_fulfilled else Searching)
     \<and> m \<in> set (matches d') \<and> m_id m = mid \<and> m_inventoryApplied m
     \<and> m_status m = (if q \<noteq> other then M_disputed
                     else if r_status rq = Fulfilled then M_completed else M_partially_completed)"
proof -
  note inv = reachable_inv[OF assms(1)]
  note L = locked_rows[OF db_invD(1)[OF inv] assms(2)]
  note ok = locked_active(4)[OF db_invD(1)[OF inv] assms(2,3)]
  have v: "m_requesterId (lk_match locks) = viewer \<or> m_helperId (lk_match locks) = viewer" using assms(4) by blast
  obtain d' es r where s: "confirmCompletion env mid viewer q d = (d', es, r)"
    "inventoryItems d' = upd_key i_id (i_id (lk_item locks))
         (settle_item env (lk_item locks) (min q other) (m_qtyReserved (lk_match locks))) (inventoryItems d)"
    "requests d' = upd_key r_id (r_id (lk_request locks))
         (settle_request env (lk_request locks) (min q other)) (requests d)"
    "matches d' = upd_key m_id mid (\<lambda>m. settle_match env (lk_request locks)
         (confirm_options (lk_match locks) viewer q other) (confirm_row (lk_match locks) viewer q m)) (matches d)"
    using confirm_second[OF inv assms(2-9)] by blast
  define it where "it = settle_item env (lk_item locks) (min q other) (m_qtyReserved (lk_match locks)) (lk_item locks)"
  define rq where "rq = settle_request env (lk_request locks) (min q other) (lk_request locks)"
  define m where "m = settle_match env (lk_request locks)
         (confirm_options (lk_match locks) viewer q other) (confirm_row (lk_match locks) viewer q (lk_match locks))"
  have "it \<in> set (inventoryItems d')" unfolding s(2) it_def using L(5) by (rule upd_key_hit) simp
  moreover have "rq \<in> set (requests d')" unfolding s(3) rq_def using L(3) by (rule upd_key_hit) simp
  moreover have "m \<in> set (matches d')" unfolding s(4) m_def using L(1) by (rule upd_key_hit) (simp add: L(2))
  moreover have "m_status m = (if q \<noteq> other then M_disputed
      else if r_status rq = Fulfilled then M_completed else M_partially_completed)"
    using v ok confirm_options_qty(1)[OF ok v assms(6-8)]
    by (auto simp: m_def rq_def settle_match_def settle_request_def settled_status_def confirm_options_def Let_def match_ok_def)
  ultimately show ?thesis using s(1) L(2)
    by (intro exI[of _ d'] exI[of _ es] exI[of _ r] exI[of _ it] exI[of _ rq] exI[of _ m])
       (simp add: it_def settle_item_def rq_def settle_request_def settled_status_def Let_def m_def settle_match_def)
qed

theorem second_confirmation_settles_witness:
  "\<exists>d' es r. confirmCompletion (sample_env 6000) 15 1 1 confirmed_db = (d', es, r)
     \<and> (\<exists>it \<in> set (inventoryItems d'). i_id it = 10 \<and> i_qtyOnHand it = 4 \<and> i_qtyReserved it = 0)
     \<and> (\<exists>m \<in> set (matches d'). m_id m = 15 \<and> m_status m = M_disputed)"
proof -
  note S = second_confirmation_settles[OF confirmed_reachable sample_lock(2), of 1 2 1 "sample_env 6000"]
  have "is_integer (1 :: rat)" by code_simp
  then show ?thesis using S
    by (fastforce simp: sample_locks_def sample_match_def sample_stock_def my_confirmed_def peer_confirmed_def)
qed

lemma confirmed_mine:
  assumes inv: "db_inv d" and q: "0 \<le> q" and run: "confirmCompletion env mid viewer q d = (d1, es, Inr v)"
  shows "\<exists>m \<in> set (matches d1). m_id m = mid \<and> my_confirmed m viewer = Some q
    \<and> (m_requesterId m = viewer \<or> m_helperId m = viewer)"
proof -
  from run obtain x where tx: "confirm_tx env mid viewer q d = Inr x" and d1: "d1 = fst x"
    by (cases "confirm_tx env mid viewer q d") (auto simp: confirmCompletion_def split: prod.splits)
  from tx obtain locks where locks: "lockMatchRows d mid = Some locks"
    by (cases "lockMatchRows d mid") (auto simp: confirm_tx_cases)
  let ?m = "lk_match locks"
  note C = db_invD(1)[OF inv] and L = locked_rows[OF db_invD(1)[OF inv] locks]
  from tx locks have v: "m_requesterId ?m = viewer \<or> m_helperId ?m = viewer"
    by (auto simp: confirm_tx_cases Let_def split: if_splits)
  show ?thesis
  proof (cases "my_confirmed ?m viewer \<noteq> None \<or> m_status ?m \<noteq> M_active")
    case True
    with tx locks v d1 L(1,2) show ?thesis
      by (intro bexI[of _ ?m]) (auto simp: confirm_tx_cases Let_def split: if_splits)
  next
    case False
    let ?c = "confirm_row ?m viewer q ?m"
    have mine: "my_confirmed ?c viewer = Some q" by (simp add: my_confirmed_def confirm_row_def)
    from tx locks False have ok: "q \<le> m_qtyReserved ?m" "lk_fractional locks \<or> is_integer q"
      by (auto simp: confirm_tx_cases Let_def split: if_splits)
    show ?thesis
    proof (cases "peer_confirmed ?m viewer")
      case None
      with tx locks v False ok have "matches d1 = upd_key m_id mid (confirm_row ?m viewer q) (matches d)"
        by (auto simp: d1 confirm_tx_cases Let_def update_match_def split: if_splits)
      with L(1,2) have "?c \<in> set (matches d1)" by (auto simp: upd_key_mem intro!: bexI[of _ ?m])
      with mine v L(2) show ?thesis by (intro bexI[of _ ?c]) simp_all
    next
      case (Some other)
      have "matches d1 = upd_key m_id mid (\<lambda>m. settle_match env (lk_request locks)
         (confirm_options ?m viewer q other) (confirm_row ?m viewer q m)) (matches d)"
      proof -
        from False have act: "m_status ?m = M_active" and my: "my_confirmed ?m viewer = None" by simp_all
        have v2: "viewer = m_requesterId ?m \<or> viewer = m_helperId ?m" using v by blast
        show ?thesis using confirm_second[OF inv locks act v2 my Some q ok, of env] run by (elim exE conjE) simp
      qed
      with L(1,2) have "settle_match env (lk_request locks) (confirm_options ?m viewer q other) ?c \<in> set (matches d1)"
        by (auto simp: upd_key_mem intro!: bexI[of _ ?m])
      with mine v L(2) show ?thesis
        by (intro bexI[of _ "settle_match env (lk_request locks) (confirm_options ?m viewer q other) ?c"])
           (simp_all add: settle_match_def my_confirmed_def split: if_splits)
    qed
  qed
qed

text \<open>
  Confirming is idempotent. After a confirmation succeeded, repeating it, at any later instant,
  changes nothing, publishes nothing and answers with the match; confirming another quantity is a
  conflict that changes nothing.
\<close>

theorem confirmation_retry:
  assumes "reachable d" and "zConfirmCompletion q"
    and "confirmCompletion env mid viewer q d = (d1, es, Inr v)" and "lockMatchRows d1 mid = Some locks"
  shows "confirmCompletion env' mid viewer q' d1 =
    (if q' = q then (d1, [], getMatchView d1 mid viewer) else (d1, [], Inl Request_conflict))"
proof -
  have q: "0 \<le> q" using assms(2) by (simp add: zConfirmCompletion_def)
  note inv = reachable_inv[OF assms(1)]
  have inv1: "db_inv d1" using confirmCompletion_ok[OF inv assms(2), of env mid viewer] assms(3) by simp
  obtain m where m: "m \<in> set (matches d1)" "m_id m = mid" "my_confirmed m viewer = Some q"
    "m_requesterId m = viewer \<or> m_helperId m = viewer" using confirmed_mine[OF inv q assms(3)] by blast
  note L = locked_rows[OF db_invD(1)[OF inv1] assms(4)]
  have "lk_match locks = m" using ids_ok_inj[OF core_invD(4)[OF db_invD(1)[OF inv1]] L(1) m(1)] L(2) m(2) by simp
  then show ?thesis using m(3,4) assms(4) by (auto simp: confirmCompletion_def confirm_tx_cases Let_def run_after_def)
qed

theorem confirmation_retry_witness:
  "confirmCompletion (sample_env 6000) 15 2 1 confirmed_db = (confirmed_db, [], Inl Request_conflict)"
proof -
  have "case confirmCompletion (sample_env 5000) 15 2 2 matched_db of (d, _, r) \<Rightarrow>
      d = confirmed_db \<and> (case r of Inl _ \<Rightarrow> False | Inr _ \<Rightarrow> True)"
    by code_simp
  then obtain es v where "confirmCompletion (sample_env 5000) 15 2 2 matched_db = (confirmed_db, es, Inr v)"
    by (cases "confirmCompletion (sample_env 5000) 15 2 2 matched_db") (auto split: sum.splits)
  from confirmation_retry[OF matched_reachable _ this sample_lock(2), of "sample_env 6000" 1] show ?thesis
    by (simp add: zConfirmCompletion_def)
qed

text \<open>
  A closed match stays closed: on a match that is not active, the finalizer does nothing, and
  cancelling or setting a meeting state is refused; none of them changes the database.
\<close>

theorem closed_match_untouched:
  assumes "lockMatchRows d mid = Some locks" and "m_status (lk_match locks) \<noteq> M_active"
  shows "autoFinalizeMatch env mid d = (d, [], Inr ())
     \<and> (\<exists>e. cancelMatch env mid viewer input d = (d, [], Inl e))
     \<and> cancelMatchForModeration env mid reason d = (d, [], Inl Request_conflict)
     \<and> (\<exists>e. setMeetingState env mid viewer ms d = (d, [], Inl e))"
proof -
  from assms(1) have m: "by_key m_id mid (matches d) = Some (lk_match locks)"
    by (auto simp: lockMatchRows_def split: option.splits)
  have "autoFinalizeMatch env mid d = (d, [], Inr ())"
    using assms by (simp add: autoFinalizeMatch_def finalize_tx_def Let_def run_after_def)
  moreover have "\<exists>e. cancelMatch env mid viewer input d = (d, [], Inl e)"
    using assms by (auto simp: cancelMatch_def cancel_tx_def cancelMatchLocked_def Let_def)
  moreover have "cancelMatchForModeration env mid reason d = (d, [], Inl Request_conflict)"
    using assms by (simp add: cancelMatchForModeration_def cancelMatchInTx_def cancelMatchLocked_def Let_def)
  moreover have "\<exists>e. setMeetingState env mid viewer ms d = (d, [], Inl e)"
    using assms(2) m by (auto simp: setMeetingState_def Let_def)
  ultimately show ?thesis by blast
qed

definition closed_db :: db where
  "closed_db = matched_db\<lparr>matches := [sample_match\<lparr>m_status := M_cancelled_by_helper\<rparr>]\<rparr>"

theorem closed_match_untouched_witness:
  "autoFinalizeMatch (sample_env 9000) 15 closed_db = (closed_db, [], Inr ())
     \<and> cancelMatchForModeration (sample_env 9000) 15 ''blocked'' closed_db = (closed_db, [], Inl Request_conflict)"
proof -
  have l: "lockMatchRows closed_db 15 = Some (sample_locks\<lparr>lk_match := sample_match\<lparr>m_status := M_cancelled_by_helper\<rparr>\<rparr>)"
    by code_simp
  show ?thesis using closed_match_untouched[OF l, of "sample_env 9000"] by simp
qed

lemma finalize_run:
  assumes inv: "db_inv d" and locks: "lockMatchRows d mid = Some locks"
    and act: "m_status (lk_match locks) = M_active"
    and one: "(m_requesterConfirmedQty (lk_match locks), m_helperConfirmedQty (lk_match locks)) \<in> {(Some q, None), (None, Some q)}"
  shows "\<exists>d' es opts. autoFinalizeMatch env mid d = (d', es, Inr ()) \<and> so_finalQty opts = q \<and> \<not> so_disputed opts
     \<and> inventoryItems d' = upd_key i_id (i_id (lk_item locks))
         (settle_item env (lk_item locks) q (m_qtyReserved (lk_match locks))) (inventoryItems d)
     \<and> requests d' = upd_key r_id (r_id (lk_request locks)) (settle_request env (lk_request locks) q) (requests d)
     \<and> matches d' = upd_key m_id mid (settle_match env (lk_request locks) opts) (matches d)"
proof -
  let ?m = "lk_match locks"
  note A = locked_active[OF db_invD(1)[OF inv] locks act]
  let ?opts = "\<lparr>so_finalQty = q, so_disputed = False,
        so_closeReason = ''auto_finalized_unconfirmed_peer'', so_actor = System_actor,
        so_senderUserId = (if m_requesterConfirmedQty ?m \<noteq> None then m_requesterId ?m else m_helperId ?m),
        so_requesterConfirmedPositive = (case m_requesterConfirmedQty ?m of None \<Rightarrow> False | Some q \<Rightarrow> q > 0)\<rparr>"
  have idm: "update_match mid (\<lambda>m. m) d = d" by (simp add: update_match_def upd_key_def upd_where_def)
  have q: "0 \<le> q" "q \<le> m_qtyReserved ?m" using A(4) one by (auto simp: match_ok_def confirmed_ok_def)
  obtain d' after where s: "settleLocked env (locks\<lparr>lk_match := ?m\<rparr>) ?opts (update_match mid (\<lambda>m. m) d) = Inr (d', after)"
    "inventoryItems d' = upd_key i_id (i_id (lk_item locks))
          (settle_item env (lk_item locks) q (m_qtyReserved ?m)) (inventoryItems d)"
    "requests d' = upd_key r_id (r_id (lk_request locks)) (settle_request env (lk_request locks) q) (requests d)"
    "matches d' = upd_key m_id mid (\<lambda>m. settle_match env (lk_request locks) ?opts m) (matches d)"
    using settle_inv[OF inv locks act, where pre = "\<lambda>m. m" and opts = ?opts and env = env] q A(4)
    by (auto simp: match_ok_def)
  have "finalize_tx env mid d = settleLocked env locks ?opts d"
    using one locks act A(2) by (auto simp: finalize_tx_def Let_def List.map_filter_simps)
  then show ?thesis using s idm by (intro exI[of _ d'] exI[of _ "run_after after d'"] exI[of _ ?opts])
      (simp add: autoFinalizeMatch_def)
qed

text \<open>
  When only one side confirmed, the finalizer settles the match at that side's quantity without a
  dispute: the reservation is released, the confirmed quantity leaves the item and is credited to the
  request.
\<close>

theorem one_sided_confirmation_finalized:
  assumes "reachable d" and "lockMatchRows d mid = Some locks"
    and "m_status (lk_match locks) = M_active"
    and "(m_requesterConfirmedQty (lk_match locks), m_helperConfirmedQty (lk_match locks)) \<in> {(Some q, None), (None, Some q)}"
  shows "\<exists>d' es it rq m. autoFinalizeMatch env mid d = (d', es, Inr ())
     \<and> it \<in> set (inventoryItems d') \<and> i_id it = i_id (lk_item locks)
     \<and> i_qtyOnHand it = i_qtyOnHand (lk_item locks) - q
     \<and> i_qtyReserved it = i_qtyReserved (lk_item locks) - m_qtyReserved (lk_match locks)
     \<and> rq \<in> set (requests d') \<and> r_id rq = r_id (lk_request locks)
     \<and> r_qtyFulfilled rq = r_qtyFulfilled (lk_request locks) + q
     \<and> m \<in> set (matches d') \<and> m_id m = mid
     \<and> m_status m = (if r_qtyFulfilled rq \<ge> r_qty (lk_request locks) then M_completed else M_partially_completed)"
proof -
  note inv = reachable_inv[OF assms(1)]
  note L = locked_rows[OF db_invD(1)[OF inv] assms(2)]
  obtain d' es opts where s: "autoFinalizeMatch env mid d = (d', es, Inr ())" "so_finalQty opts = q" "\<not> so_disputed opts"
    "inventoryItems d' = upd_key i_id (i_id (lk_item locks))
         (settle_item env (lk_item locks) q (m_qtyReserved (lk_match locks))) (inventoryItems d)"
    "requests d' = upd_key r_id (r_id (lk_request locks)) (settle_request env (lk_request locks) q) (requests d)"
    "matches d' = upd_key m_id mid (settle_match env (lk_request locks) opts) (matches d)"
    using finalize_run[OF inv assms(2-4), where env = env] by auto
  let ?it = "settle_item env (lk_item locks) q (m_qtyReserved (lk_match locks)) (lk_item locks)"
  let ?rq = "settle_request env (lk_request locks) q (lk_request locks)"
  let ?m = "settle_match env (lk_request locks) opts (lk_match locks)"
  have "?it \<in> set (inventoryItems d')" unfolding s(4) using L(5) by (rule upd_key_hit) simp
  moreover have "?rq \<in> set (requests d')" unfolding s(5) using L(3) by (rule upd_key_hit) simp
  moreover have "?m \<in> set (matches d')" unfolding s(6) using L(1) by (rule upd_key_hit) (simp add: L(2))
  ultimately show ?thesis using s(1-3) L(2)
    by (intro exI[of _ d'] exI[of _ es] exI[of _ ?it] exI[of _ ?rq] exI[of _ ?m])
       (simp add: settle_item_def settle_request_def Let_def settle_match_def)
qed

theorem one_sided_confirmation_finalized_witness:
  "\<exists>d' es. autoFinalizeMatch (sample_env 9000) 15 confirmed_db = (d', es, Inr ())
     \<and> (\<exists>it \<in> set (inventoryItems d'). i_id it = 10 \<and> i_qtyOnHand it = 3 \<and> i_qtyReserved it = 0)"
  using one_sided_confirmation_finalized[OF confirmed_reachable sample_lock(2), of 2 "sample_env 9000"]
  by (fastforce simp: sample_locks_def sample_match_def sample_stock_def)

text \<open>
  C32: Cancelling an active match gives the item back what the match had reserved and nothing else,
  and routes the request: back to searching when the helper cancels, cancelled when the requester
  does; an unsafe cancellation marks the match as such.
\<close>

theorem cancel_releases_and_routes:
  assumes "reachable d" and "lockMatchRows d mid = Some locks"
    and "m_status (lk_match locks) = M_active"
    and "viewer = m_requesterId (lk_match locks) \<or> viewer = m_helperId (lk_match locks)"
  shows "\<exists>d' es r it rq m. cancelMatch env mid viewer input d = (d', es, r)
     \<and> it \<in> set (inventoryItems d') \<and> i_id it = i_id (lk_item locks)
     \<and> i_qtyOnHand it = i_qtyOnHand (lk_item locks)
     \<and> i_qtyReserved it = i_qtyReserved (lk_item locks) - m_qtyReserved (lk_match locks)
     \<and> rq \<in> set (requests d') \<and> r_id rq = r_id (lk_request locks)
     \<and> r_status rq = (if viewer = m_requesterId (lk_match locks) then Cancelled else Searching)
     \<and> r_qtyFulfilled rq = r_qtyFulfilled (lk_request locks)
     \<and> m \<in> set (matches d') \<and> m_id m = mid
     \<and> m_status m = (if ci_reason input = Unsafe then M_cancelled_unsafe
         else if viewer = m_requesterId (lk_match locks) then M_cancelled_by_requester else M_cancelled_by_helper)"
proof -
  note inv = reachable_inv[OF assms(1)]
  note L = locked_rows[OF db_invD(1)[OF inv] assms(2)]
  let ?opts = "\<lparr>co_actor = (if m_requesterId (lk_match locks) = viewer then Requester_actor else Helper_actor),
      co_cancellerUserId = Some viewer, co_reason = cancel_reason_token (ci_reason input),
      co_unsafe = (ci_reason input = Unsafe), co_note = ci_note input\<rparr>"
  obtain d' after where s: "cancelMatchLocked env locks ?opts d = Inr (d', after)" "cancelled_run env locks ?opts d d'"
    using cancel_inv[OF inv assms(2,3), of env ?opts] by blast
  have run: "cancelMatch env mid viewer input d = (d', run_after after d', getMatchView d' mid viewer)"
    using assms(2,4) s(1) by (auto simp: cancelMatch_def cancel_tx_def Let_def)
  let ?it = "release_item env (lk_item locks) (m_qtyReserved (lk_match locks)) (lk_item locks)"
  let ?rq = "cancel_request_row env ?opts (lk_request locks)"
  let ?m = "cancel_match_row env ?opts (lk_match locks)"
  have t: "inventoryItems d' = upd_key i_id (i_id (lk_item locks))
       (release_item env (lk_item locks) (m_qtyReserved (lk_match locks))) (inventoryItems d)"
     "requests d' = upd_key r_id (r_id (lk_request locks)) (cancel_request_row env ?opts) (requests d)"
     "matches d' = upd_key m_id (m_id (lk_match locks)) (cancel_match_row env ?opts) (matches d)"
    using s(2) by (simp_all add: cancelled_run_def)
  have "?it \<in> set (inventoryItems d')" unfolding t(1) using L(5) by (rule upd_key_hit) simp
  moreover have "?rq \<in> set (requests d')" unfolding t(2) using L(3) by (rule upd_key_hit) simp
  moreover have "?m \<in> set (matches d')" unfolding t(3) using L(1) by (rule upd_key_hit) simp
  ultimately show ?thesis using run L(2)
    by (intro exI[of _ d'] exI[of _ "run_after after d'"] exI[of _ "getMatchView d' mid viewer"]
        exI[of _ ?it] exI[of _ ?rq] exI[of _ ?m])
       (simp add: release_item_def cancel_request_row_def cancelled_request_status_def cancel_match_row_def
          cancelled_match_status_def Let_def)
qed

theorem cancel_releases_and_routes_witness:
  "\<exists>d' es r. cancelMatch (sample_env 6000) 15 2 \<lparr>ci_reason = Changed_mind, ci_note = None\<rparr> matched_db = (d', es, r)
     \<and> (\<exists>it \<in> set (inventoryItems d'). i_id it = 10 \<and> i_qtyOnHand it = 5 \<and> i_qtyReserved it = 0)
     \<and> (\<exists>rq \<in> set (requests d'). r_id rq = 11 \<and> r_status rq = Searching)"
  using cancel_releases_and_routes[OF matched_reachable sample_lock(1), of 2 "sample_env 6000"
      "\<lparr>ci_reason = Changed_mind, ci_note = None\<rparr>"]
  by (fastforce simp: sample_locks_def sample_match_def sample_stock_def sample_row_def)

subsection \<open>Answering an offer\<close>

definition offer_fractional :: "db \<Rightarrow> request \<Rightarrow> bool" where
  "offer_fractional d r = (case by_key c_id (r_categoryId r) (categories d) of None \<Rightarrow> False | Some c \<Rightarrow> c_fractional c)"

definition offer_available :: "item \<Rightarrow> qty" where
  "offer_available it = (if i_active it then i_qtyOnHand it - i_qtyReserved it else 0)"

text \<open>The two ways in which accepting an open offer ends when the item is there.\<close>

lemma accept_split:
  assumes inv: "db_inv d" and o': "own_open_offer env helper oid d = Inr (x, r)"
    and it: "by_key i_id (o_inventoryItemId x) (inventoryItems d) = Some it"
    and q: "q = computeReserveQty (o_qty x) (r_qty r - r_qtyFulfilled r) (offer_available it) (offer_fractional d r)"
  shows "q \<le> 0 \<Longrightarrow> accept_tx env draws helper oid d = Some (void_offer_tx env x r d)"
    and "0 < q \<Longrightarrow> accept_tx env draws helper oid d = Some tx \<Longrightarrow>
      \<exists>aliases. generateMatchAliases (map u_pseudonym (filter (\<lambda>u. u_id u \<in> {r_requesterId r, helper}) (users d))) draws = Some aliases
        \<and> tx = create_match_tx env x r it q aliases (reserved_db env x it q d)"
proof -
  note O1 = own_open_offer_Inr[OF o']
  have st: "r_status r = Offering" using open_offer_request(1)[OF inv] O1 by blast
  show "q \<le> 0 \<Longrightarrow> accept_tx env draws helper oid d = Some (void_offer_tx env x r d)"
    using o' it st by (simp add: accept_tx_def Let_def q offer_fractional_def offer_available_def)
  assume pos: "0 < q" and run: "accept_tx env draws helper oid d = Some tx"
  have i: "it \<in> set (inventoryItems d)" using it by (auto dest: by_key_Some_mem)
  have le: "q \<le> offer_available it" using computeReserveQty_le pos q by simp
  then have qa: "q \<le> i_qtyOnHand it - i_qtyReserved it" using pos by (auto simp: offer_available_def split: if_splits)
  have "item_check (reserve_item env it q it)"
    using core_invD(6)[OF db_invD(1)[OF inv]] i pos qa by (auto simp: stock_ok_def item_check_def reserve_item_def)
  then have up: "update_item (i_id it) (\<lambda>i. i\<lparr>i_qtyReserved := i_qtyReserved it + q, i_updatedAt := now env\<rparr>) d
      = Inr (d\<lparr>inventoryItems := upd_key i_id (i_id it) (reserve_item env it q) (inventoryItems d)\<rparr>)"
    using update_item_ok[where f = "reserve_item env it q", OF core_invD(1)[OF db_invD(1)[OF inv]] i]
    by (simp add: reserve_item_def[abs_def])
  have ar: "(\<lambda>x. x\<lparr>o_status := Accepted, o_respondedAt := Some (now env)\<rparr>) = accept_row env"
    by (rule ext) (simp add: accept_row_def)
  have us: "users (update_offer k f (d\<lparr>inventoryItems := is\<rparr>)) = users d" for k f "is" by (simp add: update_offer_def)
  from run o' it st pos show "\<exists>aliases. generateMatchAliases (map u_pseudonym (filter (\<lambda>u. u_id u \<in> {r_requesterId r, helper}) (users d))) draws = Some aliases
        \<and> tx = create_match_tx env x r it q aliases (reserved_db env x it q d)"
    by (auto simp: accept_tx_def Let_def q[unfolded offer_fractional_def offer_available_def, symmetric] up ar us
        reserved_db_def O1 split: option.splits)
qed

text \<open>
  C15: An accepted offer reserves the largest quantity the offer, the open part of the request and the
  free stock allow: exactly that much is reserved on the item and carried by the one new, active match,
  whose two aliases differ from each other and from both participants' pseudonyms; the offer is
  accepted and the request matched.
\<close>

theorem accept_reserves_and_matches:
  assumes "reachable d" and "own_open_offer env helper oid d = Inr (x, r)"
    and "by_key i_id (o_inventoryItemId x) (inventoryItems d) = Some it"
    and "q = computeReserveQty (o_qty x) (r_qty r - r_qtyFulfilled r) (offer_available it) (offer_fractional d r)"
    and "0 < q" and "acceptOffer env draws helper oid d = Some (d', es, res)"
  shows "\<exists>m. matches d' = matches d @ [m] \<and> m_status m = M_active \<and> m_qtyReserved m = q
     \<and> m_inventoryItemId m = i_id it \<and> m_requestId m = r_id r
     \<and> m_requesterId m = r_requesterId r \<and> m_helperId m = helper
     \<and> m_requesterAlias m \<noteq> m_helperAlias m
     \<and> (\<forall>u \<in> set (users d). u_id u \<in> {r_requesterId r, helper} \<longrightarrow> u_pseudonym u \<notin> {m_requesterAlias m, m_helperAlias m})
     \<and> inventoryItems d' = upd_key i_id (i_id it)
          (\<lambda>i. i\<lparr>i_qtyReserved := i_qtyReserved it + q, i_updatedAt := now env\<rparr>) (inventoryItems d)
     \<and> requests d' = upd_key r_id (r_id r) (\<lambda>r. r\<lparr>r_status := Matched\<rparr>) (requests d)
     \<and> matchOffers d' = upd_key o_id oid (\<lambda>x. x\<lparr>o_status := Accepted, o_respondedAt := Some (now env)\<rparr>) (matchOffers d)"
proof -
  note inv = reachable_inv[OF assms(1)]
  note O1 = own_open_offer_Inr[OF assms(2)]
  have i: "it \<in> set (inventoryItems d)" "i_id it = o_inventoryItemId x" using assms(3) by (auto dest: by_key_Some_mem)
  have xs: "x \<in> set (matchOffers d)" "o_status x = Offered" and rs: "r \<in> set (requests d)" "r_id r = o_requestId x"
    using O1 by auto
  have le: "q \<le> r_qty r - r_qtyFulfilled r" "q \<le> offer_available it"
    using computeReserveQty_le assms(4,5) by simp_all
  then have qa: "q \<le> i_qtyOnHand it - i_qtyReserved it" using assms(5) by (auto simp: offer_available_def split: if_splits)
  from assms(6) obtain tx where tx: "accept_tx env draws helper oid d = Some tx" by (auto simp: acceptOffer_def)
  obtain aliases where al: "generateMatchAliases (map u_pseudonym (filter (\<lambda>u. u_id u \<in> {r_requesterId r, helper}) (users d))) draws = Some aliases"
    "tx = create_match_tx env x r it q aliases (reserved_db env x it q d)"
    using accept_split(2)[OF inv assms(2-5) tx] by blast
  obtain d1 where d1: "tx = Inr (d1, Accept_ok (next_id d) r)"
    "matches d1 = matches d @ [(new_match env x r it q aliases)\<lparr>m_id := next_id d\<rparr>]"
    "inventoryItems d1 = upd_key i_id (i_id it) (reserve_item env it q) (inventoryItems d)"
    "requests d1 = upd_key r_id (r_id r) (\<lambda>r. r\<lparr>r_status := Matched\<rparr>) (requests d)"
    "matchOffers d1 = upd_key o_id (o_id x) (accept_row env) (matchOffers d)"
    using create_match_run[where env = env and aliases = aliases, OF inv xs(1,2) rs i assms(5) le(1) qa] al(2) by auto
  have "d' = d1" using assms(6) tx d1(1) by (simp add: acceptOffer_def)
  moreover have "reserve_item env it q = (\<lambda>i. i\<lparr>i_qtyReserved := i_qtyReserved it + q, i_updatedAt := now env\<rparr>)"
    "accept_row env = (\<lambda>x. x\<lparr>o_status := Accepted, o_respondedAt := Some (now env)\<rparr>)"
    by (simp_all add: fun_eq_iff reserve_item_def accept_row_def)
  moreover have "\<forall>u \<in> set (users d). u_id u \<in> {r_requesterId r, helper} \<longrightarrow> u_pseudonym u \<notin> {fst aliases, snd aliases}"
    using match_aliases[OF al(1)] by (force simp: image_iff)
  ultimately show ?thesis using d1 O1 match_aliases[OF al(1)] by (auto simp: new_match_def)
qed

theorem accept_reserves_and_matches_witness:
  "\<exists>d' es res m. acceptOffer (sample_env 4000) [(0, 0), (1, 1)] 2 13 offered_db = Some (d', es, res)
     \<and> matches d' = [m] \<and> m_qtyReserved m = 2 \<and> m_requesterAlias m \<noteq> m_helperAlias m"
proof -
  have w: "own_open_offer (sample_env 4000) 2 13 offered_db = Inr (sample_offer, sample_row)"
    "by_key i_id (o_inventoryItemId sample_offer) (inventoryItems offered_db) = Some sample_stock"
    "2 = computeReserveQty (o_qty sample_offer) (r_qty sample_row - r_qtyFulfilled sample_row)
          (offer_available sample_stock) (offer_fractional offered_db sample_row)"
    by code_simp+
  have "matches offered_db \<noteq> matches matched_db"
    by (simp add: offered_db_def matched_db_def sample_start_def empty_db_def)
  then have "exec_op (sample_env 4000) (Respond_offer [(0, 0), (1, 1)] 2 13 True False) offered_db \<noteq> None"
    using matched_run by (auto simp: after_op_def simp del: exec_op.simps split: option.splits)
  then obtain d' es res where a: "acceptOffer (sample_env 4000) [(0, 0), (1, 1)] 2 13 offered_db = Some (d', es, res)"
    by (auto simp: respondToOffer_def)
  from accept_reserves_and_matches[OF offered_reachable w _ a] obtain m where
    "matches d' = matches offered_db @ [m]" "m_qtyReserved m = 2" "m_requesterAlias m \<noteq> m_helperAlias m" by auto
  with a show ?thesis by (auto simp: offered_db_def sample_start_def empty_db_def)
qed

text \<open>
  When nothing can be reserved any more, accepting fails with insufficient inventory, and yet the
  failure is recorded: the offer lapses and the request goes back to searching, while inventory and
  matches stay as they are.
\<close>

theorem accept_without_stock_voids:
  assumes "reachable d" and "own_open_offer env helper oid d = Inr (x, r)"
    and "by_key i_id (o_inventoryItemId x) (inventoryItems d) = Some it"
    and "computeReserveQty (o_qty x) (r_qty r - r_qtyFulfilled r) (offer_available it) (offer_fractional d r) \<le> 0"
  shows "\<exists>d' es. acceptOffer env draws helper oid d = Some (d', es, Inl Insufficient_inventory)
     \<and> Match_job (r_id r) 0 \<in> set es
     \<and> inventoryItems d' = inventoryItems d \<and> matches d' = matches d
     \<and> requests d' = upd_key r_id (r_id r) (\<lambda>r. r\<lparr>r_status := Searching\<rparr>) (requests d)
     \<and> matchOffers d' = upd_key o_id oid (\<lambda>x. x\<lparr>o_status := Offer_lapsed, o_respondedAt := Some (now env)\<rparr>) (matchOffers d)"
proof -
  note inv = reachable_inv[OF assms(1)]
  note O1 = own_open_offer_Inr[OF assms(2)]
  let ?f = "\<lambda>x. x\<lparr>o_status := Offer_lapsed, o_respondedAt := Some (now env)\<rparr> :: match_offer"
  let ?d1 = "update_offer oid ?f d"
  have st: "r_status r = Offering" using open_offer_request(1)[OF inv] O1 by blast
  have d1: "db_inv ?d1" using inv by (rule update_offer_inv) simp
  have "\<forall>y \<in> set (matchOffers ?d1). o_requestId y = r_id r \<longrightarrow> o_status y \<noteq> Offered"
    using closed_none_left[OF inv, of x ?f] O1 by auto
  then obtain d' where t: "transitionRequest env r Searching System_actor ''insufficient-inventory'' id ?d1
      = Inr (d', r\<lparr>r_status := Searching\<rparr>)"
    "matchOffers d' = matchOffers ?d1" "matches d' = matches ?d1" "inventoryItems d' = inventoryItems ?d1"
    "requests d' = upd_key r_id (r_id r) (\<lambda>r. r\<lparr>r_status := Searching\<rparr>) (requests ?d1)"
    using transition_inv[OF d1, of r Searching id env System_actor "''insufficient-inventory''"] st O1
    by (auto simp: canTransition_def update_offer_def)
  have "accept_tx env draws helper oid d = Some (void_offer_tx env x r d)"
    using accept_split(1)[OF inv assms(2,3) refl assms(4)] .
  then show ?thesis using t O1 by (simp add: acceptOffer_def void_offer_tx_def update_offer_def)
qed

definition reduced_db :: db where
  "reduced_db = offered_db\<lparr>inventoryItems := [sample_stock\<lparr>i_qtyOnHand := 1/2, i_updatedAt := 3500\<rparr>]\<rparr>"

lemma reduced_run:
  "after_op 3500 (Update_inventory 2 10 \<lparr>ui_qtyTotal = Some (1/2), ui_details = None, ui_active = None\<rparr>) offered_db = reduced_db"
  by code_simp

lemma reduced_reachable: "reachable reduced_db"
  unfolding reduced_run[symmetric]
  by (intro after_op_reachable offered_reachable) (simp add: zUpdateInventory_def zQty_def)

theorem accept_without_stock_voids_witness:
  "\<exists>d' es. acceptOffer (sample_env 4000) [] 2 13 reduced_db = Some (d', es, Inl Insufficient_inventory)
     \<and> map r_status (requests d') = [Searching] \<and> map o_status (matchOffers d') = [Offer_lapsed]"
proof -
  have w: "own_open_offer (sample_env 4000) 2 13 reduced_db = Inr (sample_offer, sample_row)"
    "by_key i_id (o_inventoryItemId sample_offer) (inventoryItems reduced_db)
       = Some (sample_stock\<lparr>i_qtyOnHand := 1/2, i_updatedAt := 3500\<rparr>)"
    "computeReserveQty (o_qty sample_offer) (r_qty sample_row - r_qtyFulfilled sample_row)
       (offer_available (sample_stock\<lparr>i_qtyOnHand := 1/2, i_updatedAt := 3500\<rparr>)) (offer_fractional reduced_db sample_row) \<le> 0"
    by code_simp+
  from accept_without_stock_voids[OF reduced_reachable w, of "[]"] show ?thesis
    by (auto simp: reduced_db_def offered_db_def upd_key_def upd_where_def sample_row_def sample_offer_def)
qed

text \<open>
  Declining an open offer closes it, counts the response, and puts the request back into the
  search, which is scheduled at once; nothing is reserved or released.
\<close>

theorem decline_reopens_search:
  assumes "reachable d" and "own_open_offer env helper oid d = Inr (x, r)"
  shows "\<exists>d' es res. declineOffer env helper oid stop d = (d', Match_job (r_id r) 0 # es, res)
     \<and> inventoryItems d' = inventoryItems d \<and> matches d' = matches d
     \<and> requests d' = upd_key r_id (r_id r) (\<lambda>r. r\<lparr>r_status := Searching\<rparr>) (requests d)
     \<and> matchOffers d' = upd_key o_id oid (\<lambda>x. x\<lparr>o_status := Declined, o_respondedAt := Some (now env)\<rparr>) (matchOffers d)
     \<and> c_offersResponded30d (stats_of helper d') = Suc (c_offersResponded30d (stats_of helper d))"
proof -
  note inv = reachable_inv[OF assms(1)]
  note O1 = own_open_offer_Inr[OF assms(2)]
  let ?f = "\<lambda>x. x\<lparr>o_status := Declined, o_respondedAt := Some (now env)\<rparr> :: match_offer"
  let ?d1 = "update_offer oid ?f d"
  let ?d2 = "applyOfferResponded env helper ?d1"
  have st: "r_status r = Offering" using open_offer_request(1)[OF inv] O1 by blast
  have chk: "request_check (r\<lparr>r_status := Searching\<rparr>)"
    using core_invD(5)[OF db_invD(1)[OF inv]] O1 by (auto simp: requests_ok_def request_check_def)
  have rq: "requests ?d2 = requests d" by (simp add: applyOfferResponded_def core_simps update_offer_def)
  define d3 where "d3 = append_transition env (r_id r) (Some Offering) Searching Helper_actor (Some ''offer-declined'')
     (?d2\<lparr>requests := upd_key r_id (r_id r) (\<lambda>r. r\<lparr>r_status := Searching\<rparr>) (requests d)\<rparr>)"
  have tr: "transitionRequest env r Searching Helper_actor ''offer-declined'' id ?d2 = Inr (d3, r\<lparr>r_status := Searching\<rparr>)"
    using transition_ok[of "next_id d" ?d2 r Searching id env Helper_actor "''offer-declined''"]
      core_invD(2)[OF db_invD(1)[OF inv]] O1 st chk rq by (simp add: canTransition_def d3_def)
  have s: "stats_of helper d3 = stats_of helper ?d2"
    by (simp add: d3_def stats_of_def append_transition_def)
  have "c_offersResponded30d (stats_of helper ?d2) = Suc (c_offersResponded30d (stats_of helper ?d1))"
    by (simp add: applyOfferResponded_def stats_of_bump_same)
  moreover have "stats_of helper ?d1 = stats_of helper d" by (simp add: stats_of_def update_offer_def)
  moreover define d4 where "d4 = (if stop then upsert_availability helper (r_eventId r) False None (now env) d3 else d3)"
  moreover have "stats_of helper d4 = stats_of helper d3" by (simp add: d4_def stats_of_def upsert_availability_def)
  ultimately have "c_offersResponded30d (stats_of helper d4) = Suc (c_offersResponded30d (stats_of helper d))"
    using s by simp
  moreover have "decline_tx env helper oid stop d = Inr (d4, r)"
    using assms(2) st tr by (simp add: decline_tx_def Let_def d4_def)
  moreover have "inventoryItems d4 = inventoryItems d" "matches d4 = matches d"
    "requests d4 = upd_key r_id (r_id r) (\<lambda>r. r\<lparr>r_status := Searching\<rparr>) (requests d)"
    "matchOffers d4 = upd_key o_id oid ?f (matchOffers d)"
    by (simp_all add: d4_def d3_def core_simps applyOfferResponded_def update_offer_def)
  ultimately show ?thesis by (simp add: declineOffer_def)
qed

theorem decline_reopens_search_witness:
  "\<exists>d' es res. declineOffer (sample_env 4000) 2 13 False offered_db = (d', es, res)
     \<and> map o_status (matchOffers d') = [Declined] \<and> map r_status (requests d') = [Searching]"
proof -
  have "own_open_offer (sample_env 4000) 2 13 offered_db = Inr (sample_offer, sample_row)" by code_simp
  from decline_reopens_search[OF offered_reachable this, of False] show ?thesis
    by (auto simp: offered_db_def upd_key_def upd_where_def sample_row_def sample_offer_def)
qed

end
