(* ===== verification/Retries.thy ===== *)
theory Retries
  imports Scenario
begin

text \<open>
  Retrying a call that already succeeded. The clients repeat a call over an unreliable network with
  the same idempotency key; a repetition finds the row of the first call and answers with it, without
  a second row, a second job or a second notification.
\<close>

subsection \<open>Creating a request\<close>

lemma find_append_new: "find P xs = None \<Longrightarrow> P x \<Longrightarrow> find P (xs @ [x]) = Some x"
  by (induction xs) auto

lemma recordCreationTransition_tables [core_simps]:
  "requests (recordCreationTransition env rid a re d) = requests d"
  "categories (recordCreationTransition env rid a re d) = categories d"
  "matches (recordCreationTransition env rid a re d) = matches d"
  by (simp_all add: recordCreationTransition_def core_simps)

lemma upsert_location_requests [core_simps]: "requests (upsert_location env u e c d) = requests d"
  by (simp add: upsert_location_def Let_def)

lemma create_request_tx_requests:
  assumes "create_request_tx env u eid input d = Inr (d', row)"
  shows "\<exists>n. row = (new_request env u eid input)\<lparr>r_id := n\<rparr> \<and> requests d' = requests d @ [row]"
  using assms
  by (fastforce simp: create_request_tx_def Let_def aborted_request_insert_def result_elims core_simps
      split: if_splits sum.splits option.splits)

lemma createRequest_created:
  assumes "createRequest env auth input d = (d', es, Inr v)"
  shows "\<exists>row. findByIdempotencyKey d' (au_userId auth) (ri_idempotencyKey input) = Some row \<and> rv_id v = r_id row"
proof (cases "findByIdempotencyKey d (au_userId auth) (ri_idempotencyKey input)")
  case (Some row)
  with assms show ?thesis by (auto simp: createRequest_def toRequestView_def)
next
  case None
  obtain event where e: "resolveEvent d (Event_uuid (ri_eventId input)) = Some event"
    using assms None by (cases "resolveEvent d (Event_uuid (ri_eventId input))") (auto simp: createRequest_def Let_def)
  from assms None e obtain row where tx:
    "create_request_tx env (au_userId auth) (e_id event) input d = Inr (d', row)" "rv_id v = r_id row"
    by (cases "create_request_tx env (au_userId auth) (e_id event) input d")
       (auto simp: createRequest_def Let_def toRequestView_def split: option.splits if_splits prod.splits)
  from create_request_tx_requests[OF tx(1)] obtain n where
    n: "row = (new_request env (au_userId auth) (e_id event) input)\<lparr>r_id := n\<rparr>" "requests d' = requests d @ [row]" by blast
  have "findByIdempotencyKey d' (au_userId auth) (ri_idempotencyKey input) = Some row"
    using None unfolding findByIdempotencyKey_def n(2)
    by (rule find_append_new) (simp add: n(1) new_request_def)
  with tx(2) show ?thesis by blast
qed

text \<open>
  Creating a request is idempotent in its key: once a creation succeeded, repeating it with the same
  key, at any later instant and whatever else the body then says, changes nothing, enqueues and
  publishes nothing and answers with the request of the first call.
\<close>

theorem create_request_retry:
  assumes "createRequest env auth input d = (d1, es, Inr v)"
    and "ri_idempotencyKey input' = ri_idempotencyKey input"
  shows "\<exists>v'. createRequest env' auth input' d1 = (d1, [], Inr v') \<and> rv_id v' = rv_id v"
  using createRequest_created[OF assms(1)] assms(2) by (auto simp: createRequest_def toRequestView_def)

theorem create_request_retry_witness:
  "\<exists>d1 v v'. fst (createRequest (sample_env 2000) sample_auth sample_request sample_start) = d1
     \<and> snd (snd (createRequest (sample_env 2000) sample_auth sample_request sample_start)) = Inr v
     \<and> createRequest (sample_env 9000) sample_auth sample_request d1 = (d1, [], Inr v') \<and> rv_id v' = rv_id v"
proof -
  have "is_ok (snd (snd (createRequest (sample_env 2000) sample_auth sample_request sample_start)))
     = True"
  proof -
    have "(case snd (snd (createRequest (sample_env 2000) sample_auth sample_request sample_start)) of Inl _ \<Rightarrow> False | Inr _ \<Rightarrow> True)"
      by code_simp
    then show ?thesis by (auto simp: is_ok_def split: sum.splits)
  qed
  then obtain d1 es v where run: "createRequest (sample_env 2000) sample_auth sample_request sample_start = (d1, es, Inr v)"
    by (cases "createRequest (sample_env 2000) sample_auth sample_request sample_start") (auto simp: is_ok_def)
  from create_request_retry[OF run refl, of "sample_env 9000"] run show ?thesis by auto
qed

subsection \<open>Adding stock\<close>

lemma add_item_tx_items:
  assumes "add_item_tx env u eid input t d = Inr (d', row)"
  shows "\<exists>n. row = (new_item env u eid input t)\<lparr>i_id := n\<rparr> \<and> inventoryItems d' = inventoryItems d @ [row]"
  using assms
  by (fastforce simp: add_item_tx_def aborted_if_duplicate_def result_elims split: if_splits sum.splits)

lemma addInventory_created:
  assumes "addInventory env u eid input d = (d', es, Inr v)" and key: "ai_idempotencyKey input = Some key" "key \<noteq> []"
  shows "\<exists>row. find_item_by_key d' u key = Some row \<and> iv_id v = i_id row"
proof (cases "find_item_by_key d u key")
  case (Some row)
  with assms show ?thesis by (auto simp: addInventory_def toInventoryView_def)
next
  case None
  obtain event where e: "resolveEvent d (Event_uuid eid) = Some event"
    using assms None by (cases "resolveEvent d (Event_uuid eid)") (auto simp: addInventory_def)
  from assms None e obtain row where tx:
    "add_item_tx env u eid input (e_endsAt event) d = Inr (d', row)" "iv_id v = i_id row"
    by (cases "add_item_tx env u eid input (e_endsAt event) d")
       (auto simp: addInventory_def Let_def toInventoryView_def split: option.splits if_splits prod.splits)
  from add_item_tx_items[OF tx(1)] obtain n where
    n: "row = (new_item env u eid input (e_endsAt event))\<lparr>i_id := n\<rparr>" "inventoryItems d' = inventoryItems d @ [row]" by blast
  have "find_item_by_key d' u key = Some row"
    using None unfolding find_item_by_key_def n(2)
    by (rule find_append_new) (simp add: n(1) new_item_def key)
  with tx(2) show ?thesis by blast
qed

text \<open>
  Adding stock with an idempotency key is idempotent: repeating a successful call with the same key
  changes nothing and answers with the item of the first call.
\<close>

theorem add_inventory_retry:
  assumes "addInventory env u eid input d = (d1, es, Inr v)"
    and "ai_idempotencyKey input = Some key" and "zAddInventory input"
    and "ai_idempotencyKey input' = Some key"
  shows "\<exists>v'. addInventory env' u eid' input' d1 = (d1, [], Inr v') \<and> iv_id v' = iv_id v"
proof -
  have "key \<noteq> []" using assms(2,3) by (auto simp: zAddInventory_def valid_opt_def zIdempotencyKey_def)
  with addInventory_created[OF assms(1,2)] assms(4) show ?thesis
    by (auto simp: addInventory_def toInventoryView_def)
qed

theorem add_inventory_retry_witness:
  "\<exists>d1 v v'. fst (addInventory (sample_env 1000) 2 3 sample_item sample_start) = d1
     \<and> snd (snd (addInventory (sample_env 1000) 2 3 sample_item sample_start)) = Inr v
     \<and> addInventory (sample_env 9000) 2 3 sample_item d1 = (d1, [], Inr v') \<and> iv_id v' = iv_id v"
proof -
  have "(case snd (snd (addInventory (sample_env 1000) 2 3 sample_item sample_start)) of Inl _ \<Rightarrow> False | Inr _ \<Rightarrow> True)"
    by code_simp
  then obtain d1 es v where run: "addInventory (sample_env 1000) 2 3 sample_item sample_start = (d1, es, Inr v)"
    by (cases "addInventory (sample_env 1000) 2 3 sample_item sample_start") (auto split: sum.splits)
  have "ai_idempotencyKey sample_item = Some ''item-0001''" "zAddInventory sample_item"
    by (simp_all add: sample_item_def zAddInventory_def zQty_def zIdempotencyKey_def valid_opt_def)
  from add_inventory_retry[OF run this this(1), of "sample_env 9000" 3] run show ?thesis by auto
qed

subsection \<open>Sending a message\<close>

lemma insert_message_messages:
  assumes "insert_message (new_message env cid viewer input body) d = Inr (d', row)"
  shows "row = (new_message env cid viewer input body)\<lparr>ms_id := next_id d\<rparr> \<and> messages d' = messages d @ [row]
     \<and> conversations d' = conversations d \<and> matches d' = matches d"
  using assms by (auto simp: result_elims)

lemma contextForViewer_frame:
  "conversations d' = conversations d \<Longrightarrow> matches d' = matches d \<Longrightarrow> contextForViewer d' cid v = contextForViewer d cid v"
  by (simp add: contextForViewer_def)

lemma sendMessage_created:
  assumes "sendMessage env cid viewer input d = (d', es, Inr v)"
  shows "\<exists>row cx. findExisting d' viewer (mi_clientMsgId input) = Some row \<and> xv_id v = ms_id row
     \<and> contextForViewer d' cid viewer = Inr cx"
proof -
  obtain cx where cx: "contextForViewer d cid viewer = Inr cx"
    using assms by (cases "contextForViewer d cid viewer") (auto simp: sendMessage_def)
  show ?thesis
  proof (cases "findExisting d viewer (mi_clientMsgId input)")
    case (Some row)
    with assms cx show ?thesis by (auto simp: sendMessage_def Let_def toMessage_def)
  next
    case None
    then obtain body where body: "message_body input = Inr body"
      using assms cx by (cases "message_body input") (auto simp: sendMessage_def Let_def split: if_splits)
    from assms cx None body obtain row where
      ins: "insert_message (new_message env cid viewer input body) d = Inr (d', row)" "xv_id v = ms_id row"
      by (cases "insert_message (new_message env cid viewer input body) d")
         (auto simp: sendMessage_def Let_def toMessage_def split: if_splits prod.splits)
    note I = insert_message_messages[OF ins(1)]
    have "findExisting d' viewer (mi_clientMsgId input) = Some row"
      using None unfolding findExisting_def conjunct1[OF conjunct2[OF I]]
      by (rule find_append_new) (simp add: conjunct1[OF I] new_message_def)
    moreover have "contextForViewer d' cid viewer = Inr cx" using contextForViewer_frame[of d' d] I cx by simp
    ultimately show ?thesis using ins(2) by blast
  qed
qed

text \<open>
  Sending a message is idempotent in the client's message id: repeating a successful send stores no
  second message, publishes nothing to the peer and answers with the stored message, even when the
  grace window of the conversation has passed in the meantime.
\<close>

theorem send_message_retry:
  assumes "sendMessage env cid viewer input d = (d1, es, Inr v)"
    and "mi_clientMsgId input' = mi_clientMsgId input"
  shows "\<exists>v'. sendMessage env' cid viewer input' d1 = (d1, [], Inr v') \<and> xv_id v' = xv_id v"
  using sendMessage_created[OF assms(1)] assms(2) by (auto simp: sendMessage_def Let_def toMessage_def)

definition sample_text :: send_message_input where
  "sample_text = \<lparr>mi_quick = False, mi_body = lit ''by the gate'', mi_clientMsgId = ''message-1''\<rparr>"

theorem send_message_retry_witness:
  "\<exists>d1 v v'. fst (sendMessage (sample_env 5000) 17 1 sample_text matched_db) = d1
     \<and> snd (snd (sendMessage (sample_env 5000) 17 1 sample_text matched_db)) = Inr v
     \<and> sendMessage (sample_env 9999999) 17 1 sample_text d1 = (d1, [], Inr v') \<and> xv_id v' = xv_id v"
proof -
  have "(case snd (snd (sendMessage (sample_env 5000) 17 1 sample_text matched_db)) of Inl _ \<Rightarrow> False | Inr _ \<Rightarrow> True)"
    by code_simp
  then obtain d1 es v where run: "sendMessage (sample_env 5000) 17 1 sample_text matched_db = (d1, es, Inr v)"
    by (cases "sendMessage (sample_env 5000) 17 1 sample_text matched_db") (auto split: sum.splits)
  from send_message_retry[OF run refl, of "sample_env 9999999"] run show ?thesis by auto
qed

end
