(* ===== verification/Rules.thy ===== *)
theory Rules
  imports Ranking Offers
begin

text \<open>
  The pure rules of the exchange and what they guarantee: the reserved quantity, the redaction of
  contact numbers, coarse locations and proximity buckets, scores and labels, the ranking, pseudonyms.
\<close>

subsection \<open>Ordered vocabularies\<close>

text \<open>Buckets are ordered from near to far, with the unknown one last; labels from new to highly reliable.\<close>

instantiation proximity_bucket :: linorder
begin

definition less_eq_proximity_bucket :: "proximity_bucket \<Rightarrow> proximity_bucket \<Rightarrow> bool" where
  "less_eq_proximity_bucket a b \<longleftrightarrow> BUCKET_RANK a \<le> BUCKET_RANK b"

definition less_proximity_bucket :: "proximity_bucket \<Rightarrow> proximity_bucket \<Rightarrow> bool" where
  "less_proximity_bucket a b \<longleftrightarrow> BUCKET_RANK a < BUCKET_RANK b"

instance
proof
  fix a b c :: proximity_bucket
  show "a \<le> b \<Longrightarrow> b \<le> a \<Longrightarrow> a = b"
    by (cases a; cases b) (simp_all add: less_eq_proximity_bucket_def)
qed (auto simp: less_eq_proximity_bucket_def less_proximity_bucket_def)

end

fun label_rank :: "reliability_label \<Rightarrow> nat" where
  "label_rank New_helper = 0"
| "label_rank Active_helper = 1"
| "label_rank Reliable_helper = 2"
| "label_rank Highly_reliable_helper = 3"

instantiation reliability_label :: linorder
begin

definition less_eq_reliability_label :: "reliability_label \<Rightarrow> reliability_label \<Rightarrow> bool" where
  "less_eq_reliability_label a b \<longleftrightarrow> label_rank a \<le> label_rank b"

definition less_reliability_label :: "reliability_label \<Rightarrow> reliability_label \<Rightarrow> bool" where
  "less_reliability_label a b \<longleftrightarrow> label_rank a < label_rank b"

instance
proof
  fix a b c :: reliability_label
  show "a \<le> b \<Longrightarrow> b \<le> a \<Longrightarrow> a = b"
    by (cases a; cases b) (simp_all add: less_eq_reliability_label_def)
qed (auto simp: less_eq_reliability_label_def less_reliability_label_def)

end

lemmas order_defs = less_eq_proximity_bucket_def less_proximity_bucket_def
  less_eq_reliability_label_def less_reliability_label_def

subsection \<open>Quantities\<close>

text \<open>The quantities an accept may reserve: within the three limits, and whole unless fractions are allowed.\<close>

definition admissible :: "qty \<Rightarrow> qty \<Rightarrow> qty \<Rightarrow> bool \<Rightarrow> qty \<Rightarrow> bool" where
  "admissible offerQty remaining available fractional p \<longleftrightarrow>
     p \<le> offerQty \<and> p \<le> remaining \<and> p \<le> available \<and> (fractional \<or> is_integer p)"

lemma is_integer_floor [simp]: "is_integer (of_int \<lfloor>q\<rfloor>)"
  by (simp add: is_integer_def)

lemma is_integer_le_floor: "is_integer p \<Longrightarrow> p \<le> q \<Longrightarrow> p \<le> of_int \<lfloor>q\<rfloor>"
  unfolding is_integer_def by (metis floor_mono of_int_le_iff)

text \<open>
  The reserved quantity is the greatest admissible one when that is positive, and 0 exactly when no
  positive quantity is admissible.
\<close>

theorem reserve_quantity_greatest:
  shows "(0 < q \<and> computeReserveQty offerQty remaining available fractional = q \<longleftrightarrow>
      0 < q \<and> admissible offerQty remaining available fractional q
      \<and> {p. admissible offerQty remaining available fractional p} \<subseteq> {..q})
    \<and> (computeReserveQty offerQty remaining available fractional = 0 \<longleftrightarrow>
      {p. admissible offerQty remaining available fractional p} \<subseteq> {..0})"
proof -
  define x where "x = min (min offerQty remaining) available"
  define z where "z = (if fractional then x else of_int \<lfloor>x\<rfloor>)"
  have run: "computeReserveQty offerQty remaining available fractional = (if 0 < z then z else 0)"
    unfolding computeReserveQty_def Let_def z_def x_def ..
  have z: "admissible offerQty remaining available fractional z"
  proof -
    have "x \<le> offerQty \<and> x \<le> remaining \<and> x \<le> available" by (auto simp: x_def min_def)
    then show ?thesis using of_int_floor_le[of x]
      by (auto simp: admissible_def z_def simp del: of_int_floor_le intro: order_trans)
  qed
  have top: "p \<le> z" if "admissible offerQty remaining available fractional p" for p
    using that by (auto simp: admissible_def z_def x_def intro: is_integer_le_floor)
  have low: "p \<le> 0" if "\<not> 0 < z" "admissible offerQty remaining available fractional p" for p
    using top[OF that(2)] that(1) by linarith
  show ?thesis
  proof (cases "0 < z")
    case True
    with run z top show ?thesis by (auto simp: subset_iff intro: antisym)
  next
    case False
    with run low[OF False] show ?thesis by (auto simp: subset_iff dest: leD)
  qed
qed

subsection \<open>Contact numbers and locations\<close>

text \<open>
  C40: Redaction leaves no stretch of digits and separators with eight digits or more, changes a text only
  when it holds one, and is idempotent.
\<close>

theorem redaction_complete_and_exact:
  "\<not> has_contact_number (redactContactDetails t)
     \<and> (redactContactDetails t = t \<longleftrightarrow> \<not> has_contact_number t)
     \<and> redactContactDetails (redactContactDetails t) = redactContactDetails t"
  using redact_no_contact_number[of t] redact_unchanged[of t] redact_idem[of t] by metis

text \<open>
  A stored location is within half a thousandth of a degree of the one sent, and coarsening it again
  changes nothing: what was stored says no more than the grid cell.
\<close>

theorem coarsen_close_and_stable:
  "\<bar>fst (coarsen lat lng) - lat\<bar> \<le> 1/2000 \<and> \<bar>snd (coarsen lat lng) - lng\<bar> \<le> 1/2000
     \<and> coarsen (fst (coarsen lat lng)) (snd (coarsen lat lng)) = coarsen lat lng
     \<and> is_integer (1000 * fst (coarsen lat lng)) \<and> is_integer (1000 * snd (coarsen lat lng))"
  using coarsen_close[of lat lng] coarsen_idem[of lat lng]
  by (simp add: coarsen_def Let_def locationPrecisionDecimals_def is_integer_def)

text \<open>
  Buckets never invert a distance: a shorter distance falls into the same or a nearer bucket, and a
  missing distance into the last one.
\<close>

theorem buckets_monotone:
  assumes "a \<le> b"
  shows "bucketForDistanceM (Some a) \<le> bucketForDistanceM (Some b)
     \<and> bucketForDistanceM (Some b) < bucketForDistanceM None"
  using assms by (auto simp: order_defs within_threshold_def)

theorem buckets_monotone_witness:
  "bucketForDistanceM (Some 400) \<le> bucketForDistanceM (Some 401) \<and> bucketForDistanceM (Some 401) = Short_walk"
  using buckets_monotone[of 400 401] by (simp add: within_threshold_def)

subsection \<open>Reliability\<close>

text \<open>
  The completion score lies strictly between 0 and 1, and a helper with at least as many completions
  and no more cancellations, timeouts and no-shows has no lower score and no lower label.
\<close>

theorem better_record_no_lower_label:
  assumes "c_completed a \<le> c_completed b"
    and "c_cancelledPreMeeting b \<le> c_cancelledPreMeeting a"
    and "c_cancelledPostMeeting b + c_timeouts b + c_noShows b
           \<le> c_cancelledPostMeeting a + c_timeouts a + c_noShows a"
  shows "0 < completionScore a \<and> completionScore a \<le> completionScore b \<and> completionScore b < 1
     \<and> reliabilityLabel a \<le> reliabilityLabel b"
  using completionScore_mono[OF assms] completionScore_pos[of a] completionScore_lt_1[of b] assms(1)
  by (auto simp: reliabilityLabel_def Let_def order_defs)

theorem better_record_no_lower_label_witness:
  "reliabilityLabel (new_counters\<lparr>c_completed := 8, c_noShows := 1\<rparr>)
     \<le> reliabilityLabel (new_counters\<lparr>c_completed := 8\<rparr>)
     \<and> reliabilityLabel (new_counters\<lparr>c_completed := 8\<rparr>) = Reliable_helper"
  using better_record_no_lower_label[of "new_counters\<lparr>c_completed := 8, c_noShows := 1\<rparr>" "new_counters\<lparr>c_completed := 8\<rparr>"]
  by (simp add: new_counters_def reliabilityLabel_def completionScore_def)

subsection \<open>The ranking\<close>

text \<open>
  Ranking neither drops nor invents nor duplicates a candidate, and no candidate precedes another
  with a lower score.
\<close>

theorem ranking_permutes_and_sorts:
  "mset (rankCandidates rng cs) = mset cs
     \<and> (\<forall>j < length cs. \<forall>i \<le> j. \<exists>a < length cs. \<exists>b < length cs. rankCandidates rng cs ! i = cs ! a
          \<and> rankCandidates rng cs ! j = cs ! b
          \<and> scoreCandidate (cs ! a) (rng a) \<le> scoreCandidate (cs ! b) (rng b))"
  using rank_mset[of rng cs] rank_nth_le[of _ _ cs rng] by blast

definition plain_candidate :: "uid \<Rightarrow> qty option \<Rightarrow> nat \<Rightarrow> candidate" where
  "plain_candidate u x n = \<lparr>cn_helperId = u, cn_itemId = u, cn_availableQty = 1, cn_distanceM = x,
     cn_recentOffers = n, cn_counters = new_counters\<rparr>"

theorem ranking_permutes_and_sorts_witness:
  "mset (rankCandidates (\<lambda>_. 0) [plain_candidate 1 (Some 500) 0, plain_candidate 2 (Some 100) 0])
     = mset [plain_candidate 2 (Some 100) 0, plain_candidate 1 (Some 500) 0]"
  using ranking_permutes_and_sorts[of "\<lambda>_. 0" "[plain_candidate 1 (Some 500) 0, plain_candidate 2 (Some 100) 0]"]
  by (simp add: add_mset_commute)

lemma bucket_step: "bucketForDistanceM x < bucketForDistanceM y \<Longrightarrow>
    BUCKET_RANK (bucketForDistanceM x) + 1 \<le> BUCKET_RANK (bucketForDistanceM y)"
  by (cases "bucketForDistanceM x"; cases "bucketForDistanceM y") (simp_all add: order_defs)

text \<open>
  Between helpers who were asked equally often lately (up to the cap), proximity decides: the nearer
  bucket has the lower score, whatever the reliability counters and the jitter in [0, 1) are.
\<close>

theorem proximity_decides_among_equals:
  assumes "bucketForDistanceM (cn_distanceM a) < bucketForDistanceM (cn_distanceM b)"
    and "min (cn_recentOffers a) FAIRNESS_RECENT_OFFERS_CAP = min (cn_recentOffers b) FAIRNESS_RECENT_OFFERS_CAP"
    and "c_offersResponded30d (cn_counters a) \<le> c_offersReceived30d (cn_counters a)"
    and "c_offersResponded30d (cn_counters b) \<le> c_offersReceived30d (cn_counters b)"
    and "0 \<le> ja" "ja < 1" "0 \<le> jb" "jb < 1"
  shows "scoreCandidate a ja < scoreCandidate b jb"
  using bucket_step[OF assms(1)] assms(2,5-8) rankingReliability_bounds[OF assms(3)] rankingReliability_bounds[OF assms(4)]
  by (simp add: scoreCandidate_def DISTANCE_WEIGHT_def RELIABILITY_WEIGHT_def)

theorem proximity_decides_among_equals_witness:
  "scoreCandidate (plain_candidate 1 (Some 100) 2) (9/10) < scoreCandidate (plain_candidate 2 None 2) 0"
  using proximity_decides_among_equals[of "plain_candidate 1 (Some 100) 2" "plain_candidate 2 None 2" "9/10" 0]
  by (simp add: plain_candidate_def new_counters_def order_defs within_threshold_def)

text \<open>
  Proximity does not decide once the recent offers differ: a helper without a location who was not
  asked lately is ranked before an equally reliable helper of known distance who was asked five times.
\<close>

theorem unknown_location_not_last:
  "rankCandidates (\<lambda>_. 0) [plain_candidate 1 (Some 2000) 5, plain_candidate 2 None 0]
     = [plain_candidate 2 None 0, plain_candidate 1 (Some 2000) 5]"
  by code_simp

subsection \<open>Pseudonyms\<close>

text \<open>
  Two pseudonyms are the same word pair only when their indexes are, so the word lists give
  32 times 32 distinct pseudonyms.
\<close>

theorem pseudonyms_distinct:
  assumes "a \<in> {0..<32}" "n \<in> {0..<32}" "a' \<in> {0..<32}" "n' \<in> {0..<32}"
  shows "pseudonymFromIndexes a n = pseudonymFromIndexes a' n' \<longleftrightarrow> a = a' \<and> n = n'"
  using pseudonymFromIndexes_inj[of a n a' n'] assms by auto

theorem pseudonyms_distinct_witness: "pseudonymFromIndexes 3 4 \<noteq> pseudonymFromIndexes 4 3"
  using pseudonyms_distinct[of 3 4 4 3] by simp

end
