(* ===== verification/Crypto_Laws.thy ===== *)
theory Crypto_Laws
  imports Crypto
begin

text \<open>
  Round trips of \<open>Crypto\<close>: base64, a sealed address, a password record. The laws of the primitives are
  hypotheses: what is sealed can be opened, \<open>Number\<close> reads a decimal number, a derived key is not empty.
\<close>

subsection \<open>Base64\<close>

lemma alphabet_table: "list_all (\<lambda>n. sextet (BASE64 ! n) = Some n \<and> BASE64 ! n \<noteq> CHR ''='' \<and> BASE64 ! n \<noteq> CHR ''$'') [0..<64]"
  by code_simp

lemma alphabet [simp]:
  assumes "n < 64"
  shows "sextet (BASE64 ! n) = Some n" "BASE64 ! n \<noteq> CHR ''=''" "BASE64 ! n \<noteq> CHR ''$''"
  using alphabet_table assms by (auto simp: list_all_iff)

fun sextets :: "nat list \<Rightarrow> nat list" where
  "sextets [] = []"
| "sextets [a] = [a div 4, (a mod 4) * 16]"
| "sextets [a, b] = [a div 4, (a mod 4) * 16 + b div 16, (b mod 16) * 4]"
| "sextets (a # b # c # r) = [a div 4, (a mod 4) * 16 + b div 16, (b mod 16) * 4 + c div 64, c mod 64] @ sextets r"

definition is_bytes :: "nat list \<Rightarrow> bool" where
  "is_bytes bs \<longleftrightarrow> list_all (\<lambda>b. b < 256) bs"

lemma sextet_bounds:
  assumes "b < 256"
  shows "b div 4 < (64::nat)" "(a mod 4) * 16 < (64::nat)" "(a mod 4) * 16 + b div 16 < (64::nat)"
    "(a mod 16) * 4 < (64::nat)" "(a mod 16) * 4 + b div 64 < (64::nat)" "b mod 64 < (64::nat)"
proof -
  have "a mod 4 < 4" "a mod 16 < 16" "b div 16 < 16" "b div 64 < 4" using assms by auto
  then show "(a mod 4) * 16 < (64::nat)" "(a mod 4) * 16 + b div 16 < (64::nat)"
    "(a mod 16) * 4 < (64::nat)" "(a mod 16) * 4 + b div 64 < (64::nat)" by linarith+
qed (use assms in auto)

lemma read_base64: "is_bytes bs \<Longrightarrow> List.map_filter sextet (takeWhile (\<lambda>c. c \<noteq> CHR ''='') (to_base64 bs)) = sextets bs"
  by (induction bs rule: to_base64.induct)
     (simp_all add: is_bytes_def sextet_bounds List.map_filter_simps)

lemma of_sextets_sextets: "is_bytes bs \<Longrightarrow> of_sextets (sextets bs) = bs"
proof (induction bs rule: sextets.induct)
  case (4 a b c r)
  then have b: "a < 256" "b < 256" "c < 256" by (simp_all add: is_bytes_def)
  have "((a mod 4) * 16 + b div 16) div 16 = a mod 4" "((a mod 4) * 16 + b div 16) mod 16 = b div 16"
    "((b mod 16) * 4 + c div 64) div 4 = b mod 16" "((b mod 16) * 4 + c div 64) mod 4 = c div 64"
    using b by auto
  then have "(a div 4) * 4 + ((a mod 4) * 16 + b div 16) div 16 = a"
    "(((a mod 4) * 16 + b div 16) mod 16) * 16 + ((b mod 16) * 4 + c div 64) div 4 = b"
    "(((b mod 16) * 4 + c div 64) mod 4) * 64 + c mod 64 = c" by simp_all
  with 4 show ?case by (simp add: is_bytes_def)
qed (auto simp: is_bytes_def)

lemma base64_roundtrip: "is_bytes bs \<Longrightarrow> from_base64 (to_base64 bs) = bs"
  by (simp add: from_base64_def read_base64 of_sextets_sextets)

lemma base64_no_dollar: "is_bytes bs \<Longrightarrow> CHR ''$'' \<notin> set (to_base64 bs)"
  by (induction bs rule: to_base64.induct) (simp_all add: is_bytes_def sextet_bounds alphabet(3) not_sym[OF alphabet(3)])

subsection \<open>Sealed addresses\<close>

text \<open>
  C39: What \<open>encryptPii\<close> stores, \<open>decryptPii\<close> reads back: the twelve bytes of the nonce, the sixteen of the
  tag and the ciphertext are found again behind the base64 text, for a cipher that opens what it sealed.
\<close>

theorem sealed_address_roundtrip:
  assumes "\<And>enc tag. seal iv plain = (enc, tag) \<Longrightarrow> unseal iv tag enc = Some plain \<and> length tag = 16 \<and> is_bytes tag \<and> is_bytes enc"
    and "length iv = 12" "is_bytes iv"
  shows "decryptPii unseal (encryptPii seal iv plain) = Some plain"
proof -
  obtain enc tag where s: "seal iv plain = (enc, tag)" by (cases "seal iv plain")
  with assms(1) have t: "unseal iv tag enc = Some plain" "length tag = 16" "is_bytes tag" "is_bytes enc" by auto
  then have "from_base64 (to_base64 (iv @ tag @ enc)) = iv @ tag @ enc"
    using assms(3) by (intro base64_roundtrip) (simp add: is_bytes_def)
  with s t assms(2) show ?thesis by (simp add: encryptPii_def decryptPii_def)
qed

theorem sealed_address_roundtrip_witness:
  "decryptPii (\<lambda>iv tag enc. if tag = take 16 (iv @ enc) then Some (rev enc) else None)
     (encryptPii (\<lambda>iv plain. (rev plain, take 16 (iv @ rev plain))) (replicate 12 7) [97, 64, 98, 46, 99]) = Some [97, 64, 98, 46, 99]"
  by (rule sealed_address_roundtrip) (auto simp: is_bytes_def list_all_iff)

subsection \<open>Password records\<close>

lemma split_by_append: "x \<notin> set w \<Longrightarrow> split_by x (w @ x # s) = w # split_by x s"
  by (induction w) (auto split: list.split)

lemma split_by_word: "x \<notin> set w \<Longrightarrow> split_by x w = [w]"
  by (induction w) auto

lemma digit_no_dollar:
  assumes "n < 10"
  shows "CHR ''$'' \<noteq> digit_char n"
proof -
  have "list_all (\<lambda>n. CHR ''$'' \<noteq> digit_char n) [0..<10]" by code_simp
  with assms show ?thesis by (simp add: list_all_iff)
qed

lemma decimal_no_dollar: "CHR ''$'' \<notin> set (decimal n)"
  by (induction n rule: decimal.induct) (subst decimal.simps, simp add: digit_no_dollar)

text \<open>
  A stored password record accepts exactly the passwords whose derived key is the stored one: the cost,
  the salt and the key are read back from the record as they were written, so a retuned cost never
  invalidates a record, and the right password is always accepted.
\<close>

theorem password_record_roundtrip:
  assumes "\<And>n. toNumber (decimal n) = Some (int n)"
    and "\<And>pw key. scrypt pw salt 32 (2 ^ costLog2) 8 1 = Some key \<Longrightarrow> length key = 32 \<and> is_bytes key"
    and "is_bytes salt" and made: "hashPassword scrypt nfkc costLog2 salt password = Some stored"
  shows "verifyPassword scrypt nfkc toNumber attempt stored
     \<longleftrightarrow> scrypt (nfkc attempt) salt 32 (2 ^ costLog2) 8 1 = scrypt (nfkc password) salt 32 (2 ^ costLog2) 8 1"
proof -
  obtain key where key: "scrypt (nfkc password) salt 32 (2 ^ costLog2) 8 1 = Some key"
    and stored: "stored = ''scrypt'' @ CHR ''$'' # decimal (2 ^ costLog2) @ CHR ''$'' # decimal 8 @ CHR ''$'' # decimal 1
        @ CHR ''$'' # to_base64 salt @ CHR ''$'' # to_base64 key"
    using made by (auto simp: hashPassword_def simp del: decimal_steps)
  have k: "length key = 32" "is_bytes key" using assms(2)[OF key] by auto
  have parts: "split_by (CHR ''$'') stored
      = [''scrypt'', decimal (2 ^ costLog2), decimal 8, decimal 1, to_base64 salt, to_base64 key]"
    unfolding stored by (subst split_by_append split_by_word,
        simp del: decimal_steps add: decimal_no_dollar base64_no_dollar[OF assms(3)] base64_no_dollar[OF k(2)])+
       (simp del: decimal_steps)
  show ?thesis
    using k key assms(1)[of "2 ^ costLog2"] assms(1)[of 8] assms(1)[of 1]
    by (auto simp: verifyPassword_def parts base64_roundtrip[OF assms(3)] base64_roundtrip[OF k(2)] split: option.split
        simp del: decimal_steps)
qed


definition digit_value :: "char \<Rightarrow> nat" where
  "digit_value c = (case index_of c ''0123456789'' of Some k \<Rightarrow> k | None \<Rightarrow> 0)"

definition read_number :: "string \<Rightarrow> int option" where
  "read_number s = Some (int (foldl (\<lambda>a c. a * 10 + digit_value c) 0 s))"

lemma digit_value: "m < 10 \<Longrightarrow> digit_value (digit_char m) = m"
proof -
  have "list_all (\<lambda>m. digit_value (digit_char m) = m) [0..<10]" by code_simp
  then show "m < 10 \<Longrightarrow> digit_value (digit_char m) = m" by (simp add: list_all_iff)
qed

lemma read_number_decimal: "read_number (decimal n) = Some (int n)"
proof -
  have "foldl (\<lambda>a c. a * 10 + digit_value c) 0 (decimal n) = n"
  proof (induction n rule: decimal.induct)
    case (1 n)
    then show ?case
      by (cases "n < 10"; subst decimal.simps) (simp_all add: digit_value del: decimal_steps)
  qed
  then show ?thesis by (simp add: read_number_def)
qed

definition toy_scrypt :: scrypt_fun where
  "toy_scrypt pw salt keyLen N r p = Some (take 32 (map (\<lambda>c. c mod 256) pw @ replicate 32 0))"

theorem password_record_roundtrip_witness:
  "\<exists>stored. hashPassword toy_scrypt id 4 [1, 2, 3] [112, 119] = Some stored
     \<and> verifyPassword toy_scrypt id read_number [112, 119] stored \<and> \<not> verifyPassword toy_scrypt id read_number [112, 120] stored"
proof -
  obtain stored where made: "hashPassword toy_scrypt id 4 [1, 2, 3] [112, 119] = Some stored"
    by (simp add: hashPassword_def toy_scrypt_def del: decimal_steps)
  have key: "length k = 32 \<and> is_bytes k" if "toy_scrypt pw [1, 2, 3] 32 (2 ^ 4) 8 1 = Some k" for pw k
    using that by (auto simp: toy_scrypt_def is_bytes_def list_all_iff dest!: in_set_takeD)
  have "verifyPassword toy_scrypt id read_number attempt stored
     \<longleftrightarrow> toy_scrypt (id attempt) [1, 2, 3] 32 (2 ^ 4) 8 1 = toy_scrypt (id [112, 119]) [1, 2, 3] 32 (2 ^ 4) 8 1" for attempt
    by (rule password_record_roundtrip[OF read_number_decimal key _ made]) (simp_all add: is_bytes_def)
  with made show ?thesis by (auto simp: toy_scrypt_def)
qed

subsection \<open>One-time codes\<close>

text \<open>
  A one-time code consists of the last decimal digits of the first bytes below 250 that are drawn, in
  order; each digit comes from exactly 25 of these 250 values, so no digit is more likely than another.
  Only a source that stops yielding bytes below 250 keeps the code from being completed.
\<close>

theorem otp_digits_unbiased:
  "newOtpCode n draws = (let ok = filter (\<lambda>b. b < 250) draws in
       if n \<le> length ok then Some (map (\<lambda>b. digit_char (b mod 10)) (take n ok)) else None)
   \<and> list_all (\<lambda>digit. length (filter (\<lambda>b. b mod 10 = digit) [0..<250]) = 25) [0..<10]"
proof
  show "newOtpCode n draws = (let ok = filter (\<lambda>b. b < 250) draws in
       if n \<le> length ok then Some (map (\<lambda>b. digit_char (b mod 10)) (take n ok)) else None)"
    by (induction n draws rule: newOtpCode.induct) (auto simp: Let_def)
  have "length (filter (\<lambda>b. b mod 10 = digit) [0..<250]) = 25" if "digit < 10" for digit :: nat
  proof -
    have "b \<in> (\<lambda>k. 10 * k + digit) ` {..<25}" if "b < 250" "b mod 10 = digit" for b
      using that by (intro image_eqI[of _ _ "b div 10"]) auto
    then have "{0..<250} \<inter> {b. b mod 10 = digit} = (\<lambda>k. 10 * k + digit) ` {..<25}" using \<open>digit < 10\<close> by auto
    moreover have "inj_on (\<lambda>k. 10 * k + digit) {..<25}" by (simp add: inj_on_def)
    ultimately show ?thesis by (simp add: distinct_length_filter card_image Int_commute)
  qed
  then show "list_all (\<lambda>digit. length (filter (\<lambda>b. b mod 10 = digit) [0..<250]) = 25) [0..<10]"
    by (simp add: list_all_iff)
qed


end
