(* ===== verification/Accounts.thy ===== *)
theory Accounts
  imports Crypto Moderation Availability_Service
begin

text \<open>
  \<open>server/src/modules/auth/service.ts\<close>, \<open>plugins/auth.ts\<close> and the staff accounts of
  \<open>admin/service.ts\<close>: one-time codes, password sign-in, credentials, sessions and the bearer check.
  The keyed primitives come in a record; random draws are arguments; the rate limiter's answers are
  arguments too (false when the limiter fails).
\<close>

record crypto =
  k_hmac :: "utext \<Rightarrow> string"
  k_sha256 :: "utext \<Rightarrow> string"
  k_lower :: "utext \<Rightarrow> utext"
  k_nfkc :: "utext \<Rightarrow> utext"
  k_scrypt :: scrypt_fun
  k_number :: "string \<Rightarrow> int option"
  k_costLog2 :: nat

definition blind_index :: "crypto \<Rightarrow> utext \<Rightarrow> string" where
  "blind_index k email = emailBlindIndex (k_hmac k) (k_lower k) email"

definition normalized_username :: "crypto \<Rightarrow> utext \<Rightarrow> utext" where
  "normalized_username k username = k_lower k (js_trim username)"

definition check_password :: "crypto \<Rightarrow> utext \<Rightarrow> string \<Rightarrow> bool" where
  "check_password k password stored = verifyPassword (k_scrypt k) (k_nfkc k) (k_number k) password stored"

definition OTP_RETRY_AFTER_SECONDS :: nat where "OTP_RETRY_AFTER_SECONDS = 60"

definition randomPseudonym :: "int \<times> int \<Rightarrow> string" where
  "randomPseudonym draw = pseudonymFromIndexes (fst draw) (snd draw)"

record me =
  me_id :: uid
  me_pseudonym :: string
  me_avatarSeed :: string
  me_locale :: string
  me_role :: user_role
  me_status :: user_status
  me_emailVerified :: bool
  me_createdAt :: instant
  me_mustChangePassword :: bool

definition toMe :: "user \<Rightarrow> me" where
  "toMe u = \<lparr>me_id = u_id u, me_pseudonym = u_pseudonym u, me_avatarSeed = u_avatarSeed u,
     me_locale = (if u_locale u = ''hi'' then ''hi'' else ''en''), me_role = u_role u, me_status = u_status u,
     me_emailVerified = (u_emailVerifiedAt u \<noteq> None), me_createdAt = u_createdAt u,
     me_mustChangePassword = u_mustChangePassword u\<rparr>"

subsection \<open>Usernames\<close>

definition is_name_edge :: "nat \<Rightarrow> bool" where
  "is_name_edge c \<longleftrightarrow> (97 \<le> c \<and> c \<le> 122) \<or> (48 \<le> c \<and> c \<le> 57)"

definition is_name_char :: "nat \<Rightarrow> bool" where
  "is_name_char c \<longleftrightarrow> is_name_edge c \<or> c \<in> set [46, 95, 45]"

text \<open>\<open>zUsername\<close>: the length is checked before the transform, the pattern after it.\<close>

definition username_pattern :: "utext \<Rightarrow> bool" where
  "username_pattern t \<longleftrightarrow> t \<noteq> [] \<and> is_name_edge (hd t) \<and> is_name_edge (last t) \<and> list_all is_name_char t"

definition zUsername :: "crypto \<Rightarrow> utext \<Rightarrow> utext option" where
  "zUsername k v = (if length v < 3 \<or> length v > 64 then None
     else let t = normalized_username k v in if username_pattern t then Some t else None)"

subsection \<open>Rows\<close>

definition user_clash :: "user \<Rightarrow> user \<Rightarrow> bool" where
  "user_clash a b \<longleftrightarrow> (u_phoneHmac a = u_phoneHmac b \<and> u_phoneHmac a \<noteq> None)
     \<or> (u_emailHmac a = u_emailHmac b \<and> u_emailHmac a \<noteq> None)
     \<or> (u_username a = u_username b \<and> u_username a \<noteq> None)"

definition blank_user :: "env \<Rightarrow> string \<Rightarrow> user" where
  "blank_user env pseudonym = \<lparr>u_id = 0, u_pseudonym = pseudonym, u_avatarSeed = pseudonym, u_locale = ''en'',
     u_role = User_role, u_status = User_active, u_phoneEnc = None, u_phoneHmac = None, u_phoneVerifiedAt = None,
     u_emailEnc = None, u_emailHmac = None, u_emailVerifiedAt = None, u_username = None, u_passwordHash = None,
     u_passwordSetAt = None, u_mustChangePassword = False, u_canRequest = True, u_canHelp = True,
     u_suspendedUntil = None, u_riskFlags = [], u_pseudonymChangedAt = None, u_createdAt = now env,
     u_deletedAt = None\<rparr>"

text \<open>The insert of a user and of the user's counter row (\<open>onConflictDoNothing\<close>).\<close>

definition insert_user :: "env \<Rightarrow> user \<Rightarrow> db \<Rightarrow> app_error + db \<times> user" where
  "insert_user env u d = (let u' = u\<lparr>u_id := next_id d\<rparr> in
     r_bind (checked_insert (\<lambda>_. True) (\<lambda>a b. \<not> user_clash a b) u' (users d)) (\<lambda>t.
       Inr (d\<lparr>users := t, reliabilityStats := ensure_stats (u_id u') (now env) (reliabilityStats d),
              next_id := Suc (next_id d)\<rparr>, u')))"

record device =
  dv_platform :: string
  dv_name :: "string option"

definition session_expiry :: "env \<Rightarrow> instant" where
  "session_expiry env = now env + sessionTtlDays * 24 * 3600000"

definition insert_session :: "env \<Rightarrow> uid \<Rightarrow> string \<Rightarrow> device \<Rightarrow> db \<Rightarrow> app_error + db" where
  "insert_session env u tokenHash device d =
     r_bind (checked_insert (\<lambda>_. True) (\<lambda>a b. se_tokenHash a \<noteq> se_tokenHash b)
        \<lparr>se_id = next_id d, se_userId = u, se_tokenHash = tokenHash, se_platform = dv_platform device,
         se_deviceName = dv_name device, se_createdAt = now env, se_lastSeenAt = now env,
         se_expiresAt = session_expiry env, se_revokedAt = None\<rparr> (sessions d)) (\<lambda>t.
       Inr (d\<lparr>sessions := t, next_id := Suc (next_id d)\<rparr>))"

record auth_session =
  as_token :: string
  as_expiresAt :: instant
  as_user :: me
  as_isNewAccount :: bool

text \<open>The tail both sign-ins share: a fresh token, its session row, the answer.\<close>

definition open_session :: "env \<Rightarrow> crypto \<Rightarrow> string \<Rightarrow> device \<Rightarrow> user \<Rightarrow> bool \<Rightarrow> db \<Rightarrow> auth_session outcome" where
  "open_session env k draw device user isNew d =
     (let (token, tokenHash) = newSessionToken (k_sha256 k) draw in
      case insert_session env (u_id user) tokenHash device d of
        Inl e \<Rightarrow> (d, [], Inl e)
      | Inr d' \<Rightarrow> (d', [], Inr \<lparr>as_token = token, as_expiresAt = session_expiry env, as_user = toMe user,
                              as_isNewAccount = isNew\<rparr>))"

subsection \<open>One-time codes\<close>

record otp_config =
  TEST_FIXED_OTP :: "string option"
  REVIEWER_EMAIL :: "utext option"
  REVIEWER_OTP :: "string option"

definition otp_for :: "otp_config \<Rightarrow> utext \<Rightarrow> string \<Rightarrow> string" where
  "otp_for cfg email drawn = (case TEST_FIXED_OTP cfg of Some code \<Rightarrow> code
     | None \<Rightarrow> (case REVIEWER_OTP cfg of
           Some code \<Rightarrow> if REVIEWER_EMAIL cfg = Some email \<and> email \<noteq> [] \<and> code \<noteq> [] then code else drawn
         | None \<Rightarrow> drawn))"

definition live_code :: "string \<Rightarrow> otp_code \<Rightarrow> bool" where
  "live_code hmac c \<longleftrightarrow> oc_emailHmac c = Some hmac \<and> oc_consumedAt c = None"

definition startOtp ::
  "env \<Rightarrow> crypto \<Rightarrow> otp_config \<Rightarrow> bool \<Rightarrow> bool \<Rightarrow> utext \<Rightarrow> string \<Rightarrow> db \<Rightarrow> nat outcome" where
  "startOtp env k cfg emailOk ipOk email drawn d =
     (if \<not> emailOk \<or> \<not> ipOk then (d, [], Inr OTP_RETRY_AFTER_SECONDS)
      else let hmac = blind_index k email;
               code = otp_for cfg email drawn;
               spent = upd_where (live_code hmac) (\<lambda>c. c\<lparr>oc_consumedAt := Some (now env)\<rparr>) (otpCodes d);
               row = \<lparr>oc_id = next_id d, oc_phoneHmac = None, oc_emailHmac = Some hmac,
                      oc_codeHash = hashOtp (k_hmac k) code hmac, oc_attempts = 0,
                      oc_expiresAt = now env + otpTtlMinutes * 60000, oc_consumedAt = None, oc_createdAt = now env\<rparr>
           in (d\<lparr>otpCodes := spent @ [row], next_id := Suc (next_id d)\<rparr>, [Email_code email code],
               Inr OTP_RETRY_AFTER_SECONDS))"

text \<open>
  \<open>consumeOtp\<close> is three statements, none of them in a transaction with the next: the read of the
  newest live code, the atomic increment that returns the new count, the decision.
\<close>

definition otp_select :: "env \<Rightarrow> string \<Rightarrow> otp_code list \<Rightarrow> otp_code option" where
  "otp_select env hmac t =
     (case newest_first oc_createdAt (filter (\<lambda>c. live_code hmac c \<and> now env < oc_expiresAt c) t) of
        [] \<Rightarrow> None | c # _ \<Rightarrow> Some c)"

definition otp_bump :: "otp_code \<Rightarrow> otp_code list \<Rightarrow> otp_code list \<times> nat" where
  "otp_bump otp t =
     (upd_key oc_id (oc_id otp) (\<lambda>c. c\<lparr>oc_attempts := Suc (oc_attempts c)\<rparr>) t,
      (case by_key oc_id (oc_id otp) t of Some c \<Rightarrow> Suc (oc_attempts c) | None \<Rightarrow> Suc (oc_attempts otp)))"

definition otp_consume :: "env \<Rightarrow> uid \<Rightarrow> otp_code list \<Rightarrow> otp_code list" where
  "otp_consume env oid t = upd_key oc_id oid (\<lambda>c. c\<lparr>oc_consumedAt := Some (now env)\<rparr>) t"

definition otp_decide ::
  "env \<Rightarrow> bool \<Rightarrow> otp_code \<Rightarrow> nat \<Rightarrow> otp_code list \<Rightarrow> otp_code list \<times> (app_error + unit)" where
  "otp_decide env same otp attempts t =
     (if \<not> same
      then if attempts \<ge> otpMaxAttempts then (otp_consume env (oc_id otp) t, Inl Rate_limited)
           else (t, Inl Unauthorized)
      else if attempts > otpMaxAttempts then (t, Inl Rate_limited)
      else (otp_consume env (oc_id otp) t, Inr ()))"

definition consumeOtp ::
  "env \<Rightarrow> crypto \<Rightarrow> string \<Rightarrow> string \<Rightarrow> otp_code list \<Rightarrow> otp_code list \<times> (app_error + unit)" where
  "consumeOtp env k hmac code t =
     (case otp_select env hmac t of
        None \<Rightarrow> (t, Inl Unauthorized)
      | Some otp \<Rightarrow> (let (t1, attempts) = otp_bump otp t in
          otp_decide env (safeEqualHex (hashOtp (k_hmac k) code hmac) (oc_codeHash otp)) otp attempts t1))"

definition isSignupOpen :: "db \<Rightarrow> bool" where
  "isSignupOpen d = (case by_key ff_key ''signup_open'' (featureFlags d) of Some f \<Rightarrow> ff_enabled f | None \<Rightarrow> True)"

definition by_email :: "string \<Rightarrow> db \<Rightarrow> user option" where
  "by_email hmac d = find (\<lambda>u. u_emailHmac u = Some hmac) (users d)"

definition gone :: "user \<Rightarrow> bool" where
  "gone u \<longleftrightarrow> u_status u = User_deleted \<or> u_deletedAt u \<noteq> None"

definition sign_up_tx :: "env \<Rightarrow> string \<Rightarrow> string \<Rightarrow> int \<times> int \<Rightarrow> db \<Rightarrow> app_error + db \<times> user \<times> bool" where
  "sign_up_tx env hmac enc draw d =
     (case by_email hmac d of
        Some u \<Rightarrow> if \<not> gone u then Inr (d, u, False)
          else let d1 = update_user (u_id u) (\<lambda>x. x\<lparr>u_emailHmac := None, u_emailEnc := None\<rparr>) d in
            if \<not> isSignupOpen d1 then Inl Forbidden
            else r_bind (insert_user env ((blank_user env (randomPseudonym draw))\<lparr>u_emailEnc := Some enc,
                   u_emailHmac := Some hmac, u_emailVerifiedAt := Some (now env)\<rparr>) d1) (\<lambda>(d2, c). Inr (d2, c, True))
      | None \<Rightarrow>
          if \<not> isSignupOpen d then Inl Forbidden
          else r_bind (insert_user env ((blank_user env (randomPseudonym draw))\<lparr>u_emailEnc := Some enc,
                   u_emailHmac := Some hmac, u_emailVerifiedAt := Some (now env)\<rparr>) d) (\<lambda>(d2, c). Inr (d2, c, True)))"

text \<open>The random draws of a sign-in: the ciphertext of the address, the pseudonym, the token.\<close>

record sign_in_draws =
  dw_emailEnc :: string
  dw_pseudonym :: "int \<times> int"
  dw_token :: string

definition verifyOtp ::
  "env \<Rightarrow> crypto \<Rightarrow> sign_in_draws \<Rightarrow> utext \<Rightarrow> string \<Rightarrow> device \<Rightarrow> db \<Rightarrow> auth_session outcome" where
  "verifyOtp env k draws email code device d =
     (let hmac = blind_index k email in
      case consumeOtp env k hmac code (otpCodes d) of
        (t, Inl e) \<Rightarrow> (d\<lparr>otpCodes := t\<rparr>, [], Inl e)
      | (t, Inr _) \<Rightarrow>
          let d1 = d\<lparr>otpCodes := t\<rparr> in
          commit d1 (sign_up_tx env hmac (dw_emailEnc draws) (dw_pseudonym draws) d1) (\<lambda>(d2, user, isNew).
            open_session env k (dw_token draws) device user isNew d2))"

subsection \<open>Passwords\<close>

definition loginWithPassword ::
  "env \<Rightarrow> crypto \<Rightarrow> bool \<Rightarrow> bool \<Rightarrow> string \<Rightarrow> utext \<Rightarrow> utext \<Rightarrow> device \<Rightarrow> db \<Rightarrow> auth_session outcome" where
  "loginWithPassword env k userOk ipOk token username password device d =
     (if \<not> userOk \<or> \<not> ipOk then (d, [], Inl Rate_limited)
      else case find (\<lambda>u. map_option lit (u_username u) = Some (normalized_username k username)) (users d) of
        None \<Rightarrow> (d, [], Inl Unauthorized)
      | Some user \<Rightarrow> (case u_passwordHash user of
          None \<Rightarrow> (d, [], Inl Unauthorized)
        | Some stored \<Rightarrow>
            if \<not> check_password k password stored then (d, [], Inl Unauthorized)
            else if gone user then (d, [], Inl Unauthorized)
            else if u_status user = User_suspended
                 \<or> (case u_suspendedUntil user of None \<Rightarrow> False | Some t \<Rightarrow> t > now env)
            then (d, [], Inl Account_restricted)
            else open_session env k token device user False d))"

definition set_password :: "env \<Rightarrow> string \<Rightarrow> bool \<Rightarrow> user \<Rightarrow> user" where
  "set_password env h must u = u\<lparr>u_passwordHash := Some h, u_passwordSetAt := Some (now env), u_mustChangePassword := must\<rparr>"

text \<open>A call of \<open>hashPassword\<close> that throws is an internal error.\<close>

definition new_hash :: "crypto \<Rightarrow> nat list \<Rightarrow> utext \<Rightarrow> app_error + string" where
  "new_hash k salt password =
     or_throw (Internal ''scrypt'') (hashPassword (k_scrypt k) (k_nfkc k) (k_costLog2 k) salt password)"

definition changeOwnPassword ::
  "env \<Rightarrow> crypto \<Rightarrow> bool \<Rightarrow> nat list \<Rightarrow> uid \<Rightarrow> uid \<Rightarrow> utext \<Rightarrow> utext \<Rightarrow> db \<Rightarrow> unit outcome" where
  "changeOwnPassword env k allowed salt u sid currentPassword newPassword d =
     (case Option.bind (by_key u_id u (users d)) u_passwordHash of
        None \<Rightarrow> (d, [], Inl Forbidden)
      | Some stored \<Rightarrow>
          if \<not> allowed then (d, [], Inl Rate_limited)
          else if \<not> check_password k currentPassword stored then (d, [], Inl Unauthorized)
          else if check_password k newPassword stored then (d, [], Inl (Validation ''newPassword''))
          else commit d (new_hash k salt newPassword) (\<lambda>h.
            (revoke_sessions env (\<lambda>s. live_session u s \<and> se_id s \<noteq> sid) (update_user u (set_password env h False) d),
             [], Inr ())))"

definition set_credentials_tx :: "env \<Rightarrow> crypto \<Rightarrow> nat list \<Rightarrow> uid \<Rightarrow> utext \<Rightarrow> utext \<Rightarrow> db \<Rightarrow> app_error + db \<times> utext" where
  "set_credentials_tx env k salt u username password d =
     (let normalized = normalized_username k username in
      r_bind (or_throw Not_found (by_key u_id u (users d))) (\<lambda>user.
        if u_username user \<noteq> None \<and> u_username user \<noteq> Some [] then Inl Request_conflict
        else if list_ex (\<lambda>x. map_option lit (u_username x) = Some normalized) (users d) then Inl Request_conflict
        else r_bind (new_hash k salt password) (\<lambda>h.
          Inr (update_user u (\<lambda>x. (set_password env h False x)\<lparr>u_username := Some (map char_of normalized)\<rparr>) d,
               normalized))))"

definition setOwnCredentials :: "env \<Rightarrow> crypto \<Rightarrow> nat list \<Rightarrow> uid \<Rightarrow> utext \<Rightarrow> utext \<Rightarrow> db \<Rightarrow> utext outcome" where
  "setOwnCredentials env k salt u username password d =
     commit d (set_credentials_tx env k salt u username password d) (\<lambda>(d', name). (d', [], Inr name))"

definition sendUsernameReminder :: "crypto \<Rightarrow> bool \<Rightarrow> utext \<Rightarrow> db \<Rightarrow> unit outcome" where
  "sendUsernameReminder k allowed email d =
     (if \<not> allowed then (d, [], Inr ())
      else (case by_email (blind_index k email) d of
          Some u \<Rightarrow> (case u_username u of
              Some name \<Rightarrow> if name \<noteq> [] \<and> u_deletedAt u = None then (d, [Email_username email name], Inr ()) else (d, [], Inr ())
            | None \<Rightarrow> (d, [], Inr ()))
        | None \<Rightarrow> (d, [], Inr ())))"

definition resetPasswordWithOtp ::
  "env \<Rightarrow> crypto \<Rightarrow> nat list \<Rightarrow> utext \<Rightarrow> string \<Rightarrow> utext \<Rightarrow> db \<Rightarrow> unit outcome" where
  "resetPasswordWithOtp env k salt email code newPassword d =
     (let hmac = blind_index k email in
      case consumeOtp env k hmac code (otpCodes d) of
        (t, Inl e) \<Rightarrow> (d\<lparr>otpCodes := t\<rparr>, [], Inl e)
      | (t, Inr _) \<Rightarrow>
          let d1 = d\<lparr>otpCodes := t\<rparr> in
          (case by_email hmac d1 of
             None \<Rightarrow> (d1, [], Inl Unauthorized)
           | Some user \<Rightarrow>
               if u_deletedAt user \<noteq> None \<or> u_username user = None \<or> u_username user = Some []
               then (d1, [], Inl Unauthorized)
               else commit d1 (new_hash k salt newPassword) (\<lambda>h.
                 (revoke_sessions env (live_session (u_id user)) (update_user (u_id user) (set_password env h False) d1),
                  [], Inr ()))))"

subsection \<open>Sessions and the bearer check\<close>

definition revokeSession :: "env \<Rightarrow> uid \<Rightarrow> uid \<Rightarrow> db \<Rightarrow> db \<times> bool" where
  "revokeSession env u sid d =
     (revoke_sessions env (\<lambda>s. live_session u s \<and> se_id s = sid) d,
      list_ex (\<lambda>s. live_session u s \<and> se_id s = sid) (sessions d))"

text \<open>The route \<open>DELETE /auth/sessions/:id\<close>.\<close>

definition endSession :: "env \<Rightarrow> uid \<Rightarrow> uid \<Rightarrow> db \<Rightarrow> unit outcome" where
  "endSession env u sid d =
     (case revokeSession env u sid d of
        (d', False) \<Rightarrow> (d', [], Inl Not_found)
      | (d', True) \<Rightarrow> (d', [Publish u Session_revoked (P_session_revoked sid)], Inr ()))"

record session_view =
  sv_id :: uid
  sv_current :: bool
  sv_platform :: string
  sv_deviceName :: "string option"
  sv_createdAt :: instant
  sv_lastSeenAt :: instant

definition listSessions :: "env \<Rightarrow> uid \<Rightarrow> uid \<Rightarrow> db \<Rightarrow> session_view list" where
  "listSessions env u current d = map (\<lambda>s. \<lparr>sv_id = se_id s, sv_current = (se_id s = current),
       sv_platform = se_platform s, sv_deviceName = se_deviceName s, sv_createdAt = se_createdAt s,
       sv_lastSeenAt = se_lastSeenAt s\<rparr>)
     (newest_first se_lastSeenAt (filter (\<lambda>s. live_session u s \<and> now env < se_expiresAt s) (sessions d)))"

record bearer = auth_context +
  ba_sessionId :: uid
  ba_role :: user_role
  ba_locale :: string
  ba_pseudonym :: string
  ba_mustChangePassword :: bool

definition effective_user_status :: "env \<Rightarrow> user \<Rightarrow> user_status" where
  "effective_user_status env u =
     (let suspended = (u_status u = User_suspended
            \<and> (case u_suspendedUntil u of None \<Rightarrow> True | Some t \<Rightarrow> t > now env))
      in if suspended then User_suspended else if u_status u = User_suspended then User_active else u_status u)"

definition bearer_of :: "env \<Rightarrow> session \<Rightarrow> user \<Rightarrow> bearer" where
  "bearer_of env s u = \<lparr>au_userId = u_id u, au_status = effective_user_status env u,
     au_canRequest = u_canRequest u, au_canHelp = u_canHelp u, ba_sessionId = se_id s, ba_role = u_role u,
     ba_locale = (if u_locale u = ''hi'' then ''hi'' else ''en''), ba_pseudonym = u_pseudonym u,
     ba_mustChangePassword = u_mustChangePassword u\<rparr>"

definition resolveAuth :: "env \<Rightarrow> crypto \<Rightarrow> string \<Rightarrow> db \<Rightarrow> bearer option" where
  "resolveAuth env k token d =
     (case List.map_filter (\<lambda>s. case by_key u_id (se_userId s) (users d) of
           Some u \<Rightarrow> if u_deletedAt u = None then Some (bearer_of env s u) else None | None \<Rightarrow> None)
         (filter (\<lambda>s. se_tokenHash s = k_sha256 k (lit token) \<and> se_revokedAt s = None \<and> now env < se_expiresAt s)
           (sessions d)) of
        [] \<Rightarrow> None | b # _ \<Rightarrow> Some b)"

definition PASSWORD_CHANGE_EXEMPT :: "string list" where
  "PASSWORD_CHANGE_EXEMPT = [''/api/v1/auth/password'', ''/api/v1/auth/logout'', ''/api/v1/me'']"

text \<open>\<open>authenticate\<close>: the token of the header, \<open>None\<close> without one; it touches \<open>last_seen_at\<close> once a minute.\<close>

definition authenticate :: "env \<Rightarrow> crypto \<Rightarrow> string option \<Rightarrow> string \<Rightarrow> db \<Rightarrow> bearer outcome" where
  "authenticate env k token url d =
     (case token of None \<Rightarrow> (d, [], Inl Unauthorized) | Some t \<Rightarrow>
        if t = [] then (d, [], Inl Unauthorized)
        else (case resolveAuth env k t d of
          None \<Rightarrow> (d, [], Inl Unauthorized)
        | Some b \<Rightarrow>
            if au_status b = User_suspended then (d, [], Inl Account_restricted)
            else if ba_mustChangePassword b \<and> url \<notin> set PASSWORD_CHANGE_EXEMPT
            then (d, [], Inl Password_change_required)
            else (d\<lparr>sessions := upd_where (\<lambda>s. se_id s = ba_sessionId b \<and> se_lastSeenAt s < now env - 60000)
                     (\<lambda>s. s\<lparr>se_lastSeenAt := now env\<rparr>) (sessions d)\<rparr>, [], Inr b)))"

definition requireRole :: "user_role \<Rightarrow> bearer option \<Rightarrow> app_error + unit" where
  "requireRole role b =
     (let r = map_option ba_role b;
          ok = (if role = Moderator_role then r = Some Moderator_role \<or> r = Some Admin_role else r = Some Admin_role)
      in if ok then Inr () else Inl Forbidden)"

subsection \<open>Staff accounts\<close>

record admin_created =
  ac_id :: uid
  ac_username :: utext
  ac_pseudonym :: string
  ac_createdRole :: user_role
  ac_password :: string

definition create_admin_tx ::
  "env \<Rightarrow> crypto \<Rightarrow> string \<Rightarrow> nat list \<Rightarrow> string \<Rightarrow> int \<times> int \<Rightarrow> uid \<Rightarrow> utext \<Rightarrow> utext \<Rightarrow> user_role \<Rightarrow> db
    \<Rightarrow> app_error + db \<times> admin_created" where
  "create_admin_tx env k password salt enc draw actor name email role d =
     (let username = normalized_username k name; hmac = blind_index k email in
      if list_ex (\<lambda>x. map_option lit (u_username x) = Some username) (users d) then Inl Request_conflict
      else if (case by_email hmac d of None \<Rightarrow> False | Some x \<Rightarrow> u_deletedAt x = None) then Inl Request_conflict
      else r_bind (new_hash k salt (lit password)) (\<lambda>h.
           let pseudonym = randomPseudonym draw in
           r_bind (insert_user env ((set_password env h True (blank_user env pseudonym))\<lparr>u_role := role,
             u_username := Some (map char_of username), u_emailEnc := Some enc, u_emailHmac := Some hmac,
             u_emailVerifiedAt := Some (now env)\<rparr>) d) (\<lambda>(d1, created).
           Inr (insert_audit env (Some actor) ''admin_account_create'' (Some (User_target (u_id created)))
                  (Some (lit (if role = Admin_role then ''created admin @'' else ''created moderator @'') @ username)) None d1,
                \<lparr>ac_id = u_id created, ac_username = username, ac_pseudonym = pseudonym, ac_createdRole = role,
                 ac_password = password\<rparr>))))"

definition createAdminAccount ::
  "env \<Rightarrow> crypto \<Rightarrow> nat list \<Rightarrow> nat list \<Rightarrow> string \<Rightarrow> int \<times> int \<Rightarrow> uid \<Rightarrow> utext \<Rightarrow> utext \<Rightarrow> user_role \<Rightarrow> db
    \<Rightarrow> admin_created outcome" where
  "createAdminAccount env k bytes salt enc draw actor name email role d =
     commit d (create_admin_tx env k (newAdminPassword bytes) salt enc draw actor name email role d)
       (\<lambda>(d', created). (d', [], Inr created))"

definition resetAdminPassword :: "env \<Rightarrow> crypto \<Rightarrow> nat list \<Rightarrow> nat list \<Rightarrow> uid \<Rightarrow> uid \<Rightarrow> db \<Rightarrow> string outcome" where
  "resetAdminPassword env k bytes salt actor u d =
     (let password = newAdminPassword bytes in
      case new_hash k salt (lit password) of
        Inl e \<Rightarrow> (d, [], Inl e)
      | Inr h \<Rightarrow>
          if list_ex (\<lambda>x. u_id x = u \<and> u_username x \<noteq> None) (users d)
          then (insert_audit env (Some actor) ''admin_password_reset'' (Some (User_target u))
                  (Some (lit ''password reissued'')) None
                  (d\<lparr>users := upd_where (\<lambda>x. u_id x = u \<and> u_username x \<noteq> None) (set_password env h True) (users d)\<rparr>),
                [], Inr password)
          else (d, [], Inl Not_found))"

end
