(* ===== verification/Notifications.thy ===== *)
theory Notifications
  imports Store "HOL-Library.Sublist"
begin

text \<open>
  \<open>server/src/workers/notify.ts\<close> with \<open>t\<close> of \<open>packages/shared/src/i18n/index.ts\<close> and the providers of
  \<open>lib/push.ts\<close>: a notification is stored once per dedupe key, published, and pushed when the user's
  settings allow, with a vague text for types that could say what someone asked for. The string
  catalogues are a parameter, as are the HTTP calls of the providers.
\<close>

subsection \<open>Texts\<close>

datatype catalog = Text_node utext | Branch "(string \<times> catalog) list"

fun resolve_key :: "catalog \<Rightarrow> string list \<Rightarrow> utext option" where
  "resolve_key (Text_node s) [] = Some s"
| "resolve_key (Branch cs) [] = None"
| "resolve_key (Text_node s) (p # ps) = None"
| "resolve_key (Branch cs) (p # ps) = (case map_of cs p of None \<Rightarrow> None | Some c \<Rightarrow> resolve_key c ps)"

text \<open>
  \<open>replaceAll\<close> with a string pattern still reads the replacement as a template: two dollars stand for
  one, a dollar with ampersand, backquote or quote for the match, the text before it, the text after.
\<close>

fun expand_template :: "utext \<Rightarrow> utext \<Rightarrow> utext \<Rightarrow> utext \<Rightarrow> utext" where
  "expand_template matched before after (a # b # r) =
     (if a = 36 \<and> b = 36 then 36 # expand_template matched before after r
      else if a = 36 \<and> b = 38 then matched @ expand_template matched before after r
      else if a = 36 \<and> b = 96 then before @ expand_template matched before after r
      else if a = 36 \<and> b = 39 then after @ expand_template matched before after r
      else a # expand_template matched before after (b # r))"
| "expand_template matched before after r = r"

function replace_from :: "utext \<Rightarrow> utext \<Rightarrow> utext \<Rightarrow> utext \<Rightarrow> utext" where
  "replace_from search new done rest =
     (if rest = [] then []
      else if search \<noteq> [] \<and> prefix search rest
      then expand_template search done (drop (length search) rest) new
           @ replace_from search new (done @ search) (drop (length search) rest)
      else hd rest # replace_from search new (done @ [hd rest]) (tl rest))"
  by pat_completeness auto
termination by (relation "measure (\<lambda>(_, _, _, rest). length rest)") auto

declare replace_from.simps [simp del]

definition replaceAll :: "utext \<Rightarrow> utext \<Rightarrow> utext \<Rightarrow> utext" where
  "replaceAll search new s = replace_from search new [] s"

definition placeholder :: "string \<Rightarrow> utext" where
  "placeholder k = [123, 123] @ lit k @ [125, 125]"

fun split_key :: "string \<Rightarrow> string list" where
  "split_key [] = [[]]"
| "split_key (c # s) = (if c = CHR ''.'' then [] # split_key s
     else (case split_key s of [] \<Rightarrow> [[c]] | w # ws \<Rightarrow> (c # w) # ws))"

definition translate :: "(string \<Rightarrow> catalog) \<Rightarrow> string \<Rightarrow> string \<Rightarrow> (string \<times> utext) list \<Rightarrow> utext" where
  "translate catalogs locale key params =
     (let parts = split_key key;
          s = (case resolve_key (catalogs locale) parts of Some x \<Rightarrow> x
               | None \<Rightarrow> (case resolve_key (catalogs ''en'') parts of Some x \<Rightarrow> x | None \<Rightarrow> lit key))
      in fold (\<lambda>(k, v) acc. replaceAll (placeholder k) v acc) params s)"

subsection \<open>Push payloads\<close>

definition VAGUE_PREVIEW_TYPES :: "notification_type list" where
  "VAGUE_PREVIEW_TYPES = [N_match_offer, N_new_message]"

fun VAGUE_BODY :: "notification_type \<Rightarrow> string option" where
  "VAGUE_BODY N_match_offer = Some ''notifications.vaguePreview''"
| "VAGUE_BODY N_new_message = Some ''notifications.vagueMessage''"
| "VAGUE_BODY _ = None"

record push_payload =
  py_title :: utext
  py_body :: utext
  py_deepLink :: "deep_link option"

text \<open>\<open>shown\<close> is \<open>String(v)\<close> of a parameter.\<close>

definition buildPushPayload ::
  "(string \<Rightarrow> catalog) \<Rightarrow> (param_value \<Rightarrow> utext) \<Rightarrow> notify_job \<Rightarrow> bool \<Rightarrow> string \<Rightarrow> push_payload" where
  "buildPushPayload catalogs shown job detailedPreviews locale =
     (let vague = (nj_type job \<in> set VAGUE_PREVIEW_TYPES \<and> \<not> detailedPreviews);
          params = map (\<lambda>(k, v). (k, shown v)) (nj_params job)
      in if vague
         then \<lparr>py_title = translate catalogs locale ''common.appName'' [],
               py_body = translate catalogs locale (case VAGUE_BODY (nj_type job) of Some k \<Rightarrow> k
                            | None \<Rightarrow> ''notifications.vagueGeneric'') [],
               py_deepLink = nj_deepLink job\<rparr>
         else \<lparr>py_title = translate catalogs locale (nj_titleKey job) params,
               py_body = translate catalogs locale (nj_bodyKey job) params,
               py_deepLink = nj_deepLink job\<rparr>)"

subsection \<open>Providers\<close>

record push_address =
  pa_provider :: string
  pa_token :: string

type_synonym push_provider = "push_address list \<Rightarrow> push_payload \<Rightarrow> string list"   \<comment> \<open>the tokens that failed\<close>

definition maskToken :: "string \<Rightarrow> utext" where
  "maskToken token = lit (take 8 token) @ [8230]"

definition ConsolePushProvider :: push_provider where
  "ConsolePushProvider tokens payload = []"

definition EXPO_BATCH_SIZE :: nat where "EXPO_BATCH_SIZE = 100"

definition EXPO_PERMANENT_ERRORS :: "string list" where
  "EXPO_PERMANENT_ERRORS = [''DeviceNotRegistered'', ''InvalidCredentials'']"

record ticket =
  tk_status :: string
  tk_error :: "string option"

text \<open>\<open>post\<close> is the HTTP call, \<open>None\<close> when it throws, is not ok or its body is not JSON.\<close>

definition expo_batch :: "(string list \<Rightarrow> push_payload \<Rightarrow> ticket list option) \<Rightarrow> push_payload \<Rightarrow> string list \<Rightarrow> string list" where
  "expo_batch post payload batch =
     (case post batch payload of
        None \<Rightarrow> []
      | Some tickets \<Rightarrow> List.map_filter (\<lambda>(token, t).
          if token \<noteq> [] \<and> tk_status t = ''error'' \<and> (case tk_error t of None \<Rightarrow> [] | Some e \<Rightarrow> e) \<in> set EXPO_PERMANENT_ERRORS
          then Some token else None) (zip batch tickets))"

fun chunks :: "nat \<Rightarrow> 'a list \<Rightarrow> 'a list list" where
  "chunks n xs = (if n = 0 \<or> xs = [] then [] else take n xs # chunks n (drop n xs))"

declare chunks.simps [simp del]

definition ExpoPushProvider :: "(string list \<Rightarrow> push_payload \<Rightarrow> ticket list option) \<Rightarrow> push_provider" where
  "ExpoPushProvider post tokens payload =
     concat (map (expo_batch post payload)
       (chunks EXPO_BATCH_SIZE (map pa_token (filter (\<lambda>a. pa_provider a = ''expo'') tokens))))"

text \<open>
  \<open>parse\<close> reads a subscription, \<open>send\<close> sends to it; the error status is \<open>Some\<close> when the call throws
  with one, \<open>None\<close> when it succeeds or throws without.
\<close>

definition WebPushProvider ::
  "(string \<Rightarrow> 'sub option) \<Rightarrow> ('sub \<Rightarrow> push_payload \<Rightarrow> nat option) \<Rightarrow> push_provider" where
  "WebPushProvider parse send tokens payload =
     List.map_filter (\<lambda>a. if pa_provider a \<noteq> ''webpush'' then None
        else (case parse (pa_token a) of
            None \<Rightarrow> Some (pa_token a)
          | Some sub \<Rightarrow> if send sub payload \<in> {Some 404, Some 410} then Some (pa_token a) else None)) tokens"

subsection \<open>Delivery\<close>

definition mutes :: "user \<Rightarrow> notification_type \<Rightarrow> bool" where
  "mutes u t \<longleftrightarrow> u_deletedAt u \<noteq> None \<or> u_status u = User_deleted
     \<or> (u_status u = User_suspended \<and> t \<noteq> N_account_security \<and> t \<noteq> N_moderation_outcome)"

definition notification_of :: "env \<Rightarrow> notify_job \<Rightarrow> uid \<Rightarrow> notification" where
  "notification_of env job k = \<lparr>nt_id = k, nt_userId = nj_userId job, nt_type = nj_type job,
     nt_titleKey = nj_titleKey job, nt_bodyKey = nj_bodyKey job, nt_params = nj_params job,
     nt_deepLink = nj_deepLink job, nt_dedupeKey = nj_dedupeKey job, nt_createdAt = now env, nt_readAt = None\<rparr>"

definition already_delivered :: "notify_job \<Rightarrow> db \<Rightarrow> bool" where
  "already_delivered job d = list_ex (\<lambda>n. nt_userId n = nj_userId job \<and> nt_dedupeKey n = nj_dedupeKey job
     \<and> nt_dedupeKey n \<noteq> None) (notifications d)"

definition notification_view_of :: "notification \<Rightarrow> notification_view" where
  "notification_view_of n = \<lparr>nv_id = nt_id n, nv_type = nt_type n, nv_titleKey = nt_titleKey n,
     nv_bodyKey = nt_bodyKey n, nv_params = nt_params n, nv_createdAt = nt_createdAt n, nv_readAt = nt_readAt n,
     nv_deepLink = nt_deepLink n\<rparr>"

definition push_addresses :: "uid \<Rightarrow> db \<Rightarrow> push_address list" where
  "push_addresses u d = map (\<lambda>p. \<lparr>pa_provider = pt_provider p, pa_token = pt_token p\<rparr>)
     (filter (\<lambda>p. pt_userId p = u \<and> \<not> pt_disabled p) (pushTokens d))"

definition disable_tokens :: "uid \<Rightarrow> string list \<Rightarrow> db \<Rightarrow> db" where
  "disable_tokens u failed d = d\<lparr>pushTokens := upd_where (\<lambda>p. pt_userId p = u \<and> pt_token p \<in> set failed)
     (\<lambda>p. p\<lparr>pt_disabled := True\<rparr>) (pushTokens d)\<rparr>"

text \<open>The second component is what the providers are handed: the addresses and the payload.\<close>

definition push_step ::
  "(string \<Rightarrow> catalog) \<Rightarrow> (param_value \<Rightarrow> utext) \<Rightarrow> push_provider list \<Rightarrow> user \<Rightarrow> notify_job \<Rightarrow> db
    \<Rightarrow> db \<times> (push_address list \<times> push_payload) option" where
  "push_step catalogs shown providers user job d =
     (let prefs = by_key np_userId (nj_userId job) (notificationPrefs d);
          tokens = push_addresses (nj_userId job) d;
          locale = (if u_locale user = ''hi'' then ''hi'' else ''en'');
          payload = buildPushPayload catalogs shown job
                      (case prefs of None \<Rightarrow> False | Some p \<Rightarrow> np_detailedPreviews p) locale
      in if (case prefs of None \<Rightarrow> False | Some p \<Rightarrow> map_of (np_perType p) (nj_type job) = Some False) then (d, None)
         else if tokens = [] then (d, None)
         else (disable_tokens (nj_userId job) (concat (map (\<lambda>p. p tokens payload) providers)) d,
               Some (tokens, payload)))"

definition deliverNotification ::
  "env \<Rightarrow> (string \<Rightarrow> catalog) \<Rightarrow> (param_value \<Rightarrow> utext) \<Rightarrow> push_provider list \<Rightarrow> notify_job \<Rightarrow> db
    \<Rightarrow> (push_address list \<times> push_payload) option outcome" where
  "deliverNotification env catalogs shown providers job d =
     (case by_key u_id (nj_userId job) (users d) of
        None \<Rightarrow> (d, [], Inr None)
      | Some user \<Rightarrow>
          if mutes user (nj_type job) then (d, [], Inr None)
          else if already_delivered job d then (d, [], Inr None)
          else let row = notification_of env job (next_id d);
                   d1 = d\<lparr>notifications := notifications d @ [row], next_id := Suc (next_id d)\<rparr>;
                   (d2, pushed) = push_step catalogs shown providers user job d1
               in (d2, [Publish (nj_userId job) Notification_new (P_notification (notification_view_of row))],
                   Inr pushed))"

end
