(* ===== verification/Settings.thy ===== *)
theory Settings
  imports Accounts Notifications Chat
begin

text \<open>
  \<open>server/src/modules/users/service.ts\<close>: the caller's profile, blocked people by the alias they had,
  push tokens, notification settings and the feed with its cursor.
\<close>

definition PSEUDONYM_REGEN_DAYS :: int where "PSEUDONYM_REGEN_DAYS = 30"

definition canRegeneratePseudonym :: "instant option \<Rightarrow> instant \<Rightarrow> bool" where
  "canRegeneratePseudonym changedAt t =
     (case changedAt of None \<Rightarrow> True | Some c \<Rightarrow> t - c \<ge> PSEUDONYM_REGEN_DAYS * 24 * 3600000)"

definition getMe :: "uid \<Rightarrow> db \<Rightarrow> app_error + me" where
  "getMe u d = r_bind (or_throw Unauthorized (by_key u_id u (users d))) (\<lambda>user. Inr (toMe user))"

record me_patch =
  mp_locale :: "string option"
  mp_regeneratePseudonym :: bool

definition apply_me_patch :: "env \<Rightarrow> int \<times> int \<Rightarrow> me_patch \<Rightarrow> user \<Rightarrow> user" where
  "apply_me_patch env draw patch u =
     (let u1 = (case mp_locale patch of None \<Rightarrow> u | Some l \<Rightarrow> u\<lparr>u_locale := l\<rparr>)
      in if mp_regeneratePseudonym patch
         then u1\<lparr>u_pseudonym := randomPseudonym draw, u_avatarSeed := randomPseudonym draw,
                 u_pseudonymChangedAt := Some (now env)\<rparr>
         else u1)"

definition update_me_tx :: "env \<Rightarrow> int \<times> int \<Rightarrow> uid \<Rightarrow> me_patch \<Rightarrow> db \<Rightarrow> app_error + db \<times> me" where
  "update_me_tx env draw u patch d =
     r_bind (or_throw Unauthorized (by_key u_id u (users d))) (\<lambda>user.
       if mp_regeneratePseudonym patch \<and> \<not> canRegeneratePseudonym (u_pseudonymChangedAt user) (now env)
       then Inl Rate_limited
       else if mp_locale patch = None \<and> \<not> mp_regeneratePseudonym patch then Inr (d, toMe user)
       else Inr (update_user u (apply_me_patch env draw patch) d, toMe (apply_me_patch env draw patch user)))"

definition updateMe :: "env \<Rightarrow> int \<times> int \<Rightarrow> uid \<Rightarrow> me_patch \<Rightarrow> db \<Rightarrow> me outcome" where
  "updateMe env draw u patch d = commit d (update_me_tx env draw u patch d) (\<lambda>(d', m). (d', [], Inr m))"

text \<open>The alias of the blocked person in the most recent match with the caller; \<open>None\<close> is shown as a dash.\<close>

definition between :: "uid \<Rightarrow> uid \<Rightarrow> match_row \<Rightarrow> bool" where
  "between a b m \<longleftrightarrow> (m_requesterId m = a \<and> m_helperId m = b) \<or> (m_helperId m = a \<and> m_requesterId m = b)"

definition alias_seen :: "uid \<Rightarrow> uid \<Rightarrow> db \<Rightarrow> string option" where
  "alias_seen u peer d = (case newest_first m_createdAt (filter (between u peer) (matches d)) of
     [] \<Rightarrow> None
   | m # _ \<Rightarrow> Some (if m_requesterId m = u then m_helperAlias m else m_requesterAlias m))"

definition listBlocks :: "uid \<Rightarrow> db \<Rightarrow> (instant \<times> string option) list" where
  "listBlocks u d = map (\<lambda>b. (bl_createdAt b, alias_seen u (bl_blockedId b) d))
     (newest_first bl_createdAt (filter (\<lambda>b. bl_blockerId b = u) (blocks d)))"

definition registerPushToken :: "env \<Rightarrow> uid \<Rightarrow> string \<Rightarrow> string \<Rightarrow> db \<Rightarrow> db" where
  "registerPushToken env u provider token d =
     (let mine = (\<lambda>p. pt_userId p = u \<and> pt_token p = token) in
      if list_ex mine (pushTokens d)
      then d\<lparr>pushTokens := upd_where mine (\<lambda>p. p\<lparr>pt_provider := provider, pt_disabled := False,
             pt_lastUsedAt := Some (now env)\<rparr>) (pushTokens d)\<rparr>
      else d\<lparr>pushTokens := pushTokens d @ [\<lparr>pt_id = next_id d, pt_userId = u, pt_provider = provider,
             pt_token = token, pt_disabled = False, pt_createdAt = now env, pt_lastUsedAt = Some (now env)\<rparr>],
             next_id := Suc (next_id d)\<rparr>)"

definition getNotificationPrefs :: "uid \<Rightarrow> db \<Rightarrow> bool \<times> (notification_type \<times> bool) list" where
  "getNotificationPrefs u d = (case by_key np_userId u (notificationPrefs d) of
     None \<Rightarrow> (False, []) | Some p \<Rightarrow> (np_detailedPreviews p, np_perType p))"

definition putNotificationPrefs :: "uid \<Rightarrow> bool \<times> (notification_type \<times> bool) list \<Rightarrow> db \<Rightarrow> db" where
  "putNotificationPrefs u prefs d =
     (if by_key np_userId u (notificationPrefs d) = None
      then d\<lparr>notificationPrefs := notificationPrefs d @
             [\<lparr>np_userId = u, np_detailedPreviews = fst prefs, np_perType = snd prefs\<rparr>]\<rparr>
      else d\<lparr>notificationPrefs := upd_key np_userId u
             (\<lambda>p. p\<lparr>np_detailedPreviews := fst prefs, np_perType := snd prefs\<rparr>) (notificationPrefs d)\<rparr>)"

subsection \<open>The feed\<close>

text \<open>
  The text of a cursor: the instant, a bar, the id. \<open>to_iso\<close> and \<open>parse_date\<close> are \<open>toISOString\<close> and the
  \<open>Date\<close> constructor (\<open>None\<close> for an invalid date).
\<close>

definition encode_cursor_text :: "(instant \<Rightarrow> string) \<Rightarrow> instant \<Rightarrow> string \<Rightarrow> string" where
  "encode_cursor_text to_iso createdAt k = to_iso createdAt @ ''|'' @ k"

definition decode_cursor_text :: "(string \<Rightarrow> instant option) \<Rightarrow> string \<Rightarrow> (instant \<times> string) option" where
  "decode_cursor_text parse_date cursor =
     (if CHR ''|'' \<notin> set cursor then None
      else let k = drop 1 (dropWhile (\<lambda>c. c \<noteq> CHR ''|'') cursor) in
        case parse_date (takeWhile (\<lambda>c. c \<noteq> CHR ''|'') cursor) of
          None \<Rightarrow> None
        | Some t \<Rightarrow> if k = [] then None else Some (t, k))"

definition before_cursor :: "(instant \<times> uid) option \<Rightarrow> notification \<Rightarrow> bool" where
  "before_cursor c n = (case c of None \<Rightarrow> True
     | Some (t, k) \<Rightarrow> nt_createdAt n < t \<or> (nt_createdAt n = t \<and> nt_id n < k))"

definition feed_order :: "notification list \<Rightarrow> notification list" where
  "feed_order ns = newest_first nt_createdAt (sort_key (\<lambda>n. - int (nt_id n)) ns)"

definition feed_page :: "uid \<Rightarrow> nat \<Rightarrow> (instant \<times> uid) option \<Rightarrow> db \<Rightarrow> notification list" where
  "feed_page u limit c d = take limit (feed_order (filter (\<lambda>n. nt_userId n = u \<and> before_cursor c n) (notifications d)))"

definition listNotifications :: "uid \<Rightarrow> nat \<Rightarrow> cursor \<Rightarrow> db \<Rightarrow> app_error + notification_view list \<times> cursor" where
  "listNotifications u limit c d =
     r_bind (decodeCursor c) (\<lambda>pos.
       let rows = feed_page u limit pos d
       in Inr (map notification_view_of rows,
               if length rows = limit \<and> rows \<noteq> [] then Cursor (nt_createdAt (last rows)) (nt_id (last rows))
               else No_cursor))"

definition markNotificationRead :: "env \<Rightarrow> uid \<Rightarrow> uid \<Rightarrow> db \<Rightarrow> unit outcome" where
  "markNotificationRead env u k d =
     (let mine = (\<lambda>n. nt_id n = k \<and> nt_userId n = u) in
      if list_ex mine (notifications d)
      then (d\<lparr>notifications := upd_where mine (\<lambda>n. n\<lparr>nt_readAt := Some (now env)\<rparr>) (notifications d)\<rparr>, [], Inr ())
      else (d, [], Inl Not_found))"

end
