(* ===== verification/Administration.thy ===== *)
theory Administration
  imports Moderation
begin

text \<open>
  The rest of \<open>server/src/modules/admin/service.ts\<close> with the flag switch of \<open>admin/routes.ts\<close>,
  \<open>setAdminWants\<close> and \<open>listActiveCategories\<close>: the console's lists, notices, event and catalogue
  patches, appeals, the audit log by pages, staff accounts, statistics and the emergency stop.
\<close>

subsection \<open>Reports and users\<close>

record admin_report_view =
  arv_id :: uid
  arv_category :: report_category
  arv_status :: report_status
  arv_note :: "utext option"
  arv_reporterPseudonym :: "string option"   \<comment> \<open>\<open>None\<close> is shown as a dash\<close>
  arv_subjectPseudonym :: "string option"
  arv_subjectUserId :: "uid option"
  arv_eventTitle :: "utext option"
  arv_conversationExcerpt :: "evidence_message list option"
  arv_createdAt :: instant

definition pseudonym_of :: "db \<Rightarrow> uid option \<Rightarrow> string option" where
  "pseudonym_of d u = (case u of None \<Rightarrow> None | Some k \<Rightarrow> map_option u_pseudonym (by_key u_id k (users d)))"

definition listReports :: "report_status \<Rightarrow> db \<Rightarrow> admin_report_view list" where
  "listReports status d = map (\<lambda>r. \<lparr>arv_id = rp_id r, arv_category = rp_category r, arv_status = rp_status r,
       arv_note = rp_note r, arv_reporterPseudonym = pseudonym_of d (rp_reporterId r),
       arv_subjectPseudonym = pseudonym_of d (rp_subjectUserId r), arv_subjectUserId = rp_subjectUserId r,
       arv_eventTitle = (case rp_subjectEventId r of None \<Rightarrow> None
          | Some e \<Rightarrow> map_option e_title (by_key e_id e (events d))),
       arv_conversationExcerpt = rp_evidence r, arv_createdAt = rp_createdAt r\<rparr>)
     (take 100 (newest_first rp_createdAt (filter (\<lambda>r. rp_status r = status) (reports d))))"

text \<open>
  \<open>ILIKE\<close> over character codes: 37 is the percent sign, 95 the underscore, 92 the backslash that quotes
  the next character. (A pattern that ends in a lone backslash would be an error of PostgreSQL; the
  patterns here end in a percent sign.) \<open>foldc\<close> is the case folding of one character.
\<close>

function like_match :: "nat list \<Rightarrow> nat list \<Rightarrow> bool" where
  "like_match [] t = (t = [])"
| "like_match (p # ps) t =
     (if p = 37 then like_match ps t \<or> (case t of [] \<Rightarrow> False | _ # t' \<Rightarrow> like_match (p # ps) t')
      else if p = 92 then (case (ps, t) of (q # ps', c # t') \<Rightarrow> c = q \<and> like_match ps' t' | _ \<Rightarrow> False)
      else (case t of [] \<Rightarrow> False | c # t' \<Rightarrow> (p = 95 \<or> c = p) \<and> like_match ps t'))"
  by pat_completeness auto
termination by (relation "measures [\<lambda>(p, t). length p, \<lambda>(p, t). length t]") auto

definition quote_like :: "nat list \<Rightarrow> nat list" where
  "quote_like q = concat (map (\<lambda>c. if c = 37 \<or> c = 95 then [92, c] else [c]) q)"

definition search_pattern :: "nat list \<Rightarrow> nat list" where
  "search_pattern q = [37] @ quote_like q @ [37]"

definition ilike_contains :: "(nat \<Rightarrow> nat) \<Rightarrow> nat list \<Rightarrow> nat list \<Rightarrow> bool" where
  "ilike_contains foldc q t = like_match (map foldc (search_pattern q)) (map foldc t)"

record admin_user_view =
  auv_id :: uid
  auv_pseudonym :: string
  auv_role :: user_role
  auv_status :: user_status
  auv_createdAt :: instant
  auv_emailVerified :: bool
  auv_reportCount :: nat
  auv_riskFlags :: "string list"

definition admin_user_view_of :: "db \<Rightarrow> user \<Rightarrow> admin_user_view" where
  "admin_user_view_of d u = \<lparr>auv_id = u_id u, auv_pseudonym = u_pseudonym u, auv_role = u_role u,
     auv_status = u_status u, auv_createdAt = u_createdAt u, auv_emailVerified = (u_emailVerifiedAt u \<noteq> None),
     auv_reportCount = length (filter (\<lambda>r. rp_subjectUserId r = Some (u_id u)) (reports d)),
     auv_riskFlags = u_riskFlags u\<rparr>"

definition listUsers :: "(nat \<Rightarrow> nat) \<Rightarrow> nat list option \<Rightarrow> db \<Rightarrow> admin_user_view list" where
  "listUsers foldc q d =
     (let hit = (\<lambda>u. case q of None \<Rightarrow> True
            | Some t \<Rightarrow> t = [] \<or> ilike_contains foldc t (lit (u_pseudonym u)))
      in map (admin_user_view_of d) (take 100 (newest_first u_createdAt (filter hit (users d)))))"

subsection \<open>Events\<close>

record admin_event_view =
  aev_id :: uid
  aev_code :: string
  aev_title :: utext
  aev_type :: event_type
  aev_status :: event_status
  aev_visibility :: event_visibility
  aev_publicApproved :: bool
  aev_matchingPaused :: bool
  aev_startsAt :: instant
  aev_endsAt :: instant
  aev_createdBy :: "string option"
  aev_createdAt :: instant
  aev_adminWants :: "(string \<times> int option) list"

definition listAdminEvents :: "event_status option \<Rightarrow> bool \<Rightarrow> db \<Rightarrow> admin_event_view list" where
  "listAdminEvents status pendingApproval d = map (\<lambda>e. \<lparr>aev_id = e_id e, aev_code = e_code e,
       aev_title = e_title e, aev_type = e_type e, aev_status = e_status e, aev_visibility = e_visibility e,
       aev_publicApproved = e_publicApproved e, aev_matchingPaused = e_matchingPaused e,
       aev_startsAt = e_startsAt e, aev_endsAt = e_endsAt e, aev_createdBy = pseudonym_of d (e_createdBy e),
       aev_createdAt = e_createdAt e,
       aev_adminWants = map (\<lambda>(w, c). (c_slug c, aw_qty w)) (admin_want_rows d (e_id e))\<rparr>)
     (take 200 (newest_first e_createdAt (filter (\<lambda>e.
        (case status of None \<Rightarrow> True | Some s \<Rightarrow> e_status e = s)
        \<and> (pendingApproval \<longrightarrow> e_visibility e = Public \<and> \<not> e_publicApproved e)) (events d))))"

definition notice_job :: "event \<Rightarrow> uid \<Rightarrow> utext \<Rightarrow> membership \<Rightarrow> effect" where
  "notice_job event notice body m = Notify_job \<lparr>nj_userId = mb_userId m, nj_type = N_event_notice,
     nj_titleKey = ''notifications.event_notice'', nj_bodyKey = ''moderation.noticeBody'',
     nj_params = [(''body'', Text_param body)], nj_deepLink = Some (Event_link (e_code event)),
     nj_dedupeKey = Some (Notice_key notice)\<rparr>"

definition hears_notices :: "uid \<Rightarrow> membership \<Rightarrow> bool" where
  "hears_notices eid m \<longleftrightarrow> mb_eventId m = eid \<and> mb_leftAt m = None \<and> \<not> mb_banned m \<and> \<not> mb_muted m"

definition publishEventNotice :: "env \<Rightarrow> uid \<Rightarrow> uid \<Rightarrow> utext \<Rightarrow> bool \<Rightarrow> db \<Rightarrow> unit outcome" where
  "publishEventNotice env actor eid body urgent d =
     (case by_key e_id eid (events d) of
        None \<Rightarrow> (d, [], Inl Not_found)
      | Some event \<Rightarrow>
          let notice = next_id d;
              d1 = d\<lparr>eventNotices := eventNotices d @ [\<lparr>n_id = notice, n_eventId = eid, n_body = body,
                     n_urgent = urgent, n_createdBy = Some actor, n_createdAt = now env\<rparr>],
                     next_id := Suc (next_id d)\<rparr>;
              d2 = insert_audit env (Some actor) ''event_notice'' (Some (Event_target eid))
                     (Some (take 200 body)) (Some (Meta_urgent urgent)) d1
          in (d2, map (notice_job event notice body) (filter (hears_notices eid) (memberships d2)), Inr ()))"

text \<open>An absent field of a patch is \<open>None\<close>; for the nullable ones \<open>Some None\<close> is an explicit \<open>null\<close>.\<close>

record event_patch =
  ep_title :: "utext option"
  ep_description :: "utext option"
  ep_status :: "event_status option"
  ep_visibility :: "event_visibility option"
  ep_matchingPaused :: "bool option"
  ep_retentionDays :: "int option"
  ep_safetyInfo :: "utext option option"
  ep_medicalInfo :: "utext option option"
  ep_startsAt :: "instant option"
  ep_endsAt :: "instant option"

definition zEventPatch :: "event_patch \<Rightarrow> bool" where
  "zEventPatch p \<longleftrightarrow> valid_opt (\<lambda>t. 3 \<le> length t \<and> length t \<le> 120) (ep_title p)
     \<and> valid_opt (\<lambda>t. length t \<le> 2000) (ep_description p)
     \<and> valid_opt (\<lambda>n. 1 \<le> n \<and> n \<le> 365) (ep_retentionDays p)
     \<and> valid_opt (valid_opt (\<lambda>t. length t \<le> 2000)) (ep_safetyInfo p)
     \<and> valid_opt (valid_opt (\<lambda>t. length t \<le> 2000)) (ep_medicalInfo p)"

definition patched :: "'a option \<Rightarrow> 'a \<Rightarrow> 'a" where
  "patched new old = (case new of None \<Rightarrow> old | Some x \<Rightarrow> x)"

definition event_patch_fields :: "event_patch \<Rightarrow> string list" where
  "event_patch_fields p = map fst (filter snd
     [(''title'', ep_title p \<noteq> None), (''description'', ep_description p \<noteq> None),
      (''status'', ep_status p \<noteq> None), (''visibility'', ep_visibility p \<noteq> None),
      (''matchingPaused'', ep_matchingPaused p \<noteq> None), (''retentionDays'', ep_retentionDays p \<noteq> None),
      (''safetyInfo'', ep_safetyInfo p \<noteq> None), (''medicalInfo'', ep_medicalInfo p \<noteq> None),
      (''startsAt'', ep_startsAt p \<noteq> None), (''endsAt'', ep_endsAt p \<noteq> None)])"

definition apply_event_patch :: "event_patch \<Rightarrow> event \<Rightarrow> event" where
  "apply_event_patch p e = e\<lparr>e_title := patched (ep_title p) (e_title e),
     e_description := patched (ep_description p) (e_description e), e_status := patched (ep_status p) (e_status e),
     e_visibility := patched (ep_visibility p) (e_visibility e),
     e_matchingPaused := patched (ep_matchingPaused p) (e_matchingPaused e),
     e_retentionDays := patched (ep_retentionDays p) (e_retentionDays e),
     e_safetyInfo := patched (ep_safetyInfo p) (e_safetyInfo e),
     e_medicalInfo := patched (ep_medicalInfo p) (e_medicalInfo e),
     e_startsAt := patched (ep_startsAt p) (e_startsAt e), e_endsAt := patched (ep_endsAt p) (e_endsAt e)\<rparr>"

definition adminPatchEvent :: "env \<Rightarrow> uid \<Rightarrow> uid \<Rightarrow> event_patch \<Rightarrow> db \<Rightarrow> event outcome" where
  "adminPatchEvent env actor eid patch d =
     (case by_key e_id eid (events d) of
        None \<Rightarrow> (d, [], Inl Not_found)
      | Some event \<Rightarrow>
          if event_patch_fields patch = [] then (d, [], Inl (Validation ''empty patch''))
          else let d1 = update_event eid (apply_event_patch patch) d;
                   d2 = insert_audit env (Some actor) ''event_update'' (Some (Event_target eid))
                          (Some (lit ''admin event edit'')) (Some (Meta_fields (event_patch_fields patch))) d1
               in (d2, [], Inr (apply_event_patch patch event)))"

subsection \<open>The catalogue\<close>

record category_patch =
  cp_active :: "bool option"
  cp_restricted :: "bool option"
  cp_maxRequestQty :: "qty option"
  cp_maxOfferQty :: "qty option"
  cp_warningKey :: "string option option"

definition category_patch_fields :: "category_patch \<Rightarrow> string list" where
  "category_patch_fields p = map fst (filter snd
     [(''active'', cp_active p \<noteq> None), (''restricted'', cp_restricted p \<noteq> None),
      (''maxRequestQty'', cp_maxRequestQty p \<noteq> None), (''maxOfferQty'', cp_maxOfferQty p \<noteq> None),
      (''warningKey'', cp_warningKey p \<noteq> None)])"

definition apply_category_patch :: "category_patch \<Rightarrow> category \<Rightarrow> category" where
  "apply_category_patch p c = c\<lparr>c_active := patched (cp_active p) (c_active c),
     c_restricted := patched (cp_restricted p) (c_restricted c),
     c_maxRequestQty := patched (cp_maxRequestQty p) (c_maxRequestQty c),
     c_maxOfferQty := patched (cp_maxOfferQty p) (c_maxOfferQty c),
     c_warningKey := patched (cp_warningKey p) (c_warningKey c)\<rparr>"

definition adminPatchCategory :: "env \<Rightarrow> uid \<Rightarrow> uid \<Rightarrow> category_patch \<Rightarrow> db \<Rightarrow> category outcome" where
  "adminPatchCategory env actor cid patch d =
     (case by_key c_id cid (categories d) of
        None \<Rightarrow> (d, [], Inl Not_found)
      | Some category \<Rightarrow>
          if cp_active patch = Some True \<and> violatesDenylist (c_slug category) (c_name category)
          then (d, [], Inl Prohibited_category)
          else if category_patch_fields patch = [] then (d, [], Inl (Validation ''empty patch''))
          else let d1 = d\<lparr>categories := upd_key c_id cid (apply_category_patch patch) (categories d)\<rparr>;
                   d2 = insert_audit env (Some actor) ''category_update'' (Some (Category_target (c_slug category)))
                          (Some (lit ''admin catalogue edit'')) (Some (Meta_fields (category_patch_fields patch))) d1
               in (d2, [], Inr (apply_category_patch patch category)))"

text \<open>Rows ordered by \<open>sort_order\<close>, then by slug in the order \<open>le\<close> of the database's collation.\<close>

definition listActiveCategories :: "(string \<Rightarrow> nat) \<Rightarrow> db \<Rightarrow> category list" where
  "listActiveCategories slug_rank d =
     sort_key c_sortOrder (sort_key (\<lambda>c. slug_rank (c_slug c)) (filter c_active (categories d)))"

text \<open>\<open>setAdminWants\<close>: the last entry per slug counts; every slug must be a category.\<close>

definition setAdminWants :: "uid \<Rightarrow> (string \<times> int option) list \<Rightarrow> db \<Rightarrow> unit outcome" where
  "setAdminWants eid wants d =
     (case requireEvent d (Some eid) of
        Inl e \<Rightarrow> (d, [], Inl e)
      | Inr _ \<Rightarrow>
          let slugs = remdups (map fst wants);
              cats = filter (\<lambda>c. c_slug c \<in> set slugs) (categories d)
          in if length cats \<noteq> length slugs then (d, [], Inl (Validation ''wants''))
             else (d\<lparr>eventAdminWants := filter (\<lambda>w. aw_eventId w \<noteq> eid) (eventAdminWants d)
                 @ map (\<lambda>c. \<lparr>aw_eventId = eid, aw_categoryId = c_id c,
                     aw_qty = (case map_of (rev wants) (c_slug c) of None \<Rightarrow> None | Some q \<Rightarrow> q)\<rparr>) cats\<rparr>, [], Inr ()))"

subsection \<open>Appeals\<close>

record appeal_view =
  apv_id :: uid
  apv_moderationActionId :: uid
  apv_action :: moderation_action_kind
  apv_body :: utext
  apv_status :: appeal_status
  apv_createdAt :: instant
  apv_resolvedAt :: "instant option"

definition toAppealView :: "appeal \<Rightarrow> moderation_action_kind \<Rightarrow> appeal_view" where
  "toAppealView row action = \<lparr>apv_id = ap_id row, apv_moderationActionId = ap_moderationActionId row,
     apv_action = action, apv_body = ap_body row, apv_status = ap_status row, apv_createdAt = ap_createdAt row,
     apv_resolvedAt = ap_resolvedAt row\<rparr>"

definition createAppeal :: "env \<Rightarrow> uid \<Rightarrow> uid \<Rightarrow> utext \<Rightarrow> db \<Rightarrow> appeal_view outcome" where
  "createAppeal env u actionId body d =
     (case by_key ma_id actionId (moderationActions d) of
        None \<Rightarrow> (d, [], Inl Not_found)
      | Some action \<Rightarrow>
          if ma_targetUserId action \<noteq> Some u then (d, [], Inl Not_found)
          else if list_ex (\<lambda>a. ap_moderationActionId a = actionId \<and> ap_status a = Appeal_open) (appeals d)
          then (d, [], Inl Request_conflict)
          else let row = \<lparr>ap_id = next_id d, ap_userId = u, ap_moderationActionId = actionId, ap_body = body,
                         ap_status = Appeal_open, ap_resolvedBy = None, ap_createdAt = now env, ap_resolvedAt = None\<rparr>
               in (d\<lparr>appeals := appeals d @ [row], next_id := Suc (next_id d)\<rparr>, [],
                   Inr (toAppealView row (ma_action action))))"

definition listMyAppeals :: "uid \<Rightarrow> db \<Rightarrow> appeal_view list" where
  "listMyAppeals u d = List.map_filter (\<lambda>a. map_option (\<lambda>m. toAppealView a (ma_action m))
       (by_key ma_id (ap_moderationActionId a) (moderationActions d)))
     (newest_first ap_createdAt (filter (\<lambda>a. ap_userId a = u) (appeals d)))"

definition listAppeals :: "appeal_status \<Rightarrow> db \<Rightarrow> (appeal_view \<times> utext \<times> string) list" where
  "listAppeals status d = take 100 (List.map_filter (\<lambda>a.
       case (by_key ma_id (ap_moderationActionId a) (moderationActions d), by_key u_id (ap_userId a) (users d)) of
         (Some m, Some u) \<Rightarrow> Some (toAppealView a (ma_action m), ma_reason m, u_pseudonym u)
       | _ \<Rightarrow> None)
     (newest_first ap_createdAt (filter (\<lambda>a. ap_status a = status) (appeals d))))"

definition overturn :: "moderation_action \<Rightarrow> db \<Rightarrow> db" where
  "overturn action d = (case ma_targetUserId action of
     None \<Rightarrow> d
   | Some target \<Rightarrow>
       if ma_action action = Act_suspend
       then d\<lparr>users := upd_where (\<lambda>u. u_id u = target \<and> u_status u = User_suspended)
              (\<lambda>u. u\<lparr>u_status := User_active, u_suspendedUntil := None\<rparr>) (users d)\<rparr>
       else if ma_action action = Act_restrict_requests then update_user target (\<lambda>u. u\<lparr>u_canRequest := True\<rparr>) d
       else if ma_action action = Act_restrict_helping then update_user target (\<lambda>u. u\<lparr>u_canHelp := True\<rparr>) d
       else d)"

definition resolve_appeal_tx :: "env \<Rightarrow> uid \<Rightarrow> uid \<Rightarrow> bool \<Rightarrow> string \<Rightarrow> db \<Rightarrow> app_error + db \<times> uid" where
  "resolve_appeal_tx env actor k overturned reason d =
     r_bind (or_throw Not_found (by_key ap_id k (appeals d))) (\<lambda>appeal.
     r_bind (or_throw Not_found (by_key ma_id (ap_moderationActionId appeal) (moderationActions d))) (\<lambda>action.
       if ap_status appeal \<noteq> Appeal_open then Inl Request_conflict
       else let verdict = (if overturned then Appeal_overturned else Appeal_upheld);
                d1 = d\<lparr>appeals := upd_key ap_id k (\<lambda>a. a\<lparr>ap_status := verdict, ap_resolvedBy := Some actor,
                       ap_resolvedAt := Some (now env)\<rparr>) (appeals d)\<rparr>;
                d2 = (if overturned then overturn action d1 else d1);
                d3 = audit_action env actor ''appeal_resolve'' (Appeal_target k) reason
                       (Some (Meta_appeal verdict (ap_moderationActionId appeal))) d2
            in Inr (d3, ap_userId appeal)))"

definition resolveAppeal :: "env \<Rightarrow> uid \<Rightarrow> uid \<Rightarrow> bool \<Rightarrow> string \<Rightarrow> db \<Rightarrow> unit outcome" where
  "resolveAppeal env actor k overturned reason d =
     commit d (resolve_appeal_tx env actor k overturned reason d) (\<lambda>(d', appellant).
       (d', [notifyModerationOutcome appellant
               (if overturned then ''appeal_overturned'' else ''appeal_upheld'') (Appeal_key k)], Inr ()))"

subsection \<open>The audit log\<close>

record audit_view =
  adv_id :: nat
  adv_actorPseudonym :: "string option"
  adv_action :: string
  adv_target :: "audit_target option"
  adv_reason :: "utext option"
  adv_createdAt :: instant

datatype audit_cursor = First_page | From_number "int option"   \<comment> \<open>\<open>Number(cursor)\<close>, \<open>None\<close> unless an integer\<close>

definition audit_below :: "nat option \<Rightarrow> db \<Rightarrow> audit_entry list" where
  "audit_below c d = sort_key (\<lambda>l. - int (al_id l))
     (filter (\<lambda>l. case c of None \<Rightarrow> True | Some k \<Rightarrow> al_id l < k) (auditLog d))"

definition audit_view_of :: "db \<Rightarrow> audit_entry \<Rightarrow> audit_view" where
  "audit_view_of d l = \<lparr>adv_id = al_id l, adv_actorPseudonym = pseudonym_of d (al_actorId l),
     adv_action = al_action l, adv_target = al_target l, adv_reason = al_reason l, adv_createdAt = al_createdAt l\<rparr>"

definition audit_page :: "nat option \<Rightarrow> nat \<Rightarrow> db \<Rightarrow> audit_view list \<times> nat option" where
  "audit_page c limit d = (let items = map (audit_view_of d) (take limit (audit_below c d)) in
     (items, if length items = limit \<and> items \<noteq> [] then Some (adv_id (last items)) else None))"

definition listAudit :: "audit_cursor \<Rightarrow> nat \<Rightarrow> db \<Rightarrow> app_error + audit_view list \<times> nat option" where
  "listAudit cursor limit d = (case cursor of
     First_page \<Rightarrow> Inr (audit_page None limit d)
   | From_number None \<Rightarrow> Inl (Validation ''cursor'')
   | From_number (Some n) \<Rightarrow> if n \<le> 0 then Inl (Validation ''cursor'') else Inr (audit_page (Some (nat n)) limit d))"

subsection \<open>Flags and the emergency stop\<close>

definition updateFlag :: "env \<Rightarrow> uid \<Rightarrow> string \<Rightarrow> bool \<Rightarrow> db \<Rightarrow> feature_flag outcome" where
  "updateFlag env actor key enabled d =
     (case by_key ff_key key (featureFlags d) of
        None \<Rightarrow> (d, [], Inl Not_found)
      | Some flag \<Rightarrow>
          (insert_audit env (Some actor) ''flag_update'' (Some (Flag_target key))
             (Some (lit (if enabled then ''enabled=true'' else ''enabled=false''))) None
             (d\<lparr>featureFlags := upd_key ff_key key (\<lambda>f. f\<lparr>ff_enabled := enabled\<rparr>) (featureFlags d)\<rparr>),
           [], Inr (flag\<lparr>ff_enabled := enabled\<rparr>)))"

definition emergencyShutdown :: "env \<Rightarrow> uid \<Rightarrow> string \<Rightarrow> db \<Rightarrow> nat outcome" where
  "emergencyShutdown env actor reason d =
     (let running = (\<lambda>e. e_status e = Active \<and> \<not> e_matchingPaused e);
          paused = length (filter running (events d));
          d1 = d\<lparr>events := upd_where running (\<lambda>e. e\<lparr>e_matchingPaused := True\<rparr>) (events d)\<rparr>;
          d2 = d1\<lparr>featureFlags := upd_key ff_key ''signup_open'' (\<lambda>f. f\<lparr>ff_enabled := False\<rparr>) (featureFlags d1)\<rparr>
      in (audit_action env actor ''emergency_shutdown'' Platform_target reason (Some (Meta_paused paused)) d2,
          [], Inr paused))"

end
