(* ===== verification/Insights.thy ===== *)
theory Insights
  imports Administration Data_Requests
begin

text \<open>
  What is computed over the tables and shown to people who do not own the rows:
  \<open>modules/events/bring.ts\<close>, \<open>modules/dashboard/service.ts\<close>, \<open>searchEvents\<close> of \<open>events/service.ts\<close>,
  \<open>adminStats\<close> of \<open>admin/service.ts\<close> and the reminder sweep of \<open>workers/attendance.ts\<close>.
\<close>

subsection \<open>Shortage levels\<close>

record shortage_inputs =
  si_requestedQty :: qty
  si_offeredQty :: qty
  si_distinctRequesters :: nat
  si_distinctOfferers :: nat
  si_kAnonymityThreshold :: nat

definition computeShortage :: "shortage_inputs \<Rightarrow> shortage_level" where
  "computeShortage i =
     (if si_distinctRequesters i < si_kAnonymityThreshold i \<and> si_distinctOfferers i < si_kAnonymityThreshold i
      then Unknown_shortage
      else if si_requestedQty i \<le> 0
      then (if si_offeredQty i > of_nat (si_kAnonymityThreshold i) then Possible_surplus else Adequate)
      else let ratio = si_offeredQty i / si_requestedQty i in
        if ratio < 1 / 4 then Critical_shortage
        else if ratio < 3 / 4 then High_need
        else if ratio < 5 / 4 then Moderate_need
        else if ratio < 3 then Adequate
        else Possible_surplus)"

definition severity :: "shortage_level \<Rightarrow> nat" where
  "severity l = length (takeWhile (\<lambda>x. x \<noteq> l) SHORTAGE_LEVELS)"

text \<open>A sum with the number of distinct people behind it (\<open>GROUP BY category_id\<close>).\<close>

record agg =
  ag_qty :: qty
  ag_users :: nat

definition aggregate :: "('r \<Rightarrow> qty) \<Rightarrow> ('r \<Rightarrow> uid) \<Rightarrow> 'r list \<Rightarrow> agg" where
  "aggregate q who rows = \<lparr>ag_qty = sum_list (map q rows), ag_users = length (remdups (map who rows))\<rparr>"

definition open_demand :: "db \<Rightarrow> uid \<Rightarrow> uid \<Rightarrow> agg" where
  "open_demand d eid cid = aggregate (\<lambda>r. r_qty r - r_qtyFulfilled r) r_requesterId
     (filter (\<lambda>r. r_eventId r = eid \<and> r_status r \<in> {Searching, Offering} \<and> r_categoryId r = cid) (requests d))"

definition free_stock :: "(item \<Rightarrow> bool) \<Rightarrow> db \<Rightarrow> uid \<Rightarrow> uid \<Rightarrow> agg" where
  "free_stock P d eid cid = aggregate (\<lambda>i. i_qtyOnHand i - i_qtyReserved i) i_userId
     (filter (\<lambda>i. i_eventId i = eid \<and> i_active i \<and> P i \<and> i_categoryId i = cid) (inventoryItems d))"

record bring_suggestion =
  bs_categoryId :: uid
  bs_categorySlug :: string
  bs_level :: shortage_level
  bs_suggestedQty :: qty
  bs_unit :: unit_kind

definition bring_suggestion_of :: "db \<Rightarrow> uid \<Rightarrow> uid \<Rightarrow> effective_category \<Rightarrow> bring_suggestion" where
  "bring_suggestion_of d eid u ef =
     (let c = ef_category ef;
          req = open_demand d eid (c_id c);
          off = free_stock (\<lambda>i. i_userId i \<noteq> u) d eid (c_id c)
      in \<lparr>bs_categoryId = c_id c, bs_categorySlug = c_slug c,
          bs_level = computeShortage \<lparr>si_requestedQty = ag_qty req, si_offeredQty = ag_qty off,
             si_distinctRequesters = ag_users req, si_distinctOfferers = ag_users off,
             si_kAnonymityThreshold = kAnonymityThreshold\<rparr>,
          bs_suggestedQty = max (min (ag_qty req - ag_qty off) (min (ef_maxOfferQty ef) 10)) 0,
          bs_unit = c_unit c\<rparr>)"

definition getBringSuggestions :: "db \<Rightarrow> uid \<Rightarrow> uid \<Rightarrow> app_error + bring_suggestion list" where
  "getBringSuggestions d eid u =
     (if getMembership d eid u = None then Inl Forbidden
      else Inr (take 6 (sort_key (\<lambda>s. severity (bs_level s))
             (map (bring_suggestion_of d eid u) (effectiveEventCategories d eid)))))"

subsection \<open>The dashboard\<close>

definition gateValue :: "qty \<Rightarrow> nat \<Rightarrow> qty option" where
  "gateValue v distinctUsers = (if distinctUsers \<ge> kAnonymityThreshold then Some v else None)"

definition request_category :: "db \<Rightarrow> match_row \<Rightarrow> uid option" where
  "request_category d m = map_option r_categoryId (by_key r_id (m_requestId m) (requests d))"

definition reserved_now :: "db \<Rightarrow> uid \<Rightarrow> uid \<Rightarrow> agg" where
  "reserved_now d eid cid = aggregate m_qtyReserved m_helperId
     (filter (\<lambda>m. m_eventId m = eid \<and> m_status m = M_active \<and> request_category d m = Some cid) (matches d))"

definition recently_settled :: "env \<Rightarrow> uid \<Rightarrow> match_row \<Rightarrow> bool" where
  "recently_settled env eid m \<longleftrightarrow> m_eventId m = eid \<and> m_status m \<in> {M_completed, M_partially_completed}
     \<and> (case m_closedAt m of None \<Rightarrow> False | Some t \<Rightarrow> t > now env - 3600000)"

text \<open>The lesser of both confirmations, the only one when the other is missing; SQL sums skip nulls.\<close>

definition settled_qty :: "match_row \<Rightarrow> qty" where
  "settled_qty m = (case (m_requesterConfirmedQty m, m_helperConfirmedQty m) of
     (Some a, Some b) \<Rightarrow> min a b | (Some a, None) \<Rightarrow> a | (None, Some b) \<Rightarrow> b | (None, None) \<Rightarrow> 0)"

definition fulfilled_recently :: "env \<Rightarrow> db \<Rightarrow> uid \<Rightarrow> uid \<Rightarrow> agg" where
  "fulfilled_recently env d eid cid = aggregate settled_qty m_helperId
     (filter (\<lambda>m. recently_settled env eid m \<and> request_category d m = Some cid) (matches d))"

record category_need =
  cn_categoryId :: uid
  cn_categorySlug :: string
  cn_level :: shortage_level
  cn_requestedQty :: "qty option"
  cn_offeredQty :: "qty option"
  cn_reservedQty :: "qty option"
  cn_fulfilledRecentQty :: "qty option"
  cn_unit :: unit_kind

record event_dashboard =
  ed_eventId :: uid
  ed_generatedAt :: instant
  ed_needs :: "category_need list"
  ed_recentFulfilments :: nat

definition category_need_of :: "env \<Rightarrow> db \<Rightarrow> uid \<Rightarrow> category \<Rightarrow> category_need" where
  "category_need_of env d eid c =
     (let req = open_demand d eid (c_id c);
          off = free_stock (\<lambda>i. case i_expiresAt i of None \<Rightarrow> True | Some t \<Rightarrow> t > now env) d eid (c_id c);
          res = reserved_now d eid (c_id c);
          ful = fulfilled_recently env d eid (c_id c)
      in \<lparr>cn_categoryId = c_id c, cn_categorySlug = c_slug c,
          cn_level = computeShortage \<lparr>si_requestedQty = ag_qty req, si_offeredQty = ag_qty off,
             si_distinctRequesters = ag_users req, si_distinctOfferers = ag_users off,
             si_kAnonymityThreshold = kAnonymityThreshold\<rparr>,
          cn_requestedQty = gateValue (ag_qty req) (ag_users req),
          cn_offeredQty = gateValue (ag_qty off) (ag_users off),
          cn_reservedQty = gateValue (ag_qty res) (ag_users res),
          cn_fulfilledRecentQty = gateValue (ag_qty ful) (ag_users ful), cn_unit = c_unit c\<rparr>)"

definition computeDashboard :: "env \<Rightarrow> db \<Rightarrow> uid \<Rightarrow> event_dashboard" where
  "computeDashboard env d eid =
     (let settled = filter (recently_settled env eid) (matches d);
          participants = length (remdups (map m_requesterId settled @ map m_helperId settled))
      in \<lparr>ed_eventId = eid, ed_generatedAt = now env,
          ed_needs = map (\<lambda>ef. category_need_of env d eid (ef_category ef)) (effectiveEventCategories d eid),
          ed_recentFulfilments = (if participants \<ge> kAnonymityThreshold then length settled else 0)\<rparr>)"

text \<open>\<open>cached\<close> is what Redis holds for the event, \<open>None\<close> when nothing or unreachable; it lives 30 seconds.\<close>

definition CACHE_TTL_SECONDS :: int where "CACHE_TTL_SECONDS = 30"

definition getEventDashboard :: "env \<Rightarrow> event_dashboard option \<Rightarrow> db \<Rightarrow> uid \<Rightarrow> event_dashboard" where
  "getEventDashboard env cached d eid = (case cached of Some v \<Rightarrow> v | None \<Rightarrow> computeDashboard env d eid)"

subsection \<open>Event search\<close>

datatype search_cursor = First_events | Bad_event_cursor | After_event instant uid

record event_search =
  es_q :: "utext option"
  es_searchType :: "event_type option"
  es_near :: "geopoint option"
  es_cursor :: search_cursor
  es_limit :: nat

definition searchable :: "env \<Rightarrow> (nat \<Rightarrow> nat) \<Rightarrow> event_search \<Rightarrow> event \<Rightarrow> bool" where
  "searchable env foldc input e \<longleftrightarrow> e_status e \<in> {Scheduled, Active} \<and> e_visibility e = Public \<and> e_publicApproved e
     \<and> (case es_q input of None \<Rightarrow> True
        | Some q \<Rightarrow> q = [] \<or> ilike_contains foldc q (e_title e) \<or> ilike_contains foldc q (e_areaLabel e))
     \<and> (case es_searchType input of None \<Rightarrow> True | Some ty \<Rightarrow> e_type e = ty)
     \<and> (case es_near input of None \<Rightarrow> True
        | Some p \<Rightarrow> distanceM env (e_center e) (coarsen (fst p) (snd p)) \<le> 50000)
     \<and> (case (es_near input, es_cursor input) of
          (None, After_event t k) \<Rightarrow> e_startsAt e > t \<or> (e_startsAt e = t \<and> e_id e > k)
        | _ \<Rightarrow> True)"

definition search_order :: "env \<Rightarrow> event_search \<Rightarrow> event list \<Rightarrow> event list" where
  "search_order env input es = (case es_near input of
     Some p \<Rightarrow> sort_key (\<lambda>e. distanceM env (e_center e) (coarsen (fst p) (snd p))) es
   | None \<Rightarrow> sort_key e_startsAt (sort_key e_id es))"

definition has_joined :: "db \<Rightarrow> uid option \<Rightarrow> uid \<Rightarrow> bool option" where
  "has_joined d viewer eid = map_option (\<lambda>u. list_ex (\<lambda>m. mb_userId m = u \<and> mb_eventId m = eid
     \<and> mb_leftAt m = None) (memberships d)) viewer"

definition searchEvents ::
  "env \<Rightarrow> (nat \<Rightarrow> nat) \<Rightarrow> event_search \<Rightarrow> uid option \<Rightarrow> db \<Rightarrow> app_error + event_summary list \<times> search_cursor" where
  "searchEvents env foldc input viewer d =
     (if es_near input = None \<and> es_cursor input = Bad_event_cursor then Inl (Validation ''cursor'')
      else let rows = take (es_limit input) (search_order env input (filter (searchable env foldc input) (events d)))
           in Inr (map (\<lambda>e. toSummary e (take 3 (computePublicWants d (e_id e))) (has_joined d viewer (e_id e))) rows,
                   if es_near input = None \<and> length rows = es_limit input \<and> rows \<noteq> []
                   then After_event (e_startsAt (last rows)) (e_id (last rows)) else First_events))"

subsection \<open>Statistics\<close>

definition count_by :: "('r \<Rightarrow> 'k) \<Rightarrow> 'r list \<Rightarrow> ('k \<times> nat) list" where
  "count_by f rows = map (\<lambda>k. (k, length (filter (\<lambda>r. f r = k) rows))) (remdups (map f rows))"

text \<open>\<open>percentile_cont(0.5)\<close>: the middle value, or the mean of the two middle ones.\<close>

definition median :: "qty list \<Rightarrow> qty option" where
  "median xs = (let s = sort xs; n = length xs in
     if n = 0 then None
     else if n mod 2 = 1 then Some (s ! (n div 2))
     else Some ((s ! (n div 2 - 1) + s ! (n div 2)) / 2))"

record admin_stats =
  st_usersTotal :: nat
  st_active7d :: nat
  st_eventsByStatus :: "(event_status \<times> nat) list"
  st_requests24hByStatus :: "(request_status \<times> nat) list"
  st_completed24h :: nat
  st_medianTimeToMatchSeconds :: "qty option"
  st_accepted24h :: nat
  st_resolved24h :: nat
  st_acceptanceRate :: "qty option"
  st_notifications24h :: nat
  st_reportsOpen :: nat

definition adminStats :: "env \<Rightarrow> db \<Rightarrow> admin_stats" where
  "adminStats env d =
     (let day = now env - 86400000;
          offers = filter (\<lambda>x. o_offeredAt x > day) (matchOffers d);
          accepted = length (filter (\<lambda>x. o_status x = Accepted) offers);
          resolved = length (filter (\<lambda>x. o_status x \<noteq> Offered) offers);
          timed = List.map_filter (\<lambda>m. map_option (\<lambda>r. (m, r)) (by_key r_id (m_requestId m) (requests d))) (matches d)
      in \<lparr>st_usersTotal = length (filter (\<lambda>u. u_deletedAt u = None) (users d)),
          st_active7d = length (remdups (map se_userId (filter
             (\<lambda>s. se_lastSeenAt s > now env - 7 * 86400000 \<and> se_revokedAt s = None) (sessions d)))),
          st_eventsByStatus = count_by e_status (events d),
          st_requests24hByStatus = count_by r_status (filter (\<lambda>r. r_createdAt r > day) (requests d)),
          st_completed24h = length (filter (\<lambda>(m, _). m_status m \<in> {M_completed, M_partially_completed}
             \<and> (case m_closedAt m of None \<Rightarrow> False | Some t \<Rightarrow> t > day)) timed),
          st_medianTimeToMatchSeconds = median (map (\<lambda>(m, r). of_int (m_createdAt m - r_createdAt r) / 1000)
             (filter (\<lambda>(m, _). m_createdAt m > day) timed)),
          st_accepted24h = accepted, st_resolved24h = resolved,
          st_acceptanceRate = (if resolved > 0 then Some (of_nat accepted / of_nat resolved) else None),
          st_notifications24h = length (filter (\<lambda>n. nt_createdAt n > day) (notifications d)),
          st_reportsOpen = length (filter (\<lambda>r. rp_status r = Report_open) (reports d))\<rparr>)"

subsection \<open>Attendance reminders\<close>

definition TICK_MS :: int where "TICK_MS = 5 * 60000"

definition isReminderDue :: "instant \<Rightarrow> instant \<Rightarrow> bool" where
  "isReminderDue occurrence t = (let due = occurrence - 24 * 60 * 60 * 1000 in t \<ge> due \<and> t < due + TICK_MS)"

definition reminded :: "db \<Rightarrow> uid \<Rightarrow> membership \<Rightarrow> bool" where
  "reminded d eid m \<longleftrightarrow> mb_eventId m = eid \<and> mb_leftAt m = None \<and> \<not> mb_banned m
     \<and> (case by_key u_id (mb_userId m) (users d) of None \<Rightarrow> False | Some u \<Rightarrow> u_deletedAt u = None)"

definition reminder_job :: "event \<Rightarrow> string \<Rightarrow> membership \<Rightarrow> effect" where
  "reminder_job e day m = Notify_job \<lparr>nj_userId = mb_userId m, nj_type = N_attendance_check,
     nj_titleKey = ''notifications.attendanceTitle'', nj_bodyKey = ''notifications.attendanceBody'',
     nj_params = [(''event'', Text_param (e_title e)), (''eventId'', Uid_param (e_id e)),
       (''occurrence'', Text_param (lit day))],
     nj_deepLink = None, nj_dedupeKey = Some (Attendance_key (e_id e) (mb_userId m) day)\<rparr>"

definition event_reminders :: "(instant \<Rightarrow> instant) \<Rightarrow> instant \<Rightarrow> db \<Rightarrow> event \<Rightarrow> effect list option" where
  "event_reminders next_day t d e =
     map_option (\<lambda>occ. case occ of
         None \<Rightarrow> []
       | Some o1 \<Rightarrow> if isReminderDue o1 t
            then map (reminder_job e (iso_day o1)) (filter (reminded d (e_id e)) (memberships d)) else [])
       (nextDailyStart next_day (e_startsAt e) (e_endsAt e) t)"

fun reminders_of :: "(instant \<Rightarrow> instant) \<Rightarrow> instant \<Rightarrow> db \<Rightarrow> event list \<Rightarrow> effect list option" where
  "reminders_of next_day t d [] = Some []"
| "reminders_of next_day t d (e # es) =
     Option.bind (event_reminders next_day t d e) (\<lambda>a. map_option ((@) a) (reminders_of next_day t d es))"

definition sendAttendanceReminders :: "(instant \<Rightarrow> instant) \<Rightarrow> instant \<Rightarrow> db \<Rightarrow> effect list option" where
  "sendAttendanceReminders next_day t d = reminders_of next_day t d
     (filter (\<lambda>e. e_status e \<in> {Scheduled, Active} \<and> e_endsAt e > t) (events d))"

end
