(* ===== verification/Server.thy ===== *)
theory Server
  imports Exchange Settings Insights
begin

text \<open>
  The whole server: the handlers of the components around the exchange (accounts, administration, data
  requests, notifications, settings) beside its operations. Each of them is a run of the abstract
  transition system of \<open>Exchange\<close>, so every invariant proved there holds of the whole server.
\<close>

subsection \<open>The handlers around the exchange\<close>

datatype around =
    Start_otp crypto otp_config bool bool utext string
  | Verify_otp crypto sign_in_draws utext string device
  | Login crypto bool bool string utext utext device
  | Change_password crypto bool "nat list" uid uid utext utext
  | Set_credentials crypto "nat list" uid utext utext
  | Reset_password crypto "nat list" utext string utext
  | End_session uid uid
  | Authenticate crypto "string option" string
  | Create_admin crypto "nat list" "nat list" string "int \<times> int" uid utext utext user_role
  | Reset_admin_password crypto "nat list" "nat list" uid uid
  | Publish_notice uid uid utext bool
  | Patch_event uid uid event_patch
  | Patch_category uid uid category_patch
  | Set_wants uid "(string \<times> int option) list"
  | Create_appeal uid uid utext
  | Resolve_appeal uid uid bool string
  | Update_flag uid string bool
  | Emergency_shutdown uid string
  | Request_export bool uid
  | Request_deletion "utext \<Rightarrow> utext" uid utext
  | Data_request string uid
  | Deliver "string \<Rightarrow> catalog" "param_value \<Rightarrow> utext" "push_provider list" notify_job
  | Update_me "int \<times> int" uid me_patch
  | Register_push uid string string
  | Put_prefs uid "bool \<times> (notification_type \<times> bool) list"
  | Mark_notification uid uid

fun exec_around :: "env \<Rightarrow> around \<Rightarrow> db \<Rightarrow> db" where
  "exec_around env (Start_otp k cfg a b email code) d = fst (startOtp env k cfg a b email code d)"
| "exec_around env (Verify_otp k draws email code dev) d = fst (verifyOtp env k draws email code dev d)"
| "exec_around env (Login k a b token name password dev) d = fst (loginWithPassword env k a b token name password dev d)"
| "exec_around env (Change_password k a salt u sid old new) d = fst (changeOwnPassword env k a salt u sid old new d)"
| "exec_around env (Set_credentials k salt u name password) d = fst (setOwnCredentials env k salt u name password d)"
| "exec_around env (Reset_password k salt email code new) d = fst (resetPasswordWithOtp env k salt email code new d)"
| "exec_around env (End_session u sid) d = fst (endSession env u sid d)"
| "exec_around env (Authenticate k token url) d = fst (authenticate env k token url d)"
| "exec_around env (Create_admin k bytes salt enc draw actor name email role) d =
     fst (createAdminAccount env k bytes salt enc draw actor name email role d)"
| "exec_around env (Reset_admin_password k bytes salt actor u) d = fst (resetAdminPassword env k bytes salt actor u d)"
| "exec_around env (Publish_notice actor eid body urgent) d = fst (publishEventNotice env actor eid body urgent d)"
| "exec_around env (Patch_event actor eid patch) d = fst (adminPatchEvent env actor eid patch d)"
| "exec_around env (Patch_category actor cid patch) d = fst (adminPatchCategory env actor cid patch d)"
| "exec_around env (Set_wants eid wants) d = fst (setAdminWants eid wants d)"
| "exec_around env (Create_appeal u k body) d = fst (createAppeal env u k body d)"
| "exec_around env (Resolve_appeal actor k b reason) d = fst (resolveAppeal env actor k b reason d)"
| "exec_around env (Update_flag actor key b) d = fst (updateFlag env actor key b d)"
| "exec_around env (Emergency_shutdown actor reason) d = fst (emergencyShutdown env actor reason d)"
| "exec_around env (Request_export a u) d = fst (requestExport env a u d)"
| "exec_around env (Request_deletion lower u confirm) d = fst (requestAccountDeletion env lower u confirm d)"
| "exec_around env (Data_request seed k) d = fst (processDataRequest env seed k d)"
| "exec_around env (Deliver cats shown ps job) d = fst (deliverNotification env cats shown ps job d)"
| "exec_around env (Update_me draw u patch) d = fst (updateMe env draw u patch d)"
| "exec_around env (Register_push u p t) d = registerPushToken env u p t d"
| "exec_around env (Put_prefs u prefs) d = putNotificationPrefs u prefs d"
| "exec_around env (Mark_notification u k) d = fst (markNotificationRead env u k d)"

subsection \<open>They leave the exchange alone\<close>

lemma outside_trans_same:
  "outside a b \<Longrightarrow> outside b c \<Longrightarrow> reliabilityStats b = reliabilityStats a \<or> reliabilityStats c = reliabilityStats b \<Longrightarrow> outside a c"
  by (auto simp: outside_def)

lemma insert_session_outside: "insert_session env u h dev d = Inr d' \<Longrightarrow> outside d d' \<and> reliabilityStats d' = reliabilityStats d"
  by (auto simp: insert_session_def result_elims outside_def)

lemma insert_user_outside: "insert_user env u d = Inr (d', c) \<Longrightarrow> outside d d'"
  by (auto simp: insert_user_def result_elims outside_def Let_def)

lemma open_session_outside: "outside d (fst (open_session env k token dev u b d))
    \<and> reliabilityStats (fst (open_session env k token dev u b d)) = reliabilityStats d"
  by (auto simp: open_session_def newSessionToken_def split: sum.split dest: insert_session_outside)

lemma sign_up_outside: "sign_up_tx env h enc draw d = Inr (d', u, b) \<Longrightarrow> outside d d'"
  by (auto simp: sign_up_tx_def result_elims Let_def split: option.splits if_splits
      dest!: insert_user_outside simp: update_user_def) (auto simp: outside_def)

lemma verifyOtp_outside: "outside d (fst (verifyOtp env k draws email code dev d))"
proof -
  have "outside d (fst (open_session env k token dev u b d2))" if "sign_up_tx env h enc draw (d\<lparr>otpCodes := t\<rparr>) = Inr (d2, u, b)"
    for h enc draw t d2 u b token
  proof -
    have "outside d d2" using sign_up_outside[OF that] by (simp add: outside_def)
    then show ?thesis using open_session_outside outside_trans_same by blast
  qed
  then show ?thesis
    by (auto simp: verifyOtp_def Let_def commit_def split: prod.split sum.split) (simp_all add: outside_def)
qed

lemma accounts_outside:
  "outside d (fst (startOtp env k cfg a b email code d))"
  "outside d (fst (loginWithPassword env k a b token name password dev d))"
  "outside d (fst (changeOwnPassword env k a salt u sid old new d))"
  "outside d (fst (setOwnCredentials env k salt u name password d))"
  "outside d (fst (resetPasswordWithOtp env k salt email code new d))"
  "outside d (fst (endSession env u sid d))"
  "outside d (fst (authenticate env k tok url d))"
  "outside d (fst (resetAdminPassword env k bytes salt actor u d))"
proof -
  show "outside d (fst (startOtp env k cfg a b email code d))" by (simp add: startOtp_def outside_def Let_def)
  show "outside d (fst (loginWithPassword env k a b token name password dev d))"
    using open_session_outside by (auto simp: loginWithPassword_def split: option.split)
  show "outside d (fst (changeOwnPassword env k a salt u sid old new d))"
    by (auto simp: changeOwnPassword_def commit_def side_writes split: option.split sum.split) (simp_all add: outside_def)
  show "outside d (fst (setOwnCredentials env k salt u name password d))"
    by (auto simp: setOwnCredentials_def set_credentials_tx_def commit_def result_elims side_writes outside_def split: sum.split)
  show "outside d (fst (resetPasswordWithOtp env k salt email code new d))"
    by (auto simp: resetPasswordWithOtp_def commit_def side_writes outside_def split: prod.split sum.split option.split)
  show "outside d (fst (endSession env u sid d))"
    by (auto simp: endSession_def revokeSession_def side_writes outside_def split: prod.split bool.split)
  show "outside d (fst (authenticate env k tok url d))"
    by (auto simp: authenticate_def split: option.split) (simp_all add: outside_def)
  show "outside d (fst (resetAdminPassword env k bytes salt actor u d))"
    by (auto simp: resetAdminPassword_def side_writes outside_def split: sum.split)
qed

lemma createAdminAccount_outside: "outside d (fst (createAdminAccount env k bytes salt enc draw actor name email role d))"
  by (auto simp: createAdminAccount_def create_admin_tx_def commit_def result_elims Let_def insert_audit_def
      split: sum.split dest!: insert_user_outside) (auto simp: outside_def)

lemma overturn_outside: "outside d (overturn action d)"
  by (simp add: overturn_def update_user_def outside_def split: option.split)

lemma audit_outside: "outside d d' \<Longrightarrow> outside d (audit_action env actor name target reason meta d')"
  by (simp add: audit_action_def insert_audit_def outside_def)

lemma resolve_appeal_outside:
  assumes "resolve_appeal_tx env actor k b reason d = Inr (d', u)"
  shows "outside d d'"
proof -
  obtain m action t where d': "d' = audit_action env actor ''appeal_resolve'' (Appeal_target k) reason m
      (if b then overturn action (d\<lparr>appeals := t\<rparr>) else d\<lparr>appeals := t\<rparr>)"
    using assms unfolding resolve_appeal_tx_def Let_def
    by (cases "by_key ap_id k (appeals d)"; cases "by_key ma_id (ap_moderationActionId (the (by_key ap_id k (appeals d)))) (moderationActions d)")
       (force simp: result_elims split: if_split_asm)+
  have "outside d (if b then overturn action (d\<lparr>appeals := t\<rparr>) else d\<lparr>appeals := t\<rparr>)"
    using overturn_outside[of "d\<lparr>appeals := t\<rparr>" action] by (simp add: outside_def)
  then show ?thesis unfolding d' by (rule audit_outside)
qed

lemma administration_outside:
  "outside d (fst (publishEventNotice env actor eid body urgent d))"
  "outside d (fst (adminPatchEvent env actor eid patch d))"
  "outside d (fst (adminPatchCategory env actor cid cpatch d))"
  "outside d (fst (setAdminWants eid wants d))"
  "outside d (fst (createAppeal env u k body d))"
  "outside d (fst (resolveAppeal env actor k b reason d))"
  "outside d (fst (updateFlag env actor key b d))"
  "outside d (fst (emergencyShutdown env actor reason d))"
proof -
  show "outside d (fst (publishEventNotice env actor eid body urgent d))"
    by (auto simp: publishEventNotice_def side_writes outside_def Let_def split: option.split sum.split)
  show "outside d (fst (adminPatchEvent env actor eid patch d))"
    by (auto simp: adminPatchEvent_def side_writes outside_def Let_def split: option.split sum.split)
  show "outside d (fst (adminPatchCategory env actor cid cpatch d))"
    by (auto simp: adminPatchCategory_def side_writes outside_def Let_def split: option.split sum.split)
  show "outside d (fst (setAdminWants eid wants d))"
    by (auto simp: setAdminWants_def side_writes outside_def Let_def split: option.split sum.split)
  show "outside d (fst (createAppeal env u k body d))"
    by (auto simp: createAppeal_def side_writes outside_def Let_def split: option.split sum.split)
  show "outside d (fst (resolveAppeal env actor k b reason d))"
    by (auto simp: resolveAppeal_def commit_def split: sum.split intro: resolve_appeal_outside)
  show "outside d (fst (updateFlag env actor key b d))"
    by (auto simp: updateFlag_def side_writes outside_def Let_def split: option.split sum.split)
  show "outside d (fst (emergencyShutdown env actor reason d))"
    by (auto simp: emergencyShutdown_def side_writes outside_def Let_def split: option.split sum.split)
qed

lemma data_requests_outside:
  "outside d (fst (requestExport env a u d))" "outside d (fst (requestAccountDeletion env lower u confirm d))"
  "outside d (fst (processExport env row d))" "outside d (update_data_request k f d)"
  by (auto simp: requestExport_def requestAccountDeletion_def delete_request_tx_def processExport_def new_data_request_def
      update_data_request_def side_writes outside_def split: option.split)

lemma settings_outside:
  "outside d (fst (deliverNotification env cats shown ps job d))" "outside d (fst (updateMe env draw u patch d))"
  "outside d (registerPushToken env u p t d)" "outside d (putNotificationPrefs u prefs d)"
  "outside d (fst (markNotificationRead env u k d))"
  by (auto simp: deliverNotification_def push_step_def disable_tokens_def updateMe_def update_me_tx_def commit_def
      registerPushToken_def putNotificationPrefs_def markNotificationRead_def result_elims side_writes outside_def
      split: option.split sum.split prod.split)

lemmas around_outside = verifyOtp_outside accounts_outside createAdminAccount_outside administration_outside
  data_requests_outside settings_outside

subsection \<open>The refinement\<close>

lemma delete_account_step: "step d (fst (performAccountDeletion env seed u d))"
  by (rule step.operation[of "Delete_account seed u" d env])
     (auto simp: response_of_def prod_eq_iff)

lemma processDataRequest_run: "step\<^sup>*\<^sup>* d (fst (processDataRequest env seed k d))"
proof -
  have "step\<^sup>*\<^sup>* d (fst (processDelete env seed row d))" for row
  proof (cases "performAccountDeletion env seed (dr_userId row) d")
    case (fields d1 es r)
    then have one: "step d d1" using delete_account_step[of d env seed "dr_userId row"] by simp
    have two: "step d1 (update_data_request j f d1)" for j f
      by (rule step.elsewhere) (rule data_requests_outside)
    have "step\<^sup>*\<^sup>* d (update_data_request j f d1)" for j f
      using one two by (blast intro: rtranclp.rtrancl_into_rtrancl)
    then show ?thesis using fields one
      by (auto simp: processDelete_def split: sum.split)
  qed
  moreover have "step\<^sup>*\<^sup>* d (fst (processExport env row d))" for row
    by (intro r_into_rtranclp step.elsewhere data_requests_outside)
  ultimately show ?thesis
    by (auto simp: processDataRequest_def split: option.split data_request_kind.split)
qed

lemma around_run: "step\<^sup>*\<^sup>* d (exec_around env a d)"
proof (cases a)
  case (Data_request seed k)
  then show ?thesis by (simp add: processDataRequest_run)
qed (simp_all, (intro r_into_rtranclp step.elsewhere around_outside)+)

inductive server_step :: "db \<Rightarrow> db \<Rightarrow> bool" where
  exchange: "op_valid op d \<Longrightarrow> exec_op env op d = Some (d', es, r) \<Longrightarrow> server_step d d'"
| around: "server_step d (exec_around env a d)"

lemma server_step_run: "server_step d d' \<Longrightarrow> step\<^sup>*\<^sup>* d d'"
  by (induction rule: server_step.induct) (auto intro: step.operation around_run)

lemma server_run: "server_step\<^sup>*\<^sup>* d d' \<Longrightarrow> step\<^sup>*\<^sup>* d d'"
  by (induction rule: rtranclp_induct) (auto intro: rtranclp_trans server_step_run)

lemma server_reachable: "initial_db d \<Longrightarrow> server_step\<^sup>*\<^sup>* d d' \<Longrightarrow> reachable d'"
  using server_run reachable_run reachable.start by blast

end
