(* ===== verification/Account_Outcomes.thy ===== *)
theory Account_Outcomes
  imports Server Scenario
begin

text \<open>
  One-time codes: the life of a code when attempts come one after the other, and what remains of its
  limits when the statements of concurrent attempts interleave.
\<close>

subsection \<open>One live code\<close>

lemma filter_upd_key_hit:
  assumes "distinct (map key t)" "filter P t = [r]" "key (f r) = key r"
  shows "filter P (upd_key key (key r) f t) = (if P (f r) then [f r] else [])"
  using assms
proof (induction t)
  case (Cons x t)
  show ?case
  proof (cases "P x")
    case True
    with Cons.prems have x: "x = r" "filter P t = []" by simp_all
    have "upd_key key (key r) f t = t"
      unfolding upd_key_def upd_where_def using Cons.prems(1) x(1) by (intro map_idI) (auto simp: image_iff)
    with x Cons.prems(3) show ?thesis by (simp add: upd_key_def upd_where_def)
  next
    case False
    with Cons.prems have r: "filter P t = [r]" by simp
    then have "r \<in> set t" by (metis filter_eq_ConsD in_set_conv_decomp)
    with Cons.prems(1) have "key x \<noteq> key r" by auto
    with False Cons.IH[OF _ r Cons.prems(3)] Cons.prems(1) show ?thesis by (simp add: upd_key_def upd_where_def)
  qed
qed simp

definition pending :: "string \<Rightarrow> otp_code \<Rightarrow> nat \<Rightarrow> otp_code list \<Rightarrow> bool" where
  "pending hmac row n t \<longleftrightarrow> distinct (map oc_id t) \<and> filter (live_code hmac) t = [row\<lparr>oc_attempts := n\<rparr>]"

definition spent :: "string \<Rightarrow> otp_code list \<Rightarrow> bool" where
  "spent hmac t \<longleftrightarrow> filter (live_code hmac) t = []"

lemma filter_both: "filter (\<lambda>c. P c \<and> Q c) t = filter Q (filter P t)"
  by (simp add: conj_commute)

lemma select_pending:
  assumes "pending hmac row n t"
  shows "otp_select env hmac t = (if now env < oc_expiresAt row then Some (row\<lparr>oc_attempts := n\<rparr>) else None)"
  using assms unfolding otp_select_def filter_both by (simp add: pending_def newest_first_def)

lemma select_spent: "spent hmac t \<Longrightarrow> otp_select env hmac t = None"
  unfolding otp_select_def filter_both by (simp add: spent_def newest_first_def)

lemma live_row:
  assumes "pending hmac row n t"
  shows "live_code hmac (row\<lparr>oc_attempts := m\<rparr>)"
proof -
  have "row\<lparr>oc_attempts := n\<rparr> \<in> set (filter (live_code hmac) t)" using assms by (simp add: pending_def)
  then show ?thesis by (simp add: live_code_def)
qed

lemma bump_pending:
  assumes "pending hmac row n t"
  shows "\<exists>t'. otp_bump (row\<lparr>oc_attempts := n\<rparr>) t = (t', Suc n) \<and> pending hmac row (Suc n) t'"
proof -
  let ?r = "row\<lparr>oc_attempts := n\<rparr>" and ?f = "\<lambda>c :: otp_code. c\<lparr>oc_attempts := Suc (oc_attempts c)\<rparr>"
  have t: "distinct (map oc_id t)" "filter (live_code hmac) t = [?r]" using assms by (simp_all add: pending_def)
  have "?r \<in> set (filter (live_code hmac) t)" unfolding t(2) by simp
  then have mem: "?r \<in> set t" by simp
  then have "by_key oc_id (oc_id ?r) t = Some ?r"
    using t(1) by (simp add: by_key_distinct)
  moreover have "filter (live_code hmac) (upd_key oc_id (oc_id ?r) ?f t) = [row\<lparr>oc_attempts := Suc n\<rparr>]"
    using filter_upd_key_hit[OF t, of ?f] live_row[OF assms, of "Suc n"] by simp
  moreover have "distinct (map oc_id (upd_key oc_id (oc_id ?r) ?f t))" using t(1) by (simp add: upd_key_def map_upd_where)
  ultimately show ?thesis by (simp add: otp_bump_def pending_def)
qed

lemma consume_pending:
  assumes "pending hmac row n t"
  shows "spent hmac (otp_consume env (oc_id row) t)"
proof -
  have t: "distinct (map oc_id t)" "filter (live_code hmac) t = [row\<lparr>oc_attempts := n\<rparr>]"
    using assms by (simp_all add: pending_def)
  show ?thesis
    using filter_upd_key_hit[OF t, of "\<lambda>c. c\<lparr>oc_consumedAt := Some (now env)\<rparr>"] by (simp add: spent_def otp_consume_def live_code_def)
qed

subsection \<open>Attempts one after the other\<close>

fun attempts_in_turn :: "crypto \<Rightarrow> string \<Rightarrow> (env \<times> string) list \<Rightarrow> otp_code list \<Rightarrow> otp_code list \<times> (app_error + unit) list" where
  "attempts_in_turn k hmac [] t = (t, [])"
| "attempts_in_turn k hmac ((env, guess) # gs) t =
     (let (t1, r) = consumeOtp env k hmac guess t; (t2, rs) = attempts_in_turn k hmac gs t1 in (t2, r # rs))"

definition same_code :: "crypto \<Rightarrow> string \<Rightarrow> string \<Rightarrow> otp_code \<Rightarrow> bool" where
  "same_code k hmac guess row \<longleftrightarrow> safeEqualHex (hashOtp (k_hmac k) guess hmac) (oc_codeHash row)"

lemma attempt_spent: "spent hmac t \<Longrightarrow> consumeOtp env k hmac guess t = (t, Inl Unauthorized)"
  by (simp add: consumeOtp_def select_spent)

lemma attempts_spent: "spent hmac t \<Longrightarrow> attempts_in_turn k hmac gs t = (t, replicate (length gs) (Inl Unauthorized))"
  by (induction gs) (auto simp: attempt_spent split: prod.split)

lemma attempt_wrong:
  assumes "pending hmac row n t" "now env < oc_expiresAt row" "\<not> same_code k hmac guess row"
  shows "\<exists>t'. consumeOtp env k hmac guess t = (t', Inl (if Suc n \<ge> otpMaxAttempts then Rate_limited else Unauthorized))
     \<and> (if Suc n \<ge> otpMaxAttempts then spent hmac t' else pending hmac row (Suc n) t')"
proof -
  obtain t1 where b: "otp_bump (row\<lparr>oc_attempts := n\<rparr>) t = (t1, Suc n)" "pending hmac row (Suc n) t1"
    using bump_pending[OF assms(1)] by blast
  then show ?thesis using assms(2,3) consume_pending[OF b(2), of env]
    by (simp add: consumeOtp_def select_pending[OF assms(1)] otp_decide_def same_code_def)
qed

lemma attempt_right:
  assumes "pending hmac row n t" "now env < oc_expiresAt row" "same_code k hmac guess row" "n < otpMaxAttempts"
  shows "\<exists>t'. consumeOtp env k hmac guess t = (t', Inr ()) \<and> spent hmac t'"
proof -
  obtain t1 where b: "otp_bump (row\<lparr>oc_attempts := n\<rparr>) t = (t1, Suc n)" "pending hmac row (Suc n) t1"
    using bump_pending[OF assms(1)] by blast
  then show ?thesis using assms(2-4) consume_pending[OF b(2), of env]
    by (simp add: consumeOtp_def select_pending[OF assms(1)] otp_decide_def same_code_def)
qed

lemma attempts_wrong:
  assumes "pending hmac row n t" "n < otpMaxAttempts"
    and "list_all (\<lambda>(env, guess). now env < oc_expiresAt row \<and> \<not> same_code k hmac guess row) gs"
  shows "\<exists>t'. attempts_in_turn k hmac gs t
       = (t', map (\<lambda>i. Inl (if Suc (n + i) = otpMaxAttempts then Rate_limited else Unauthorized)) [0..<length gs])
     \<and> (if n + length gs < otpMaxAttempts then pending hmac row (n + length gs) t' else spent hmac t')"
  using assms
proof (induction gs arbitrary: n t)
  case (Cons g gs)
  obtain env guess where g: "g = (env, guess)" by (cases g)
  from Cons.prems(3) g have now_ok: "now env < oc_expiresAt row" "\<not> same_code k hmac guess row" by simp_all
  obtain t1 where one: "consumeOtp env k hmac guess t = (t1, Inl (if Suc n \<ge> otpMaxAttempts then Rate_limited else Unauthorized))"
     "if Suc n \<ge> otpMaxAttempts then spent hmac t1 else pending hmac row (Suc n) t1"
    using attempt_wrong[OF Cons.prems(1) now_ok] by blast
  show ?case
  proof (cases "Suc n \<ge> otpMaxAttempts")
    case True
    then have "Suc n = otpMaxAttempts" using Cons.prems(2) by simp
    moreover have "replicate (length gs) (Inl Unauthorized) = map (\<lambda>i. Inl (if Suc (n + Suc i) = otpMaxAttempts then Rate_limited else Unauthorized)) [0..<length gs]"
      using True by (auto simp: map_replicate_const[symmetric] intro!: nth_equalityI)
    ultimately show ?thesis using one True attempts_spent[of hmac t1 k gs] unfolding g by (simp add: map_upt_Suc del: upt_Suc)
  next
    case False
    with one(2) Cons.IH[of "Suc n" t1] Cons.prems(3) g obtain t2 where
      "attempts_in_turn k hmac gs t1
       = (t2, map (\<lambda>i. Inl (if Suc (Suc n + i) = otpMaxAttempts then Rate_limited else Unauthorized)) [0..<length gs])"
      "if Suc n + length gs < otpMaxAttempts then pending hmac row (Suc n + length gs) t2 else spent hmac t2" by auto
    then show ?thesis using one(1) False unfolding g by (cases "Suc (n + length gs) < otpMaxAttempts") (simp_all add: map_upt_Suc del: upt_Suc)
  qed
qed auto

lemma issued_pending:
  assumes "distinct (map oc_id (otpCodes d))" "list_all (\<lambda>c. oc_id c < next_id d) (otpCodes d)"
    and "startOtp env k cfg True True email drawn d = (d1, es, r)"
  shows "\<exists>row. pending (blind_index k email) row 0 (otpCodes d1)
     \<and> oc_expiresAt row = now env + otpTtlMinutes * 60000
     \<and> oc_codeHash row = hashOtp (k_hmac k) (otp_for cfg email drawn) (blind_index k email)"
proof -
  let ?h = "blind_index k email" and ?f = "\<lambda>c. c\<lparr>oc_consumedAt := Some (now env)\<rparr>"
  let ?row = "\<lparr>oc_id = next_id d, oc_phoneHmac = None, oc_emailHmac = Some ?h,
                      oc_codeHash = hashOtp (k_hmac k) (otp_for cfg email drawn) ?h, oc_attempts = 0,
                      oc_expiresAt = now env + otpTtlMinutes * 60000, oc_consumedAt = None, oc_createdAt = now env\<rparr>"
  have t: "otpCodes d1 = upd_where (live_code ?h) ?f (otpCodes d) @ [?row]"
    using assms(3) by (auto simp: startOtp_def Let_def)
  have "filter (live_code ?h) (upd_where (live_code ?h) ?f ts) = []" for ts
    by (induction ts) (auto simp: upd_where_def live_code_def)
  moreover have "map oc_id (upd_where (live_code ?h) ?f (otpCodes d)) = map oc_id (otpCodes d)"
    by (simp add: upd_where_def)
  moreover have "next_id d \<notin> oc_id ` set (otpCodes d)" using assms(2) by (auto simp: list_all_iff)
  ultimately have "distinct (map oc_id (otpCodes d1)) \<and> filter (live_code ?h) (otpCodes d1) = [?row\<lparr>oc_attempts := 0\<rparr>]"
    unfolding t using assms(1) by (simp add: live_code_def)
  then show ?thesis by (intro exI[of _ ?row]) (simp add: pending_def)
qed

text \<open>
  C17: The life of a sign-in code whose attempts come one after the other. Each of the first four wrong
  attempts is unauthorized, the fifth is rate limited and kills the code, all later ones are unauthorized.
  The right code is accepted as long as fewer than five wrong attempts came before it and it has not expired,
  and afterwards no attempt at all succeeds with it: a code is good for one sign-in.
\<close>

theorem sign_in_code_lifecycle:
  assumes "distinct (map oc_id (otpCodes d))" "list_all (\<lambda>c. oc_id c < next_id d) (otpCodes d)"
    and start: "startOtp env k cfg True True email drawn d = (d1, es, r)"
    and code: "code = otp_for cfg email drawn" and h: "h = blind_index k email"
    and wrong: "list_all (\<lambda>(env', guess). now env' < now env + 10 * 60000
        \<and> \<not> safeEqualHex (hashOtp (k_hmac k) guess h) (hashOtp (k_hmac k) code h)) gs"
    and in_time: "now env2 < now env + 10 * 60000"
    and run: "attempts_in_turn k h gs (otpCodes d1) = (t, answers)"
  shows "answers = map (\<lambda>i. Inl (if i = 4 then Rate_limited else Unauthorized)) [0..<length gs]
    \<and> snd (consumeOtp env2 k h code t) = (if length gs < 5 then Inr () else Inl Unauthorized)
    \<and> (\<forall>env3 guess. snd (consumeOtp env3 k h guess (fst (consumeOtp env2 k h code t))) = Inl Unauthorized)"
proof -
  obtain row where row: "pending h row 0 (otpCodes d1)" "oc_expiresAt row = now env + 10 * 60000"
     "oc_codeHash row = hashOtp (k_hmac k) code h"
    using issued_pending[OF assms(1-3)] unfolding h code otpTtlMinutes_def by auto
  have w: "list_all (\<lambda>(env, guess). now env < oc_expiresAt row \<and> \<not> same_code k h guess row) gs"
    using wrong by (simp add: same_code_def row)
  have right: "same_code k h code row" by (simp add: same_code_def row(3) safeEqualHex_def)
  have A: "answers = map (\<lambda>i. Inl (if i = 4 then Rate_limited else Unauthorized)) [0..<length gs]"
    and B: "if length gs < 5 then pending h row (length gs) t else spent h t"
    using attempts_wrong[OF row(1) _ w] run by (auto simp: otpMaxAttempts_def)
  show ?thesis
  proof (cases "length gs < 5")
    case True
    then have "pending h row (length gs) t" "length gs < otpMaxAttempts" using B by (simp_all add: otpMaxAttempts_def)
    then obtain t' where "consumeOtp env2 k h code t = (t', Inr ())" "spent h t'"
      using attempt_right[of h row "length gs" t env2 k code] in_time right row(2) by auto
    with A True show ?thesis by (simp add: attempt_spent)
  next
    case False
    with A B show ?thesis by (simp add: attempt_spent)
  qed
qed


definition toy_crypto :: crypto where
  "toy_crypto = \<lparr>k_hmac = (\<lambda>t. if last t = 55 then ''00'' else ''11''), k_sha256 = map char_of,
     k_lower = id, k_nfkc = id, k_scrypt = (\<lambda>pw salt keyLen N r p. Some (replicate 32 0)), k_number = (\<lambda>s. None), k_costLog2 = 4\<rparr>"

lemma hex_values: "hex_digit CHR ''0'' = Some 0" "hex_digit CHR ''1'' = Some 1"
  by code_simp+

definition no_otp_config :: otp_config where
  "no_otp_config = \<lparr>TEST_FIXED_OTP = None, REVIEWER_EMAIL = None, REVIEWER_OTP = None\<rparr>"

definition issued_db :: db where
  "issued_db = fst (startOtp (sample_env 0) toy_crypto no_otp_config True True (lit ''a@b'') ''123456'' sample_start)"

theorem sign_in_code_lifecycle_witness:
  "snd (consumeOtp (sample_env 2) toy_crypto (blind_index toy_crypto (lit ''a@b'')) ''123456''
      (fst (consumeOtp (sample_env 1) toy_crypto (blind_index toy_crypto (lit ''a@b'')) ''123457'' (otpCodes issued_db)))) = Inr ()"
proof -
  let ?h = "blind_index toy_crypto (lit ''a@b'')"
  obtain es r where start: "startOtp (sample_env 0) toy_crypto no_otp_config True True (lit ''a@b'') ''123456'' sample_start = (issued_db, es, r)"
    unfolding issued_db_def by (metis prod.collapse)
  obtain t answers where run: "attempts_in_turn toy_crypto ?h [(sample_env 1, ''123457'')] (otpCodes issued_db) = (t, answers)"
    by (metis prod.collapse)
  have "list_all (\<lambda>(env', guess). now env' < now (sample_env 0) + 10 * 60000
        \<and> \<not> safeEqualHex (hashOtp (k_hmac toy_crypto) guess ?h) (hashOtp (k_hmac toy_crypto) ''123456'' ?h)) [(sample_env 1, ''123457'')]"
    by (simp add: toy_crypto_def hashOtp_def lit_def sample_env_def safeEqualHex_def hex_values)
  from sign_in_code_lifecycle[where ?env2.0 = "sample_env 2", OF _ _ start _ refl this _ run]
  have "snd (consumeOtp (sample_env 2) toy_crypto ?h ''123456'' t) = Inr ()"
    by (simp add: sample_start_def empty_db_def otp_for_def no_otp_config_def sample_env_def)
  with run show ?thesis by (auto split: prod.splits)
qed

subsection \<open>Concurrent attempts\<close>

text \<open>
  The statements of \<open>consumeOtp\<close> of any number of concurrent attempts, interleaved in any order, and
  new codes issued in between. An attempt is identified by a number; what it has done so far is its phase.
\<close>

datatype attempt_phase = Chosen otp_code | Counted otp_code nat | Answered otp_code nat "app_error + unit"

type_synonym race = "otp_code list \<times> (nat \<rightharpoonup> attempt_phase)"

inductive otp_race :: "crypto \<Rightarrow> string \<Rightarrow> (nat \<Rightarrow> string) \<Rightarrow> race \<Rightarrow> race \<Rightarrow> bool" for k hmac guess where
  choose: "ph i = None \<Longrightarrow> otp_select env hmac t = Some otp \<Longrightarrow> otp_race k hmac guess (t, ph) (t, ph(i \<mapsto> Chosen otp))"
| count: "ph i = Some (Chosen otp) \<Longrightarrow> otp_bump otp t = (t', n) \<Longrightarrow> otp_race k hmac guess (t, ph) (t', ph(i \<mapsto> Counted otp n))"
| answer: "ph i = Some (Counted otp n) \<Longrightarrow>
    otp_decide env (safeEqualHex (hashOtp (k_hmac k) (guess i) hmac) (oc_codeHash otp)) otp n t = (t', r) \<Longrightarrow>
    otp_race k hmac guess (t, ph) (t', ph(i \<mapsto> Answered otp n r))"
| issue: "oc_id row \<notin> oc_id ` set t \<Longrightarrow>
    otp_race k hmac guess (t, ph) (upd_where (live_code hmac) (\<lambda>c. c\<lparr>oc_consumedAt := Some (now (env :: env))\<rparr>) t @ [row], ph)"

definition counted_at :: "uid \<Rightarrow> attempt_phase option \<Rightarrow> nat option" where
  "counted_at oid p = (case p of
     Some (Counted otp n) \<Rightarrow> if oc_id otp = oid then Some n else None
   | Some (Answered otp n r) \<Rightarrow> if oc_id otp = oid then Some n else None
   | _ \<Rightarrow> None)"

definition race_ok :: "uid \<Rightarrow> race \<Rightarrow> bool" where
  "race_ok oid s \<longleftrightarrow> (\<exists>row. by_key oc_id oid (fst s) = Some row
       \<and> (\<forall>i n. counted_at oid (snd s i) = Some n \<longrightarrow> 1 \<le> n \<and> n \<le> oc_attempts row))
     \<and> (\<forall>i j n. counted_at oid (snd s i) = Some n \<longrightarrow> counted_at oid (snd s j) = Some n \<longrightarrow> i = j)
     \<and> (\<forall>i otp n r. snd s i = Some (Answered otp n r) \<longrightarrow> n > otpMaxAttempts \<longrightarrow> r = Inl Rate_limited)"

lemma attempts_stay:
  "by_key oc_id oid t = Some row \<Longrightarrow> (\<And>c. oc_id (f c) = oc_id c \<and> oc_attempts (f c) = oc_attempts c) \<Longrightarrow>
     \<exists>row'. by_key oc_id oid (upd_where P f t) = Some row' \<and> oc_attempts row' = oc_attempts row"
  by (induction t) (auto simp: by_key_Cons upd_where_def split: if_splits)

lemma by_key_still: "by_key key k t = Some r \<Longrightarrow> by_key key k (t @ t') = Some r"
  by (induction t) (auto simp: by_key_Cons split: if_splits)

lemma race_step: "otp_race k hmac guess s s' \<Longrightarrow> race_ok oid s \<Longrightarrow> race_ok oid s'"
proof (induction rule: otp_race.induct)
  case (choose ph i env t otp)
  then show ?case by (auto simp: race_ok_def counted_at_def)
next
  case (count ph i otp t t' n)
  then obtain row where row: "by_key oc_id oid t = Some row"
      "\<And>j m. counted_at oid (ph j) = Some m \<Longrightarrow> 1 \<le> m \<and> m \<le> oc_attempts row"
    and inj: "\<And>a b m. counted_at oid (ph a) = Some m \<Longrightarrow> counted_at oid (ph b) = Some m \<Longrightarrow> a = b"
    and late: "\<And>j otp n r. ph j = Some (Answered otp n r) \<Longrightarrow> n > otpMaxAttempts \<Longrightarrow> r = Inl Rate_limited"
    by (auto simp: race_ok_def)
  have t': "t' = upd_key oc_id (oc_id otp) (\<lambda>c. c\<lparr>oc_attempts := Suc (oc_attempts c)\<rparr>) t"
    using count(2) by (auto simp: otp_bump_def)
  show ?case
  proof (cases "oc_id otp = oid")
    case True
    with count(2) row(1) have n: "n = Suc (oc_attempts row)" by (auto simp: otp_bump_def)
    have "by_key oc_id oid t' = Some (row\<lparr>oc_attempts := n\<rparr>)"
      unfolding t' True using row(1) by (simp add: by_key_upd_key n)
    moreover have "counted_at oid ((ph(i \<mapsto> Counted otp n)) j) = (if j = i then Some n else counted_at oid (ph j))" for j
      using True by (simp add: counted_at_def)
    ultimately show ?thesis unfolding race_ok_def using row(2) inj late n
      by (auto simp: le_Suc_eq split: if_splits) (fastforce+)?
  next
    case False
    have "by_key oc_id oid t' = Some row" unfolding t' using False row(1) by (simp add: by_key_upd_key)
    moreover have "counted_at oid ((ph(i \<mapsto> Counted otp n)) j) = counted_at oid (ph j)" for j
      using False count(1) by (simp add: counted_at_def)
    ultimately show ?thesis unfolding race_ok_def using row(2) inj late by (auto split: if_splits)
  qed
next
  case (answer ph i otp n env t t' r)
  then obtain row where row: "by_key oc_id oid t = Some row"
      "\<And>j m. counted_at oid (ph j) = Some m \<Longrightarrow> 1 \<le> m \<and> m \<le> oc_attempts row"
    and inj: "\<And>a b m. counted_at oid (ph a) = Some m \<Longrightarrow> counted_at oid (ph b) = Some m \<Longrightarrow> a = b"
    and late: "\<And>j otp n r. ph j = Some (Answered otp n r) \<Longrightarrow> n > otpMaxAttempts \<Longrightarrow> r = Inl Rate_limited"
    by (auto simp: race_ok_def)
  have r: "n > otpMaxAttempts \<Longrightarrow> r = Inl Rate_limited" using answer(2) by (auto simp: otp_decide_def split: if_splits)
  have "t' = t \<or> t' = otp_consume env (oc_id otp) t" using answer(2) by (auto simp: otp_decide_def split: if_splits)
  then obtain row' where row': "by_key oc_id oid t' = Some row'" "oc_attempts row' = oc_attempts row"
  proof (elim disjE)
    assume "t' = t"
    with row(1) show thesis using that by blast
  next
    assume "t' = otp_consume env (oc_id otp) t"
    moreover obtain row' where "by_key oc_id oid (otp_consume env (oc_id otp) t) = Some row'" "oc_attempts row' = oc_attempts row"
      using attempts_stay[OF row(1), of "\<lambda>c. c\<lparr>oc_consumedAt := Some (now env)\<rparr>"] unfolding otp_consume_def upd_key_def by auto
    ultimately show thesis using that by simp
  qed
  have "counted_at oid ((ph(i \<mapsto> Answered otp n r)) j) = counted_at oid (ph j)" for j
    using answer(1) by (simp add: counted_at_def)
  then show ?case unfolding race_ok_def using row' row(2) inj late r by (auto split: if_splits)
next
  case (issue row' t ph env)
  then obtain row where row: "by_key oc_id oid t = Some row" by (auto simp: race_ok_def)
  then obtain row2 where "by_key oc_id oid (upd_where (live_code hmac) (\<lambda>c. c\<lparr>oc_consumedAt := Some (now env)\<rparr>) t @ [row']) = Some row2"
     "oc_attempts row2 = oc_attempts row"
    using attempts_stay[OF row, of "\<lambda>c. c\<lparr>oc_consumedAt := Some (now env)\<rparr>" "live_code hmac"] by (auto intro: by_key_still)
  with issue(2) row show ?case by (auto simp: race_ok_def)
qed


lemma race_run: "(otp_race k hmac guess)\<^sup>*\<^sup>* s s' \<Longrightarrow> race_ok oid s \<Longrightarrow> race_ok oid s'"
  by (induction rule: rtranclp_induct) (auto intro: race_step)

text \<open>
  C16: However the statements of concurrent attempts on a code interleave, and whatever codes are issued in
  between, at most five of the attempts are answered according to their guess: each of the others has counted
  past the limit and is rate limited whatever it guessed.
\<close>

theorem concurrent_guesses_bounded:
  assumes "(otp_race k hmac guess)\<^sup>*\<^sup>* (t0, \<lambda>i. None) (t, ph)" and "by_key oc_id oid t0 = Some row"
  shows "finite {i. \<exists>otp n r. ph i = Some (Answered otp n r) \<and> oc_id otp = oid \<and> n \<le> 5}
    \<and> card {i. \<exists>otp n r. ph i = Some (Answered otp n r) \<and> oc_id otp = oid \<and> n \<le> 5} \<le> 5
    \<and> (\<forall>i otp n r. ph i = Some (Answered otp n r) \<longrightarrow> 5 < n \<longrightarrow> r = Inl Rate_limited)"
proof -
  have "race_ok oid (t0, \<lambda>i. None)" using assms(2) by (simp add: race_ok_def counted_at_def)
  with assms(1) have ok: "race_ok oid (t, ph)" by (rule race_run)
  let ?S = "{i. \<exists>otp n r. ph i = Some (Answered otp n r) \<and> oc_id otp = oid \<and> n \<le> 5}"
  let ?n = "\<lambda>i. the (counted_at oid (ph i))"
  have at': "\<exists>n. counted_at oid (ph i) = Some n \<and> 1 \<le> n \<and> n \<le> 5" if "i \<in> ?S" for i
  proof -
    from that obtain otp n r where i: "ph i = Some (Answered otp n r)" "oc_id otp = oid" "n \<le> 5" by blast
    then have "counted_at oid (ph i) = Some n" by (simp add: counted_at_def)
    with ok i(3) show ?thesis by (auto simp: race_ok_def)
  qed
  have inj: "inj_on ?n ?S"
  proof (rule inj_onI)
    fix i j assume i: "i \<in> ?S" and j: "j \<in> ?S" and eq: "?n i = ?n j"
    obtain n m where "counted_at oid (ph i) = Some n" "counted_at oid (ph j) = Some m" using at'[OF i] at'[OF j] by blast
    with eq ok show "i = j" by (auto simp: race_ok_def)
  qed
  have sub: "?n ` ?S \<subseteq> {1..5}"
  proof
    fix x assume "x \<in> ?n ` ?S"
    then obtain i where "i \<in> ?S" "x = ?n i" by blast
    with at'[of i] show "x \<in> {1..5}" by force
  qed
  then have fin: "finite ?S" using finite_imageD[OF finite_subset[OF sub] inj] by simp
  have "card ?S = card (?n ` ?S)" using inj by (rule card_image[symmetric])
  also have "\<dots> \<le> card {1..5::nat}" using sub by (intro card_mono) auto
  finally have "card ?S \<le> 5" by simp
  with fin ok show ?thesis by (auto simp: race_ok_def otpMaxAttempts_def)
qed

definition sample_code :: otp_code where
  "sample_code = \<lparr>oc_id = 9, oc_phoneHmac = None, oc_emailHmac = Some ''11'', oc_codeHash = ''11'', oc_attempts = 0,
     oc_expiresAt = 600000, oc_consumedAt = None, oc_createdAt = 0\<rparr>"

text \<open>
  Since the three statements are no transaction, two attempts with the right code that both read it before
  either consumes it are both accepted.
\<close>

theorem two_attempts_share_a_code:
  "\<exists>t ph r1 r2. (otp_race toy_crypto ''11'' (\<lambda>_. ''123456''))\<^sup>*\<^sup>* ([sample_code], \<lambda>i. None) (t, ph)
     \<and> ph 1 = Some (Answered r1 1 (Inr ())) \<and> ph 2 = Some (Answered r2 2 (Inr ())) \<and> oc_id r1 = 9 \<and> oc_id r2 = 9"
proof -
  let ?R = "otp_race toy_crypto ''11'' (\<lambda>_. ''123456'')"
  let ?p0 = "\<lambda>i. None :: attempt_phase option" and ?c = sample_code
  let ?c1 = "sample_code\<lparr>oc_attempts := 1\<rparr>" and ?c2 = "sample_code\<lparr>oc_attempts := 2\<rparr>"
  let ?c3 = "sample_code\<lparr>oc_attempts := 2, oc_consumedAt := Some 1\<rparr>"
  have right: "safeEqualHex (hashOtp (k_hmac toy_crypto) ''123456'' ''11'') (oc_codeHash ?c)"
    by (simp add: toy_crypto_def hashOtp_def lit_def safeEqualHex_def sample_code_def)
  have sel: "otp_select (sample_env 1) ''11'' [?c] = Some ?c"
    by (simp add: otp_select_def live_code_def newest_first_def sample_code_def sample_env_def)
  have s1: "?R ([?c], ?p0) ([?c], ?p0(1 \<mapsto> Chosen ?c))" by (rule otp_race.choose[OF _ sel]) simp
  have s2: "?R ([?c], ?p0(1 \<mapsto> Chosen ?c)) ([?c], ?p0(1 \<mapsto> Chosen ?c, 2 \<mapsto> Chosen ?c))"
    by (rule otp_race.choose[OF _ sel]) simp
  have s3: "?R ([?c], ?p0(1 \<mapsto> Chosen ?c, 2 \<mapsto> Chosen ?c)) ([?c1], ?p0(1 \<mapsto> Chosen ?c, 2 \<mapsto> Chosen ?c, 1 \<mapsto> Counted ?c 1))"
    by (rule otp_race.count) (simp_all add: otp_bump_def upd_key_def upd_where_def by_key_Cons sample_code_def)
  have s4: "?R ([?c1], ?p0(1 \<mapsto> Chosen ?c, 2 \<mapsto> Chosen ?c, 1 \<mapsto> Counted ?c 1))
      ([?c2], ?p0(1 \<mapsto> Chosen ?c, 2 \<mapsto> Chosen ?c, 1 \<mapsto> Counted ?c 1, 2 \<mapsto> Counted ?c 2))"
    by (rule otp_race.count) (simp_all add: otp_bump_def upd_key_def upd_where_def by_key_Cons sample_code_def)
  let ?p4 = "?p0(1 \<mapsto> Chosen ?c, 2 \<mapsto> Chosen ?c, 1 \<mapsto> Counted ?c 1, 2 \<mapsto> Counted ?c 2)"
  have s5: "?R ([?c2], ?p4) ([?c3], ?p4(1 \<mapsto> Answered ?c 1 (Inr ())))"
    by (rule otp_race.answer[where env = "sample_env 1"])
       (use right in \<open>simp_all add: otp_decide_def otp_consume_def upd_key_def upd_where_def otpMaxAttempts_def sample_code_def sample_env_def\<close>)
  have s6: "?R ([?c3], ?p4(1 \<mapsto> Answered ?c 1 (Inr ()))) ([?c3], ?p4(1 \<mapsto> Answered ?c 1 (Inr ()), 2 \<mapsto> Answered ?c 2 (Inr ())))"
    by (rule otp_race.answer[where env = "sample_env 1"])
       (use right in \<open>simp_all add: otp_decide_def otp_consume_def upd_key_def upd_where_def otpMaxAttempts_def sample_code_def sample_env_def\<close>)
  have "?R\<^sup>*\<^sup>* ([?c], ?p0) ([?c3], ?p4(1 \<mapsto> Answered ?c 1 (Inr ()), 2 \<mapsto> Answered ?c 2 (Inr ())))"
    by (rule converse_rtranclp_into_rtranclp, rule s1, rule converse_rtranclp_into_rtranclp, rule s2,
        rule converse_rtranclp_into_rtranclp, rule s3, rule converse_rtranclp_into_rtranclp, rule s4,
        rule converse_rtranclp_into_rtranclp, rule s5, rule r_into_rtranclp, rule s6)
  moreover have "oc_id ?c = 9" by (simp add: sample_code_def)
  ultimately show ?thesis
    by (intro exI[of _ "[?c3]"] exI[of _ "?p4(1 \<mapsto> Answered ?c 1 (Inr ()), 2 \<mapsto> Answered ?c 2 (Inr ()))"] exI[of _ ?c]) simp
qed

theorem concurrent_guesses_bounded_witness:
  "\<exists>(ph :: nat \<rightharpoonup> attempt_phase) r1 r2. ph 1 = Some (Answered r1 1 (Inr ())) \<and> ph 2 = Some (Answered r2 2 (Inr ()))
     \<and> card {i. \<exists>otp n r. ph i = Some (Answered otp n r) \<and> oc_id otp = 9 \<and> n \<le> 5} \<le> 5"
proof -
  obtain t ph r1 r2 where run: "(otp_race toy_crypto ''11'' (\<lambda>_. ''123456''))\<^sup>*\<^sup>* ([sample_code], \<lambda>i. None) (t, ph)"
    and p: "ph 1 = Some (Answered r1 1 (Inr ()))" "ph 2 = Some (Answered r2 2 (Inr ()))"
    using two_attempts_share_a_code by blast
  have "by_key oc_id 9 [sample_code] = Some sample_code" by (simp add: by_key_Cons sample_code_def)
  from concurrent_guesses_bounded[OF run this] p show ?thesis by blast
qed

end
