(* ===== verification/Staff_Outcomes.thy ===== *)
theory Staff_Outcomes
  imports Server Scenario
begin

text \<open>
  What moderation and account deletion achieve: nothing of the person or the event they stop stays
  open, nothing of anybody else changes, and no moderator acts beyond the limits of the role.
\<close>

subsection \<open>Nobody gets in without a live session\<close>

lemma bearer_session:
  assumes "snd (snd (authenticate env k token url d)) = Inr b"
  shows "\<exists>s \<in> set (sessions d). \<exists>u. by_key u_id (se_userId s) (users d) = Some u \<and> b = bearer_of env s u
     \<and> se_revokedAt s = None \<and> u_deletedAt u = None \<and> effective_user_status env u \<noteq> User_suspended"
proof -
  obtain t where t: "resolveAuth env k t d = Some b" "au_status b \<noteq> User_suspended"
    using assms by (auto simp: authenticate_def split: option.splits if_splits)
  then have "b \<in> set (List.map_filter (\<lambda>s. case by_key u_id (se_userId s) (users d) of
           Some u \<Rightarrow> if u_deletedAt u = None then Some (bearer_of env s u) else None | None \<Rightarrow> None)
         (filter (\<lambda>s. se_tokenHash s = k_sha256 k (lit t) \<and> se_revokedAt s = None \<and> now env < se_expiresAt s) (sessions d)))"
    by (auto simp: resolveAuth_def split: list.splits)
  with t(2) show ?thesis
    by (force simp: map_filter_def bearer_of_def split: option.splits if_splits)
qed

lemma signed_out:
  assumes "\<And>s. s \<in> set (sessions d) \<Longrightarrow> se_userId s = u \<Longrightarrow> se_revokedAt s \<noteq> None"
    and "snd (snd (authenticate env k token url d)) = Inr b"
  shows "au_userId b \<noteq> u"
proof -
  obtain s x where "s \<in> set (sessions d)" "by_key u_id (se_userId s) (users d) = Some x" "b = bearer_of env s x"
    "se_revokedAt s = None" using bearer_session[OF assms(2)] by blast
  then show ?thesis using assms(1)[of s] by (auto simp: bearer_of_def dest: by_key_Some_mem)
qed

subsection \<open>Suspension\<close>

lemma active_ids_active: "k \<in> set (active_match_ids P d) \<Longrightarrow> \<exists>m \<in> set (matches d). m_id m = k \<and> m_status m = M_active"
  by (auto simp: active_match_ids_def)

lemma active_ids_distinct: "db_inv d \<Longrightarrow> distinct (active_match_ids P d)"
  using core_invD(4)[OF db_invD(1)] by (auto simp: active_match_ids_def intro: ids_ok_filter_distinct)

lemma cancel_active:
  assumes "db_inv d" "categories_known d"
  shows "\<exists>d' es. cancel_each env reason (active_match_ids P d) d = (d', es, Inr ()) \<and> db_inv d' \<and> aside d d'
     \<and> (\<forall>m \<in> set (matches d'). P m \<longrightarrow> m_status m \<noteq> M_active)
     \<and> (\<forall>m \<in> set (matches d). m_status m = M_active \<longrightarrow> \<not> P m \<longrightarrow> m \<in> set (matches d'))
     \<and> (\<forall>r \<in> set (requests d'). r_status r \<in> {Searching, Offering} \<longrightarrow> r \<in> set (requests d))"
proof -
  note D = core_invD(4)[OF db_invD(1)[OF assms(1)]]
  have same: "a = b" if "a \<in> set (matches d)" "b \<in> set (matches d)" "m_id a = m_id b" for a b
    using D that by (auto simp: ids_ok_def distinct_map inj_on_def)
  obtain d' es where run: "cancel_each env reason (active_match_ids P d) d = (d', es, Inr ())" "db_inv d'" "aside d d'"
    and act: "\<And>m. m \<in> set (matches d') \<Longrightarrow> m_status m = M_active \<Longrightarrow> m \<in> set (matches d) \<and> m_id m \<notin> set (active_match_ids P d)"
    and reqs: "\<And>r. r \<in> set (requests d') \<Longrightarrow> r_status r \<in> {Searching, Offering} \<Longrightarrow> r \<in> set (requests d)"
    using cancel_each_run[where env = env and reason = reason, OF assms active_ids_distinct[OF assms(1), of P] active_ids_active[of _ P d]] by blast
  have kept: "m \<in> set (matches d')" if "m \<in> set (matches d)" "m_id m \<notin> set (active_match_ids P d)" for m
    using cancel_each_others[where env = env and reason = reason, OF assms active_ids_distinct[OF assms(1), of P] active_ids_active[of _ P d] that] run(1) by simp
  have "\<not> P m" if "m \<in> set (matches d')" "m_status m = M_active" for m
    using act[OF that] that(2) by (auto simp: active_match_ids_def)
  moreover have "m \<in> set (matches d')" if "m \<in> set (matches d)" "m_status m = M_active" "\<not> P m" for m
    using kept[OF that(1)] same that by (auto simp: active_match_ids_def)
  ultimately show ?thesis using run reqs by blast
qed

lemma categories_known_outside: "categories_known d \<Longrightarrow> outside d d' \<Longrightarrow> categories d' = categories d \<Longrightarrow> categories_known d'"
  by (simp add: categories_known_def outside_def)

lemma suspend_run:
  assumes inv: "db_inv d" "categories_known d" and u: "by_key u_id u (users d) = Some user"
    and input: "md_targetUserId input = Some u"
  shows "\<exists>d1 k d' es. suspend_tx env actor input d = Inr (d1, k) \<and> k d1 = (d', es, Inr ())
     \<and> users d' = upd_key u_id u (\<lambda>x. x\<lparr>u_status := User_suspended,
          u_suspendedUntil := hours_from_now env (md_durationHours input)\<rparr>) (users d)
     \<and> sessions d' = upd_where (live_session u) (\<lambda>s. s\<lparr>se_revokedAt := Some (now env)\<rparr>) (sessions d)
     \<and> availability d' = upd_where (\<lambda>a. av_userId a = u)
          (\<lambda>a. a\<lparr>av_isOn := False, av_until := None, av_updatedAt := now env\<rparr>) (availability d)
     \<and> (\<forall>m \<in> set (matches d'). m_requesterId m = u \<or> m_helperId m = u \<longrightarrow> m_status m \<noteq> M_active)
     \<and> (\<forall>m \<in> set (matches d). m_status m = M_active \<longrightarrow> m_requesterId m \<noteq> u \<and> m_helperId m \<noteq> u \<longrightarrow> m \<in> set (matches d'))"
proof -
  let ?P = "\<lambda>m. m_requesterId m = u \<or> m_helperId m = u"
  have uid: "u_id user = u" using u by (rule by_key_Some_mem[THEN conjunct2])
  obtain p where p: "suspend_tx env actor input d = Inr p"
    using u input by (simp add: suspend_tx_def requireUser_def Let_def case_prod_unfold)
  obtain d1 k where dk: "p = (d1, k)" by (cases p)
  have eq: "(d1, k) = (let u = u_id user;
           suspendedUntil = hours_from_now env (md_durationHours input);
           d1 = update_user u (\<lambda>x. x\<lparr>u_status := User_suspended, u_suspendedUntil := suspendedUntil\<rparr>) d;
           revoked = map se_id (filter (live_session u) (sessions d1));
           d2 = revoke_sessions env (live_session u) d1;
           d3 = d2\<lparr>availability := upd_where (\<lambda>a. av_userId a = u)
                  (\<lambda>a. a\<lparr>av_isOn := False, av_until := None, av_updatedAt := now env\<rparr>) (availability d2)\<rparr>;
           mine = active_match_ids (\<lambda>m. m_requesterId m = u \<or> m_helperId m = u) d3;
           (d4, aid) = insert_action env actor Act_suspend (md_reason input) (Some u) None None None suspendedUntil d3;
           d5 = audit_action env actor (action_token Act_suspend) (User_target u) (md_reason input)
                  (Some (Meta_duration (md_durationHours input))) d4
       in (d5, \<lambda>d'. then_publish (map (\<lambda>s. Publish u Session_revoked (P_session_revoked s)) revoked)
                 [notifyModerationOutcome u (action_token Act_suspend) (Moderation_key aid)]
                 (cancel_each env ''moderation_suspend'' mine d')))"
    using p u input by (simp add: suspend_tx_def requireUser_def dk Let_def case_prod_unfold)
  have mine: "active_match_ids Q d1 = active_match_ids Q d" for Q
    using eq by (simp add: side_writes active_match_ids_def uid)
  have k: "\<exists>b a. k x = then_publish b a (cancel_each env ''moderation_suspend'' (active_match_ids ?P d1) x)" for x
    unfolding mine using eq by (auto simp: side_writes active_match_ids_def uid)
  have o1: "outside d d1" and c1: "categories d1 = categories d"
    using eq by (simp_all add: side_writes outside_def)
  have t: "users d1 = upd_key u_id u (\<lambda>x. x\<lparr>u_status := User_suspended,
          u_suspendedUntil := hours_from_now env (md_durationHours input)\<rparr>) (users d)"
      "sessions d1 = upd_where (live_session u) (\<lambda>s. s\<lparr>se_revokedAt := Some (now env)\<rparr>) (sessions d)"
      "availability d1 = upd_where (\<lambda>a. av_userId a = u)
          (\<lambda>a. a\<lparr>av_isOn := False, av_until := None, av_updatedAt := now env\<rparr>) (availability d)"
    using eq by (simp_all add: side_writes uid)
  note tx = p[unfolded dk]
  obtain d' es where run: "cancel_each env ''moderation_suspend'' (active_match_ids ?P d1) d1 = (d', es, Inr ())"
      "aside d1 d'" "\<forall>m \<in> set (matches d'). ?P m \<longrightarrow> m_status m \<noteq> M_active"
      "\<forall>m \<in> set (matches d1). m_status m = M_active \<longrightarrow> \<not> ?P m \<longrightarrow> m \<in> set (matches d')"
    using cancel_active[OF outside_inv[OF inv(1) o1] categories_known_outside[OF inv(2) o1 c1], of env "''moderation_suspend''" ?P]
    by blast
  obtain b a where done': "k d1 = (d', b @ es @ a, Inr ())" using k[of d1] run(1) by (auto simp: then_publish_def)
  have "matches d1 = matches d" using o1 by (simp add: outside_def)
  then have others: "\<forall>m \<in> set (matches d). m_status m = M_active \<longrightarrow> m_requesterId m \<noteq> u \<and> m_helperId m \<noteq> u \<longrightarrow> m \<in> set (matches d')"
    using run(4) by simp
  note t' = t[folded run(2)[unfolded aside_def, THEN conjunct1]
    run(2)[unfolded aside_def, THEN conjunct2, THEN conjunct1]
    run(2)[unfolded aside_def, THEN conjunct2, THEN conjunct2, THEN conjunct1]]
  show ?thesis
    by (rule exI[of _ d1], rule exI[of _ k], rule exI[of _ d'], rule exI[of _ "b @ es @ a"])
       (intro conjI tx done' t' run(3) others)
qed

subsection \<open>Disabling an event\<close>

lemma disable_run:
  assumes inv: "db_inv d" "categories_known d" and e: "by_key e_id e (events d) = Some ev"
    and input: "md_targetEventId input = Some e"
  shows "\<exists>d4 k d' es. event_disable_tx env actor input d = Inr (d4, k) \<and> k d4 = (d', es, Inr ())
     \<and> events d' = upd_key e_id e (\<lambda>x. x\<lparr>e_status := Disabled\<rparr>) (events d)
     \<and> (\<forall>m \<in> set (matches d'). m_eventId m = e \<longrightarrow> m_status m \<noteq> M_active)
     \<and> (\<forall>m \<in> set (matches d). m_status m = M_active \<longrightarrow> m_eventId m \<noteq> e \<longrightarrow> m \<in> set (matches d'))
     \<and> (\<forall>r \<in> set (requests d'). r_eventId r = e \<longrightarrow> r_status r \<notin> {Searching, Offering})"
proof -
  have eid: "e_id ev = e" using e by (rule by_key_Some_mem[THEN conjunct2])
  have req: "requireEvent d (md_targetEventId input) = Inr ev" using e input by (simp add: requireEvent_def)
  let ?P = "\<lambda>m. m_eventId m = e"
  obtain d2 d4 where tx: "event_disable_tx env actor input d = Inr (d4, cancel_each env ''event_disabled'' (active_match_ids ?P d2))"
    and d2: "db_inv d2" "outside d2 d4" "aside (update_event e (\<lambda>x. x\<lparr>e_status := Disabled\<rparr>) d) d2" "matches d2 = matches d"
      "requests d2 = upd_where (\<lambda>r. r_id r \<in> r_id ` set (open_of_event e d)) (closed_row env Moderated) (requests d)"
    and same: "events d4 = events d2" "categories d4 = categories d2"
    using event_disable_run[OF inv(1) req, of env actor] unfolding eid by blast
  have same2: "events d2 = upd_key e_id e (\<lambda>x. x\<lparr>e_status := Disabled\<rparr>) (events d)" "categories d2 = categories d"
    using d2(3) by (simp_all add: aside_def update_event_def)
  have cat: "categories_known d4"
  proof (rule categories_known_cong[OF inv(2)])
    show "categories d4 = categories d" using same same2 by simp
    show "\<exists>r0 \<in> set (requests d). r_categoryId r = r_categoryId r0" if "r \<in> set (requests d4)" for r
      using that d2(2,5) by (auto simp: outside_def closed_row_def dest!: upd_where_mem split: if_splits)
  qed
  have ms: "matches d4 = matches d" "requests d4 = requests d2" using d2(2,4) by (simp_all add: outside_def)
  have ids: "active_match_ids ?P d2 = active_match_ids ?P d4" using d2(2) by (simp add: active_match_ids_def outside_def)
  obtain d' es where run: "cancel_each env ''event_disabled'' (active_match_ids ?P d4) d4 = (d', es, Inr ())" "aside d4 d'"
      "\<forall>m \<in> set (matches d'). ?P m \<longrightarrow> m_status m \<noteq> M_active"
      "\<forall>m \<in> set (matches d4). m_status m = M_active \<longrightarrow> \<not> ?P m \<longrightarrow> m \<in> set (matches d')"
      "\<forall>r \<in> set (requests d'). r_status r \<in> {Searching, Offering} \<longrightarrow> r \<in> set (requests d4)"
    using cancel_active[OF outside_inv[OF d2(1,2)] cat, of env "''event_disabled''" ?P] by blast
  have ev: "events d' = upd_key e_id e (\<lambda>x. x\<lparr>e_status := Disabled\<rparr>) (events d)"
    using run(2) same same2 by (simp add: aside_def)
  have closed: "\<forall>r \<in> set (requests d'). r_eventId r = e \<longrightarrow> r_status r \<notin> {Searching, Offering}"
  proof (intro ballI impI notI)
    fix r assume r: "r \<in> set (requests d')" "r_eventId r = e" "r_status r \<in> {Searching, Offering}"
    then have "r \<in> set (requests d2)" using run(5) ms by auto
    then obtain r0 where r0: "r0 \<in> set (requests d)"
      "r = (if r_id r0 \<in> r_id ` set (open_of_event e d) then closed_row env Moderated r0 else r0)"
      unfolding d2(5) by (auto dest: upd_where_mem)
    with r(2,3) show False by (cases "r_id r0 \<in> r_id ` set (open_of_event e d)") (auto simp: closed_row_def open_of_event_def)
  qed
  show ?thesis
    by (rule exI[of _ d4], rule exI[of _ "cancel_each env ''event_disabled'' (active_match_ids ?P d2)"], rule exI[of _ d'], rule exI[of _ es])
       (intro conjI tx run(1)[folded ids] ev run(3) run(4)[unfolded ms] closed)
qed


subsection \<open>Deleting an account\<close>

lemma deletion_run:
  assumes inv: "db_inv d" "categories_known d" and u: "by_key u_id u (users d) = Some x"
  shows "\<exists>d' es. performAccountDeletion env seed u d = (d', es, Inr ())
     \<and> by_key u_id u (users d') = Some (anonymized env seed x)
     \<and> (\<forall>v. v \<noteq> u \<longrightarrow> by_key u_id v (users d') = by_key u_id v (users d))
     \<and> u \<notin> se_userId ` set (sessions d') \<and> u \<notin> pt_userId ` set (pushTokens d') \<and> u \<notin> av_userId ` set (availability d')
     \<and> u \<notin> ml_userId ` set (memberLocations d') \<and> u \<notin> nt_userId ` set (notifications d')
     \<and> u \<notin> np_userId ` set (notificationPrefs d') \<and> u \<notin> bl_blockerId ` set (blocks d')
     \<and> (\<forall>m \<in> set (matches d'). m_requesterId m = u \<or> m_helperId m = u \<longrightarrow> m_status m \<noteq> M_active)
     \<and> (\<forall>m \<in> set (matches d). m_status m = M_active \<longrightarrow> m_requesterId m \<noteq> u \<and> m_helperId m \<noteq> u \<longrightarrow> m \<in> set (matches d'))
     \<and> (\<forall>r \<in> set (requests d'). r_requesterId r = u \<longrightarrow> r_status r \<notin> {Searching, Offering, Matched})
     \<and> (\<forall>i \<in> set (inventoryItems d'). i_userId i = u \<longrightarrow> \<not> i_active i \<and> i_qtyOnHand i = i_qtyReserved i)
     \<and> dataRequests d' = dataRequests d"
proof -
  let ?P = "\<lambda>m. m_requesterId m = u \<or> m_helperId m = u"
  obtain d1 es where c: "cancel_each env ''account_deleted'' (active_match_ids ?P d) d = (d1, es, Inr ())" "db_inv d1" "aside d d1"
      "\<forall>m \<in> set (matches d1). ?P m \<longrightarrow> m_status m \<noteq> M_active"
      "\<forall>m \<in> set (matches d). m_status m = M_active \<longrightarrow> \<not> ?P m \<longrightarrow> m \<in> set (matches d1)"
    using cancel_active[OF inv, of env "''account_deleted''" ?P] by blast
  obtain d2 where d2: "cancel_open_requests env u d1 = Inr d2" "db_inv d2" "aside d1 d2" "matches d2 = matches d1"
      "requests d2 = upd_where (\<lambda>r. r_id r \<in> r_id ` set (open_of_user u d1)) (closed_row env Cancelled) (requests d1)"
    using cancel_open_requests_run[OF c(2)] by blast
  let ?d3 = "drop_devices u d2"
  obtain d4 where d4: "collapse_inventory env u ?d3 = Inr d4"
      "d4 = ?d3\<lparr>inventoryItems := upd_where (\<lambda>i. i_userId i = u) (collapse_item env) (inventoryItems ?d3)\<rparr>"
    using collapse_inventory_run[OF drop_devices_inv[OF d2(2)]] by blast
  let ?d' = "update_user u (anonymized env seed) (drop_personal u d4)"
  note defs = d4(2) update_user_def drop_personal_def drop_devices_def
  have run: "performAccountDeletion env seed u d = (?d', es, Inr ())"
    by (simp add: performAccountDeletion_def c(1) d2(1) d4(1))
  have us: "users ?d' = upd_key u_id u (anonymized env seed) (users d)"
    using c(3) d2(3) by (simp add: defs aside_def)
  have dr: "dataRequests ?d' = dataRequests d"
    using c(3) d2(3) by (simp add: defs aside_def)
  have id: "u_id (anonymized env seed y) = u_id y" for y by (simp add: anonymized_def)
  have users: "by_key u_id u (users ?d') = Some (anonymized env seed x)"
    "\<forall>v. v \<noteq> u \<longrightarrow> by_key u_id v (users ?d') = by_key u_id v (users d)"
    unfolding us using u by (simp_all add: by_key_upd_key id)
  have gone: "u \<notin> se_userId ` set (sessions ?d')" "u \<notin> pt_userId ` set (pushTokens ?d')" "u \<notin> av_userId ` set (availability ?d')"
    "u \<notin> ml_userId ` set (memberLocations ?d')" "u \<notin> nt_userId ` set (notifications ?d')"
    "u \<notin> np_userId ` set (notificationPrefs ?d')" "u \<notin> bl_blockerId ` set (blocks ?d')"
    by (auto simp: defs)
  have ms: "matches ?d' = matches d1" and rs: "requests ?d' = requests d2" using d2(4) by (simp_all add: defs)
  have closed: "\<forall>r \<in> set (requests ?d'). r_requesterId r = u \<longrightarrow> r_status r \<notin> {Searching, Offering, Matched}"
  proof (intro ballI impI notI)
    fix r assume "r \<in> set (requests ?d')" and r: "r_requesterId r = u" "r_status r \<in> {Searching, Offering, Matched}"
    then have mem: "r \<in> set (requests d2)" unfolding rs by simp
    show False
    proof (cases "r_status r = Matched")
      case True
      from core_invD(10)[OF db_invD(1)[OF d2(2)]] mem True obtain m where
        m: "m \<in> set (matches d2)" "m_status m = M_active" "m_requestId m = r_id r" unfolding matched_backed_def by blast
      from core_invD(8)[OF db_invD(1)[OF d2(2)]] m(1,2) obtain r' where
        r': "r' \<in> set (requests d2)" "serves r' m" unfolding all_served_def by blast
      have "r' = r" using core_invD(2)[OF db_invD(1)[OF d2(2)]] r' m(3) mem
        by (auto simp: ids_ok_def serves_def distinct_map inj_on_def)
      with r'(2) r(1) c(4) m(1,2) d2(4) show False by (auto simp: serves_def)
    next
      case False
      with r(2) have open': "r_status r \<in> {Searching, Offering}" by simp
      from mem obtain r0 where r0: "r0 \<in> set (requests d1)"
        "r = (if r_id r0 \<in> r_id ` set (open_of_user u d1) then closed_row env Cancelled r0 else r0)"
        unfolding d2(5) by (auto dest: upd_where_mem)
      with r(1) open' show False
        by (cases "r_id r0 \<in> r_id ` set (open_of_user u d1)") (auto simp: closed_row_def open_of_user_def)
    qed
  qed
  have items: "\<forall>i \<in> set (inventoryItems ?d'). i_userId i = u \<longrightarrow> \<not> i_active i \<and> i_qtyOnHand i = i_qtyReserved i"
    by (auto simp: defs collapse_item_def dest!: upd_where_mem split: if_splits)
  have others: "\<forall>m \<in> set (matches d). m_status m = M_active \<longrightarrow> m_requesterId m \<noteq> u \<and> m_helperId m \<noteq> u \<longrightarrow> m \<in> set (matches ?d')"
    using c(5) unfolding ms by simp
  show ?thesis
    by (rule exI[of _ ?d'], rule exI[of _ es]) (intro conjI run users gone c(4)[folded ms] others closed items dr)
qed


subsection \<open>No action is refused to a role that may take it\<close>

lemma cancel_errors:
  assumes "db_inv d" "cancelMatchForModeration env k reason d = (d1, es, Inl e)"
  shows "e \<noteq> Forbidden"
proof (cases "lockMatchRows d k")
  case None
  then show ?thesis using assms(2) by (simp add: cancelMatchForModeration_def cancelMatchInTx_def)
next
  case (Some locks)
  show ?thesis
  proof (cases "m_status (lk_match locks) = M_active")
    case True
    then show ?thesis using cancel_inv[OF assms(1) Some, of env "moderation_cancel reason"] assms(2) Some
      by (auto simp: cancelMatchForModeration_def cancelMatchInTx_def)
  next
    case False
    then show ?thesis using assms(2) Some
      by (simp add: cancelMatchForModeration_def cancelMatchInTx_def cancelMatchLocked_def Let_def)
  qed
qed

lemma cancel_each_errors: "db_inv d \<Longrightarrow> cancel_each env reason ms d = (d1, es, Inl e) \<Longrightarrow> e \<noteq> Forbidden"
proof (induction ms arbitrary: d es)
  case (Cons m ms)
  obtain d2 es2 r where c: "cancelMatchForModeration env m reason d = (d2, es2, r)"
    by (cases "cancelMatchForModeration env m reason d") auto
  with cancelMatchForModeration_ok[OF Cons.prems(1), of env m reason] have d2: "outcome_ok (d2, es2, r)" by simp
  show ?case
  proof (cases r)
    case (Inl x)
    with c Cons.prems cancel_errors[OF Cons.prems(1)] show ?thesis by auto
  next
    case (Inr x)
    obtain d3 es3 r3 where "cancel_each env reason ms d2 = (d3, es3, r3)" by (cases "cancel_each env reason ms d2") auto
    with c Inr Cons.prems(2) d2 Cons.IH[of d2] show ?thesis by auto
  qed
qed simp

definition never_forbids :: "(db \<Rightarrow> unit outcome) \<Rightarrow> bool" where
  "never_forbids k \<longleftrightarrow> (\<forall>d. db_inv d \<longrightarrow> snd (snd (k d)) \<noteq> Inl Forbidden)"

lemma never_forbids_simps [simp]:
  "never_forbids (publish_only es)" "never_forbids (cancel_each env reason ms)"
  "never_forbids (cancelMatchForModeration env mid reason)"
proof -
  show "never_forbids (publish_only es)" by (simp add: never_forbids_def publish_only_def)
  show "never_forbids (cancel_each env reason ms)"
    unfolding never_forbids_def by (metis cancel_each_errors prod.collapse)
  show "never_forbids (cancelMatchForModeration env mid reason)"
    unfolding never_forbids_def by (metis cancel_errors prod.collapse)
qed

lemma never_forbids_publish [simp]: "never_forbids k \<Longrightarrow> never_forbids (\<lambda>d. then_publish before after (k d))"
  by (auto simp: never_forbids_def then_publish_def split: prod.split sum.split)

lemma requirements_not_forbidden: "requireUser d u \<noteq> Inl Forbidden" "requireEvent d e \<noteq> Inl Forbidden"
  by (auto simp: requireUser_def requireEvent_def result_elims split: option.splits)

lemma moderate_tx_forbids:
  assumes inv: "db_inv d"
  shows "case moderate_tx env actor action input d of Inl e \<Rightarrow> e \<noteq> Forbidden | Inr (d', k) \<Rightarrow> never_forbids k"
proof (cases "action = Act_event_disable")
  case True
  show ?thesis
  proof (cases "requireEvent d (md_targetEventId input)")
    case (Inl e)
    with True requirements_not_forbidden show ?thesis by (auto simp: event_disable_tx_def)
  next
    case (Inr ev)
    from event_disable_run[OF inv Inr, of env actor] True show ?thesis by auto
  qed
next
  case False
  then show ?thesis using requirements_not_forbidden
    by (cases action) (auto simp: warn_tx_def restrict_tx_def suspend_tx_def unsuspend_tx_def event_pause_tx_def
      event_approve_tx_def match_cancel_tx_def report_tx_def result_elims Let_def insert_action_def split: option.splits sum.splits)
qed

lemma moderate_forbids:
  assumes inv: "db_inv d"
  shows "snd (snd (moderate env actor input d)) = Inl Forbidden
     \<longleftrightarrow> \<not> actionAllowedForRole (md_action input) (ac_role actor) (md_durationHours input)"
proof (cases "actionAllowedForRole (md_action input) (ac_role actor) (md_durationHours input)")
  case True
  then obtain a where a: "md_action input = Some a" by (auto simp: actionAllowedForRole_def split: option.splits)
  have "snd (snd (moderate env actor input d)) \<noteq> Inl Forbidden"
  proof (cases "moderate_tx env (ac_userId actor) a input d")
    case (Inl e)
    with True a moderate_tx_forbids[OF inv, of env "ac_userId actor" a input] show ?thesis by (simp add: moderate_def)
  next
    case (Inr p)
    obtain d' k where p: "p = (d', k)" by (cases p)
    have "db_inv d'"
    proof (cases "a = Act_event_disable")
      case dis: True
      then obtain ev where "requireEvent d (md_targetEventId input) = Inr ev"
        using Inr by (cases "requireEvent d (md_targetEventId input)") (auto simp: event_disable_tx_def)
      from event_disable_run[OF inv this, of env "ac_userId actor"] show ?thesis
        using dis Inr p by (auto intro: outside_inv)
    qed (use Inr p moderate_tx_outside outside_inv[OF inv] in blast)
    with True a Inr p moderate_tx_forbids[OF inv, of env "ac_userId actor" a input] show ?thesis
      by (simp add: moderate_def never_forbids_def)
  qed
  with True show ?thesis by simp
qed (simp add: moderate_def)


subsection \<open>What the staff actions achieve\<close>

definition suspend_input :: "uid \<Rightarrow> string \<Rightarrow> int option \<Rightarrow> moderate_input" where
  "suspend_input u reason hours = \<lparr>md_action = Some Act_suspend, md_targetUserId = Some u, md_targetEventId = None,
     md_targetMatchId = None, md_reportId = None, md_reason = reason, md_durationHours = hours\<rparr>"

definition disable_input :: "uid \<Rightarrow> string \<Rightarrow> moderate_input" where
  "disable_input e reason = \<lparr>md_action = Some Act_event_disable, md_targetUserId = None, md_targetEventId = Some e,
     md_targetMatchId = None, md_reportId = None, md_reason = reason, md_durationHours = None\<rparr>"

text \<open>
  C5: A permitted suspension succeeds. The account is suspended for the time given, its helping switch is
  off, none of its matches is still active, every active match of other people is untouched, and no token
  is accepted for the account afterwards, whatever the time, the token and the route.
\<close>

theorem suspension_ends_everything:
  assumes "reachable d" "categories_known d" and u: "by_key u_id u (users d) = Some user"
    and allowed: "actionAllowedForRole (Some Act_suspend) (ac_role actor) hours"
  shows "\<exists>d' es x. moderate env actor (suspend_input u reason hours) d = (d', es, Inr ())
     \<and> by_key u_id u (users d') = Some x \<and> u_status x = User_suspended \<and> u_suspendedUntil x = hours_from_now env hours
     \<and> (\<forall>a \<in> set (availability d'). av_userId a = u \<longrightarrow> \<not> av_isOn a)
     \<and> (\<forall>m \<in> set (matches d'). m_requesterId m = u \<or> m_helperId m = u \<longrightarrow> m_status m \<noteq> M_active)
     \<and> (\<forall>m \<in> set (matches d). m_status m = M_active \<longrightarrow> m_requesterId m \<noteq> u \<and> m_helperId m \<noteq> u \<longrightarrow> m \<in> set (matches d'))
     \<and> (\<forall>env' k token url b. snd (snd (authenticate env' k token url d')) = Inr b \<longrightarrow> au_userId b \<noteq> u)"
proof -
  let ?f = "\<lambda>x. x\<lparr>u_status := User_suspended, u_suspendedUntil := hours_from_now env hours\<rparr>"
  have t: "md_targetUserId (suspend_input u reason hours) = Some u" "md_durationHours (suspend_input u reason hours) = hours"
    by (simp_all add: suspend_input_def)
  obtain d1 k d' es where tx: "suspend_tx env (ac_userId actor) (suspend_input u reason hours) d = Inr (d1, k)"
    and run: "k d1 = (d', es, Inr ())" and us: "users d' = upd_key u_id u ?f (users d)"
    and ss: "sessions d' = upd_where (live_session u) (\<lambda>s. s\<lparr>se_revokedAt := Some (now env)\<rparr>) (sessions d)"
    and av: "availability d' = upd_where (\<lambda>a. av_userId a = u)
          (\<lambda>a. a\<lparr>av_isOn := False, av_until := None, av_updatedAt := now env\<rparr>) (availability d)"
    and ms: "\<forall>m \<in> set (matches d'). m_requesterId m = u \<or> m_helperId m = u \<longrightarrow> m_status m \<noteq> M_active"
      "\<forall>m \<in> set (matches d). m_status m = M_active \<longrightarrow> m_requesterId m \<noteq> u \<and> m_helperId m \<noteq> u \<longrightarrow> m \<in> set (matches d')"
    using suspend_run[OF reachable_inv[OF assms(1)] assms(2) u t(1), of env "ac_userId actor"] unfolding t(2) by blast
  have whole: "moderate env actor (suspend_input u reason hours) d = (d', es, Inr ())"
    using allowed tx run by (simp add: moderate_def suspend_input_def)
  have user': "by_key u_id u (users d') = Some (?f user)" unfolding us by (simp add: by_key_upd_key u)
  have off: "\<forall>a \<in> set (availability d'). av_userId a = u \<longrightarrow> \<not> av_isOn a"
    unfolding av by (auto dest!: upd_where_mem split: if_splits)
  have "se_revokedAt s \<noteq> None" if mine: "s \<in> set (sessions d')" "se_userId s = u" for s
  proof -
    obtain s0 where "s = (if live_session u s0 then s0\<lparr>se_revokedAt := Some (now env)\<rparr> else s0)"
      using upd_where_mem[OF mine(1)[unfolded ss]] by blast
    with mine(2) show ?thesis by (cases "live_session u s0") (auto simp: live_session_def)
  qed
  then have out: "\<forall>env' k token url b. snd (snd (authenticate env' k token url d')) = Inr b \<longrightarrow> au_userId b \<noteq> u"
    using signed_out by blast
  have st: "u_status (?f user) = User_suspended" "u_suspendedUntil (?f user) = hours_from_now env hours" by simp_all
  show ?thesis
    by (rule exI[of _ d'], rule exI[of _ es], rule exI[of _ "?f user"]) (intro conjI whole user' st off ms out)
qed

text \<open>
  C19: Disabling an event succeeds for an admin: the event is disabled, none of its requests is still
  looking for help, none of its matches is active, and every active match of another event is untouched.
\<close>

theorem disabling_closes_the_event:
  assumes "reachable d" "categories_known d" and e: "by_key e_id e (events d) = Some ev" and "ac_role actor = Admin_role"
  shows "\<exists>d' es x. moderate env actor (disable_input e reason) d = (d', es, Inr ())
     \<and> by_key e_id e (events d') = Some x \<and> e_status x = Disabled
     \<and> (\<forall>r \<in> set (requests d'). r_eventId r = e \<longrightarrow> r_status r \<notin> {Searching, Offering})
     \<and> (\<forall>m \<in> set (matches d'). m_eventId m = e \<longrightarrow> m_status m \<noteq> M_active)
     \<and> (\<forall>m \<in> set (matches d). m_status m = M_active \<longrightarrow> m_eventId m \<noteq> e \<longrightarrow> m \<in> set (matches d'))"
proof -
  have t: "md_targetEventId (disable_input e reason) = Some e" by (simp add: disable_input_def)
  obtain d4 k d' es where tx: "event_disable_tx env (ac_userId actor) (disable_input e reason) d = Inr (d4, k)"
    and run: "k d4 = (d', es, Inr ())" and ev: "events d' = upd_key e_id e (\<lambda>x. x\<lparr>e_status := Disabled\<rparr>) (events d)"
    and rest: "\<forall>m \<in> set (matches d'). m_eventId m = e \<longrightarrow> m_status m \<noteq> M_active"
      "\<forall>m \<in> set (matches d). m_status m = M_active \<longrightarrow> m_eventId m \<noteq> e \<longrightarrow> m \<in> set (matches d')"
      "\<forall>r \<in> set (requests d'). r_eventId r = e \<longrightarrow> r_status r \<notin> {Searching, Offering}"
    using disable_run[OF reachable_inv[OF assms(1)] assms(2) e t, of env "ac_userId actor"] by blast
  have whole: "moderate env actor (disable_input e reason) d = (d', es, Inr ())"
    using assms(4) tx run by (simp add: moderate_def disable_input_def actionAllowedForRole_def)
  have user': "by_key e_id e (events d') = Some (ev\<lparr>e_status := Disabled\<rparr>)" unfolding ev by (simp add: by_key_upd_key e)
  have st: "e_status (ev\<lparr>e_status := Disabled\<rparr>) = Disabled" by simp
  show ?thesis
    by (rule exI[of _ d'], rule exI[of _ es], rule exI[of _ "ev\<lparr>e_status := Disabled\<rparr>"]) (intro conjI whole user' st rest)
qed


lemma sample_known: "categories_known sample_start" "categories_known offered_db" "categories_known matched_db"
  by code_simp+

definition sample_actor :: actor where
  "sample_actor = \<lparr>ac_userId = 8, ac_role = Moderator_role\<rparr>"

theorem suspension_ends_everything_witness:
  "\<exists>d' es x. moderate (sample_env 5000) sample_actor (suspend_input 2 ''spam'' (Some 24)) matched_db = (d', es, Inr ())
     \<and> by_key u_id 2 (users d') = Some x \<and> u_status x = User_suspended"
  using suspension_ends_everything[OF matched_reachable sample_known(3), of 2 "sample_user 2 ''Ravi''" sample_actor "Some 24" "sample_env 5000" "''spam''"]
  by (auto simp: matched_db_def sample_start_def sample_user_def by_key_def sample_actor_def actionAllowedForRole_def
      ADMIN_ONLY_ACTIONS_def MODERATOR_ACTIONS_def MODERATOR_MAX_SUSPEND_HOURS_def)

theorem disabling_closes_the_event_witness:
  "\<exists>d' es x. moderate (sample_env 5000) (sample_actor\<lparr>ac_role := Admin_role\<rparr>) (disable_input 3 ''fraud'') offered_db = (d', es, Inr ())
     \<and> by_key e_id 3 (events d') = Some x \<and> e_status x = Disabled"
  using disabling_closes_the_event[OF offered_reachable sample_known(2), of 3 sample_event "sample_actor\<lparr>ac_role := Admin_role\<rparr>" "sample_env 5000" "''fraud''"]
  by (auto simp: offered_db_def sample_start_def sample_event_def by_key_def)



definition deletion_db :: db where
  "deletion_db = matched_db\<lparr>dataRequests := [\<lparr>dr_id = 30, dr_userId = 2, dr_kind = Delete_request,
     dr_status = Data_pending, dr_payload = None, dr_createdAt = 4500, dr_completedAt = None\<rparr>], next_id := 31\<rparr>"

lemma deletion_db_reachable: "reachable deletion_db" "categories_known deletion_db"
proof -
  have "step matched_db deletion_db"
    by (rule step.elsewhere) (simp add: outside_def deletion_db_def matched_db_def)
  then show "reachable deletion_db" using matched_reachable next_step by blast
  show "categories_known deletion_db" by code_simp
qed


text \<open>
  C18: The limits of the roles are exactly these: an admin may take every known action, a moderator all but
  lifting a suspension, disabling an event and suspending for longer than 168 hours or without an end, anybody
  else none. An action outside them is answered with forbidden and changes and publishes nothing; inside them
  the answer is never forbidden.
\<close>

theorem staff_stay_within_their_role:
  assumes "reachable d"
  shows "(snd (snd (moderate env actor input d)) = Inl Forbidden
       \<longleftrightarrow> \<not> (\<exists>action. md_action input = Some action \<and> (ac_role actor = Admin_role \<or> (ac_role actor = Moderator_role
             \<and> action \<noteq> Act_unsuspend \<and> action \<noteq> Act_event_disable
             \<and> (action = Act_suspend \<longrightarrow> (\<exists>h \<le> 168. md_durationHours input = Some h))))))
     \<and> (snd (snd (moderate env actor input d)) = Inl Forbidden \<longrightarrow> moderate env actor input d = (d, [], Inl Forbidden))"
proof -
  have spec: "actionAllowedForRole (md_action input) (ac_role actor) (md_durationHours input)
      \<longleftrightarrow> (\<exists>action. md_action input = Some action \<and> (ac_role actor = Admin_role \<or> (ac_role actor = Moderator_role
             \<and> action \<noteq> Act_unsuspend \<and> action \<noteq> Act_event_disable
             \<and> (action = Act_suspend \<longrightarrow> (\<exists>h \<le> 168. md_durationHours input = Some h)))))"
  proof (cases "md_action input")
    case (Some a)
    then show ?thesis
      by (cases a) (auto simp: actionAllowedForRole_def ADMIN_ONLY_ACTIONS_def MODERATOR_ACTIONS_def
          MODERATOR_MAX_SUSPEND_HOURS_def split: option.splits)
  qed (simp add: actionAllowedForRole_def)
  show ?thesis
    unfolding moderate_forbids[OF reachable_inv[OF assms]] spec[symmetric] by (simp add: moderate_def)
qed

theorem staff_stay_within_their_role_witness:
  "snd (snd (moderate (sample_env 5000) sample_actor (suspend_input 2 ''spam'' (Some 169)) matched_db)) = Inl Forbidden"
  using staff_stay_within_their_role[OF matched_reachable, of "sample_env 5000" sample_actor "suspend_input 2 ''spam'' (Some 169)"]
  by (simp add: suspend_input_def sample_actor_def)


end
