(* ===== verification/Service_Outcomes.thy ===== *)
theory Service_Outcomes
  imports Server Scenario
begin

text \<open>
  The services around the exchange: the dashboard does not show small groups, the walk over the days of
  an event ends at the first start that is due, a notification is delivered once, the pages of the audit
  log cover it.
\<close>

subsection \<open>The dashboard\<close>

definition few :: "agg \<Rightarrow> bool" where
  "few a \<longleftrightarrow> ag_users a < kAnonymityThreshold"

definition stock_now :: "env \<Rightarrow> db \<Rightarrow> uid \<Rightarrow> uid \<Rightarrow> agg" where
  "stock_now env = free_stock (\<lambda>i. case i_expiresAt i of None \<Rightarrow> True | Some t \<Rightarrow> t > now env)"

definition participants :: "env \<Rightarrow> uid \<Rightarrow> db \<Rightarrow> uid set" where
  "participants env eid d = (\<Union>m \<in> {m \<in> set (matches d). recently_settled env eid m}. {m_requesterId m, m_helperId m})"

lemma gate_few: "few a \<Longrightarrow> gateValue (ag_qty a) (ag_users a) = None"
  by (simp add: gateValue_def few_def)

lemma participants_card:
  "length (remdups (map m_requesterId (filter (recently_settled env eid) (matches d))
     @ map m_helperId (filter (recently_settled env eid) (matches d)))) = card (participants env eid d)"
  unfolding length_remdups_card_conv by (rule arg_cong[of _ _ card]) (auto simp: participants_def)


text \<open>
  The condition on demand and supply together is needed: with three requesters the level tells what a
  single helper brings.
\<close>

lemma level_shows_single_helper:
  "computeShortage \<lparr>si_requestedQty = 10, si_offeredQty = 0, si_distinctRequesters = 3, si_distinctOfferers = 0, si_kAnonymityThreshold = 3\<rparr> = Critical_shortage"
  "computeShortage \<lparr>si_requestedQty = 10, si_offeredQty = 10, si_distinctRequesters = 3, si_distinctOfferers = 1, si_kAnonymityThreshold = 3\<rparr> = Moderate_need"
  by (simp_all add: computeShortage_def)

subsection \<open>The days of an event\<close>

text \<open>
  The walk to the next daily start of an event ends, whatever the calendar of the server does as long as
  the next day comes later: its answer is the first daily start that is not before the given instant, if that
  is not after the end of the event, and none otherwise.
\<close>

theorem next_daily_start_found:
  assumes "\<And>t. t < next_day t"
  shows "\<exists>r. nextDailyStart next_day startsAt endsAt frm = Some r
    \<and> (\<forall>x. r = Some x \<longleftrightarrow> (\<exists>n. x = (next_day ^^ n) startsAt \<and> frm \<le> x \<and> x \<le> endsAt \<and> (\<forall>m < n. (next_day ^^ m) startsAt < frm)))"
proof -
  have later: "t + int n \<le> (next_day ^^ n) t" for t n
  proof (induction n)
    case (Suc n)
    with assms[of "(next_day ^^ n) t"] show ?case by simp
  qed simp
  have "\<exists>r. daily_walk next_day endsAt frm occ = Some r
    \<and> (\<forall>x. r = Some x \<longleftrightarrow> (\<exists>n. x = (next_day ^^ n) occ \<and> frm \<le> x \<and> x \<le> endsAt \<and> (\<forall>m < n. (next_day ^^ m) occ < frm)))" for occ
  proof (induction "nat (frm - occ)" arbitrary: occ rule: less_induct)
    case less
    show ?case
    proof (cases "occ < frm")
      case False
      then have "daily_walk next_day endsAt frm occ = Some (if occ \<le> endsAt then Some occ else None)"
        by (simp add: daily_walk.simps)
      moreover have "(\<exists>n. x = (next_day ^^ n) occ \<and> frm \<le> x \<and> x \<le> endsAt \<and> (\<forall>m < n. (next_day ^^ m) occ < frm)) \<longleftrightarrow> x = occ \<and> occ \<le> endsAt" for x
        using False by (metis funpow_0 gr0I linorder_not_less not_less_zero)
      ultimately show ?thesis by auto
    next
      case True
      let ?o = "next_day occ"
      have shift: "(\<exists>n. x = (next_day ^^ n) occ \<and> frm \<le> x \<and> x \<le> endsAt \<and> (\<forall>m < n. (next_day ^^ m) occ < frm))
          \<longleftrightarrow> (\<exists>n. x = (next_day ^^ n) ?o \<and> frm \<le> x \<and> x \<le> endsAt \<and> (\<forall>m < n. (next_day ^^ m) ?o < frm))" (is "?A \<longleftrightarrow> ?B") for x
      proof
        assume ?A
        then obtain n where n: "x = (next_day ^^ n) occ" "frm \<le> x" "x \<le> endsAt" "\<forall>m < n. (next_day ^^ m) occ < frm" by blast
        with True obtain k where k: "n = Suc k" by (cases n) auto
        with n show ?B by (intro exI[of _ k]) (auto simp: funpow_swap1 simp del: funpow.simps(2)
            simp: funpow_Suc_right)
      next
        assume ?B
        then obtain n where n: "x = (next_day ^^ n) ?o" "frm \<le> x" "x \<le> endsAt" "\<forall>m < n. (next_day ^^ m) ?o < frm" by blast
        have "\<forall>m < Suc n. (next_day ^^ m) occ < frm"
        proof (intro allI impI)
          fix m assume "m < Suc n"
          with True n(4) show "(next_day ^^ m) occ < frm" by (cases m) (simp_all add: funpow_swap1)
        qed
        with n show ?A by (intro exI[of _ "Suc n"]) (simp add: funpow_swap1)
      qed
      show ?thesis
      proof (cases "?o > endsAt")
        case over: True
        then have "\<not> (\<exists>n. x = (next_day ^^ n) ?o \<and> frm \<le> x \<and> x \<le> endsAt \<and> (\<forall>m < n. (next_day ^^ m) ?o < frm))" for x
          using later[of ?o] by (metis add_increasing2 dual_order.trans linorder_not_less of_nat_0_le_iff order_refl)
        with True over show ?thesis by (simp add: daily_walk.simps shift Let_def)
      next
        case False
        have "nat (frm - ?o) < nat (frm - occ)" using True assms[of occ] by simp
        with less.hyps[of ?o] obtain r where "daily_walk next_day endsAt frm ?o = Some r"
          "\<forall>x. r = Some x \<longleftrightarrow> (\<exists>n. x = (next_day ^^ n) ?o \<and> frm \<le> x \<and> x \<le> endsAt \<and> (\<forall>m < n. (next_day ^^ m) ?o < frm))" by blast
        with True False show ?thesis unfolding shift by (simp add: daily_walk.simps Let_def)
      qed
    qed
  qed
  then show ?thesis unfolding nextDailyStart_def .
qed

theorem next_daily_start_found_witness:
  "\<exists>r. nextDailyStart (\<lambda>t. t + 86400000) 32400000 600000000 100000000 = Some r"
proof -
  have "(t :: int) < t + 86400000" for t by simp
  from next_daily_start_found[of "\<lambda>t. t + 86400000", OF this, of 32400000 600000000 100000000] show ?thesis by blast
qed

subsection \<open>A small group in the sample event\<close>

lemma few_short: "length rows < 3 \<Longrightarrow> few (aggregate q who rows)"
  by (simp add: few_def aggregate_def kAnonymityThreshold_def) (metis le_less_trans length_map length_remdups_leq)


subsection \<open>Delivering notifications\<close>

fun deliver_all :: "(string \<Rightarrow> catalog) \<Rightarrow> (param_value \<Rightarrow> utext) \<Rightarrow> push_provider list \<Rightarrow> (env \<times> notify_job) list \<Rightarrow> db
    \<Rightarrow> db \<times> effect list" where
  "deliver_all catalogs shown providers [] d = (d, [])"
| "deliver_all catalogs shown providers ((env, job) # jobs) d =
     (let (d1, es, _) = deliverNotification env catalogs shown providers job d;
          (d2, es2) = deliver_all catalogs shown providers jobs d1 in (d2, es @ es2))"

definition delivery_keys :: "notification list \<Rightarrow> (uid \<times> dedupe_key option) list" where
  "delivery_keys ns = map (\<lambda>n. (nt_userId n, nt_dedupeKey n)) (filter (\<lambda>n. nt_dedupeKey n \<noteq> None) ns)"

definition announce :: "notification \<Rightarrow> effect" where
  "announce n = Publish (nt_userId n) Notification_new (P_notification (notification_view_of n))"

lemma push_step_frame:
  "notifications (fst (push_step catalogs shown providers user job d)) = notifications d"
  "users (fst (push_step catalogs shown providers user job d)) = users d"
  by (auto simp: push_step_def disable_tokens_def Let_def)

lemma deliver_one:
  "\<exists>new. notifications (fst (deliverNotification env cats shown ps job d)) = notifications d @ new
     \<and> fst (snd (deliverNotification env cats shown ps job d)) = map announce new
     \<and> (\<forall>n \<in> set new. nt_userId n = nj_userId job \<and> nt_dedupeKey n = nj_dedupeKey job)
     \<and> (distinct (delivery_keys (notifications d)) \<longrightarrow> distinct (delivery_keys (notifications d @ new)))"
proof (cases "by_key u_id (nj_userId job) (users d)")
  case None
  then show ?thesis by (intro exI[of _ "[]"]) (simp add: deliverNotification_def)
next
  case (Some user)
  show ?thesis
  proof (cases "mutes user (nj_type job) \<or> already_delivered job d")
    case True
    with Some show ?thesis by (intro exI[of _ "[]"]) (auto simp: deliverNotification_def)
  next
    case False
    let ?n = "notification_of env job (next_id d)"
    have row: "nt_userId ?n = nj_userId job" "nt_dedupeKey ?n = nj_dedupeKey job" by (simp_all add: notification_of_def)
    have "(nj_userId job, nj_dedupeKey job) \<notin> set (delivery_keys (notifications d))" if "nj_dedupeKey job \<noteq> None"
      using False that by (auto simp: already_delivered_def delivery_keys_def list_ex_iff)
    then have "distinct (delivery_keys (notifications d)) \<longrightarrow> distinct (delivery_keys (notifications d @ [?n]))"
      by (auto simp: delivery_keys_def row)
    moreover have "notifications (fst (deliverNotification env cats shown ps job d)) = notifications d @ [?n]"
      "fst (snd (deliverNotification env cats shown ps job d)) = map announce [?n]"
      using False Some push_step_frame(1)[of cats shown ps user job "d\<lparr>notifications := notifications d @ [?n], next_id := Suc (next_id d)\<rparr>"]
      by (simp_all add: deliverNotification_def Let_def case_prod_unfold announce_def row)
    ultimately show ?thesis using row by (intro exI[of _ "[?n]"]) simp
  qed
qed

text \<open>
  C38: However often the queue hands over the same jobs, a notification is stored and announced at most once
  per recipient and dedupe key: the feed only grows, each row that is added is announced exactly once and comes
  from a job for that recipient with that key, and no two rows of the feed share both.
\<close>

theorem notifications_delivered_once:
  assumes "deliver_all catalogs shown providers jobs d = (d', es)"
  shows "\<exists>new. notifications d' = notifications d @ new \<and> es = map announce new
     \<and> (\<forall>n \<in> set new. \<exists>(env, job) \<in> set jobs. nt_userId n = nj_userId job \<and> nt_dedupeKey n = nj_dedupeKey job)
     \<and> (distinct (delivery_keys (notifications d)) \<longrightarrow> distinct (delivery_keys (notifications d')))"
  using assms
proof (induction jobs arbitrary: d d' es)
  case (Cons j jobs)
  obtain env job where j: "j = (env, job)" by (cases j)
  obtain d1 es1 r where one: "deliverNotification env catalogs shown providers job d = (d1, es1, r)"
    by (cases "deliverNotification env catalogs shown providers job d")
  obtain d2 es2 where rest: "deliver_all catalogs shown providers jobs d1 = (d2, es2)"
    by (cases "deliver_all catalogs shown providers jobs d1")
  have d': "d' = d2" "es = es1 @ es2" using Cons.prems j one rest by simp_all
  obtain new1 where new1: "notifications d1 = notifications d @ new1" "es1 = map announce new1"
     "\<forall>n \<in> set new1. nt_userId n = nj_userId job \<and> nt_dedupeKey n = nj_dedupeKey job"
     "distinct (delivery_keys (notifications d)) \<longrightarrow> distinct (delivery_keys (notifications d1))"
    using deliver_one[of env catalogs shown providers job d] one by auto
  obtain new2 where new2: "notifications d2 = notifications d1 @ new2" "es2 = map announce new2"
     "\<forall>n \<in> set new2. \<exists>(env, job) \<in> set jobs. nt_userId n = nj_userId job \<and> nt_dedupeKey n = nj_dedupeKey job"
     "distinct (delivery_keys (notifications d1)) \<longrightarrow> distinct (delivery_keys (notifications d2))"
    using Cons.IH[OF rest] by blast
  show ?case
    using new1 new2 unfolding d' j by (intro exI[of _ "new1 @ new2"]) auto
qed simp

definition sample_job :: notify_job where
  "sample_job = \<lparr>nj_userId = 2, nj_type = N_event_notice, nj_titleKey = ''notifications.event_notice'',
     nj_bodyKey = ''moderation.noticeBody'', nj_params = [], nj_deepLink = None, nj_dedupeKey = Some (Notice_key 7)\<rparr>"

theorem notifications_delivered_once_witness:
  "\<exists>d' es. deliver_all (\<lambda>_. undefined) (\<lambda>_. []) [] [(sample_env 1, sample_job), (sample_env 2, sample_job)] sample_start = (d', es)
     \<and> distinct (delivery_keys (notifications d'))"
proof -
  obtain d' es where run: "deliver_all (\<lambda>_. undefined) (\<lambda>_. []) [] [(sample_env 1, sample_job), (sample_env 2, sample_job)] sample_start = (d', es)"
    by (metis prod.collapse)
  have "distinct (delivery_keys (notifications sample_start))" by (simp add: sample_start_def empty_db_def delivery_keys_def)
  with notifications_delivered_once[OF run] run show ?thesis by blast
qed


subsection \<open>Reading the audit log page by page\<close>

text \<open>A reader that follows the cursor from page to page, at most \<open>fuel\<close> pages.\<close>

fun read_audit :: "nat \<Rightarrow> nat \<Rightarrow> audit_cursor \<Rightarrow> db \<Rightarrow> audit_view list option" where
  "read_audit 0 limit c d = None"
| "read_audit (Suc fuel) limit c d = (case listAudit c limit d of
     Inl e \<Rightarrow> None
   | Inr (items, None) \<Rightarrow> Some items
   | Inr (items, Some k) \<Rightarrow> map_option ((@) items) (read_audit fuel limit (From_number (Some (int k))) d))"

definition newest_log :: "audit_entry list \<Rightarrow> bool" where
  "newest_log ls \<longleftrightarrow> sorted_wrt (\<lambda>a b. al_id b < al_id a) ls"

lemma audit_below_newest:
  assumes "distinct (map al_id (auditLog d))"
  shows "newest_log (audit_below c d)"
proof -
  let ?f = "\<lambda>l. - int (al_id l)"
  let ?b = "filter (\<lambda>l. case c of None \<Rightarrow> True | Some k \<Rightarrow> al_id l < k) (auditLog d)"
  have "distinct (map al_id ?b)" using assms by (simp add: distinct_map_filter)
  then have "distinct (map al_id (audit_below c d))"
    by (simp add: audit_below_def distinct_map) (metis set_sort)?
  then have "distinct (map ?f (audit_below c d))" by (auto simp: distinct_map inj_on_def)
  moreover have "sorted (map ?f (audit_below c d))" by (simp add: audit_below_def)
  ultimately have "sorted_wrt (<) (map ?f (audit_below c d))" by (simp add: strict_sorted_iff)
  then show ?thesis by (simp add: newest_log_def sorted_wrt_map)
qed

lemma audit_below_from:
  assumes "case c of None \<Rightarrow> True | Some k' \<Rightarrow> k \<le> k'"
  shows "audit_below (Some k) d = filter (\<lambda>l. al_id l < k) (audit_below c d)"
  using assms by (auto simp: audit_below_def filter_sort[symmetric] intro!: filter_cong split: option.splits)

lemma newest_after:
  assumes "newest_log ls" "0 < n" "n \<le> length ls"
  shows "filter (\<lambda>l. al_id l < al_id (last (take n ls))) ls = drop n ls"
proof -
  let ?t = "take n ls"
  have t: "?t \<noteq> []" using assms by auto
  have w: "sorted_wrt (\<lambda>a b. al_id b < al_id a) (?t @ drop n ls)" using assms(1) by (simp add: newest_log_def)
  then have tt: "sorted_wrt (\<lambda>a b. al_id b < al_id a) (butlast ?t @ [last ?t])" using t by (simp add: sorted_wrt_append)
  have "al_id (last ?t) \<le> al_id x" if "x \<in> set ?t" for x
  proof (cases "x = last ?t")
    case False
    then have "x \<in> set (butlast ?t)" using that t by (metis append_butlast_last_id in_set_butlast_appendI rotate1.simps(2) set_ConsD set_rotate1)
    with tt show ?thesis by (auto simp: sorted_wrt_append)
  qed simp
  then have "filter (\<lambda>l. al_id l < al_id (last ?t)) ?t = []" by (simp add: filter_empty_conv linorder_not_less)
  moreover have "al_id x < al_id (last ?t)" if "x \<in> set (drop n ls)" for x
    using w[unfolded sorted_wrt_append] that last_in_set[OF t] by blast
  then have "filter (\<lambda>l. al_id l < al_id (last ?t)) (drop n ls) = drop n ls" by simp
  ultimately have "filter (\<lambda>l. al_id l < al_id (last ?t)) (?t @ drop n ls) = drop n ls"
    unfolding filter_append by simp
  then show ?thesis by simp
qed

definition cursor_at :: "nat option \<Rightarrow> audit_cursor" where
  "cursor_at c = (case c of None \<Rightarrow> First_page | Some k \<Rightarrow> From_number (Some (int k)))"

lemma read_audit_from:
  assumes "distinct (map al_id (auditLog d))" "list_all (\<lambda>l. 0 < al_id l) (auditLog d)" "0 < limit"
    and "length (audit_below c d) < fuel" "c \<noteq> Some 0"
  shows "read_audit fuel limit (cursor_at c) d = Some (map (audit_view_of d) (audit_below c d))"
  using assms(4,5)
proof (induction fuel arbitrary: c)
  case (Suc fuel)
  let ?b = "audit_below c d"
  have page: "listAudit (cursor_at c) limit d = Inr (audit_page c limit d)"
    using Suc.prems(2) by (auto simp: listAudit_def cursor_at_def split: option.split)
  show ?case
  proof (cases "limit \<le> length ?b")
    case False
    with page show ?thesis by (simp add: audit_page_def Let_def)
  next
    case True
    let ?k = "al_id (last (take limit ?b))"
    have ne: "take limit ?b \<noteq> []" using True assms(3) by auto
    then have last: "last (take limit ?b) \<in> set ?b" using last_in_set in_set_takeD by metis
    then have k: "case c of None \<Rightarrow> True | Some k' \<Rightarrow> ?k \<le> k'" "?k \<noteq> 0"
      using assms(2) by (auto simp: audit_below_def list_all_iff split: option.split)
    have next': "audit_below (Some ?k) d = drop limit ?b"
      unfolding audit_below_from[OF k(1)] by (rule newest_after[OF audit_below_newest[OF assms(1)] assms(3) True])
    have "audit_page c limit d = (map (audit_view_of d) (take limit ?b), Some ?k)"
      using True ne assms(3) by (simp add: audit_page_def Let_def last_map audit_view_of_def)
    moreover have "read_audit fuel limit (cursor_at (Some ?k)) d = Some (map (audit_view_of d) (drop limit ?b))"
      using Suc.IH[of "Some ?k"] k(2) Suc.prems(1) True assms(3) unfolding next' by simp
    ultimately show ?thesis using page
      by (simp add: cursor_at_def map_append[symmetric] del: map_append)
  qed
qed simp

text \<open>
  Following the cursor of the audit log reads the whole log: after at most one page more than it has
  entries the last page is reached, and the pages put together are all entries, newest first, none twice and
  none left out.
\<close>

theorem audit_pages_cover_the_log:
  assumes "distinct (map al_id (auditLog d))" "list_all (\<lambda>l. 0 < al_id l) (auditLog d)" "0 < limit"
  shows "\<exists>ls. read_audit (Suc (length (auditLog d))) limit First_page d = Some (map (audit_view_of d) ls)
    \<and> mset ls = mset (auditLog d) \<and> sorted_wrt (\<lambda>a b. al_id b < al_id a) ls"
proof -
  have "length (audit_below None d) < Suc (length (auditLog d))" by (simp add: audit_below_def)
  from read_audit_from[OF assms this] have "read_audit (Suc (length (auditLog d))) limit First_page d
      = Some (map (audit_view_of d) (audit_below None d))" by (simp add: cursor_at_def)
  moreover have "mset (audit_below None d) = mset (auditLog d)" by (simp add: audit_below_def)
  ultimately show ?thesis using audit_below_newest[OF assms(1), of None] by (auto simp: newest_log_def)
qed

definition sample_entry :: "nat \<Rightarrow> audit_entry" where
  "sample_entry k = \<lparr>al_id = k, al_actorId = None, al_action = ''event_update'', al_target = None, al_reason = None,
     al_meta = None, al_createdAt = int k\<rparr>"

theorem audit_pages_cover_the_log_witness:
  "\<exists>ls. read_audit 4 2 First_page (sample_start\<lparr>auditLog := [sample_entry 1, sample_entry 2, sample_entry 3]\<rparr>)
      = Some (map (audit_view_of (sample_start\<lparr>auditLog := [sample_entry 1, sample_entry 2, sample_entry 3]\<rparr>)) ls) \<and> length ls = 3"
proof -
  let ?d = "sample_start\<lparr>auditLog := [sample_entry 1, sample_entry 2, sample_entry 3]\<rparr>"
  have "distinct (map al_id (auditLog ?d))" "list_all (\<lambda>l. 0 < al_id l) (auditLog ?d)" by (simp_all add: sample_entry_def)
  moreover have four: "Suc (length (auditLog ?d)) = 4" by simp
  moreover have "0 < (2 :: nat)" by simp
  ultimately obtain ls where ls: "read_audit 4 2 First_page ?d = Some (map (audit_view_of ?d) ls)"
    "mset ls = mset (auditLog ?d)" using audit_pages_cover_the_log[of ?d 2, unfolded four] by blast
  then have "length ls = 3" using mset_eq_length by fastforce
  with ls(1) show ?thesis by blast
qed


end
