(* ===== verification/Routes.thy ===== *)
theory Routes
  imports Server
begin

text \<open>
  The HTTP surface: the \<open>routes.ts\<close> of every module, each route with the guards that run before its
  handler, the body it accepts and the operation it performs as the owner of the presented token.
  A request is a call with its validated parts; ids are parsed by the types.
\<close>

subsection \<open>Routes\<close>

datatype http_method = GET | POST | PUT | PATCH | DELETE

datatype work = Op op | Around around | Refuse app_error | Answer

text \<open>
  Public routes (some of them personalize their answer when a token is valid), \<open>app.authenticate\<close>, the appeal
  routes' \<open>authenticateAllowSuspended\<close>, and \<open>app.requireRole\<close> behind \<open>app.authenticate\<close>.
\<close>

datatype guarded =
    Public_route work
  | Signed_in_route "bearer \<Rightarrow> work"
  | Appeal_route "bearer \<Rightarrow> work"
  | Staff_route user_role "bearer \<Rightarrow> work"

record route =
  rt_method :: http_method
  rt_url :: string
  rt_bodyOk :: bool
  rt_handler :: guarded

definition v1 :: "string \<Rightarrow> string" where
  "v1 path = ''/api/v1'' @ path"

abbreviation route_of :: "http_method \<Rightarrow> string \<Rightarrow> bool \<Rightarrow> guarded \<Rightarrow> route" where
  "route_of m path ok h \<equiv> \<lparr>rt_method = m, rt_url = v1 path, rt_bodyOk = ok, rt_handler = h\<rparr>"

text \<open>What the handlers take from elsewhere, besides the draws that each call carries.\<close>

record http_ext =
  hx_crypto :: crypto
  hx_isEmail :: "utext \<Rightarrow> bool"
  hx_lower :: "utext \<Rightarrow> utext"
  hx_otp :: otp_config

subsection \<open>Bodies\<close>

definition sized :: "nat \<Rightarrow> nat \<Rightarrow> 'a list \<Rightarrow> bool" where
  "sized a b t \<longleftrightarrow> a \<le> length t \<and> length t \<le> b"

definition zDevice :: "device \<Rightarrow> bool" where
  "zDevice dev \<longleftrightarrow> dv_platform dev \<in> {''ios'', ''android'', ''web''} \<and> valid_opt (sized 0 60) (dv_name dev)"

definition zOtpCode :: "string \<Rightarrow> bool" where
  "zOtpCode code \<longleftrightarrow> length code = otpLength \<and> list_all (\<lambda>c. c \<in> set ''0123456789'') code"

definition zAdminModerate :: "moderate_input \<Rightarrow> bool" where
  "zAdminModerate i \<longleftrightarrow> sized 5 1000 (md_reason i) \<and> valid_opt (\<lambda>h. 1 \<le> h \<and> h \<le> 24 * 90) (md_durationHours i)"

definition zAdminWant :: "string \<times> int option \<Rightarrow> bool" where
  "zAdminWant w \<longleftrightarrow> fst w \<noteq> [] \<and> valid_opt (\<lambda>q. 0 < q \<and> q \<le> 1000000) (snd w)"

definition zPaginationLimit :: "nat \<Rightarrow> bool" where
  "zPaginationLimit n \<longleftrightarrow> 1 \<le> n \<and> n \<le> 100"

subsection \<open>The exchange\<close>

datatype request_call =
    Create_call create_request_input
  | Mine_call
  | One_request_call uid
  | Cancel_call uid
  | Renew_call uid "int option"
  | Continue_call uid bool

fun request_route :: "request_call \<Rightarrow> route" where
  "request_route (Create_call input) = route_of POST ''/requests'' (zCreateRequest input)
     (Signed_in_route (\<lambda>b. Op (Create_request (auth_context.truncate b) input)))"
| "request_route Mine_call = route_of GET ''/requests/mine'' True (Signed_in_route (\<lambda>_. Answer))"
| "request_route (One_request_call rid) = route_of GET ''/requests/:id'' True (Signed_in_route (\<lambda>_. Answer))"
| "request_route (Cancel_call rid) = route_of POST ''/requests/:id/cancel'' True
     (Signed_in_route (\<lambda>b. Op (Cancel_request (au_userId b) rid)))"
| "request_route (Renew_call rid n) = route_of POST ''/requests/:id/renew'' (valid_opt zExpiresInMinutes n)
     (Signed_in_route (\<lambda>b. Op (Renew_request (au_userId b) rid (case n of None \<Rightarrow> 15 | Some n \<Rightarrow> n))))"
| "request_route (Continue_call rid go) = route_of POST ''/requests/:id/continue'' True
     (Signed_in_route (\<lambda>b. Op (Continue_request (au_userId b) rid go)))"

datatype inventory_call =
    My_inventory_call uid
  | Add_call uid add_inventory_input
  | Update_call uid update_inventory_input
  | Delete_call uid

fun inventory_route :: "inventory_call \<Rightarrow> route" where
  "inventory_route (My_inventory_call eid) = route_of GET ''/events/:id/inventory'' True (Signed_in_route (\<lambda>_. Answer))"
| "inventory_route (Add_call eid input) = route_of POST ''/events/:id/inventory'' (zAddInventory input)
     (Signed_in_route (\<lambda>b. Op (Add_inventory (au_userId b) eid input)))"
| "inventory_route (Update_call iid input) = route_of PATCH ''/inventory/:itemId'' (zUpdateInventory input)
     (Signed_in_route (\<lambda>b. Op (Update_inventory (au_userId b) iid input)))"
| "inventory_route (Delete_call iid) = route_of DELETE ''/inventory/:itemId'' True
     (Signed_in_route (\<lambda>b. Op (Delete_inventory (au_userId b) iid)))"

datatype availability_call =
    Get_availability_call uid
  | Set_availability_call uid set_availability_input
  | Put_location_call uid geopoint
  | Delete_location_call uid

fun availability_route :: "availability_call \<Rightarrow> route" where
  "availability_route (Get_availability_call eid) = route_of GET ''/events/:id/availability'' True (Signed_in_route (\<lambda>_. Answer))"
| "availability_route (Set_availability_call eid input) = route_of PUT ''/events/:id/availability'' (zSetAvailability input)
     (Signed_in_route (\<lambda>b. Op (Set_availability (auth_context.truncate b) eid input)))"
| "availability_route (Put_location_call eid c) = route_of PUT ''/events/:id/location'' (zCoords c)
     (Signed_in_route (\<lambda>b. Op (Put_location (au_userId b) eid c)))"
| "availability_route (Delete_location_call eid) = route_of DELETE ''/events/:id/location'' True
     (Signed_in_route (\<lambda>b. Op (Delete_location (au_userId b) eid)))"

datatype offer_call = Pending_call | Respond_call "(int \<times> int) list" uid bool "bool option"

fun offer_route :: "offer_call \<Rightarrow> route" where
  "offer_route Pending_call = route_of GET ''/offers/pending'' True (Signed_in_route (\<lambda>_. Answer))"
| "offer_route (Respond_call draws oid accept stop) = route_of POST ''/offers/:id/respond'' True
     (Signed_in_route (\<lambda>b. Op (Respond_offer draws (au_userId b) oid accept (stop = Some True))))"

datatype match_call =
    Active_call
  | Match_view_call uid
  | Meeting_call uid meeting_state
  | Cancel_match_call uid cancel_match_input
  | Confirm_call uid qty

fun match_route :: "match_call \<Rightarrow> route" where
  "match_route Active_call = route_of GET ''/matches/active'' True (Signed_in_route (\<lambda>_. Answer))"
| "match_route (Match_view_call mid) = route_of GET ''/matches/:id'' True (Signed_in_route (\<lambda>_. Answer))"
| "match_route (Meeting_call mid st) = route_of POST ''/matches/:id/meeting'' True
     (Signed_in_route (\<lambda>b. Op (Set_meeting_state (au_userId b) mid st)))"
| "match_route (Cancel_match_call mid input) = route_of POST ''/matches/:id/cancel'' (zCancelMatch input)
     (Signed_in_route (\<lambda>b. Op (Cancel_match (au_userId b) mid input)))"
| "match_route (Confirm_call mid q) = route_of POST ''/matches/:id/confirm'' (zConfirmCompletion q)
     (Signed_in_route (\<lambda>b. Op (Confirm_completion (au_userId b) mid q)))"

datatype chat_call =
    Conversation_call uid
  | Messages_call uid cursor nat
  | Send_call uid send_message_input
  | Read_call uid

fun chat_route :: "chat_call \<Rightarrow> route" where
  "chat_route (Conversation_call cid) = route_of GET ''/conversations/:id'' True (Signed_in_route (\<lambda>_. Answer))"
| "chat_route (Messages_call cid c n) = route_of GET ''/conversations/:id/messages'' (zPaginationLimit n)
     (Signed_in_route (\<lambda>b. Op (List_messages (au_userId b) cid c n)))"
| "chat_route (Send_call cid input) = route_of POST ''/conversations/:id/messages'' (zSendMessage input)
     (Signed_in_route (\<lambda>b. Op (Send_message (au_userId b) cid input)))"
| "chat_route (Read_call cid) = route_of POST ''/conversations/:id/read'' True
     (Signed_in_route (\<lambda>b. Op (Mark_read (au_userId b) cid)))"

datatype safety_call = Report_call bool create_report_input | My_reports_call | Block_call uid

fun safety_route :: "safety_call \<Rightarrow> route" where
  "safety_route (Report_call allowed input) = route_of POST ''/reports'' (zCreateReport input)
     (Signed_in_route (\<lambda>b. Op (Create_report allowed (au_userId b) input)))"
| "safety_route My_reports_call = route_of GET ''/reports/mine'' True (Signed_in_route (\<lambda>_. Answer))"
| "safety_route (Block_call mid) = route_of POST ''/blocks'' True (Signed_in_route (\<lambda>b. Op (Block_peer (au_userId b) mid)))"

datatype event_call =
    Search_call
  | Detail_call string
  | Create_event_call bool string string create_event_input
  | Join_call uid "string option"
  | Attendance_call "instant \<Rightarrow> instant" uid bool
  | Leave_call uid
  | Mute_call uid bool
  | Bring_call uid
  | Dashboard_call uid
  | Catalogue_call

fun event_route :: "(utext \<Rightarrow> utext) \<Rightarrow> event_call \<Rightarrow> route" where
  "event_route lower Search_call = route_of GET ''/events'' True (Public_route Answer)"
| "event_route lower (Detail_call idOrCode) = route_of GET ''/events/:idOrCode'' True (Public_route Answer)"
| "event_route lower (Create_event_call allowed invite code input) = route_of POST ''/events'' (zCreateEvent input)
     (Staff_route Moderator_role (\<lambda>b. if au_status b \<noteq> User_active then Refuse Account_restricted
        else Op (Create_event lower allowed invite code (au_userId b) input)))"
| "event_route lower (Join_call eid invite) = route_of POST ''/events/:id/join'' (valid_opt (sized 0 40) invite)
     (Signed_in_route (\<lambda>b. Op (Join_event (au_userId b) (Event_uuid eid) invite)))"
| "event_route lower (Attendance_call next_day eid attending) = route_of POST ''/events/:id/attendance'' True
     (Signed_in_route (\<lambda>b. Op (Answer_attendance next_day (au_userId b) eid attending)))"
| "event_route lower (Leave_call eid) = route_of POST ''/events/:id/leave'' True
     (Signed_in_route (\<lambda>b. Op (Leave_event (au_userId b) eid)))"
| "event_route lower (Mute_call eid muted) = route_of POST ''/events/:id/mute'' True
     (Signed_in_route (\<lambda>b. Op (Mute_event (au_userId b) eid muted)))"
| "event_route lower (Bring_call eid) = route_of GET ''/events/:id/bring'' True (Signed_in_route (\<lambda>_. Answer))"
| "event_route lower (Dashboard_call eid) = route_of GET ''/events/:id/dashboard'' True (Public_route Answer)"
| "event_route lower Catalogue_call = route_of GET ''/catalogue'' True (Public_route Answer)"

subsection \<open>Accounts, settings and privacy\<close>

datatype auth_call =
    Otp_start_call bool bool utext string
  | Otp_verify_call sign_in_draws utext string device
  | Login_call bool bool string utext utext device
  | Credentials_call "nat list" utext utext
  | Forgot_username_call utext
  | Reset_password_call "nat list" utext string utext
  | Password_call bool "nat list" utext utext
  | Logout_call
  | Sessions_call
  | End_session_call uid

text \<open>Signing out ends the caller's own session; its missing answer does not matter to the database.\<close>

fun auth_route :: "http_ext \<Rightarrow> auth_call \<Rightarrow> route" where
  "auth_route x (Otp_start_call emailOk ipOk email drawn) = route_of POST ''/auth/otp/start'' (hx_isEmail x email)
     (Public_route (Around (Start_otp (hx_crypto x) (hx_otp x) emailOk ipOk email drawn)))"
| "auth_route x (Otp_verify_call draws email code dev) = route_of POST ''/auth/otp/verify''
     (hx_isEmail x email \<and> zOtpCode code \<and> zDevice dev) (Public_route (Around (Verify_otp (hx_crypto x) draws email code dev)))"
| "auth_route x (Login_call userOk ipOk token name password dev) = route_of POST ''/auth/login''
     (sized 1 64 name \<and> sized 1 200 password \<and> zDevice dev)
     (Public_route (Around (Login (hx_crypto x) userOk ipOk token name password dev)))"
| "auth_route x (Credentials_call salt name password) = route_of POST ''/auth/credentials''
     (zUsername (hx_crypto x) name \<noteq> None \<and> sized 8 200 password)
     (Signed_in_route (\<lambda>b. Around (Set_credentials (hx_crypto x) salt (au_userId b) (the (zUsername (hx_crypto x) name)) password)))"
| "auth_route x (Forgot_username_call email) = route_of POST ''/auth/forgot-username'' (hx_isEmail x email) (Public_route Answer)"
| "auth_route x (Reset_password_call salt email code new) = route_of POST ''/auth/password/reset''
     (hx_isEmail x email \<and> zOtpCode code \<and> sized 8 200 new)
     (Public_route (Around (Reset_password (hx_crypto x) salt email code new)))"
| "auth_route x (Password_call allowed salt old new) = route_of POST ''/auth/password'' (sized 1 200 old \<and> sized 12 200 new)
     (Signed_in_route (\<lambda>b. Around (Change_password (hx_crypto x) allowed salt (au_userId b) (ba_sessionId b) old new)))"
| "auth_route x Logout_call = route_of POST ''/auth/logout'' True
     (Signed_in_route (\<lambda>b. Around (End_session (au_userId b) (ba_sessionId b))))"
| "auth_route x Sessions_call = route_of GET ''/auth/sessions'' True (Signed_in_route (\<lambda>_. Answer))"
| "auth_route x (End_session_call sid) = route_of DELETE ''/auth/sessions/:id'' True
     (Signed_in_route (\<lambda>b. Around (End_session (au_userId b) sid)))"

datatype user_call =
    Me_call
  | Update_me_call "int \<times> int" me_patch
  | Blocks_call
  | Push_token_call string string
  | Prefs_call
  | Put_prefs_call "bool \<times> (notification_type \<times> bool) list"
  | Notifications_call nat
  | Notification_read_call uid

fun user_route :: "user_call \<Rightarrow> route" where
  "user_route Me_call = route_of GET ''/me'' True (Signed_in_route (\<lambda>_. Answer))"
| "user_route (Update_me_call draw patch) = route_of PATCH ''/me'' (valid_opt (\<lambda>l. l \<in> {''en'', ''hi''}) (mp_locale patch))
     (Signed_in_route (\<lambda>b. Around (Update_me draw (au_userId b) patch)))"
| "user_route Blocks_call = route_of GET ''/me/blocks'' True (Signed_in_route (\<lambda>_. Answer))"
| "user_route (Push_token_call provider token) = route_of POST ''/me/push-tokens''
     (provider \<in> {''expo'', ''webpush''} \<and> sized 0 2000 token)
     (Signed_in_route (\<lambda>b. Around (Register_push (au_userId b) provider token)))"
| "user_route Prefs_call = route_of GET ''/me/notification-prefs'' True (Signed_in_route (\<lambda>_. Answer))"
| "user_route (Put_prefs_call prefs) = route_of PUT ''/me/notification-prefs'' True
     (Signed_in_route (\<lambda>b. Around (Put_prefs (au_userId b) prefs)))"
| "user_route (Notifications_call n) = route_of GET ''/me/notifications'' (zPaginationLimit n) (Signed_in_route (\<lambda>_. Answer))"
| "user_route (Notification_read_call k) = route_of POST ''/me/notifications/:id/read'' True
     (Signed_in_route (\<lambda>b. Around (Mark_notification (au_userId b) k)))"

datatype privacy_call = Export_call bool | Latest_export_call | Download_call | Delete_me_call utext | Consents_call

fun privacy_route :: "(utext \<Rightarrow> utext) \<Rightarrow> privacy_call \<Rightarrow> route" where
  "privacy_route lower (Export_call allowed) = route_of POST ''/me/export'' True
     (Signed_in_route (\<lambda>b. Around (Request_export allowed (au_userId b))))"
| "privacy_route lower Latest_export_call = route_of GET ''/me/export'' True (Signed_in_route (\<lambda>_. Answer))"
| "privacy_route lower Download_call = route_of GET ''/me/export/download'' True (Signed_in_route (\<lambda>_. Answer))"
| "privacy_route lower (Delete_me_call confirm) = route_of POST ''/me/delete'' True
     (Signed_in_route (\<lambda>b. Around (Request_deletion lower (au_userId b) confirm)))"
| "privacy_route lower Consents_call = route_of GET ''/me/consents'' True (Signed_in_route (\<lambda>_. Answer))"

subsection \<open>Staff\<close>

datatype admin_call =
    Reports_call
  | Moderate_call moderate_input
  | Users_call
  | Admin_events_call
  | Notice_call uid utext bool
  | Stats_call
  | Patch_event_call uid event_patch
  | Wants_call uid "(string \<times> int option) list"
  | Create_admin_call "nat list" "nat list" string "int \<times> int" utext utext user_role
  | Reset_admin_call "nat list" "nat list" uid
  | Categories_call
  | Patch_category_call uid category_patch
  | Flags_call
  | Patch_flag_call string bool
  | Appeals_call
  | Resolve_appeal_call uid bool string
  | Audit_call
  | Shutdown_call string
  | Appeal_call uid utext
  | My_appeals_call

definition zCategoryPatch :: "category_patch \<Rightarrow> bool" where
  "zCategoryPatch p \<longleftrightarrow> valid_opt zQty (cp_maxRequestQty p) \<and> valid_opt zQty (cp_maxOfferQty p)
     \<and> valid_opt (valid_opt (sized 0 100)) (cp_warningKey p)"

fun admin_route :: "http_ext \<Rightarrow> admin_call \<Rightarrow> route" where
  "admin_route x Reports_call = route_of GET ''/admin/reports'' True (Staff_route Moderator_role (\<lambda>_. Answer))"
| "admin_route x (Moderate_call input) = route_of POST ''/admin/moderate'' (zAdminModerate input)
     (Staff_route Moderator_role (\<lambda>b. Op (Moderate \<lparr>ac_userId = au_userId b, ac_role = ba_role b\<rparr> input)))"
| "admin_route x Users_call = route_of GET ''/admin/users'' True (Staff_route Moderator_role (\<lambda>_. Answer))"
| "admin_route x Admin_events_call = route_of GET ''/admin/events'' True (Staff_route Moderator_role (\<lambda>_. Answer))"
| "admin_route x (Notice_call eid body urgent) = route_of POST ''/admin/events/:id/notice'' (sized 3 1000 body)
     (Staff_route Moderator_role (\<lambda>b. Around (Publish_notice (au_userId b) eid body urgent)))"
| "admin_route x Stats_call = route_of GET ''/admin/stats'' True (Staff_route Moderator_role (\<lambda>_. Answer))"
| "admin_route x (Patch_event_call eid patch) = route_of PATCH ''/admin/events/:id'' (zEventPatch patch)
     (Staff_route Admin_role (\<lambda>b. Around (Patch_event (au_userId b) eid patch)))"
| "admin_route x (Wants_call eid wants) = route_of PATCH ''/admin/events/:id/wants'' (sized 0 200 wants \<and> list_all zAdminWant wants)
     (Staff_route Admin_role (\<lambda>_. Around (Set_wants eid wants)))"
| "admin_route x (Create_admin_call bytes salt enc draw name email role) = route_of POST ''/admin/admins''
     (zUsername (hx_crypto x) name \<noteq> None \<and> hx_isEmail x email \<and> role \<in> {Moderator_role, Admin_role})
     (Staff_route Admin_role (\<lambda>b. Around (Create_admin (hx_crypto x) bytes salt enc draw (au_userId b)
        (the (zUsername (hx_crypto x) name)) email role)))"
| "admin_route x (Reset_admin_call bytes salt u) = route_of POST ''/admin/admins/:id/reset-password'' True
     (Staff_route Admin_role (\<lambda>b. Around (Reset_admin_password (hx_crypto x) bytes salt (au_userId b) u)))"
| "admin_route x Categories_call = route_of GET ''/admin/categories'' True (Staff_route Admin_role (\<lambda>_. Answer))"
| "admin_route x (Patch_category_call cid patch) = route_of PATCH ''/admin/categories/:id'' (zCategoryPatch patch)
     (Staff_route Admin_role (\<lambda>b. Around (Patch_category (au_userId b) cid patch)))"
| "admin_route x Flags_call = route_of GET ''/admin/flags'' True (Staff_route Admin_role (\<lambda>_. Answer))"
| "admin_route x (Patch_flag_call key enabled) = route_of PATCH ''/admin/flags/:key'' True
     (Staff_route Admin_role (\<lambda>b. Around (Update_flag (au_userId b) key enabled)))"
| "admin_route x Appeals_call = route_of GET ''/admin/appeals'' True (Staff_route Admin_role (\<lambda>_. Answer))"
| "admin_route x (Resolve_appeal_call k overturned reason) = route_of POST ''/admin/appeals/:id/resolve'' (sized 5 1000 reason)
     (Staff_route Admin_role (\<lambda>b. Around (Resolve_appeal (au_userId b) k overturned reason)))"
| "admin_route x Audit_call = route_of GET ''/admin/audit'' True (Staff_route Admin_role (\<lambda>_. Answer))"
| "admin_route x (Shutdown_call reason) = route_of POST ''/admin/emergency-shutdown'' (sized 5 1000 reason)
     (Staff_route Admin_role (\<lambda>b. Around (Emergency_shutdown (au_userId b) reason)))"
| "admin_route x (Appeal_call k body) = route_of POST ''/appeals'' (sized 5 2000 body)
     (Appeal_route (\<lambda>b. Around (Create_appeal (au_userId b) k body)))"
| "admin_route x My_appeals_call = route_of GET ''/appeals/mine'' True (Appeal_route (\<lambda>_. Answer))"

subsection \<open>Serving a call\<close>

datatype http_call =
    Requests request_call | Inventory_routes inventory_call | Availability_routes availability_call | Offers_routes offer_call
  | Matches_routes match_call | Chat_routes chat_call | Safety_routes safety_call | Events_routes event_call
  | Auth_routes auth_call | User_routes user_call | Privacy_routes privacy_call | Admin_routes admin_call

fun route_for :: "http_ext \<Rightarrow> http_call \<Rightarrow> route" where
  "route_for x (Requests c) = request_route c"
| "route_for x (Inventory_routes c) = inventory_route c"
| "route_for x (Availability_routes c) = availability_route c"
| "route_for x (Offers_routes c) = offer_route c"
| "route_for x (Matches_routes c) = match_route c"
| "route_for x (Chat_routes c) = chat_route c"
| "route_for x (Safety_routes c) = safety_route c"
| "route_for x (Events_routes c) = event_route (hx_lower x) c"
| "route_for x (Auth_routes c) = auth_route x c"
| "route_for x (User_routes c) = user_route c"
| "route_for x (Privacy_routes c) = privacy_route (hx_lower x) c"
| "route_for x (Admin_routes c) = admin_route x c"

text \<open>\<open>header?.startsWith('Bearer ') ? header.slice(7) : null\<close>\<close>

definition bearer_token :: "string option \<Rightarrow> string option" where
  "bearer_token header = (case header of None \<Rightarrow> None
     | Some h \<Rightarrow> if take 7 h = ''Bearer '' then Some (drop 7 h) else None)"

definition authenticateAllowSuspended :: "env \<Rightarrow> crypto \<Rightarrow> string option \<Rightarrow> db \<Rightarrow> app_error + bearer" where
  "authenticateAllowSuspended env k token d = (case token of None \<Rightarrow> Inl Unauthorized
     | Some t \<Rightarrow> if t = [] then Inl Unauthorized else or_throw Unauthorized (resolveAuth env k t d))"

text \<open>
  The guards of a route: the database with the session touched, and the work to be done or the refusal.
  The body is parsed by the handler, after the guards.
\<close>

definition parsed :: "bool \<Rightarrow> work \<Rightarrow> work" where
  "parsed ok w = (if ok then w else Refuse (Validation ''body''))"

definition admit :: "env \<Rightarrow> http_ext \<Rightarrow> string option \<Rightarrow> route \<Rightarrow> db \<Rightarrow> db \<times> work" where
  "admit env x header rt d = (case rt_handler rt of
     Public_route w \<Rightarrow> (d, parsed (rt_bodyOk rt) w)
   | Appeal_route f \<Rightarrow> (case authenticateAllowSuspended env (hx_crypto x) (bearer_token header) d of
        Inl e \<Rightarrow> (d, Refuse e) | Inr b \<Rightarrow> (d, parsed (rt_bodyOk rt) (f b)))
   | Signed_in_route f \<Rightarrow> (case authenticate env (hx_crypto x) (bearer_token header) (rt_url rt) d of
        (d1, _, Inl e) \<Rightarrow> (d1, Refuse e) | (d1, _, Inr b) \<Rightarrow> (d1, parsed (rt_bodyOk rt) (f b)))
   | Staff_route role f \<Rightarrow> (case authenticate env (hx_crypto x) (bearer_token header) (rt_url rt) d of
        (d1, _, Inl e) \<Rightarrow> (d1, Refuse e)
      | (d1, _, Inr b) \<Rightarrow> (case requireRole role (Some b) of
           Inl e \<Rightarrow> (d1, Refuse e)
         | Inr _ \<Rightarrow> (d1, (case f b of Refuse e \<Rightarrow> Refuse e | w \<Rightarrow> parsed (rt_bodyOk rt) w)))))"

definition perform :: "env \<Rightarrow> work \<Rightarrow> db \<Rightarrow> db option" where
  "perform env w d = (case w of
     Op op \<Rightarrow> map_option fst (exec_op env op d)
   | Around a \<Rightarrow> Some (exec_around env a d)
   | Refuse _ \<Rightarrow> Some d | Answer \<Rightarrow> Some d)"

definition serve :: "env \<Rightarrow> http_ext \<Rightarrow> string option \<Rightarrow> http_call \<Rightarrow> db \<Rightarrow> db option" where
  "serve env x header call d = (case admit env x header (route_for x call) d of (d1, w) \<Rightarrow> perform env w d1)"

subsection \<open>Whoever calls, the exchange keeps its laws\<close>

lemma authenticate_run: "server_step\<^sup>*\<^sup>* d (fst (authenticate env k t url d))"
  using server_step.around[of d env "Authenticate k t url"] by (simp add: r_into_rtranclp)

lemma admit_run: "server_step\<^sup>*\<^sup>* d (fst (admit env x header rt d))"
  using authenticate_run[of d env "hx_crypto x" "bearer_token header" "rt_url rt"]
  by (auto simp: admit_def split: guarded.split sum.split prod.split)

lemma authenticate_events: "events (fst (authenticate env k t url d)) = events d"
  by (simp add: authenticate_def split: option.split)

lemma admit_events: "events (fst (admit env x header rt d)) = events d"
  using authenticate_events[of env "hx_crypto x" "bearer_token header" "rt_url rt" d]
  by (auto simp: admit_def split: guarded.split sum.split prod.split)

lemma parsed_Op: "parsed ok w = Op op \<longleftrightarrow> ok \<and> w = Op op"
  by (simp add: parsed_def)

definition work_for :: "guarded \<Rightarrow> bearer \<Rightarrow> work" where
  "work_for g b = (case g of Public_route w \<Rightarrow> w | Signed_in_route f \<Rightarrow> f b | Appeal_route f \<Rightarrow> f b | Staff_route r f \<Rightarrow> f b)"

lemma admit_Op:
  assumes "admit env x header rt d = (d1, Op op)"
  shows "rt_bodyOk rt \<and> (\<exists>b. work_for (rt_handler rt) b = Op op)"
  using assms
  by (auto simp: admit_def parsed_Op work_for_def split: guarded.splits sum.splits prod.splits work.splits)

definition new_code :: "http_call \<Rightarrow> db \<Rightarrow> bool" where
  "new_code call d \<longleftrightarrow> (case call of
     Events_routes (Create_event_call allowed invite code input) \<Rightarrow> list_all (\<lambda>e. e_code e \<noteq> code) (events d) | _ \<Rightarrow> True)"

lemma route_op_valid:
  assumes "rt_bodyOk (route_for x call)" "work_for (rt_handler (route_for x call)) b = Op op" "new_code call d"
  shows "op_valid op d"
  using assms by (cases call; rename_tac c; case_tac c)
    (auto simp: work_for_def new_code_def zExpiresInMinutes_def split: if_splits option.splits)

lemma serve_run:
  assumes "serve env x header call d = Some d'" "new_code call d"
  shows "server_step\<^sup>*\<^sup>* d d'"
proof -
  obtain d1 w where a: "admit env x header (route_for x call) d = (d1, w)" by fastforce
  have run: "server_step\<^sup>*\<^sup>* d d1" using admit_run[of d env x header "route_for x call"] by (simp add: a)
  have "server_step\<^sup>*\<^sup>* d1 d'"
  proof (cases w)
    case (Op op)
    then obtain es r where e: "exec_op env op d1 = Some (d', es, r)"
      using assms(1) a by (auto simp: serve_def perform_def)
    have "new_code call d1"
      using assms(2) admit_events[of env x header "route_for x call" d] by (simp add: a new_code_def split: http_call.splits event_call.splits)
    with admit_Op[OF a[unfolded Op]] have "op_valid op d1" using route_op_valid by blast
    from server_step.exchange[OF this e] show ?thesis by (rule r_into_rtranclp)
  next
    case (Around y)
    then show ?thesis using assms(1) a server_step.around[of d1 env y] by (simp add: serve_def perform_def r_into_rtranclp)
  qed (use assms(1) a in \<open>simp_all add: serve_def perform_def\<close>)
  with run show ?thesis by simp
qed

text \<open>A run of the API: any calls by anybody, at any instants.\<close>

inductive http_run :: "http_ext \<Rightarrow> db \<Rightarrow> db \<Rightarrow> bool" for x where
  nothing: "http_run x d d"
| called: "http_run x d d1 \<Longrightarrow> new_code call d1 \<Longrightarrow> serve env x header call d1 = Some d2 \<Longrightarrow> http_run x d d2"

lemma http_run_server: "http_run x d d' \<Longrightarrow> server_step\<^sup>*\<^sup>* d d'"
  by (induction rule: http_run.induct) (auto intro: rtranclp_trans serve_run)

text \<open>
  C8: Nothing that is sent to the API can break the exchange. Every sequence of HTTP calls, with any headers and
  bodies, is a run of the abstract exchange: the routes' schemas establish what the handlers rely on. So from an empty
  exchange only consistent databases are reached.
\<close>

theorem http_refines_the_exchange:
  assumes "http_run x d d'"
  shows "step\<^sup>*\<^sup>* d d' \<and> (initial_db d \<longrightarrow> reachable d' \<and> db_inv d')"
  using server_run[OF http_run_server[OF assms]] server_reachable[OF _ http_run_server[OF assms]] reachable_inv by blast

subsection \<open>Who may do what\<close>

fun op_actor :: "op \<Rightarrow> uid option" where
  "op_actor (Create_request auth input) = Some (au_userId auth)"
| "op_actor (Cancel_request u rid) = Some u"
| "op_actor (Renew_request u rid n) = Some u"
| "op_actor (Continue_request u rid b) = Some u"
| "op_actor (Add_inventory u eid input) = Some u"
| "op_actor (Update_inventory u iid input) = Some u"
| "op_actor (Delete_inventory u iid) = Some u"
| "op_actor (Set_availability auth eid input) = Some (au_userId auth)"
| "op_actor (Put_location u eid c) = Some u"
| "op_actor (Delete_location u eid) = Some u"
| "op_actor (Respond_offer draws u oid a s) = Some u"
| "op_actor (Set_meeting_state u mid st) = Some u"
| "op_actor (Confirm_completion u mid q) = Some u"
| "op_actor (Cancel_match u mid input) = Some u"
| "op_actor (List_messages u cid c n) = Some u"
| "op_actor (Send_message u cid input) = Some u"
| "op_actor (Mark_read u cid) = Some u"
| "op_actor (Create_report allowed u input) = Some u"
| "op_actor (Block_peer u mid) = Some u"
| "op_actor (Create_event lower allowed invite code u input) = Some u"
| "op_actor (Join_event u ref invite) = Some u"
| "op_actor (Leave_event u eid) = Some u"
| "op_actor (Mute_event u eid b) = Some u"
| "op_actor (Answer_attendance next_day u eid b) = Some u"
| "op_actor (Moderate actor input) = Some (ac_userId actor)"
| "op_actor _ = None"

definition needs_staff :: "op \<Rightarrow> bool" where
  "needs_staff op \<longleftrightarrow> (case op of Create_event _ _ _ _ _ _ \<Rightarrow> True | Moderate _ _ \<Rightarrow> True | _ \<Rightarrow> False)"

definition own_work :: "bearer \<Rightarrow> guarded \<Rightarrow> bool" where
  "own_work b g \<longleftrightarrow> (case g of
     Public_route w \<Rightarrow> (\<forall>op. w \<noteq> Op op)
   | Appeal_route f \<Rightarrow> (\<forall>op. f b \<noteq> Op op)
   | Signed_in_route f \<Rightarrow> (\<forall>op. f b = Op op \<longrightarrow> op_actor op = Some (au_userId b) \<and> \<not> needs_staff op)
   | Staff_route r f \<Rightarrow> r \<in> {Moderator_role, Admin_role} \<and> (\<forall>op. f b = Op op \<longrightarrow> op_actor op = Some (au_userId b)))"

lemma all_own_work: "own_work b (rt_handler (route_for x call))"
  by (cases call; rename_tac c; case_tac c; simp add: own_work_def needs_staff_def auth_context.defs)

lemma authenticate_sessions: "\<exists>s. fst (authenticate env k t url d) = d\<lparr>sessions := s\<rparr>"
proof -
  have self: "\<exists>s. d = d\<lparr>sessions := s\<rparr>" by (rule exI[of _ "sessions d"]) simp
  then show ?thesis by (auto simp: authenticate_def split: option.split)
qed

lemma admit_sessions: "\<exists>s. fst (admit env x header rt d) = d\<lparr>sessions := s\<rparr>"
proof -
  have self: "\<exists>s. d = d\<lparr>sessions := s\<rparr>" by (rule exI[of _ "sessions d"]) simp
  show ?thesis
    using self authenticate_sessions[of env "hx_crypto x" "bearer_token header" "rt_url rt" d]
    by (auto simp: admit_def split: guarded.split sum.split prod.split)
qed

lemma outside_sessions: "outside (d\<lparr>sessions := s\<rparr>) d' \<longleftrightarrow> outside d d'"
  by (simp add: outside_def)

text \<open>The routes hand over no job of the workers.\<close>

definition no_job :: "work \<Rightarrow> bool" where
  "no_job w \<longleftrightarrow> (case w of Around a \<Rightarrow> (case a of Data_request _ _ \<Rightarrow> False | _ \<Rightarrow> True) | _ \<Rightarrow> True)"

lemma all_no_job: "no_job (work_for (rt_handler (route_for x call)) b)"
  by (cases call; rename_tac c; case_tac c; simp add: no_job_def work_for_def)

lemma around_is_outside: "no_job (Around a) \<Longrightarrow> outside d (exec_around env a d)"
  by (cases a) (simp_all add: no_job_def around_outside)

lemma admit_work:
  assumes "admit env x header rt d = (d1, w)" "\<And>e. w \<noteq> Refuse e"
  shows "\<exists>b. w = work_for (rt_handler rt) b"
  using assms
  by (auto simp: admit_def parsed_def work_for_def split: guarded.splits sum.splits prod.splits work.splits if_splits) (blast intro: sym)

text \<open>What a handler is run for, when it is an operation of the exchange.\<close>

lemma authenticate_bearer:
  "snd (snd (authenticate env k t url d)) = Inr b \<longleftrightarrow> (\<exists>tok. t = Some tok \<and> tok \<noteq> [] \<and> resolveAuth env k tok d = Some b
     \<and> au_status b \<noteq> User_suspended \<and> \<not> (ba_mustChangePassword b \<and> url \<notin> set PASSWORD_CHANGE_EXEMPT))"
  by (auto simp: authenticate_def split: option.splits if_splits)

lemma requireRole_ok: "requireRole r (Some b) = Inr () \<longleftrightarrow> ba_role b = Admin_role \<or> r = Moderator_role \<and> ba_role b = Moderator_role"
  by (auto simp: requireRole_def Let_def)

lemma admitted_op:
  assumes "admit env x header rt d = (d1, Op op)" "\<And>b. own_work b (rt_handler rt)"
  shows "\<exists>t b. bearer_token header = Some t \<and> resolveAuth env (hx_crypto x) t d = Some b \<and> au_status b \<noteq> User_suspended
     \<and> (ba_mustChangePassword b \<longrightarrow> rt_url rt \<in> set PASSWORD_CHANGE_EXEMPT)
     \<and> op_actor op = Some (au_userId b) \<and> (needs_staff op \<longrightarrow> ba_role b \<in> {Moderator_role, Admin_role})"
proof (cases "rt_handler rt")
  case (Public_route w)
  with assms show ?thesis by (auto simp: admit_def own_work_def parsed_Op)
next
  case (Appeal_route f)
  with assms show ?thesis by (auto simp: admit_def own_work_def parsed_Op split: sum.splits)
next
  case (Signed_in_route f)
  then obtain es b where a: "authenticate env (hx_crypto x) (bearer_token header) (rt_url rt) d = (d1, es, Inr b)" "f b = Op op"
    using assms(1) by (auto simp: admit_def parsed_Op split: sum.splits prod.splits)
  with assms(2)[of b] Signed_in_route authenticate_bearer[of env "hx_crypto x" "bearer_token header" "rt_url rt" d b]
  show ?thesis by (fastforce simp: own_work_def)
next
  case (Staff_route r f)
  then obtain es b where a: "authenticate env (hx_crypto x) (bearer_token header) (rt_url rt) d = (d1, es, Inr b)" "f b = Op op"
    "requireRole r (Some b) = Inr ()"
    using assms(1) by (auto simp: admit_def parsed_Op split: sum.splits prod.splits work.splits)
  with assms(2)[of b] Staff_route authenticate_bearer[of env "hx_crypto x" "bearer_token header" "rt_url rt" d b]
  show ?thesis by (fastforce simp: own_work_def requireRole_ok)
qed


lemma exempt_routes:
  assumes "rt_url (route_for x call) \<in> set PASSWORD_CHANGE_EXEMPT"
  shows "\<exists>allowed salt old new draw patch. call \<in> {Auth_routes (Password_call allowed salt old new),
     Auth_routes Logout_call, User_routes Me_call, User_routes (Update_me_call draw patch)}"
  using assms by (cases call; rename_tac c; case_tac c; simp add: PASSWORD_CHANGE_EXEMPT_def v1_def)

lemma appeal_routes:
  assumes "rt_handler (route_for x call) = Appeal_route f"
  shows "\<exists>k body. call \<in> {Admin_routes (Appeal_call k body), Admin_routes My_appeals_call}"
  using assms by (cases call; rename_tac c; case_tac c; simp)

text \<open>
  C10: Restricted accounts are confined. With the token of a suspended account only public routes and the two appeal routes do
  anything; with that of an account that owes a password change, only these and the exempt ones: changing the
  password, signing out, and reading or changing the profile.
\<close>

theorem restricted_accounts_confined:
  assumes "bearer_token header = Some t" "resolveAuth env (hx_crypto x) t d = Some b"
    and "au_status b = User_suspended \<or> ba_mustChangePassword b"
    and "admit env x header (route_for x call) d = (d1, w)" "\<forall>e. w \<noteq> Refuse e"
  shows "(\<exists>v. rt_handler (route_for x call) = Public_route v) \<or> (\<exists>k body. call \<in> {Admin_routes (Appeal_call k body), Admin_routes My_appeals_call})
     \<or> au_status b \<noteq> User_suspended \<and> (\<exists>allowed salt old new draw patch.
          call \<in> {Auth_routes (Password_call allowed salt old new), Auth_routes Logout_call, User_routes Me_call, User_routes (Update_me_call draw patch)})"
proof -
  have exempt: "au_status b \<noteq> User_suspended \<and> rt_url (route_for x call) \<in> set PASSWORD_CHANGE_EXEMPT"
    if "authenticate env (hx_crypto x) (bearer_token header) (rt_url (route_for x call)) d = (d1, es, Inr c)" for d1 es c
    using that assms(1-3) authenticate_bearer[of env "hx_crypto x" "bearer_token header" "rt_url (route_for x call)" d c] by auto
  show ?thesis
  proof (cases "rt_handler (route_for x call)")
    case (Appeal_route f)
    then have "\<exists>k body. call \<in> {Admin_routes (Appeal_call k body), Admin_routes My_appeals_call}"
      by (rule appeal_routes)
    then show ?thesis by blast
  next
    case (Signed_in_route f)
    then obtain es c d2 where "authenticate env (hx_crypto x) (bearer_token header) (rt_url (route_for x call)) d = (d2, es, Inr c)"
      using assms(4,5) by (auto simp: admit_def split: sum.splits prod.splits)
    from exempt[OF this] exempt_routes show ?thesis by blast
  next
    case (Staff_route r f)
    then obtain es c d2 where "authenticate env (hx_crypto x) (bearer_token header) (rt_url (route_for x call)) d = (d2, es, Inr c)"
      using assms(4,5) by (auto simp: admit_def split: sum.splits prod.splits)
    from exempt[OF this] exempt_routes show ?thesis by blast
  qed blast
qed

end
