(* ===== verification/Gateway.thy ===== *)
theory Gateway
  imports Accounts
begin

text \<open>
  \<open>server/src/realtime/gateway.ts\<close>: the sockets of one API process. A socket is authenticated once, when it
  connects; published frames reach it through the registry of its user. A socket that is being closed stays
  registered until its close event, and what is sent to it meanwhile is dropped.
\<close>

subsection \<open>Sockets and their registry\<close>

record socket =
  so_id :: nat
  so_userId :: "uid option"
  so_isAlive :: bool   \<comment> \<open>undefined counts as alive\<close>
  so_open :: bool

record gateway =
  gw_clients :: "socket list"
  gw_registry :: "uid \<rightharpoonup> nat list"

datatype wire =
    Frame_out nat ws_event payload
  | Pong_out nat
  | Ping_out nat
  | Close_out nat nat     \<comment> \<open>with its close code\<close>
  | Terminate_out nat

record outbound_frame =
  of_userId :: uid
  of_event :: ws_event
  of_data :: payload

definition HEARTBEAT_MS :: int where
  "HEARTBEAT_MS = 30000"

text \<open>The handshake: \<open>None\<close> when another path is asked for, otherwise the user that is connected, if any.\<close>

definition on_upgrade :: "env \<Rightarrow> crypto \<Rightarrow> string \<Rightarrow> string option \<Rightarrow> db \<Rightarrow> uid option option" where
  "on_upgrade env k path token d =
     (if path \<noteq> ''/ws'' then None
      else Some (case token of None \<Rightarrow> None
        | Some t \<Rightarrow> if t = [] then None else map_option au_userId (resolveAuth env k t d)))"

definition on_connection :: "nat \<Rightarrow> uid option \<Rightarrow> gateway \<Rightarrow> gateway \<times> wire list" where
  "on_connection s user gw = (case user of
     None \<Rightarrow> (gw\<lparr>gw_clients := gw_clients gw @ [\<lparr>so_id = s, so_userId = None, so_isAlive = True, so_open = False\<rparr>]\<rparr>,
              [Close_out s 4401])
   | Some u \<Rightarrow>
       (let sockets = (case gw_registry gw u of None \<Rightarrow> [] | Some l \<Rightarrow> l)
        in (gw\<lparr>gw_clients := gw_clients gw @ [\<lparr>so_id = s, so_userId = Some u, so_isAlive = True, so_open = True\<rparr>],
               gw_registry := (gw_registry gw)(u \<mapsto> sockets @ [s])\<rparr>, [])))"

definition upd_socket :: "nat \<Rightarrow> (socket \<Rightarrow> socket) \<Rightarrow> gateway \<Rightarrow> gateway" where
  "upd_socket s f gw = gw\<lparr>gw_clients := map (\<lambda>c. if so_id c = s then f c else c) (gw_clients gw)\<rparr>"

definition on_pong :: "nat \<Rightarrow> gateway \<Rightarrow> gateway" where
  "on_pong s gw = upd_socket s (\<lambda>c. c\<lparr>so_isAlive := True\<rparr>) gw"

definition on_message :: "nat \<Rightarrow> string option \<Rightarrow> wire list" where
  "on_message s type = (if type = Some ''ping'' then [Pong_out s] else [])"

definition on_close :: "nat \<Rightarrow> uid option \<Rightarrow> gateway \<Rightarrow> gateway" where
  "on_close s user gw =
     (let gw1 = gw\<lparr>gw_clients := filter (\<lambda>c. so_id c \<noteq> s) (gw_clients gw)\<rparr>
      in case user of None \<Rightarrow> gw1
       | Some u \<Rightarrow> (case gw_registry gw u of None \<Rightarrow> gw1
           | Some l \<Rightarrow> (let l' = filter (\<lambda>x. x \<noteq> s) l
                       in gw1\<lparr>gw_registry := (gw_registry gw)(u := if l' = [] then None else Some l')\<rparr>)))"

definition heartbeat_socket :: "socket \<Rightarrow> socket \<times> wire list" where
  "heartbeat_socket c =
     (if \<not> so_isAlive c then (c\<lparr>so_open := False\<rparr>, [Terminate_out (so_id c)])
      else (c\<lparr>so_isAlive := False\<rparr>, [Ping_out (so_id c)]))"

definition heartbeat :: "gateway \<Rightarrow> gateway \<times> wire list" where
  "heartbeat gw = (gw\<lparr>gw_clients := map (\<lambda>c. fst (heartbeat_socket c)) (gw_clients gw)\<rparr>,
     concat (map (\<lambda>c. snd (heartbeat_socket c)) (gw_clients gw)))"

text \<open>A published frame: every registered socket of the user gets it; a revoked session closes them all.\<close>

definition is_open :: "gateway \<Rightarrow> nat \<Rightarrow> bool" where
  "is_open gw s \<longleftrightarrow> list_ex (\<lambda>c. so_id c = s \<and> so_open c) (gw_clients gw)"

definition on_frame :: "outbound_frame \<Rightarrow> gateway \<Rightarrow> gateway \<times> wire list" where
  "on_frame fr gw = (case gw_registry gw (of_userId fr) of None \<Rightarrow> (gw, [])
     | Some sockets \<Rightarrow>
        ((if of_event fr = Session_revoked
          then gw\<lparr>gw_clients := map (\<lambda>c. if so_id c \<in> set sockets then c\<lparr>so_open := False\<rparr> else c) (gw_clients gw)\<rparr>
          else gw),
         concat (map (\<lambda>s. (if is_open gw s then [Frame_out s (of_event fr) (of_data fr)] else [])
           @ (if of_event fr = Session_revoked then [Close_out s 4403] else [])) sockets)))"

text \<open>The frames among the effects of a handler, in their order.\<close>

definition frames_of :: "effect list \<Rightarrow> outbound_frame list" where
  "frames_of es = List.map_filter (\<lambda>e. case e of
     Publish u ev p \<Rightarrow> Some \<lparr>of_userId = u, of_event = ev, of_data = p\<rparr> | _ \<Rightarrow> None) es"

fun on_frames :: "outbound_frame list \<Rightarrow> gateway \<Rightarrow> gateway \<times> wire list" where
  "on_frames [] gw = (gw, [])"
| "on_frames (fr # frs) gw = (case on_frame fr gw of (gw1, out) \<Rightarrow>
     (case on_frames frs gw1 of (gw2, out') \<Rightarrow> (gw2, out @ out')))"

datatype gateway_event = Connected nat | Ponged nat | Closed nat | Beat | Published outbound_frame

inductive gateway_step :: "gateway \<Rightarrow> gateway_event \<Rightarrow> gateway \<Rightarrow> bool" where
  connects: "s \<notin> so_id ` set (gw_clients gw) \<Longrightarrow> on_upgrade env k path token d = Some user \<Longrightarrow>
     gateway_step gw (Connected s) (fst (on_connection s user gw))"
| pongs: "gateway_step gw (Ponged s) (on_pong s gw)"
| closes: "c \<in> set (gw_clients gw) \<Longrightarrow> gateway_step gw (Closed (so_id c)) (on_close (so_id c) (so_userId c) gw)"
| beats: "gateway_step gw Beat (fst (heartbeat gw))"
| publishes: "gateway_step gw (Published fr) (fst (on_frame fr gw))"

definition empty_gateway :: gateway where
  "empty_gateway = \<lparr>gw_clients = [], gw_registry = Map.empty\<rparr>"

definition gateway_reachable :: "gateway \<Rightarrow> bool" where
  "gateway_reachable gw \<longleftrightarrow> (\<lambda>a b. \<exists>l. gateway_step a l b)\<^sup>*\<^sup>* empty_gateway gw"

subsection \<open>The registry mirrors the sockets\<close>

definition registered :: "gateway \<Rightarrow> uid \<Rightarrow> nat list" where
  "registered gw u = (case gw_registry gw u of None \<Rightarrow> [] | Some l \<Rightarrow> l)"

definition sockets_of :: "gateway \<Rightarrow> uid \<Rightarrow> nat list" where
  "sockets_of gw u = map so_id (filter (\<lambda>c. so_userId c = Some u) (gw_clients gw))"

definition mirrors :: "gateway \<Rightarrow> bool" where
  "mirrors gw \<longleftrightarrow> distinct (map so_id (gw_clients gw))
     \<and> (\<forall>u. registered gw u = sockets_of gw u) \<and> (\<forall>u. gw_registry gw u \<noteq> Some [])
     \<and> (\<forall>c \<in> set (gw_clients gw). so_userId c = None \<longrightarrow> \<not> so_open c)"

lemma sockets_of_map:
  assumes "\<And>c. c \<in> set (gw_clients gw) \<Longrightarrow> so_id (f c) = so_id c \<and> so_userId (f c) = so_userId c"
  shows "sockets_of (gw\<lparr>gw_clients := map f (gw_clients gw)\<rparr>) u = sockets_of gw u"
  using assms unfolding sockets_of_def by (auto simp: filter_map o_def intro!: map_cong filter_cong)

lemma mirrors_map:
  assumes "mirrors gw" "\<And>c. so_id (f c) = so_id c \<and> so_userId (f c) = so_userId c \<and> (so_open (f c) \<longrightarrow> so_open c)"
  shows "mirrors (gw\<lparr>gw_clients := map f (gw_clients gw)\<rparr>)"
  using assms by (auto simp: mirrors_def registered_def sockets_of_map o_def)

lemma heartbeat_socket_fields:
  "so_id (fst (heartbeat_socket c)) = so_id c" "so_userId (fst (heartbeat_socket c)) = so_userId c"
  "so_open (fst (heartbeat_socket c)) \<longleftrightarrow> so_open c \<and> so_isAlive c"
  by (simp_all add: heartbeat_socket_def)

lemma distinct_ids_unique:
  assumes "distinct (map so_id cs)" "c \<in> set cs" "c' \<in> set cs" "so_id c = so_id c'"
  shows "c = c'"
  using assms by (meson distinct_key_inj)

lemma sockets_of_close:
  assumes "distinct (map so_id (gw_clients gw))" "c \<in> set (gw_clients gw)"
  shows "sockets_of (gw\<lparr>gw_clients := filter (\<lambda>x. so_id x \<noteq> so_id c) (gw_clients gw)\<rparr>) u
    = (if so_userId c = Some u then filter (\<lambda>x. x \<noteq> so_id c) (sockets_of gw u) else sockets_of gw u)"
proof -
  have eq: "sockets_of (gw\<lparr>gw_clients := filter (\<lambda>x. so_id x \<noteq> so_id c) (gw_clients gw)\<rparr>) u
      = filter (\<lambda>x. x \<noteq> so_id c) (sockets_of gw u)"
    by (simp add: sockets_of_def filter_map o_def conj_commute)
  have "so_id c \<notin> set (sockets_of gw u)" if "so_userId c \<noteq> Some u"
    using that distinct_ids_unique[OF assms(1,2)] by (auto simp: sockets_of_def)
  then show ?thesis unfolding eq by (auto simp: filter_id_conv)
qed

lemma on_close_registered:
  assumes "\<forall>u. gw_registry gw u \<noteq> Some []"
  shows "registered (on_close s user gw) u = (if user = Some u then filter (\<lambda>x. x \<noteq> s) (registered gw u) else registered gw u)"
    and "gw_registry (on_close s user gw) u \<noteq> Some []"
  using assms by (auto simp: on_close_def registered_def Let_def split: option.splits)

lemma on_close_clients: "gw_clients (on_close s user gw) = filter (\<lambda>c. so_id c \<noteq> s) (gw_clients gw)"
  by (simp add: on_close_def Let_def split: option.splits)

lemma sockets_of_clients: "gw_clients gw = gw_clients gw' \<Longrightarrow> sockets_of gw u = sockets_of gw' u"
  by (simp add: sockets_of_def)

lemma mirrors_step: "gateway_step gw l gw' \<Longrightarrow> mirrors gw \<Longrightarrow> mirrors gw'"
proof (induction rule: gateway_step.induct)
  case (connects s gw env k path token d user)
  then show ?case
    by (cases user) (auto simp: on_connection_def mirrors_def registered_def sockets_of_def Let_def split: option.splits)
next
  case (pongs gw s)
  then show ?case unfolding on_pong_def upd_socket_def by (rule mirrors_map) simp
next
  case (closes c gw)
  let ?gw = "on_close (so_id c) (so_userId c) gw"
  from closes.prems have m: "distinct (map so_id (gw_clients gw))" "\<And>u. registered gw u = sockets_of gw u"
    "\<forall>u. gw_registry gw u \<noteq> Some []" "\<forall>c \<in> set (gw_clients gw). so_userId c = None \<longrightarrow> \<not> so_open c" by (simp_all add: mirrors_def)
  have "registered ?gw u = sockets_of ?gw u" for u
  proof -
    have "sockets_of ?gw u = sockets_of (gw\<lparr>gw_clients := filter (\<lambda>x. so_id x \<noteq> so_id c) (gw_clients gw)\<rparr>) u"
      by (rule sockets_of_clients) (simp add: on_close_clients)
    then show ?thesis
      by (simp only: on_close_registered(1)[OF m(3)] sockets_of_close[OF m(1) closes.hyps] m(2))
  qed
  with on_close_registered(2)[OF m(3)] m(1,4) show ?case
    by (simp add: mirrors_def on_close_clients distinct_map_filter)
next
  case (beats gw)
  then show ?case unfolding heartbeat_def fst_conv by (rule mirrors_map) (simp add: heartbeat_socket_fields)
next
  case (publishes gw fr)
  then show ?case
    by (auto simp: on_frame_def split: option.split if_splits intro!: mirrors_map)
qed

lemma reachable_mirrors: "gateway_reachable gw \<Longrightarrow> mirrors gw"
  unfolding gateway_reachable_def
  by (induction rule: rtranclp_induct)
     (auto simp: mirrors_def empty_gateway_def registered_def sockets_of_def dest: mirrors_step[unfolded mirrors_def])

definition reaches :: "outbound_frame \<Rightarrow> socket \<Rightarrow> bool" where
  "reaches fr c \<longleftrightarrow> so_userId c = Some (of_userId fr) \<and> so_open c"

lemma frames_delivered:
  assumes "gateway_reachable gw"
  shows "filter (\<lambda>w. case w of Frame_out _ _ _ \<Rightarrow> True | _ \<Rightarrow> False) (snd (on_frame fr gw))
      = map (\<lambda>c. Frame_out (so_id c) (of_event fr) (of_data fr)) (filter (reaches fr) (gw_clients gw))
    \<and> (of_event fr = Session_revoked \<longrightarrow> filter (reaches fr) (gw_clients (fst (on_frame fr gw))) = [])
    \<and> filter (\<lambda>c. so_userId c \<noteq> Some (of_userId fr)) (gw_clients (fst (on_frame fr gw)))
      = filter (\<lambda>c. so_userId c \<noteq> Some (of_userId fr)) (gw_clients gw)"
proof -
  let ?u = "of_userId fr" and ?cs = "gw_clients gw"
  have m: "distinct (map so_id ?cs)" "registered gw ?u = sockets_of gw ?u" using reachable_mirrors[OF assms(1)] by (simp_all add: mirrors_def)
  have op: "is_open gw (so_id c) \<longleftrightarrow> so_open c" if "c \<in> set ?cs" for c
    using that distinct_ids_unique[OF m(1)] by (auto simp: is_open_def list_ex_iff)
  let ?frames = "filter (\<lambda>w. case w of Frame_out _ _ _ \<Rightarrow> True | _ \<Rightarrow> False)"
  let ?out = "\<lambda>s. (if is_open gw s then [Frame_out s (of_event fr) (of_data fr)] else [])
           @ (if of_event fr = Session_revoked then [Close_out s 4403] else [])"
  have out: "snd (on_frame fr gw) = concat (map ?out (sockets_of gw ?u))"
    using m(2) by (auto simp: on_frame_def registered_def split: option.splits)
  have "?frames (concat (map ?out (map so_id (filter (\<lambda>c. so_userId c = Some ?u) cs))))
      = map (\<lambda>c. Frame_out (so_id c) (of_event fr) (of_data fr)) (filter (reaches fr) cs)" if "set cs \<subseteq> set ?cs" for cs
    using that by (induction cs) (auto simp: op reaches_def)
  then have 1: "?frames (snd (on_frame fr gw)) = map (\<lambda>c. Frame_out (so_id c) (of_event fr) (of_data fr)) (filter (reaches fr) ?cs)"
    unfolding out sockets_of_def by blast
  let ?f = "\<lambda>c. if of_event fr = Session_revoked \<and> so_id c \<in> set (sockets_of gw ?u) then c\<lparr>so_open := False\<rparr> else c"
  have cl: "gw_clients (fst (on_frame fr gw)) = map ?f ?cs"
    using m(2) by (auto simp: on_frame_def registered_def split: option.splits)
  have hit: "so_id c \<in> set (sockets_of gw ?u) \<longleftrightarrow> so_userId c = Some ?u" if "c \<in> set ?cs" for c
    using that distinct_ids_unique[OF m(1)] by (auto simp: sockets_of_def)
  have 2: "of_event fr = Session_revoked \<longrightarrow> filter (reaches fr) (map ?f ?cs) = []"
    using hit by (auto simp: filter_empty_conv reaches_def)
  have "filter (\<lambda>c. so_userId c \<noteq> Some ?u) (map ?f cs) = filter (\<lambda>c. so_userId c \<noteq> Some ?u) cs" if "set cs \<subseteq> set ?cs" for cs
    using that by (induction cs) (auto simp: hit)
  with 1 2 show ?thesis unfolding cl by simp
qed

lemma frames_written:
  "gateway_reachable gw \<Longrightarrow> filter (\<lambda>w. case w of Frame_out _ _ _ \<Rightarrow> True | _ \<Rightarrow> False) (snd (on_frame fr gw))
     = map (\<lambda>c. Frame_out (so_id c) (of_event fr) (of_data fr)) (filter (reaches fr) (gw_clients gw))"
  using frames_delivered by blast

text \<open>
  C22: Frames go to their user and to nobody else. In every reachable state of the gateway a published frame is
  written, once each, to exactly the open sockets that were authenticated as its user when they connected; when it says
  that a session was revoked, none of them is open afterwards and all other sockets are as before.
\<close>

theorem frames_reach_their_user:
  assumes "gateway_reachable gw"
  shows "filter (\<lambda>w. case w of Frame_out _ _ _ \<Rightarrow> True | _ \<Rightarrow> False) (snd (on_frame fr gw))
      = map (\<lambda>c. Frame_out (so_id c) (of_event fr) (of_data fr)) (filter (reaches fr) (gw_clients gw))
    \<and> (of_event fr = Session_revoked \<longrightarrow> filter (reaches fr) (gw_clients (fst (on_frame fr gw))) = [])
    \<and> filter (\<lambda>c. so_userId c \<noteq> Some (of_userId fr)) (gw_clients (fst (on_frame fr gw)))
      = filter (\<lambda>c. so_userId c \<noteq> Some (of_userId fr)) (gw_clients gw)"
  using frames_delivered[OF assms] .

subsection \<open>Silent sockets\<close>

definition silent_step :: "nat \<Rightarrow> gateway \<Rightarrow> gateway \<Rightarrow> bool" where
  "silent_step s gw gw' \<longleftrightarrow> (\<exists>l. l \<notin> {Ponged s, Connected s} \<and> gateway_step gw l gw')"

lemma on_connection_clients:
  "gw_clients (fst (on_connection s user gw))
     = gw_clients gw @ [\<lparr>so_id = s, so_userId = user, so_isAlive = True, so_open = user \<noteq> None\<rparr>]"
  by (cases user) (simp_all add: on_connection_def Let_def)

lemma still_silent:
  assumes "gateway_step gw l gw'" "l \<notin> {Ponged s, Connected s}" "\<forall>c \<in> set (gw_clients gw). so_id c = s \<longrightarrow> \<not> so_isAlive c"
  shows "\<forall>c \<in> set (gw_clients gw'). so_id c = s \<longrightarrow> \<not> so_isAlive c"
  using assms
  by (induction rule: gateway_step.induct)
     (auto simp: on_connection_clients on_pong_def upd_socket_def on_close_clients heartbeat_def heartbeat_socket_def on_frame_def
        split: option.splits if_splits)

lemma silent_stays:
  assumes "(silent_step s)\<^sup>*\<^sup>* gw gw'" "\<forall>c \<in> set (gw_clients gw). so_id c = s \<longrightarrow> \<not> so_isAlive c"
  shows "\<forall>c \<in> set (gw_clients gw'). so_id c = s \<longrightarrow> \<not> so_isAlive c"
  using assms by (induction rule: rtranclp_induct) (auto simp: silent_step_def dest: still_silent)

text \<open>
  A socket whose peer is gone is cut off. Whatever else happens, a socket that does not answer the ping of
  one heartbeat is closed by the next, one that answered it is not.
\<close>

theorem silent_socket_cut_off:
  assumes "(silent_step s)\<^sup>*\<^sup>* (fst (heartbeat gw)) gw'"
  shows "(\<forall>c \<in> set (gw_clients (fst (heartbeat gw'))). so_id c = s \<longrightarrow> \<not> so_open c)
     \<and> map (\<lambda>c. (so_id c, so_open c)) (filter (\<lambda>c. so_id c = s) (gw_clients (fst (heartbeat (on_pong s gw')))))
       = map (\<lambda>c. (so_id c, so_open c)) (filter (\<lambda>c. so_id c = s) (gw_clients gw'))"
proof -
  have "\<forall>c \<in> set (gw_clients (fst (heartbeat gw))). so_id c = s \<longrightarrow> \<not> so_isAlive c"
    by (auto simp: heartbeat_def heartbeat_socket_def)
  from silent_stays[OF assms this] have "\<forall>c \<in> set (gw_clients (fst (heartbeat gw'))). so_id c = s \<longrightarrow> \<not> so_open c"
    by (auto simp: heartbeat_def heartbeat_socket_fields)
  moreover have "map (\<lambda>c. (so_id c, so_open c)) (filter (\<lambda>c. so_id c = s)
      (map (\<lambda>c. fst (heartbeat_socket c)) (map (\<lambda>c. if so_id c = s then c\<lparr>so_isAlive := True\<rparr> else c) cs)))
    = map (\<lambda>c. (so_id c, so_open c)) (filter (\<lambda>c. so_id c = s) cs)" for cs
    by (induction cs) (auto simp: heartbeat_socket_def)
  ultimately show ?thesis by (simp add: heartbeat_def on_pong_def upd_socket_def)
qed

end
