(* ===== verification/Realtime_Clients.thy ===== *)
theory Realtime_Clients
  imports Gateway Account_Outcomes "HOL-Library.Sublist"
begin

text \<open>
  The realtime clients: \<open>apps/mobile/src/realtime.ts\<close> with the dispatch of \<open>live.tsx\<close>, and
  \<open>apps/web/src/realtime/useWs.ts\<close>. Frames are hints: a client invalidates cached queries and reconnects
  with a growing delay. The browser's socket and timers are inputs of the model.
\<close>

subsection \<open>The mobile client\<close>

datatype sock = Connecting | Opened

record link =
  ln_closed :: bool
  ln_attempts :: nat
  ln_timer :: "nat option"      \<comment> \<open>the delay of the pending reconnect\<close>
  ln_socket :: "sock option"
  ln_pinging :: bool
  ln_everConnected :: bool

datatype action =
    Open_socket | Close_socket | Start_timer nat | Clear_timer
  | On_frame ws_event payload | On_reconnect | On_session_revoked

definition cleanupSocket :: "link \<Rightarrow> link \<times> action list" where
  "cleanupSocket l = (l\<lparr>ln_pinging := False, ln_socket := None\<rparr>,
     if ln_socket l = None then [] else [Close_socket])"

definition reconnect_delay :: "nat \<Rightarrow> nat" where
  "reconnect_delay attempts = min 30000 (1000 * 2 ^ min attempts 5)"

definition scheduleReconnect :: "link \<Rightarrow> link \<times> action list" where
  "scheduleReconnect l =
     (if ln_closed l \<or> ln_timer l \<noteq> None then (l, [])
      else (let delay = reconnect_delay (ln_attempts l)
            in (l\<lparr>ln_attempts := ln_attempts l + 1, ln_timer := Some delay\<rparr>, [Start_timer delay])))"

text \<open>\<open>ok\<close>: the constructor of the socket does not throw.\<close>

definition connect :: "bool \<Rightarrow> link \<Rightarrow> link \<times> action list" where
  "connect ok l =
     (if ln_closed l then (l, [])
      else (case cleanupSocket l of (l1, out) \<Rightarrow>
        if ok then (l1\<lparr>ln_socket := Some Connecting\<rparr>, out @ [Open_socket])
        else (case scheduleReconnect l1 of (l2, out') \<Rightarrow> (l2, out @ out'))))"

datatype input =
    Timer_fires bool
  | Socket_opens
  | Socket_message "(ws_event \<times> payload) option"   \<comment> \<open>\<open>None\<close>: a malformed frame\<close>
  | Socket_closes nat
  | Foreground bool
  | Unmount

definition on_open :: "link \<Rightarrow> link \<times> action list" where
  "on_open l = (l\<lparr>ln_attempts := 0, ln_everConnected := True, ln_socket := Some Opened, ln_pinging := True\<rparr>,
     if ln_everConnected l then [On_reconnect] else [])"

definition on_socket_message :: "(ws_event \<times> payload) option \<Rightarrow> link \<Rightarrow> link \<times> action list" where
  "on_socket_message m l = (case m of None \<Rightarrow> (l, [])
     | Some (ev, p) \<Rightarrow>
        if ev = Session_revoked
        then (case cleanupSocket (l\<lparr>ln_closed := True\<rparr>) of (l1, out) \<Rightarrow> (l1, out @ [On_session_revoked]))
        else (l, [On_frame ev p]))"

definition on_socket_close :: "nat \<Rightarrow> link \<Rightarrow> link \<times> action list" where
  "on_socket_close code l = (case cleanupSocket l of (l1, out) \<Rightarrow>
     if code = 4401 \<or> code = 4403 then (l1\<lparr>ln_closed := True\<rparr>, out @ [On_session_revoked])
     else (case scheduleReconnect l1 of (l2, out') \<Rightarrow> (l2, out @ out')))"

definition unmount :: "link \<Rightarrow> link \<times> action list" where
  "unmount l = (case cleanupSocket (l\<lparr>ln_closed := True, ln_timer := None\<rparr>) of (l1, out) \<Rightarrow>
     (l1, (if ln_timer l = None then [] else [Clear_timer]) @ out))"

text \<open>An input that cannot occur in a state (a timer that is not set, a socket without handlers) does nothing.\<close>

fun link_event :: "input \<Rightarrow> link \<Rightarrow> link \<times> action list" where
  "link_event (Timer_fires ok) l = (if ln_timer l = None then (l, []) else connect ok (l\<lparr>ln_timer := None\<rparr>))"
| "link_event Socket_opens l = (if ln_socket l = Some Connecting then on_open l else (l, []))"
| "link_event (Socket_message m) l = (if ln_socket l = Some Opened then on_socket_message m l else (l, []))"
| "link_event (Socket_closes code) l = (if ln_socket l = None then (l, []) else on_socket_close code l)"
| "link_event (Foreground ok) l =
     (if \<not> ln_closed l \<and> ln_socket l = None then connect ok (l\<lparr>ln_attempts := 0\<rparr>) else (l, []))"
| "link_event Unmount l = unmount l"

definition new_link :: link where
  "new_link = \<lparr>ln_closed = False, ln_attempts = 0, ln_timer = None, ln_socket = None, ln_pinging = False,
     ln_everConnected = False\<rparr>"

definition mount :: "bool \<Rightarrow> link" where
  "mount ok = fst (connect ok new_link)"

fun link_run :: "input list \<Rightarrow> link \<Rightarrow> link \<times> action list" where
  "link_run [] l = (l, [])"
| "link_run (i # is) l = (case link_event i l of (l1, out) \<Rightarrow> (case link_run is l1 of (l2, out') \<Rightarrow> (l2, out @ out')))"

subsection \<open>The web client\<close>

record web_link =
  wl_closed :: bool
  wl_backoff :: nat
  wl_timer :: "nat option"
  wl_socket :: "sock option"
  wl_connected :: bool
  wl_hadConnection :: bool

definition web_schedule :: "web_link \<Rightarrow> web_link" where
  "web_schedule l = (if wl_closed l then l
     else l\<lparr>wl_timer := Some (wl_backoff l), wl_backoff := min (wl_backoff l * 2) 30000\<rparr>)"

definition web_connect :: "bool \<Rightarrow> web_link \<Rightarrow> web_link" where
  "web_connect ok l = (if wl_closed l then l
     else if ok then l\<lparr>wl_socket := Some Connecting\<rparr> else web_schedule l)"

datatype web_action = Invalidate "string list" | Redirect_to_auth

definition RECONNECT_INVALIDATE :: "string list list" where
  "RECONNECT_INVALIDATE = [[''offers''], [''matches''], [''requests''], [''notifications''], [''conversation'']]"

definition web_open :: "web_link \<Rightarrow> web_link \<times> web_action list" where
  "web_open l = (l\<lparr>wl_connected := True, wl_backoff := 1000, wl_hadConnection := True, wl_socket := Some Opened\<rparr>,
     if wl_hadConnection l then map Invalidate RECONNECT_INVALIDATE else [])"

text \<open>The cached queries that a frame invalidates; \<open>conv\<close> is the conversation of a new message.\<close>

fun web_invalidates :: "ws_event \<Rightarrow> string option \<Rightarrow> string list list" where
  "web_invalidates Offer_new conv = [[''offers'']]"
| "web_invalidates Offer_expired conv = [[''offers'']]"
| "web_invalidates Message_new conv =
     (case conv of Some c \<Rightarrow> [[''conversation'', c, ''messages'']] | None \<Rightarrow> [[''conversation'']])"
| "web_invalidates Conversation_update conv = [[''conversation'']]"
| "web_invalidates Match_update conv = [[''matches''], [''match'']]"
| "web_invalidates Request_update conv = [[''requests''], [''request'']]"
| "web_invalidates Inventory_update conv = [[''inventory'']]"
| "web_invalidates Event_update conv = [[''event''], [''events''], [''dashboard'']]"
| "web_invalidates Notification_new conv = [[''notifications'']]"
| "web_invalidates Session_revoked conv = []"

definition web_message :: "(ws_event \<times> string option) option \<Rightarrow> web_link \<Rightarrow> web_link \<times> web_action list" where
  "web_message m l = (case m of None \<Rightarrow> (l, [])
     | Some (ev, conv) \<Rightarrow> if ev = Session_revoked then (l\<lparr>wl_closed := True\<rparr>, [Redirect_to_auth])
         else (l, map Invalidate (web_invalidates ev conv)))"

definition web_close :: "nat \<Rightarrow> web_link \<Rightarrow> web_link \<times> web_action list" where
  "web_close code l = (let l1 = l\<lparr>wl_connected := False, wl_socket := None\<rparr> in
     if wl_closed l1 then (l1, [])
     else if code = 4401 \<or> code = 4403 then (l1, [Redirect_to_auth])
     else (web_schedule l1, []))"

definition web_unmount :: "web_link \<Rightarrow> web_link" where
  "web_unmount l = l\<lparr>wl_closed := True, wl_timer := None, wl_socket := None, wl_connected := False\<rparr>"

subsection \<open>What the app does with a frame\<close>

fun live_invalidates :: "ws_event \<Rightarrow> string list list" where
  "live_invalidates Offer_new = [[''offers'', ''pending'']]"
| "live_invalidates Offer_expired = [[''offers'', ''pending'']]"
| "live_invalidates Request_update = [[''requests''], [''request'']]"
| "live_invalidates Match_update = [[''matches'', ''active''], [''match''], [''inventory'']]"
| "live_invalidates Message_new = [[''messages''], [''conversation'']]"
| "live_invalidates Conversation_update = [[''messages''], [''conversation'']]"
| "live_invalidates Event_update = [[''event''], [''dashboard'']]"
| "live_invalidates Inventory_update = [[''inventory'']]"
| "live_invalidates Notification_new = [[''notifications'']]"
| "live_invalidates Session_revoked = []"

definition invalidate_live :: "string list list" where
  "invalidate_live = [[''requests''], [''request''], [''offers'', ''pending''], [''matches'', ''active''], [''match''],
     [''messages''], [''inventory''], [''dashboard''], [''notifications'']]"

text \<open>A query is refetched when an invalidated key is a prefix of its key.\<close>

definition hits :: "string list list \<Rightarrow> string list \<Rightarrow> bool" where
  "hits ks q \<longleftrightarrow> list_ex (\<lambda>k. prefix k q) ks"

text \<open>The offer modal: the first open offer that was not shown yet.\<close>

definition surface_offer :: "instant \<Rightarrow> offer_view list \<Rightarrow> uid set \<Rightarrow> uid option" where
  "surface_offer t items seen = map_option ov_id (find (\<lambda>o'. ov_status o' = Offered \<and> t < ov_respondBy o' \<and> ov_id o' \<notin> seen) items)"

subsection \<open>The connection comes back\<close>

definition link_ok :: "link \<Rightarrow> bool" where
  "link_ok l \<longleftrightarrow> (ln_pinging l \<longleftrightarrow> ln_socket l = Some Opened) \<and> (ln_closed l \<longrightarrow> ln_socket l = None)
     \<and> (\<not> ln_closed l \<longrightarrow> ln_socket l \<noteq> None \<or> ln_timer l \<noteq> None)
     \<and> (\<forall>t. ln_timer l = Some t \<longrightarrow> 1000 \<le> t \<and> t \<le> 30000)"

lemma reconnect_delay_bounds: "1000 \<le> reconnect_delay n" "reconnect_delay n \<le> 30000"
  by (simp_all add: reconnect_delay_def)

lemmas link_defs = cleanupSocket_def scheduleReconnect_def connect_def on_open_def on_socket_message_def
  on_socket_close_def unmount_def

lemma link_event_ok: "link_ok l \<Longrightarrow> link_ok (fst (link_event i l))"
  using reconnect_delay_bounds
  by (cases i) (auto simp: link_ok_def link_defs Let_def split: option.split prod.split)

lemma link_run_Cons [simp]:
  "fst (link_run (i # is) l) = fst (link_run is (fst (link_event i l)))"
  "snd (link_run (i # is) l) = snd (link_event i l) @ snd (link_run is (fst (link_event i l)))"
  by (simp_all split: prod.split)

declare link_run.simps(2) [simp del]

lemma link_run_ok: "link_ok l \<Longrightarrow> link_ok (fst (link_run is l))"
  by (induction "is" arbitrary: l) (simp_all add: link_event_ok)

lemma mount_ok: "link_ok (mount ok)"
  using reconnect_delay_bounds by (simp add: link_ok_def mount_def connect_def cleanupSocket_def scheduleReconnect_def new_link_def Let_def)

definition starts :: "action \<Rightarrow> bool" where
  "starts a \<longleftrightarrow> (case a of Open_socket \<Rightarrow> True | Start_timer _ \<Rightarrow> True | On_frame _ _ \<Rightarrow> True | _ \<Rightarrow> False)"

lemma closed_event:
  "link_ok l \<Longrightarrow> ln_closed l \<Longrightarrow> ln_closed (fst (link_event i l)) \<and> list_all (\<lambda>a. \<not> starts a) (snd (link_event i l))"
  by (cases i) (auto simp: link_ok_def link_defs starts_def Let_def split: option.split prod.split)

lemma closed_run:
  "link_ok l \<Longrightarrow> ln_closed l \<Longrightarrow> ln_closed (fst (link_run is l)) \<and> list_all (\<lambda>a. \<not> starts a) (snd (link_run is l))"
proof (induction "is" arbitrary: l)
  case (Cons i "is")
  from Cons.IH[OF link_event_ok[OF Cons.prems(1)]] closed_event[OF Cons.prems, of i]
  show ?case by simp
qed simp

lemma closing_events:
  "link_ok l \<Longrightarrow> \<not> ln_closed l \<Longrightarrow> ln_closed (fst (link_event i l)) \<Longrightarrow>
     i = Unmount \<or> On_session_revoked \<in> set (snd (link_event i l))"
  by (cases i) (auto simp: link_defs link_ok_def Let_def split: option.splits prod.splits if_splits)

lemma closed_why:
  "link_ok l \<Longrightarrow> \<not> ln_closed l \<Longrightarrow> ln_closed (fst (link_run is l)) \<Longrightarrow>
     Unmount \<in> set is \<or> On_session_revoked \<in> set (snd (link_run is l))"
proof (induction "is" arbitrary: l)
  case (Cons i "is")
  show ?case
  proof (cases "ln_closed (fst (link_event i l))")
    case True
    from closing_events[OF Cons.prems(1,2) True] show ?thesis by auto
  next
    case False
    from Cons.IH[OF link_event_ok[OF Cons.prems(1)] False] Cons.prems(3) show ?thesis by auto
  qed
qed simp

text \<open>
  The mobile client always comes back, until its session ends. After any sequence of events it has a
  socket or a reconnect is due within 30 seconds, unless the component was unmounted or the app was told
  that the session is revoked; from then on it opens nothing, schedules nothing and delivers no frame.
\<close>

theorem client_reconnects_until_revoked:
  "case link_run is (mount ok) of (l, out) \<Rightarrow>
     (ln_socket l \<noteq> None \<or> (\<exists>t \<le> 30000. ln_timer l = Some t) \<or> Unmount \<in> set is \<or> On_session_revoked \<in> set out)
     \<and> (ln_closed l \<longrightarrow> (\<forall>js a. a \<in> set (snd (link_run js l)) \<longrightarrow> \<not> starts a))"
proof -
  obtain l out where run: "link_run is (mount ok) = (l, out)" by (cases "link_run is (mount ok)")
  have l: "link_ok l" using link_run_ok[OF mount_ok, of "is" ok] run by simp
  have open_mount: "\<not> ln_closed (mount ok)" by (simp add: mount_def link_defs new_link_def Let_def)
  have "Unmount \<in> set is \<or> On_session_revoked \<in> set out" if "ln_closed l"
    using closed_why[OF mount_ok open_mount, of "is"] run that by simp
  moreover have "ln_socket l \<noteq> None \<or> (\<exists>t \<le> 30000. ln_timer l = Some t)" if "\<not> ln_closed l"
    using l that by (auto simp: link_ok_def)
  moreover have "\<not> starts a" if "ln_closed l" "a \<in> set (snd (link_run js l))" for js a
    using closed_run[OF l that(1), of js] that(2) by (simp add: list_all_iff)
  ultimately show ?thesis unfolding run by auto
qed

subsection \<open>Two clients, one schedule\<close>

lemma mobile_failures:
  "ln_timer (fst (link_run (replicate n (Timer_fires False)) (mount False))) = Some (reconnect_delay n)
   \<and> ln_attempts (fst (link_run (replicate n (Timer_fires False)) (mount False))) = Suc n
   \<and> \<not> ln_closed (fst (link_run (replicate n (Timer_fires False)) (mount False)))"
proof (induction n)
  case 0
  show ?case by (simp add: mount_def link_defs new_link_def Let_def)
next
  case (Suc n)
  have snoc: "fst (link_run (is @ [i]) l) = fst (link_event i (fst (link_run is l)))" for "is" i l
    by (induction "is" arbitrary: l) simp_all
  have "replicate (Suc n) (Timer_fires False) = replicate n (Timer_fires False) @ [Timer_fires False]"
    by (simp add: replicate_append_same)
  with Suc show ?case by (simp only: snoc) (simp add: link_defs Let_def split: prod.splits)
qed

definition new_web_link :: web_link where
  "new_web_link = \<lparr>wl_closed = False, wl_backoff = 1000, wl_timer = None, wl_socket = None, wl_connected = False,
     wl_hadConnection = False\<rparr>"

lemma web_failures:
  "\<not> wl_closed ((web_connect False ^^ n) new_web_link) \<and> wl_backoff ((web_connect False ^^ n) new_web_link) = reconnect_delay n"
proof (induction n)
  case 0
  show ?case by (simp add: new_web_link_def reconnect_delay_def)
next
  case (Suc n)
  have "min (reconnect_delay n * 2) 30000 = reconnect_delay (Suc n)"
  proof (cases "n < 5")
    case True
    then have "n \<in> {0, 1, 2, 3, 4}" by auto
    then show ?thesis by (auto simp: reconnect_delay_def)
  next
    case False
    then have "min n 5 = 5" "min (Suc n) 5 = 5" by simp_all
    then show ?thesis by (simp add: reconnect_delay_def)
  qed
  with Suc show ?case by (simp add: web_connect_def web_schedule_def)
qed

text \<open>
  The two clients, one with a counter and a power of two, the other doubling a stored delay, wait equally
  long before every attempt: after \<open>n + 1\<close> failed attempts in a row, \<open>2 ^ n\<close> seconds and at most 30.
\<close>

theorem clients_share_the_schedule:
  "ln_timer (fst (link_run (replicate n (Timer_fires False)) (mount False))) = wl_timer ((web_connect False ^^ Suc n) new_web_link)
   \<and> wl_timer ((web_connect False ^^ Suc n) new_web_link) = Some (min 30000 (1000 * 2 ^ n))"
proof -
  have "wl_timer ((web_connect False ^^ Suc n) new_web_link) = Some (reconnect_delay n)"
    using web_failures[of n] by (simp add: web_connect_def web_schedule_def)
  moreover have "reconnect_delay n = min 30000 (1000 * 2 ^ n)"
  proof (cases "n < 5")
    case False
    have "(2::nat) ^ 5 \<le> 2 ^ n" by (rule power_increasing) (use False in auto)
    then show ?thesis using False by (simp add: reconnect_delay_def min_def)
  qed (simp add: reconnect_delay_def)
  ultimately show ?thesis using mobile_failures[of n] by simp
qed

subsection \<open>A missed frame\<close>

text \<open>
  What reconnecting makes up for. When the mobile client reconnects it refetches every cached query that a
  missed frame would have refreshed, except those of conversations and event details; the web console all
  but single matches and requests, inventories, events and dashboards.
\<close>

theorem reconnect_refetches:
  "(\<forall>ev q. hits (live_invalidates ev) q \<longrightarrow> hits invalidate_live q \<or> hits [[''conversation''], [''event'']] q)
   \<and> (\<forall>ev conv q. hits (web_invalidates ev conv) q \<longrightarrow> hits RECONNECT_INVALIDATE q
        \<or> hits [[''match''], [''request''], [''inventory''], [''event''], [''events''], [''dashboard'']] q)
   \<and> \<not> hits invalidate_live [''conversation'', c] \<and> \<not> hits invalidate_live [''event'', e]"
proof (intro conjI allI impI)
  show "hits invalidate_live q \<or> hits [[''conversation''], [''event'']] q" if "hits (live_invalidates ev) q" for ev q
    using that by (cases ev) (auto simp: hits_def invalidate_live_def)
  show "hits RECONNECT_INVALIDATE q \<or> hits [[''match''], [''request''], [''inventory''], [''event''], [''events''], [''dashboard'']] q"
    if "hits (web_invalidates ev conv) q" for ev conv q
  proof -
    have "prefix [''conversation''] q" if "prefix [''conversation'', x, ''messages''] q" for x
      using that by (auto simp: prefix_def)
    with that show ?thesis by (cases ev) (auto simp: hits_def RECONNECT_INVALIDATE_def split: option.splits)
  qed
qed (simp_all add: hits_def invalidate_live_def)

subsection \<open>A revoked session\<close>

lemma frames_of_end: "endSession env u sid d = (d', es, Inr ()) \<Longrightarrow>
    frames_of es = [\<lparr>of_userId = u, of_event = Session_revoked, of_data = P_session_revoked sid\<rparr>]"
  by (auto simp: endSession_def frames_of_def List.map_filter_def split: prod.splits bool.splits)


subsection \<open>Witnesses\<close>

definition sample_session :: session where
  "sample_session = \<lparr>se_id = 30, se_userId = 2, se_tokenHash = k_sha256 toy_crypto (lit ''secret''), se_platform = ''android'',
     se_deviceName = None, se_createdAt = 0, se_lastSeenAt = 0, se_expiresAt = 1000000, se_revokedAt = None\<rparr>"

definition sample_signed_in :: db where
  "sample_signed_in = sample_start\<lparr>sessions := [sample_session, sample_session\<lparr>se_id := 31, se_tokenHash := []\<rparr>]\<rparr>"

definition sample_gateway :: gateway where
  "sample_gateway = fst (on_connection 0 (Some 2) empty_gateway)"

lemma sample_gateway_reachable: "gateway_reachable sample_gateway"
proof -
  have "on_upgrade (sample_env 1000) toy_crypto ''/ws'' (Some ''secret'') sample_signed_in = Some (Some 2)"
    by (simp add: on_upgrade_def resolveAuth_def sample_signed_in_def sample_session_def sample_start_def empty_db_def
        sample_env_def by_key_def sample_user_def bearer_of_def List.map_filter_simps)
  from gateway_step.connects[OF _ this, of 0 empty_gateway] show ?thesis
    unfolding gateway_reachable_def sample_gateway_def by (intro r_into_rtranclp) (auto simp: empty_gateway_def)
qed

theorem frames_reach_their_user_witness:
  "filter (reaches \<lparr>of_userId = 2, of_event = Session_revoked, of_data = P_session_revoked 31\<rparr>)
     (gw_clients (fst (on_frame \<lparr>of_userId = 2, of_event = Session_revoked, of_data = P_session_revoked 31\<rparr> sample_gateway))) = []"
  using frames_reach_their_user[OF sample_gateway_reachable, of "\<lparr>of_userId = 2, of_event = Session_revoked, of_data = P_session_revoked 31\<rparr>"]
  by simp

theorem silent_socket_cut_off_witness:
  "\<forall>c \<in> set (gw_clients (fst (heartbeat (fst (heartbeat sample_gateway))))). so_id c = 0 \<longrightarrow> \<not> so_open c"
  using silent_socket_cut_off[of 0 sample_gateway "fst (heartbeat sample_gateway)"] by blast


theorem client_reconnects_until_revoked_witness:
  "Open_socket \<notin> set (snd (link_run [Foreground True, Timer_fires True] (fst (link_run [Socket_opens, Socket_closes 4403] (mount True)))))"
proof -
  obtain l out where run: "link_run [Socket_opens, Socket_closes 4403] (mount True) = (l, out)" by fastforce
  have "ln_closed (fst (link_run [Socket_opens, Socket_closes 4403] (mount True)))"
    by (simp add: mount_def link_defs new_link_def)
  with client_reconnects_until_revoked[of "[Socket_opens, Socket_closes 4403]" True]
  have "\<forall>js a. a \<in> set (snd (link_run js l)) \<longrightarrow> \<not> starts a" unfolding run by simp
  moreover have "starts Open_socket" by (simp add: starts_def)
  ultimately show ?thesis unfolding run fst_conv by blast
qed

theorem reconnect_refetches_witness:
  "hits invalidate_live [''match'', ''7''] \<or> hits [[''conversation''], [''event'']] [''match'', ''7'']"
proof -
  have "hits (live_invalidates Match_update) [''match'', ''7'']" by (simp add: hits_def)
  with conjunct1[OF reconnect_refetches] show ?thesis by blast
qed

end
