(* ===== verification/Api_Outcomes.thy ===== *)
theory Api_Outcomes
  imports Routes Realtime_Clients
begin

text \<open>
  Calls of the API on the sample exchange of \<open>Scenario\<close>: a helper signed in with a bearer token stocks an
  item, and the same account once suspended reads its appeals.
\<close>

definition sample_ext :: http_ext where
  "sample_ext = \<lparr>hx_crypto = toy_crypto, hx_isEmail = (\<lambda>_. True), hx_lower = id, hx_otp = no_otp_config\<rparr>"

definition add_call :: http_call where
  "add_call = Inventory_routes (Add_call 3 sample_item)"

definition stocked_db :: db where
  "stocked_db = fst (addInventory (sample_env 1000) 2 3 sample_item sample_signed_in)"

lemma sample_bearer: "resolveAuth (sample_env 1000) toy_crypto ''secret'' sample_signed_in
    = Some (bearer_of (sample_env 1000) sample_session (sample_user 2 ''Ravi''))"
  by (simp add: resolveAuth_def sample_signed_in_def sample_session_def sample_start_def empty_db_def
      sample_env_def by_key_def sample_user_def List.map_filter_simps)

lemma add_served: "serve (sample_env 1000) sample_ext (Some ''Bearer secret'') add_call sample_signed_in = Some stocked_db"
proof -
  let ?b = "bearer_of (sample_env 1000) sample_session (sample_user 2 ''Ravi'')"
  have "authenticate (sample_env 1000) toy_crypto (Some ''secret'') (v1 ''/events/:id/inventory'') sample_signed_in = (sample_signed_in, [], Inr ?b)"
    by (simp add: authenticate_def sample_bearer)
       (simp add: bearer_of_def effective_user_status_def sample_user_def sample_env_def sample_signed_in_def
        sample_session_def upd_where_def)
  moreover have "au_userId ?b = 2" by (simp add: bearer_of_def sample_user_def)
  ultimately show ?thesis
    by (simp add: serve_def admit_def add_call_def bearer_token_def sample_ext_def parsed_def perform_def stocked_db_def
        response_of_def sample_item_def zAddInventory_def zQty_def zIdempotencyKey_def split: prod.split)
qed

lemma stocked: "\<not> outside sample_signed_in stocked_db"
proof -
  have "length (inventoryItems stocked_db) = 1" by code_simp
  moreover have "inventoryItems sample_signed_in = []"
    by (simp add: sample_signed_in_def sample_start_def empty_db_def)
  ultimately show ?thesis by (auto simp: outside_def)
qed

theorem http_refines_the_exchange_witness: "reachable stocked_db \<and> db_inv stocked_db"
proof -
  have "http_run sample_ext sample_signed_in stocked_db"
    using http_run.called[OF http_run.nothing _ add_served] by (simp add: new_code_def add_call_def)
  from http_refines_the_exchange[OF this] show ?thesis
    by (simp add: initial_db_def sample_signed_in_def sample_start_def empty_db_def)
qed


definition suspended_db :: db where
  "suspended_db = sample_signed_in\<lparr>users := [sample_user 2 ''Ravi''\<lparr>u_status := User_suspended\<rparr>]\<rparr>"

theorem restricted_accounts_confined_witness:
  "admit (sample_env 1000) sample_ext (Some ''Bearer secret'') (route_for sample_ext (Admin_routes My_appeals_call)) suspended_db
      = (suspended_db, Answer)
   \<and> (\<exists>k body. Admin_routes My_appeals_call \<in> {Admin_routes (Appeal_call k body), Admin_routes My_appeals_call})"
proof -
  let ?call = "Admin_routes My_appeals_call"
  obtain b where b: "resolveAuth (sample_env 1000) (hx_crypto sample_ext) ''secret'' suspended_db = Some b" "au_status b = User_suspended"
    by (simp add: resolveAuth_def sample_ext_def suspended_db_def sample_signed_in_def sample_session_def sample_start_def empty_db_def
        sample_env_def by_key_def sample_user_def List.map_filter_simps bearer_of_def effective_user_status_def)
  have t: "bearer_token (Some ''Bearer secret'') = Some ''secret''" by (simp add: bearer_token_def)
  have a: "admit (sample_env 1000) sample_ext (Some ''Bearer secret'') (route_for sample_ext ?call) suspended_db = (suspended_db, Answer)"
    using b by (simp add: admit_def t authenticateAllowSuspended_def or_throw_def parsed_def)
  from restricted_accounts_confined[OF t b(1) _ a] b(2) show ?thesis using a by auto
qed

end
