(* ===== verification/Offline_Queue.thy ===== *)
theory Offline_Queue
  imports Retries Server
begin

text \<open>
  \<open>apps/mobile/src/pendingOps.ts\<close> with the form of \<open>app/(tabs)/supplies.tsx\<close>: stock added while the phone is
  offline waits in a queue on the device and is uploaded later. The phone and the server are one
  system here: a call may be lost before or after the server handled it, several uploads may overlap,
  the app may be killed, and other clients go on meanwhile.
\<close>

subsection \<open>The queue on the device\<close>

record pending_op =
  po_id :: string
  po_eventId :: uid
  po_body :: add_inventory_input
  po_createdAt :: instant
  po_attempts :: nat
  po_lastError :: "string option"

definition removeInventoryOp :: "string \<Rightarrow> pending_op list \<Rightarrow> pending_op list" where
  "removeInventoryOp k stored = filter (\<lambda>x. po_id x \<noteq> k) stored"

text \<open>
  How a call ends (\<open>api.ts\<close>): accepted, without an answer (\<open>NetworkError\<close>), or with an error that has a
  status and a message. An answer of 2xx whose body cannot be read is an error without a status.
\<close>

datatype reply = Accepted | No_network | Refused "nat option" string

datatype call =
    Lost                       \<comment> \<open>never reached the server\<close>
  | Cut_off                    \<comment> \<open>handled, but the answer never arrived\<close>
  | Garbled string             \<comment> \<open>handled, but the answer breaks off\<close>
  | Answered
  | Turned_away nat string     \<comment> \<open>answered before the handler: authentication, body validation, a proxy\<close>

definition api_reply :: "(app_error \<Rightarrow> string) \<Rightarrow> call \<Rightarrow> app_error + 'v \<Rightarrow> reply" where
  "api_reply message c r = (case c of
     Lost \<Rightarrow> No_network | Cut_off \<Rightarrow> No_network | Turned_away s m \<Rightarrow> Refused (Some s) m
   | Garbled m \<Rightarrow> (case r of Inr _ \<Rightarrow> Refused None m | Inl e \<Rightarrow> Refused (Some (STATUS e)) m)
   | Answered \<Rightarrow> (case r of Inr _ \<Rightarrow> Accepted | Inl e \<Rightarrow> Refused (Some (STATUS e)) (message e)))"

definition handled :: "call \<Rightarrow> bool" where
  "handled c \<longleftrightarrow> (case c of Lost \<Rightarrow> False | Turned_away _ _ \<Rightarrow> False | _ \<Rightarrow> True)"

definition post_op ::
  "(app_error \<Rightarrow> string) \<Rightarrow> uid \<Rightarrow> env \<times> call \<Rightarrow> pending_op \<Rightarrow> db \<Rightarrow> db \<times> reply" where
  "post_op message u ec x d = (case ec of (env, c) \<Rightarrow>
     (case addInventory env u (po_eventId x) (po_body x) d of (d', _, r) \<Rightarrow>
        (if handled c then d' else d, api_reply message c r)))"

text \<open>
  One round of the loop of \<open>flush\<close>: what is stored and the loop's own copy of the queue afterwards, \<open>None\<close>
  when it breaks off. Removing reads the stored queue again; counting a failed attempt writes the copy.
\<close>

definition flush_op ::
  "pending_op \<Rightarrow> reply \<Rightarrow> pending_op list \<Rightarrow> pending_op list \<Rightarrow> (pending_op list \<times> pending_op list) option" where
  "flush_op x r stored q = (case r of
     Accepted \<Rightarrow> (let s = removeInventoryOp (po_id x) stored in Some (s, s))
   | No_network \<Rightarrow> None
   | Refused status m \<Rightarrow>
       if status = Some 409 \<or> po_attempts x \<ge> 4
       then (let s = removeInventoryOp (po_id x) stored in Some (s, s))
       else (let s = map (\<lambda>y. if po_id y = po_id x
                      then y\<lparr>po_attempts := po_attempts y + 1, po_lastError := Some m\<rparr> else y) q
             in Some (s, s)))"

text \<open>A whole upload without interruption; the app is killed when the list of calls ends early.\<close>

fun flush_loop ::
  "(app_error \<Rightarrow> string) \<Rightarrow> uid \<Rightarrow> pending_op list \<Rightarrow> (env \<times> call) list \<Rightarrow>
    pending_op list \<Rightarrow> pending_op list \<Rightarrow> db \<Rightarrow> pending_op list \<times> db" where
  "flush_loop message u [] calls stored q d = (stored, d)"
| "flush_loop message u (x # todo) [] stored q d = (stored, d)"
| "flush_loop message u (x # todo) (c # calls) stored q d =
     (case post_op message u c x d of (d', r) \<Rightarrow>
       (case flush_op x r stored q of None \<Rightarrow> (stored, d')
        | Some (s, q') \<Rightarrow> flush_loop message u todo calls s q' d'))"

definition flush ::
  "(app_error \<Rightarrow> string) \<Rightarrow> uid \<Rightarrow> (env \<times> call) list \<Rightarrow> pending_op list \<times> db \<Rightarrow> pending_op list \<times> db" where
  "flush message u calls s = flush_loop message u (fst s) calls (fst s) (fst s) (snd s)"

text \<open>The form: the item is sent at once and put into the queue when there was no answer.\<close>

definition submit_op :: "pending_op \<Rightarrow> reply \<Rightarrow> pending_op list \<Rightarrow> pending_op list" where
  "submit_op x r stored = (case r of No_network \<Rightarrow> stored @ [x] | _ \<Rightarrow> stored)"

definition well_formed_op :: "pending_op \<Rightarrow> bool" where
  "well_formed_op x \<longleftrightarrow> ai_idempotencyKey (po_body x) = Some (po_id x) \<and> po_id x \<noteq> [] \<and> po_attempts x = 0"

subsection \<open>Phone and server\<close>

text \<open>
  \<open>K\<close> are the keys this phone draws for its own items; nobody else creates an item of the same account with
  one of them. The guard \<open>flushing\<close> is a value of the last render, so uploads may overlap: each has its
  remaining operations and its copy of the queue.
\<close>

record phone =
  ph_stored :: "pending_op list"
  ph_flushes :: "nat \<rightharpoonup> pending_op list \<times> pending_op list"
  ph_server :: db

definition items_of :: "uid \<Rightarrow> string \<Rightarrow> db \<Rightarrow> item list" where
  "items_of u k d = filter (\<lambda>i. i_userId i = u \<and> i_idempotencyKey i = Some k) (inventoryItems d)"

inductive phone_step ::
  "(app_error \<Rightarrow> string) \<Rightarrow> uid \<Rightarrow> string set \<Rightarrow> phone \<Rightarrow> (pending_op \<times> reply) option \<Rightarrow> phone \<Rightarrow> bool"
  for message u K where
  submit: "well_formed_op x \<Longrightarrow> po_id x \<in> K \<Longrightarrow> post_op message u c x (ph_server w) = (d', r) \<Longrightarrow>
     phone_step message u K w (Some (x, r)) (w\<lparr>ph_stored := submit_op x r (ph_stored w), ph_server := d'\<rparr>)"
| begin_flush: "ph_flushes w i = None \<Longrightarrow>
     phone_step message u K w None (w\<lparr>ph_flushes := (ph_flushes w)(i \<mapsto> (ph_stored w, ph_stored w))\<rparr>)"
| round: "ph_flushes w i = Some (x # todo, q) \<Longrightarrow> post_op message u c x (ph_server w) = (d', r) \<Longrightarrow>
     flush_op x r (ph_stored w) q = Some (s, q') \<Longrightarrow>
     phone_step message u K w (Some (x, r))
       (w\<lparr>ph_stored := s, ph_flushes := (ph_flushes w)(i \<mapsto> (todo, q')), ph_server := d'\<rparr>)"
| break_off: "ph_flushes w i = Some (x # todo, q) \<Longrightarrow> post_op message u c x (ph_server w) = (d', r) \<Longrightarrow>
     flush_op x r (ph_stored w) q = None \<Longrightarrow>
     phone_step message u K w (Some (x, r)) (w\<lparr>ph_flushes := (ph_flushes w)(i := None), ph_server := d'\<rparr>)"
| end_flush: "ph_flushes w i = Some ([], q) \<Longrightarrow>
     phone_step message u K w None (w\<lparr>ph_flushes := (ph_flushes w)(i := None)\<rparr>)"
| killed: "phone_step message u K w None (w\<lparr>ph_flushes := Map.empty\<rparr>)"
| elsewhere: "(\<And>k. k \<in> K \<Longrightarrow> length (items_of u k d') \<le> length (items_of u k (ph_server w))) \<Longrightarrow>
     phone_step message u K w None (w\<lparr>ph_server := d'\<rparr>)"

inductive phone_run ::
  "(app_error \<Rightarrow> string) \<Rightarrow> uid \<Rightarrow> string set \<Rightarrow> phone \<Rightarrow> (pending_op \<times> reply) list \<Rightarrow> phone \<Rightarrow> bool"
  for message u K where
  stay: "phone_run message u K w [] w"
| silent: "phone_run message u K w ls w' \<Longrightarrow> phone_step message u K w' None w'' \<Longrightarrow> phone_run message u K w ls w''"
| seen: "phone_run message u K w ls w' \<Longrightarrow> phone_step message u K w' (Some l) w'' \<Longrightarrow> phone_run message u K w (ls @ [l]) w''"

inductive_cases phone_stepE: "phone_step message u K w l w'"


subsection \<open>Nothing is dropped without an answer\<close>

definition is_refused :: "reply \<Rightarrow> bool" where
  "is_refused r \<longleftrightarrow> (case r of Refused _ _ \<Rightarrow> True | _ \<Rightarrow> False)"

definition refusals :: "string \<Rightarrow> (pending_op \<times> reply) list \<Rightarrow> nat" where
  "refusals k ls = length (filter (\<lambda>(x, r). po_id x = k \<and> is_refused r) ls)"

definition settled_by :: "string \<Rightarrow> nat \<Rightarrow> (pending_op \<times> reply) list \<Rightarrow> bool" where
  "settled_by k a ls \<longleftrightarrow> (\<exists>x. po_id x = k \<and> (x, Accepted) \<in> set ls)
     \<or> (\<exists>x m. po_id x = k \<and> (x, Refused (Some 409) m) \<in> set ls) \<or> 5 \<le> a + refusals k ls"

lemma refusals_append [simp]: "refusals k (ls @ [l]) = refusals k ls + (if po_id (fst l) = k \<and> is_refused (snd l) then 1 else 0)"
  by (auto simp: refusals_def split: prod.splits)

lemma settled_mono: "settled_by k a ls \<Longrightarrow> settled_by k a (ls @ [l])"
  by (auto simp: settled_by_def)

definition copies :: "phone \<Rightarrow> pending_op list set" where
  "copies w = insert (ph_stored w) (\<Union>(todo, q) \<in> ran (ph_flushes w). {todo, q})"

definition tries_bounded :: "string \<Rightarrow> nat \<Rightarrow> phone \<Rightarrow> bool" where
  "tries_bounded k n w \<longleftrightarrow> (\<forall>c \<in> copies w. \<forall>x \<in> set c. po_id x = k \<longrightarrow> po_attempts x \<le> n)"

definition waiting :: "string \<Rightarrow> phone \<Rightarrow> bool" where
  "waiting k w \<longleftrightarrow> k \<in> po_id ` set (ph_stored w) \<and> (\<forall>(todo, q) \<in> ran (ph_flushes w). k \<in> po_id ` set q)"

lemma ran_upd_Some: "ran (m(i \<mapsto> x)) \<subseteq> insert x (ran m)"
  by (auto simp: ran_def)

lemma ran_upd_None: "ran (m(i := None)) \<subseteq> ran m"
  by (auto simp: ran_def)

definition count_failure :: "pending_op \<Rightarrow> string \<Rightarrow> pending_op list \<Rightarrow> pending_op list" where
  "count_failure x m q = map (\<lambda>y. if po_id y = po_id x
     then y\<lparr>po_attempts := po_attempts y + 1, po_lastError := Some m\<rparr> else y) q"

lemma flush_op_cases [consumes 1, case_names dropped counted]:
  assumes "flush_op x r stored q = Some (s, q')"
  obtains "s = removeInventoryOp (po_id x) stored" "q' = s" "r = Accepted \<or> (\<exists>m. r = Refused (Some 409) m) \<or> is_refused r \<and> 4 \<le> po_attempts x"
  | st m where "r = Refused st m" "st \<noteq> Some 409" "po_attempts x < 4" "s = count_failure x m q" "q' = s"
  using assms by (auto simp: flush_op_def count_failure_def is_refused_def Let_def split: reply.splits if_splits)

lemma count_failure_ids [simp]: "po_id ` set (count_failure x m q) = po_id ` set q"
proof -
  have "map po_id (count_failure x m q) = map po_id q" by (simp add: count_failure_def)
  then show ?thesis by (metis set_map)
qed

lemma flush_op_ids:
  assumes "flush_op x r stored q = Some (s, q')" "k \<in> po_id ` set stored" "k \<in> po_id ` set q"
    and "po_id x = k \<Longrightarrow> r \<noteq> Accepted \<and> (\<forall>m. r \<noteq> Refused (Some 409) m) \<and> (is_refused r \<longrightarrow> po_attempts x < 4)"
  shows "s = q' \<and> k \<in> po_id ` set s"
  using assms(1)
proof (cases rule: flush_op_cases)
  case dropped
  with assms(4) have "po_id x \<noteq> k" by auto
  with dropped assms(2) show ?thesis by (auto simp: removeInventoryOp_def)
next
  case counted
  with assms(3) show ?thesis by simp
qed

lemma flush_op_tries:
  assumes "flush_op x r stored q = Some (s, q')"
    and "\<forall>y \<in> set stored. po_id y = k \<longrightarrow> po_attempts y \<le> n" "\<forall>y \<in> set q. po_id y = k \<longrightarrow> po_attempts y \<le> n"
  shows "\<forall>y \<in> set s \<union> set q'. po_id y = k \<longrightarrow> po_attempts y \<le> n + (if po_id x = k \<and> is_refused r then 1 else 0)"
  using assms(1)
proof (cases rule: flush_op_cases)
  case dropped
  with assms(2) show ?thesis by (auto simp: removeInventoryOp_def intro: le_SucI)
next
  case counted
  with assms(3) show ?thesis by (auto simp: count_failure_def is_refused_def)
qed

lemma tries_step:
  assumes "phone_step message u K w l w'" "tries_bounded k n w"
  shows "tries_bounded k (n + (case l of Some (x, r) \<Rightarrow> if po_id x = k \<and> is_refused r then 1 else 0 | None \<Rightarrow> 0)) w'"
  using assms
proof (induction rule: phone_step.induct)
  case (round w i x todo q c d' r s q')
  have todo: "(x # todo, q) \<in> ran (ph_flushes w)" using round.hyps(1) by (auto simp: ran_def)
  have b: "\<forall>y \<in> set (ph_stored w). po_id y = k \<longrightarrow> po_attempts y \<le> n" "\<forall>y \<in> set q. po_id y = k \<longrightarrow> po_attempts y \<le> n"
    "\<forall>y \<in> set todo. po_id y = k \<longrightarrow> po_attempts y \<le> n"
    using round.prems todo by (fastforce simp: tries_bounded_def copies_def)+
  note new = flush_op_tries[OF round.hyps(3) b(1,2)]
  show ?case
    unfolding tries_bounded_def copies_def
  proof (intro ballI impI, goal_cases)
    case (1 c' y)
    then consider "c' = s" | "c' = todo" | "c' = q'" | p where "p \<in> ran (ph_flushes w)" "c' = fst p \<or> c' = snd p"
      using ran_upd_Some[of "ph_flushes w" i "(todo, q')"] by fastforce
    then show ?case
    proof cases
      case 4
      with 1(2,3) round.prems show ?thesis by (cases p) (fastforce simp: tries_bounded_def copies_def)
    qed (use 1(2,3) new b(3) in \<open>auto intro: le_SucI\<close>)
  qed
qed (use ran_upd_Some ran_upd_None in
    \<open>fastforce simp: tries_bounded_def copies_def submit_op_def well_formed_op_def split: reply.splits\<close>)+

lemma waiting_step:
  assumes "phone_step message u K w l w'" "waiting k w" "tries_bounded k n w"
    and l: "case l of None \<Rightarrow> True | Some (x, r) \<Rightarrow> po_id x = k \<longrightarrow>
      r \<noteq> Accepted \<and> (\<forall>m. r \<noteq> Refused (Some 409) m) \<and> (is_refused r \<longrightarrow> n < 4)"
  shows "waiting k w'"
  using assms
proof (induction rule: phone_step.induct)
  case (round w i x todo q c d' r s q')
  have here: "(x # todo, q) \<in> ran (ph_flushes w)" using round.hyps(1) by (auto simp: ran_def)
  have inq: "k \<in> po_id ` set q" "k \<in> po_id ` set (ph_stored w)" using round.prems(1) here by (auto simp: waiting_def)
  have "po_attempts x \<le> n" if "po_id x = k"
    using round.prems(2) here that by (fastforce simp: tries_bounded_def copies_def)
  with round.prems(3) have "po_id x = k \<Longrightarrow> r \<noteq> Accepted \<and> (\<forall>m. r \<noteq> Refused (Some 409) m) \<and> (is_refused r \<longrightarrow> po_attempts x < 4)"
    by force
  from flush_op_ids[OF round.hyps(3) inq(2,1) this] have s: "q' = s" "k \<in> po_id ` set s" by blast+
  have "k \<in> po_id ` set b" if "(a, b) \<in> ran ((ph_flushes w)(i \<mapsto> (todo, q')))" for a b
    using subsetD[OF ran_upd_Some that] s round.prems(1) by (auto simp: waiting_def)
  with s(2) show ?case by (auto simp: waiting_def)
qed (auto simp: waiting_def submit_op_def split: reply.splits dest!: subsetD[OF ran_upd_Some] subsetD[OF ran_upd_None])

lemma run_keeps:
  assumes "phone_run message u K w ls w'" "waiting k w" "tries_bounded k a w"
  shows "tries_bounded k (a + refusals k ls) w' \<and> (settled_by k a ls \<or> waiting k w')"
  using assms
proof (induction rule: phone_run.induct)
  case (silent w ls w' w'')
  then have IH: "tries_bounded k (a + refusals k ls) w'" "settled_by k a ls \<or> waiting k w'" by auto
  from tries_step[OF silent.hyps(2) IH(1)] waiting_step[OF silent.hyps(2) _ IH(1)] IH(2) show ?case by auto
next
  case (seen w ls w' l w'')
  obtain x r where l: "l = (x, r)" by (cases l)
  have IH: "tries_bounded k (a + refusals k ls) w'" "settled_by k a ls \<or> waiting k w'" using seen by auto
  have t: "tries_bounded k (a + refusals k (ls @ [l])) w''"
    using tries_step[OF seen.hyps(2) IH(1)] by (cases "po_id x = k \<and> is_refused r") (simp_all only: l refusals_append fst_conv snd_conv option.case prod.case if_True if_False add_0_right ab_semigroup_add_class.add_ac)
  have "waiting k w''" if "waiting k w'" "\<not> settled_by k a (ls @ [l])"
  proof (rule waiting_step[OF seen.hyps(2) that(1) IH(1)])
    show "case Some l of None \<Rightarrow> True | Some (x, r) \<Rightarrow> po_id x = k \<longrightarrow>
      r \<noteq> Accepted \<and> (\<forall>m. r \<noteq> Refused (Some 409) m) \<and> (is_refused r \<longrightarrow> a + refusals k ls < 4)"
      using that(2) by (auto simp: settled_by_def l split: if_splits)
  qed
  with IH(2) t settled_mono show ?case by blast
qed (auto simp: refusals_def)

text \<open>
  C12: An item that waits on the phone is never lost by being offline. However often calls get lost on either
  way, uploads overlap, the app is killed and other items are added, an item that waits in the queue while
  no upload runs leaves it only after the server accepted it, answered 409, or turned it down so often that
  five failed attempts are counted.
\<close>

theorem offline_item_waits_for_an_answer:
  assumes "phone_run message u K w ls w'" "ph_flushes w = Map.empty"
    and "k \<in> po_id ` set (ph_stored w)" "\<forall>x \<in> set (ph_stored w). po_id x = k \<longrightarrow> po_attempts x \<le> a"
    and gone: "k \<notin> po_id ` set (ph_stored w')"
  shows "(\<exists>x. po_id x = k \<and> (x, Accepted) \<in> set ls) \<or> (\<exists>x m. po_id x = k \<and> (x, Refused (Some 409) m) \<in> set ls)
     \<or> 5 \<le> a + refusals k ls"
proof -
  have "waiting k w" "tries_bounded k a w"
    using assms(2-4) by (auto simp: waiting_def tries_bounded_def copies_def)
  from run_keeps[OF assms(1) this] gone show ?thesis by (auto simp: settled_by_def waiting_def)
qed

subsection \<open>Stored exactly once\<close>

lemma items_of_append: "inventoryItems d' = inventoryItems d @ [row] \<Longrightarrow>
    items_of u k d' = items_of u k d @ (if i_userId row = u \<and> i_idempotencyKey row = Some k then [row] else [])"
  by (simp add: items_of_def)

lemma add_item_tx_unique:
  assumes "add_item_tx env u eid input t d = Inr (d', row)" "ai_idempotencyKey input = Some k"
  shows "items_of u k d = []"
  using assms
  by (auto simp: add_item_tx_def aborted_if_duplicate_def insert_item_def checked_insert_def item_unique_def
      new_item_def items_of_def list_all_iff filter_empty_conv Let_def split: if_splits sum.splits)


lemma addInventory_items:
  assumes key: "ai_idempotencyKey input = Some k" "k \<noteq> []"
  shows "inventoryItems (fst (addInventory env u eid input d)) = inventoryItems d
     \<or> (items_of u k d = [] \<and> (\<exists>row. i_userId row = u \<and> i_idempotencyKey row = Some k
          \<and> inventoryItems (fst (addInventory env u eid input d)) = inventoryItems d @ [row]))"
proof (cases "addInventory env u eid input d")
  case (fields d' es r)
  have tx: "\<exists>row. items_of u k d = [] \<and> i_userId row = u \<and> i_idempotencyKey row = Some k \<and> inventoryItems d'' = inventoryItems d @ [row]"
    if "add_item_tx env u eid input t d = Inr (d'', x)" for t d'' x
    using add_item_tx_items[OF that] add_item_tx_unique[OF that key(1)] key(1) by (auto simp: new_item_def)
  show ?thesis
    using key(2) tx
    by (auto simp: addInventory_def commit_def Let_def split: option.splits sum.splits prod.splits)
qed

lemma post_op_items:
  assumes x: "ai_idempotencyKey (po_body x) = Some (po_id x)" "po_id x \<noteq> []"
    and run: "post_op message u c x d = (d', r)" and once: "length (items_of u k d) \<le> 1"
  shows "length (items_of u k d') \<le> 1" and "r = Accepted \<Longrightarrow> po_id x = k \<Longrightarrow> length (items_of u k d') = 1"
proof -
  obtain env f where c: "c = (env, f)" by (cases c)
  obtain d1 es r1 where add: "addInventory env u (po_eventId x) (po_body x) d = (d1, es, r1)"
    by (cases "addInventory env u (po_eventId x) (po_body x) d")
  have d': "d' = (if handled f then d1 else d)" and r: "r = api_reply message f r1"
    using run by (auto simp: post_op_def c add)
  from addInventory_items[OF x, of env u "po_eventId x" d]
  have "length (items_of u k d1) \<le> 1"
    using once by (auto simp: add items_of_append) (auto simp: items_of_def)
  with d' once show few: "length (items_of u k d') \<le> 1" by simp
  assume acc: "r = Accepted" "po_id x = k"
  then obtain v where v: "f = Answered" "r1 = Inr v"
    using r by (auto simp: api_reply_def split: call.splits sum.splits)
  from addInventory_created[OF _ x, of env u "po_eventId x" d d1 es v] add v(2)
  obtain row where "find_item_by_key d1 u (po_id x) = Some row" by auto
  then have "row \<in> set (items_of u k d1)" by (auto simp: find_item_by_key_def items_of_def acc(2) find_Some_iff)
  with d' v(1) few show "length (items_of u k d') = 1"
    by (cases "items_of u k d1") (auto simp: handled_def)
qed

definition keyed :: "phone \<Rightarrow> bool" where
  "keyed w \<longleftrightarrow> (\<forall>c \<in> copies w. \<forall>x \<in> set c. ai_idempotencyKey (po_body x) = Some (po_id x) \<and> po_id x \<noteq> [])"

lemma flush_op_keyed:
  assumes "flush_op x r stored q = Some (s, q')" "\<forall>y \<in> set stored \<union> set q. ai_idempotencyKey (po_body y) = Some (po_id y) \<and> po_id y \<noteq> []"
  shows "\<forall>y \<in> set s \<union> set q'. ai_idempotencyKey (po_body y) = Some (po_id y) \<and> po_id y \<noteq> []"
  using assms(1) by (cases rule: flush_op_cases) (use assms(2) in \<open>auto simp: removeInventoryOp_def count_failure_def\<close>)

lemma keyed_step: "phone_step message u K w l w' \<Longrightarrow> keyed w \<Longrightarrow> keyed w'"
proof (induction rule: phone_step.induct)
  case (round w i x todo q c d' r s q')
  have here: "(x # todo, q) \<in> ran (ph_flushes w)" using round.hyps(1) by (auto simp: ran_def)
  have old: "\<forall>y \<in> set (ph_stored w) \<union> set q \<union> set todo. ai_idempotencyKey (po_body y) = Some (po_id y) \<and> po_id y \<noteq> []"
    using round.prems here by (fastforce simp: keyed_def copies_def)
  then have "\<forall>y \<in> set s \<union> set q'. ai_idempotencyKey (po_body y) = Some (po_id y) \<and> po_id y \<noteq> []"
    by (intro flush_op_keyed[OF round.hyps(3)]) auto
  moreover have "\<forall>y \<in> set a \<union> set b. ai_idempotencyKey (po_body y) = Some (po_id y) \<and> po_id y \<noteq> []"
    if "(a, b) \<in> ran (ph_flushes w)" for a b
    using round.prems that by (fastforce simp: keyed_def copies_def)
  ultimately show ?case
    using old subsetD[OF ran_upd_Some, of _ "ph_flushes w" i "(todo, q')"] by (fastforce simp: keyed_def copies_def)
qed (use ran_upd_Some ran_upd_None in
    \<open>fastforce simp: keyed_def copies_def submit_op_def well_formed_op_def split: reply.splits\<close>)+

lemma once_step:
  assumes "phone_step message u K w l w'" "keyed w" "k \<in> K" "length (items_of u k (ph_server w)) \<le> 1"
  shows "length (items_of u k (ph_server w')) \<le> 1
     \<and> (\<forall>x. l = Some (x, Accepted) \<longrightarrow> po_id x = k \<longrightarrow> length (items_of u k (ph_server w')) = 1)"
  using assms
proof (induction rule: phone_step.induct)
  case (submit x c w d' r)
  from submit.hyps(1) have x: "ai_idempotencyKey (po_body x) = Some (po_id x)" "po_id x \<noteq> []" by (simp_all add: well_formed_op_def)
  show ?case using post_op_items[OF x submit.hyps(3) submit.prems(3)] by auto
next
  case (round w i x todo q c d' r s q')
  have "(x # todo, q) \<in> ran (ph_flushes w)" using round.hyps(1) by (auto simp: ran_def)
  then have x: "ai_idempotencyKey (po_body x) = Some (po_id x)" "po_id x \<noteq> []"
    using round.prems(1) by (fastforce simp: keyed_def copies_def)+
  show ?case using post_op_items[OF x round.hyps(2) round.prems(3)] by auto
next
  case (break_off w i x todo q c d' r)
  have "(x # todo, q) \<in> ran (ph_flushes w)" using break_off.hyps(1) by (auto simp: ran_def)
  then have x: "ai_idempotencyKey (po_body x) = Some (po_id x)" "po_id x \<noteq> []"
    using break_off.prems(1) by (fastforce simp: keyed_def copies_def)+
  show ?case using post_op_items[OF x break_off.hyps(2) break_off.prems(3)] by auto
next
  case (elsewhere d' w)
  from elsewhere.hyps[OF elsewhere.prems(2)] elsewhere.prems(3) show ?case by simp
qed auto

lemma once_run:
  assumes "phone_run message u K w ls w'" "keyed w" "k \<in> K" "length (items_of u k (ph_server w)) \<le> 1"
  shows "keyed w' \<and> length (items_of u k (ph_server w')) \<le> 1"
  using assms
proof (induction rule: phone_run.induct)
  case (silent w ls w' w'')
  then show ?case using keyed_step[OF silent.hyps(2)] once_step[OF silent.hyps(2)] by blast
next
  case (seen w ls w' l w'')
  then show ?case using keyed_step[OF seen.hyps(2)] once_step[OF seen.hyps(2)] by blast
qed simp

text \<open>
  C11: Stock added on a phone is stored exactly once. Take any history of an account's phone in which an
  item is first sent, perhaps handled without the answer arriving, queued and uploaded again and again, by
  overlapping uploads: the server never has two rows for it, and it has one when the phone learns that it
  was accepted.
\<close>

theorem offline_item_stored_once:
  assumes "phone_run message u K w ls w1" "ph_flushes w = Map.empty" "ph_stored w = []"
    and "k \<in> K" "items_of u k (ph_server w) = []"
    and accepted: "phone_step message u K w1 (Some (x, Accepted)) w2" "po_id x = k"
    and after: "phone_run message u K w2 ls' w3"
  shows "length (items_of u k (ph_server w2)) = 1 \<and> length (items_of u k (ph_server w3)) \<le> 1"
proof -
  have "keyed w" using assms(2,3) by (simp add: keyed_def copies_def)
  from once_run[OF assms(1) this assms(4)] assms(5)
  have w1: "keyed w1" "length (items_of u k (ph_server w1)) \<le> 1" by simp_all
  from once_step[OF accepted(1) w1(1) assms(4) w1(2)] accepted(2)
  have "length (items_of u k (ph_server w2)) = 1" by blast
  with once_run[OF after keyed_step[OF accepted(1) w1(1)] assms(4)] show ?thesis by simp
qed

subsection \<open>The queue drains\<close>

text \<open>\<open>n\<close> failed attempts are counted on everything stored, and one more on what the loop has passed.\<close>

definition progress :: "nat \<Rightarrow> pending_op list \<Rightarrow> pending_op list \<Rightarrow> bool" where
  "progress n todo s \<longleftrightarrow> (\<forall>x \<in> set s. (if po_id x \<in> po_id ` set todo then n \<le> po_attempts x else Suc n \<le> po_attempts x)
     \<and> (n \<ge> 4 \<longrightarrow> po_id x \<in> po_id ` set todo))"

definition online :: "env \<times> call \<Rightarrow> bool" where
  "online c \<longleftrightarrow> snd c \<notin> {Lost, Cut_off}"

lemma post_online: "online c \<Longrightarrow> post_op message u c x d = (d', r) \<Longrightarrow> r \<noteq> No_network"
  by (cases c; cases "snd c") (auto simp: online_def post_op_def api_reply_def split: prod.splits sum.splits)

lemma progress_round:
  assumes "flush_op x r s s = Some (s', q')" "progress n (x # todo) s" "n \<le> po_attempts x"
  shows "q' = s' \<and> progress n todo s'"
  using assms(1)
proof (cases rule: flush_op_cases)
  case dropped
  with assms(2) show ?thesis by (fastforce simp: progress_def removeInventoryOp_def split: if_splits)
next
  case counted
  with assms(2,3) show ?thesis by (fastforce simp: progress_def count_failure_def split: if_splits)
qed

lemma flush_loop_progress:
  assumes "\<forall>c \<in> set calls. online c" "length todo \<le> length calls" "\<forall>x \<in> set todo. n \<le> po_attempts x" "progress n todo s"
  shows "progress n [] (fst (flush_loop message u todo calls s s d))"
  using assms
proof (induction todo arbitrary: calls s d)
  case (Cons x todo)
  then obtain c calls' where c: "calls = c # calls'" by (cases calls) auto
  obtain d' r where post: "post_op message u c x d = (d', r)" by (cases "post_op message u c x d")
  have "r \<noteq> No_network" using post_online[OF _ post] Cons.prems(1) c by simp
  then have "flush_op x r s s \<noteq> None" by (cases r) (auto simp: flush_op_def Let_def)
  then obtain s' q' where op: "flush_op x r s s = Some (s', q')" by (metis option.exhaust surj_pair)
  from progress_round[OF op Cons.prems(4)] Cons.prems(3) have "q' = s'" "progress n todo s'" by simp_all
  with Cons.IH[of calls' s' d'] Cons.prems(1-3) post op c show ?case by simp
qed simp

lemma flush_progress:
  assumes "\<forall>c \<in> set calls. online c" "length (fst s) \<le> length calls" "\<forall>x \<in> set (fst s). n \<le> po_attempts x"
  shows "\<forall>x \<in> set (fst (flush message u calls s)). Suc n \<le> po_attempts x" "n \<ge> 4 \<Longrightarrow> fst (flush message u calls s) = []"
proof -
  have "progress n (fst s) (fst s)" using assms(3) by (auto simp: progress_def)
  from flush_loop_progress[OF assms this, of message u "snd s"]
  have p: "progress n [] (fst (flush message u calls s))" by (simp add: flush_def)
  from p show "\<forall>x \<in> set (fst (flush message u calls s)). Suc n \<le> po_attempts x" by (simp add: progress_def)
  assume "n \<ge> 4"
  with p show "fst (flush message u calls s) = []"
    by (cases "fst (flush message u calls s)") (auto simp: progress_def)
qed

lemma flush_loop_length: "length (fst (flush_loop message u todo calls s q d)) \<le> max (length s) (length q)"
proof (induction todo arbitrary: calls s q d)
  case (Cons x todo)
  show ?case
  proof (cases calls)
    case (Cons c calls')
    obtain d' r where post: "post_op message u c x d = (d', r)" by (cases "post_op message u c x d")
    show ?thesis
    proof (cases "flush_op x r s q")
      case (Some p)
      obtain s' q' where p: "p = (s', q')" by (cases p)
      have "length s' \<le> max (length s) (length q) \<and> q' = s'"
        using Some[unfolded p] by (cases rule: flush_op_cases) (auto simp: removeInventoryOp_def count_failure_def le_max_iff_disj)
      with Cons.IH[of calls' s' q' d'] Some p post \<open>calls = c # calls'\<close> show ?thesis by simp
    qed (simp add: \<open>calls = c # calls'\<close> post)
  qed simp
qed simp

lemma flush_length: "length (fst (flush message u calls s)) \<le> length (fst s)"
  using flush_loop_length[of message u "fst s" calls "fst s" "fst s" "snd s"] by (simp add: flush_def)

lemma flushes_progress:
  assumes "\<forall>calls \<in> set css. length (fst s) \<le> length calls \<and> (\<forall>c \<in> set calls. online c)"
    "\<forall>x \<in> set (fst s). n \<le> po_attempts x"
  shows "(\<forall>x \<in> set (fst (fold (flush message u) css s)). n + length css \<le> po_attempts x)
     \<and> (css \<noteq> [] \<longrightarrow> n + length css \<ge> 5 \<longrightarrow> fst (fold (flush message u) css s) = [])"
  using assms
proof (induction css arbitrary: s n)
  case (Cons calls css)
  let ?s = "flush message u calls s"
  have next_s: "\<forall>x \<in> set (fst ?s). Suc n \<le> po_attempts x" "n \<ge> 4 \<Longrightarrow> fst ?s = []"
    using flush_progress[of calls s n message u] Cons.prems by auto
  have "\<forall>calls \<in> set css. length (fst ?s) \<le> length calls \<and> (\<forall>c \<in> set calls. online c)"
    using Cons.prems(1) flush_length[of message u calls s] by (auto intro: order_trans)
  from Cons.IH[OF this next_s(1)] next_s(2) show ?case by (cases css) auto
qed simp


subsection \<open>A conflict is not a duplicate\<close>

text \<open>
  The loop takes the status 409 for "already created". The handler answers it when the event is over.
\<close>

text \<open>
  When an event is neither scheduled nor active any more, the upload of an item that was never stored is
  answered with 409, and the phone gives the item up at its first attempt, silently: the server is as before
  and the item is no longer in the queue.
\<close>

theorem conflict_drops_unsaved_item:
  assumes "resolveEvent d (Event_uuid (po_eventId x)) = Some event" "e_status event \<noteq> Active" "e_status event \<noteq> Scheduled"
    and "ai_idempotencyKey (po_body x) = Some (po_id x)" "items_of u (po_id x) d = []"
  shows "flush message u ((env, Answered) # calls) ([x], d) = ([], d)"
proof -
  have "find_item_by_key d u (po_id x) = None"
    using assms(5) by (auto simp: find_item_by_key_def items_of_def filter_empty_conv find_None_iff)
  then have "addInventory env u (po_eventId x) (po_body x) d = (d, [], Inl Event_not_active)"
    using assms(1-4) by (simp add: addInventory_def)
  then show ?thesis by (simp add: flush_def post_op_def api_reply_def flush_op_def removeInventoryOp_def Let_def handled_def)
qed

subsection \<open>Witnesses\<close>

definition sample_op :: pending_op where
  "sample_op = \<lparr>po_id = ''item-0001'', po_eventId = 3, po_body = sample_item, po_createdAt = 900,
     po_attempts = 0, po_lastError = None\<rparr>"

definition sample_phone :: phone where
  "sample_phone = \<lparr>ph_stored = [], ph_flushes = Map.empty, ph_server = sample_start\<rparr>"

lemma sample_op_ok: "well_formed_op sample_op" "ai_idempotencyKey (po_body sample_op) = Some (po_id sample_op)" "po_id sample_op = ''item-0001''"
  by (simp_all add: well_formed_op_def sample_op_def sample_item_def)


theorem conflict_drops_unsaved_item_witness:
  "flush (\<lambda>_. ''error'') 2 [(sample_env 1000, Answered)]
     ([sample_op], sample_start\<lparr>events := [sample_event\<lparr>e_status := Completed\<rparr>]\<rparr>)
   = ([], sample_start\<lparr>events := [sample_event\<lparr>e_status := Completed\<rparr>]\<rparr>)"
  by (rule conflict_drops_unsaved_item[where event = "sample_event\<lparr>e_status := Completed\<rparr>"])
     (simp_all add: sample_op_def sample_item_def sample_start_def sample_event_def empty_db_def items_of_def
       resolveEvent_def by_key_def)

text \<open>The first call is handled but its answer is lost; the upload after it is accepted.\<close>

definition sample_saved :: db where
  "sample_saved = fst (addInventory (sample_env 1000) 2 3 sample_item sample_start)"

lemma sample_saved_replay:
  "\<exists>v. addInventory (sample_env 9000) 2 3 sample_item sample_saved = (sample_saved, [], Inr v)"
proof -
  have "(case snd (snd (addInventory (sample_env 1000) 2 3 sample_item sample_start)) of Inl _ \<Rightarrow> False | Inr _ \<Rightarrow> True)"
    by code_simp
  then obtain es v where run: "addInventory (sample_env 1000) 2 3 sample_item sample_start = (sample_saved, es, Inr v)"
    by (cases "addInventory (sample_env 1000) 2 3 sample_item sample_start") (auto simp: sample_saved_def split: sum.splits)
  from addInventory_created[OF this, of "''item-0001''"] show ?thesis
    by (auto simp: addInventory_def sample_item_def)
qed

lemma sample_posts:
  "post_op (\<lambda>_. ''error'') 2 (sample_env 1000, Cut_off) sample_op sample_start = (sample_saved, No_network)"
  "post_op (\<lambda>_. ''error'') 2 (sample_env 9000, Answered) sample_op sample_saved = (sample_saved, Accepted)"
  using sample_saved_replay
  by (auto simp: post_op_def sample_saved_def api_reply_def handled_def sample_op_def split: prod.splits)

definition sample_queued :: phone where
  "sample_queued = \<lparr>ph_stored = [sample_op], ph_flushes = Map.empty, ph_server = sample_saved\<rparr>"

definition sample_uploading :: phone where
  "sample_uploading = sample_queued\<lparr>ph_flushes := [0 \<mapsto> ([sample_op], [sample_op])]\<rparr>"

definition sample_uploaded :: phone where
  "sample_uploaded = sample_queued\<lparr>ph_stored := [], ph_flushes := [0 \<mapsto> ([], [])]\<rparr>"

lemma sample_run:
  "phone_run (\<lambda>_. ''error'') 2 {''item-0001''} sample_phone [(sample_op, No_network)] sample_uploading"
  "phone_step (\<lambda>_. ''error'') 2 {''item-0001''} sample_queued None sample_uploading"
  "phone_step (\<lambda>_. ''error'') 2 {''item-0001''} sample_uploading (Some (sample_op, Accepted)) sample_uploaded"
proof -
  let ?step = "phone_step (\<lambda>_. ''error'') 2 {''item-0001''}" and ?run = "phone_run (\<lambda>_. ''error'') 2 {''item-0001''}"
  have "?step sample_phone (Some (sample_op, No_network)) sample_queued"
    using phone_step.submit[of sample_op "{''item-0001''}" "\<lambda>_. ''error''" 2 "(sample_env 1000, Cut_off)" sample_phone]
      sample_op_ok sample_posts(1) by (simp add: sample_phone_def sample_queued_def submit_op_def)
  from phone_run.seen[OF phone_run.stay this] have q: "?run sample_phone [(sample_op, No_network)] sample_queued" by simp
  show b: "?step sample_queued None sample_uploading"
    using phone_step.begin_flush[of sample_queued 0 "\<lambda>_. ''error''" 2 "{''item-0001''}"]
    by (simp add: sample_queued_def sample_uploading_def)
  show "?run sample_phone [(sample_op, No_network)] sample_uploading" by (rule phone_run.silent[OF q b])
  show "?step sample_uploading (Some (sample_op, Accepted)) sample_uploaded"
    using phone_step.round[of sample_uploading 0 sample_op "[]" "[sample_op]" "\<lambda>_. ''error''" 2 "(sample_env 9000, Answered)"
        sample_saved Accepted "[]" "[]" "{''item-0001''}"] sample_posts(2)
    by (simp add: sample_uploading_def sample_queued_def sample_uploaded_def flush_op_def removeInventoryOp_def)
qed

theorem offline_item_stored_once_witness:
  "length (items_of 2 ''item-0001'' (ph_server sample_uploaded)) = 1"
  using offline_item_stored_once[OF sample_run(1) _ _ _ _ sample_run(3) _ phone_run.stay, of "''item-0001''"] sample_op_ok
  by (simp add: sample_phone_def items_of_def sample_start_def empty_db_def)

theorem offline_item_waits_for_an_answer_witness:
  "\<exists>x. po_id x = ''item-0001'' \<and> (x, Accepted) \<in> set [(sample_op, Accepted)]"
proof -
  have run: "phone_run (\<lambda>_. ''error'') 2 {''item-0001''} sample_queued [(sample_op, Accepted)] sample_uploaded"
    using phone_run.seen[OF phone_run.silent[OF phone_run.stay sample_run(2)] sample_run(3)] by simp
  show ?thesis
    using offline_item_waits_for_an_answer[OF run, of "''item-0001''" 0] sample_op_ok
    by (simp add: sample_queued_def sample_uploaded_def refusals_def is_refused_def sample_op_def)
qed

subsection \<open>Why no upload may be running\<close>

text \<open>
  An item that is queued while an upload runs can be lost without any answer: a failed attempt writes the
  loop's copy of the queue, which was read before.
\<close>

definition other_op :: pending_op where
  "other_op = sample_op\<lparr>po_id := ''item-0002'', po_body := sample_item\<lparr>ai_idempotencyKey := Some ''item-0002''\<rparr>\<rparr>"

lemma queued_during_upload_lost:
  "\<exists>w. phone_run (\<lambda>_. ''error'') 2 UNIV sample_uploading [(other_op, No_network), (sample_op, Refused (Some 400) ''bad'')] w
     \<and> other_op \<notin> set (ph_stored w) \<and> length (ph_stored w) = 1"
proof -
  let ?step = "phone_step (\<lambda>_. ''error'') 2 UNIV" and ?run = "phone_run (\<lambda>_. ''error'') 2 UNIV"
  let ?w1 = "sample_uploading\<lparr>ph_stored := [sample_op, other_op]\<rparr>"
  let ?failed = "[sample_op\<lparr>po_attempts := 1, po_lastError := Some ''bad''\<rparr>]"
  let ?w2 = "?w1\<lparr>ph_stored := ?failed, ph_flushes := (ph_flushes sample_uploading)(0 \<mapsto> ([], ?failed))\<rparr>"
  have p: "post_op (\<lambda>_. ''error'') 2 (sample_env 1000, Lost) other_op sample_saved = (sample_saved, No_network)"
    "post_op (\<lambda>_. ''error'') 2 (sample_env 1000, Turned_away 400 ''bad'') sample_op sample_saved = (sample_saved, Refused (Some 400) ''bad'')"
    by (auto simp: post_op_def api_reply_def handled_def split: prod.splits)
  have "?step sample_uploading (Some (other_op, No_network)) ?w1"
    using phone_step.submit[of other_op UNIV "\<lambda>_. ''error''" 2 "(sample_env 1000, Lost)" sample_uploading] p(1)
    by (simp add: well_formed_op_def other_op_def sample_op_def sample_uploading_def sample_queued_def submit_op_def)
  from phone_run.seen[OF phone_run.stay this] have r1: "?run sample_uploading [(other_op, No_network)] ?w1" by simp
  have "?step ?w1 (Some (sample_op, Refused (Some 400) ''bad'')) ?w2"
    using phone_step.round[of ?w1 0 sample_op "[]" "[sample_op]" "\<lambda>_. ''error''" 2 "(sample_env 1000, Turned_away 400 ''bad'')"
        sample_saved "Refused (Some 400) ''bad''" ?failed ?failed UNIV] p(2)
    by (simp add: sample_uploading_def sample_queued_def flush_op_def sample_op_def Let_def)
  from phone_run.seen[OF r1 this] have "?run sample_uploading [(other_op, No_network), (sample_op, Refused (Some 400) ''bad'')] ?w2" by simp
  moreover have "other_op \<notin> set ?failed" by (simp add: other_op_def sample_op_def)
  ultimately show ?thesis by (intro exI[of _ ?w2]) simp
qed

end
