(* ===== verification/Device_State.thy ===== *)
theory Device_State
  imports Offline_Queue Realtime_Clients
begin

text \<open>
  What a phone keeps of an account: \<open>apps/mobile/src/storage.ts\<close>, \<open>auth.tsx\<close>, \<open>activeEvent.tsx\<close>,
  \<open>attendancePrompt.ts\<close>, \<open>matchFoundSeen.ts\<close>, and the joined events of the web client
  (\<open>apps/web/src/lib/storage.ts\<close>). The key-value store and the secure store are maps; their writes are
  best effort in the code and succeed here.
\<close>

subsection \<open>The store\<close>

record joined_event =
  je_id :: uid
  je_code :: string
  je_title :: utext

datatype stored = Text string | Uuid uid | Joined "joined_event list" | Queue "pending_op list"

record handset =
  dv_storage :: "string \<rightharpoonup> stored"
  dv_secure :: "string option"           \<comment> \<open>\<open>SecureStore\<close>: the session token\<close>
  dv_token :: "string option"
  dv_me :: "uid option"
  dv_joined :: "joined_event list"       \<comment> \<open>the state of the mounted \<open>ActiveEventProvider\<close>\<close>
  dv_activeEventId :: "uid option"

definition K_locale :: string where "K_locale = ''sahay.locale''"
definition K_lastEventId :: string where "K_lastEventId = ''sahay.lastEventId''"
definition K_joinedEvents :: string where "K_joinedEvents = ''sahay.joinedEvents''"
definition K_pendingInventory :: string where "K_pendingInventory = ''sahay.pendingInventory''"
definition K_lastUserId :: string where "K_lastUserId = ''sahay.lastUserId''"
definition SEEN_KEY :: string where "SEEN_KEY = ''sahay.permissionsPrompted.v1''"

lemmas key_defs = K_locale_def K_lastEventId_def K_joinedEvents_def K_pendingInventory_def K_lastUserId_def SEEN_KEY_def

definition account_scoped :: "string \<Rightarrow> bool" where
  "account_scoped k \<longleftrightarrow> prefix ''sahay.'' k \<and> k \<noteq> K_locale \<and> k \<noteq> SEEN_KEY"

definition clearAccountScopedState :: "(string \<rightharpoonup> stored) \<Rightarrow> (string \<rightharpoonup> stored)" where
  "clearAccountScopedState st = (\<lambda>k. if account_scoped k then None else st k)"

definition getJoinedEvents :: "(string \<rightharpoonup> stored) \<Rightarrow> joined_event list" where
  "getJoinedEvents st = (case st K_joinedEvents of Some (Joined es) \<Rightarrow> es | _ \<Rightarrow> [])"

definition rememberJoinedEvent :: "joined_event \<Rightarrow> (string \<rightharpoonup> stored) \<Rightarrow> (string \<rightharpoonup> stored)" where
  "rememberJoinedEvent ev st =
     st(K_joinedEvents \<mapsto> Joined (take 20 (ev # filter (\<lambda>e. je_id e \<noteq> je_id ev) (getJoinedEvents st))))"

definition forgetJoinedEvent :: "uid \<Rightarrow> (string \<rightharpoonup> stored) \<Rightarrow> (string \<rightharpoonup> stored)" where
  "forgetJoinedEvent k st = st(K_joinedEvents \<mapsto> Joined (filter (\<lambda>e. je_id e \<noteq> k) (getJoinedEvents st)))"

subsection \<open>Signing in and out\<close>

definition signIn :: "string \<Rightarrow> uid \<Rightarrow> handset \<Rightarrow> handset" where
  "signIn token user dv =
     (let previous = dv_storage dv K_lastUserId;
          st = (if previous \<noteq> None \<and> previous \<noteq> Some (Uuid user) then clearAccountScopedState (dv_storage dv) else dv_storage dv)
      in dv\<lparr>dv_storage := st(K_lastUserId \<mapsto> Uuid user), dv_secure := Some token, dv_token := Some token, dv_me := Some user\<rparr>)"

text \<open>The second component is the session token that the server is asked to revoke.\<close>

definition signOut :: "bool \<Rightarrow> handset \<Rightarrow> handset \<times> string option" where
  "signOut revokeServerSession dv =
     (dv\<lparr>dv_secure := None, dv_storage := clearAccountScopedState (dv_storage dv), dv_token := None, dv_me := None\<rparr>,
      if revokeServerSession then dv_token dv else None)"

text \<open>Starting the app: the stored token is tried; only the status 401 drops it.\<close>

definition start_auth :: "uid + nat \<Rightarrow> handset \<Rightarrow> handset" where
  "start_auth me dv = (case dv_secure dv of
     None \<Rightarrow> dv\<lparr>dv_token := None, dv_me := None\<rparr>
   | Some token \<Rightarrow> (case me of
       Inl u \<Rightarrow> dv\<lparr>dv_token := Some token, dv_me := Some u\<rparr>
     | Inr status \<Rightarrow> if status = 401 then dv\<lparr>dv_secure := None, dv_token := None, dv_me := None\<rparr>
         else dv\<lparr>dv_token := Some token, dv_me := None\<rparr>))"

definition start_events :: "handset \<Rightarrow> handset" where
  "start_events dv =
     (let es = getJoinedEvents (dv_storage dv);
          active = (case dv_storage dv K_lastEventId of
             Some (Uuid k) \<Rightarrow> if k \<in> je_id ` set es then Some k else (case es of [] \<Rightarrow> None | e # _ \<Rightarrow> Some (je_id e))
           | _ \<Rightarrow> (case es of [] \<Rightarrow> None | e # _ \<Rightarrow> Some (je_id e)))
      in dv\<lparr>dv_joined := es, dv_activeEventId := active\<rparr>)"

subsection \<open>Joined events and the active one\<close>

definition setActiveEventId :: "uid option \<Rightarrow> handset \<Rightarrow> handset" where
  "setActiveEventId k dv = dv\<lparr>dv_activeEventId := k,
     dv_storage := (dv_storage dv)(K_lastEventId := map_option Uuid k)\<rparr>"

definition addJoined :: "joined_event \<Rightarrow> handset \<Rightarrow> handset" where
  "addJoined ev dv =
     (let st = rememberJoinedEvent ev (dv_storage dv)
      in setActiveEventId (Some (je_id ev)) (dv\<lparr>dv_storage := st, dv_joined := getJoinedEvents st\<rparr>))"

definition removeJoined :: "uid \<Rightarrow> handset \<Rightarrow> handset" where
  "removeJoined k dv =
     (let st = forgetJoinedEvent k (dv_storage dv); es = getJoinedEvents st; dv1 = dv\<lparr>dv_storage := st, dv_joined := es\<rparr>
      in if dv_activeEventId dv = Some k
         then setActiveEventId (case es of [] \<Rightarrow> None | e # _ \<Rightarrow> Some (je_id e)) dv1 else dv1)"

subsection \<open>Small marks\<close>

definition attendance_key :: "string \<Rightarrow> string" where
  "attendance_key eventId = ''sahay.attendanceAnswered.'' @ eventId"

text \<open>\<open>day\<close> is the local calendar day of an instant as \<open>localDayStamp\<close> prints it.\<close>

definition markAttendanceAnswered :: "(instant \<Rightarrow> string) \<Rightarrow> string \<Rightarrow> instant \<Rightarrow> handset \<Rightarrow> handset" where
  "markAttendanceAnswered day eventId t dv =
     dv\<lparr>dv_storage := (dv_storage dv)(attendance_key eventId \<mapsto> Text (day t))\<rparr>"

definition answeredToday :: "(instant \<Rightarrow> string) \<Rightarrow> string \<Rightarrow> instant \<Rightarrow> handset \<Rightarrow> bool" where
  "answeredToday day eventId t dv \<longleftrightarrow> dv_storage dv (attendance_key eventId) = Some (Text (day t))"

text \<open>\<open>endOfToday\<close>: the last millisecond of the local day of an instant.\<close>

definition happeningToday :: "(instant \<Rightarrow> instant) \<Rightarrow> instant \<Rightarrow> instant \<Rightarrow> instant \<Rightarrow> bool" where
  "happeningToday endOfToday startsAt endsAt t \<longleftrightarrow> \<not> endsAt \<le> t \<and> startsAt \<le> endOfToday t"

definition shouldAskAttendance ::
  "(instant \<Rightarrow> string) \<Rightarrow> (instant \<Rightarrow> instant) \<Rightarrow> string \<Rightarrow> instant \<Rightarrow> instant \<Rightarrow> instant \<Rightarrow> handset \<Rightarrow> bool" where
  "shouldAskAttendance day endOfToday eventId startsAt endsAt t dv \<longleftrightarrow>
     happeningToday endOfToday startsAt endsAt t \<and> \<not> answeredToday day eventId t dv"

definition match_seen_key :: "string \<Rightarrow> string" where
  "match_seen_key matchId = ''sahay.matchFoundSeen.'' @ matchId"

definition hasSeenMatchFound :: "string \<Rightarrow> handset \<Rightarrow> bool" where
  "hasSeenMatchFound matchId dv \<longleftrightarrow> dv_storage dv (match_seen_key matchId) = Some (Text ''1'')"

definition markMatchFoundSeen :: "string \<Rightarrow> handset \<Rightarrow> handset" where
  "markMatchFoundSeen matchId dv = dv\<lparr>dv_storage := (dv_storage dv)(match_seen_key matchId \<mapsto> Text ''1'')\<rparr>"

subsection \<open>The web client's store\<close>

record web_store =
  ws_joined :: "joined_event list"
  ws_active :: "uid option"

definition web_remember :: "joined_event \<Rightarrow> web_store \<Rightarrow> web_store" where
  "web_remember ev s = s\<lparr>ws_joined := take 10 (ev # filter (\<lambda>x. je_id x \<noteq> je_id ev) (ws_joined s)), ws_active := Some (je_id ev)\<rparr>"

definition web_activeEventId :: "web_store \<Rightarrow> uid option" where
  "web_activeEventId s = (case ws_active s of
     Some k \<Rightarrow> if k \<in> je_id ` set (ws_joined s) then Some k else map_option je_id (if ws_joined s = [] then None else Some (hd (ws_joined s)))
   | None \<Rightarrow> map_option je_id (if ws_joined s = [] then None else Some (hd (ws_joined s))))"

definition web_forget :: "uid \<Rightarrow> web_store \<Rightarrow> web_store" where
  "web_forget k s =
     (let s1 = s\<lparr>ws_joined := filter (\<lambda>x. je_id x \<noteq> k) (ws_joined s)\<rparr>
      in if web_activeEventId s1 = Some k
         then s1\<lparr>ws_active := (if ws_joined s1 = [] then None else Some (je_id (hd (ws_joined s1))))\<rparr> else s1)"

subsection \<open>Whose state it is\<close>

text \<open>
  What can happen on a phone. While somebody is signed in, the screens write keys of their own; nothing but
  signing in writes the owner of the state.
\<close>

inductive device_step :: "handset \<Rightarrow> handset \<Rightarrow> bool" where
  signs_in: "device_step dv (signIn token user dv)"
| signs_out: "device_step dv (fst (signOut revoke dv))"
| starts_up: "device_step dv (start_events (start_auth me dv))"
| joins: "dv_token dv \<noteq> None \<Longrightarrow> device_step dv (addJoined ev dv)"
| leaves: "dv_token dv \<noteq> None \<Longrightarrow> device_step dv (removeJoined k dv)"
| selects: "dv_token dv \<noteq> None \<Longrightarrow> device_step dv (setActiveEventId k' dv)"
| answers: "dv_token dv \<noteq> None \<Longrightarrow> device_step dv (markAttendanceAnswered day eventId t dv)"
| sees_match: "dv_token dv \<noteq> None \<Longrightarrow> device_step dv (markMatchFoundSeen matchId dv)"
| writes: "dv_token dv \<noteq> None \<Longrightarrow> key \<noteq> K_lastUserId \<Longrightarrow> device_step dv (dv\<lparr>dv_storage := (dv_storage dv)(key := v)\<rparr>)"
| prefers: "key \<in> {K_locale, SEEN_KEY} \<Longrightarrow> device_step dv (dv\<lparr>dv_storage := (dv_storage dv)(key := v)\<rparr>)"

definition fresh_device :: "handset \<Rightarrow> bool" where
  "fresh_device dv \<longleftrightarrow> dv_secure dv = None \<and> dv_token dv = None \<and> (\<forall>k. account_scoped k \<longrightarrow> dv_storage dv k = None)"

definition owned :: "handset \<Rightarrow> bool" where
  "owned dv \<longleftrightarrow> (dv_storage dv K_lastUserId = None \<longrightarrow>
     dv_secure dv = None \<and> dv_token dv = None \<and> (\<forall>k. account_scoped k \<longrightarrow> dv_storage dv k = None))"

lemma scoped_keys [simp]:
  "account_scoped K_lastUserId" "\<not> account_scoped K_locale" "\<not> account_scoped SEEN_KEY"
  "K_lastEventId \<noteq> K_lastUserId" "K_joinedEvents \<noteq> K_lastUserId" "K_locale \<noteq> K_lastUserId" "SEEN_KEY \<noteq> K_lastUserId"
  "K_lastUserId \<noteq> K_lastEventId" "K_lastUserId \<noteq> K_joinedEvents" "K_lastUserId \<noteq> K_locale" "K_lastUserId \<noteq> SEEN_KEY"
  "K_lastUserId \<noteq> attendance_key e" "K_lastUserId \<noteq> match_seen_key m"
  "attendance_key e \<noteq> K_lastUserId" "match_seen_key m \<noteq> K_lastUserId" "K_lastEventId \<noteq> K_joinedEvents" "K_joinedEvents \<noteq> K_lastEventId"
  by (simp_all add: account_scoped_def key_defs attendance_key_def match_seen_key_def)

lemma owned_step: "device_step dv dv' \<Longrightarrow> owned dv \<Longrightarrow> owned dv'"
proof (induction rule: device_step.induct)
  case (signs_in dv token user)
  show ?case by (simp add: owned_def signIn_def Let_def)
next
  case (signs_out dv revoke)
  then show ?case by (auto simp: owned_def signOut_def clearAccountScopedState_def)
next
  case (starts_up dv me)
  have "dv_storage (start_events (start_auth me dv)) = dv_storage dv"
    "dv_secure dv = None \<Longrightarrow> dv_secure (start_events (start_auth me dv)) = None \<and> dv_token (start_events (start_auth me dv)) = None"
    by (auto simp: start_events_def start_auth_def Let_def split: option.split sum.split)
  with starts_up show ?case by (simp add: owned_def)
qed (auto simp: owned_def addJoined_def removeJoined_def setActiveEventId_def rememberJoinedEvent_def forgetJoinedEvent_def
      markAttendanceAnswered_def markMatchFoundSeen_def Let_def)

lemma owned_run: "device_step\<^sup>*\<^sup>* dv dv' \<Longrightarrow> fresh_device dv \<Longrightarrow> owned dv'"
proof (induction rule: rtranclp_induct)
  case base
  then show ?case by (simp add: owned_def fresh_device_def)
qed (auto dest: owned_step)

text \<open>
  Nobody finds another account's state in a phone's store. Whatever happened on a phone that started
  clean, signing out leaves neither a token nor any account key, and signing in leaves, of the account
  keys, only the new owner's id, unless the state was this account's own, which is then kept. Language
  and the permission prompt always survive.
\<close>

theorem stored_state_changes_hands_clean:
  assumes "fresh_device dv0" "device_step\<^sup>*\<^sup>* dv0 dv"
  shows "dv_storage (fst (signOut b dv)) = (\<lambda>k. if account_scoped k then None else dv_storage dv k)
      \<and> dv_secure (fst (signOut b dv)) = None \<and> dv_token (fst (signOut b dv)) = None
    \<and> dv_storage (signIn token u dv)
      = (if dv_storage dv K_lastUserId = Some (Uuid u) then dv_storage dv
         else (\<lambda>k. if k = K_lastUserId then Some (Uuid u) else if account_scoped k then None else dv_storage dv k))
    \<and> dv_secure (signIn token u dv) = Some token"
proof -
  have own: "owned dv" using owned_run[OF assms(2,1)] .
  have "dv_storage (signIn token u dv)
      = (if dv_storage dv K_lastUserId = Some (Uuid u) then dv_storage dv
         else (\<lambda>k. if k = K_lastUserId then Some (Uuid u) else if account_scoped k then None else dv_storage dv k))"
    using own by (intro ext) (auto simp: signIn_def clearAccountScopedState_def owned_def Let_def)
  then show ?thesis
    by (simp add: signOut_def clearAccountScopedState_def signIn_def Let_def)
qed

text \<open>The mounted screens are another matter: what the previous account joined stays in memory.\<close>

lemma memory_outlives_sign_out:
  "dv_joined (signIn token u (fst (signOut b dv))) = dv_joined dv"
  "dv_activeEventId (signIn token u (fst (signOut b dv))) = dv_activeEventId dv"
  by (simp_all add: signIn_def signOut_def Let_def)

subsection \<open>The joined events\<close>

definition joined_ok :: "handset \<Rightarrow> bool" where
  "joined_ok dv \<longleftrightarrow> dv_joined dv = getJoinedEvents (dv_storage dv) \<and> distinct (map je_id (dv_joined dv))
     \<and> length (dv_joined dv) \<le> 20 \<and> (\<forall>k. dv_activeEventId dv = Some k \<longrightarrow> k \<in> je_id ` set (dv_joined dv))"

lemma distinct_map_take: "distinct (map f xs) \<Longrightarrow> distinct (map f (take n xs))"
  by (simp add: take_map distinct_take flip: take_map)

lemma getJoined_write [simp]: "getJoinedEvents (st(K_joinedEvents \<mapsto> Joined es)) = es"
  "getJoinedEvents ((st(K_joinedEvents \<mapsto> Joined es))(K_lastEventId := v)) = es"
  by (simp_all add: getJoinedEvents_def)

datatype joined_op = Join joined_event | Leave uid

fun joined_exec :: "joined_op \<Rightarrow> handset \<Rightarrow> handset" where
  "joined_exec (Join ev) dv = addJoined ev dv"
| "joined_exec (Leave k) dv = removeJoined k dv"

lemma joined_exec_ok: "joined_ok dv \<Longrightarrow> joined_ok (joined_exec x dv)"
proof (cases x)
  case (Join ev)
  assume ok: "joined_ok dv"
  let ?es = "ev # filter (\<lambda>e. je_id e \<noteq> je_id ev) (getJoinedEvents (dv_storage dv))"
  have "distinct (map je_id ?es)" using ok by (auto simp: joined_ok_def distinct_map_filter)
  then have "distinct (map je_id (take 20 ?es))" by (rule distinct_map_take)
  then show ?thesis
    by (simp add: Join joined_ok_def addJoined_def setActiveEventId_def rememberJoinedEvent_def Let_def)
next
  case (Leave k)
  assume ok: "joined_ok dv"
  let ?es = "filter (\<lambda>e. je_id e \<noteq> k) (getJoinedEvents (dv_storage dv))"
  have d: "distinct (map je_id ?es)" "length ?es \<le> 20"
    using ok by (auto simp: joined_ok_def distinct_map_filter intro: order_trans[OF length_filter_le])
  have "j \<in> je_id ` set ?es" if "dv_activeEventId dv = Some j" "j \<noteq> k" for j
    using ok that by (fastforce simp: joined_ok_def)
  moreover have "dv_activeEventId dv = None" if "?es = []" "dv_activeEventId dv \<noteq> Some k"
    using calculation that by (cases "dv_activeEventId dv") auto
  ultimately show ?thesis using d
    by (cases ?es) (auto simp: Leave joined_ok_def removeJoined_def setActiveEventId_def forgetJoinedEvent_def Let_def)
qed

lemma start_events_ok:
  "joined_ok dv \<Longrightarrow> dv_storage dv' = dv_storage dv \<Longrightarrow> joined_ok (start_events dv')"
  by (auto simp: joined_ok_def start_events_def Let_def split: option.split stored.split list.split if_splits)

text \<open>
  The list of joined events holds each event once, at most 20, the last one joined first; memory and store
  agree, the active event is always one of the list, and restarting the app finds the same list.
\<close>

theorem joined_events_consistent:
  assumes "joined_ok dv"
  shows "joined_ok (fold joined_exec ops dv) \<and> hd (dv_joined (addJoined ev (fold joined_exec ops dv))) = ev \<and> dv_activeEventId (addJoined ev (fold joined_exec ops dv)) = Some (je_id ev)
    \<and> je_id ` set (dv_joined (removeJoined k (fold joined_exec ops dv))) = je_id ` set (dv_joined (fold joined_exec ops dv)) - {k}
    \<and> joined_ok (start_events (fold joined_exec ops dv)) \<and> dv_joined (start_events (fold joined_exec ops dv)) = dv_joined (fold joined_exec ops dv)"
proof -
  have ok: "joined_ok (fold joined_exec ops dv)" using assms(1)
    by (induction ops arbitrary: dv) (simp_all add: joined_exec_ok)
  have "dv_joined (removeJoined k (fold joined_exec ops dv)) = filter (\<lambda>e. je_id e \<noteq> k) (dv_joined (fold joined_exec ops dv))"
    using ok by (simp add: joined_ok_def removeJoined_def setActiveEventId_def forgetJoinedEvent_def Let_def split: if_splits)
  then have "je_id ` set (dv_joined (removeJoined k (fold joined_exec ops dv))) = je_id ` set (dv_joined (fold joined_exec ops dv)) - {k}" by auto
  moreover have "dv_joined (start_events (fold joined_exec ops dv)) = dv_joined (fold joined_exec ops dv)" using ok by (simp add: joined_ok_def start_events_def Let_def)
  ultimately show ?thesis
    using ok start_events_ok[OF ok, of "fold joined_exec ops dv"]
    by (simp add: addJoined_def setActiveEventId_def rememberJoinedEvent_def Let_def)
qed

subsection \<open>The web client's active event\<close>

lemma web_active_joined: "web_activeEventId s = Some k \<Longrightarrow> k \<in> je_id ` set (ws_joined s)"
  by (auto simp: web_activeEventId_def split: option.splits if_splits)

text \<open>The branch of \<open>forgetJoinedEvent\<close> that moves the active event is never taken: the list is written first.\<close>

lemma web_forget_keeps_active: "ws_active (web_forget k s) = ws_active s"
proof -
  have "web_activeEventId (s\<lparr>ws_joined := filter (\<lambda>x. je_id x \<noteq> k) (ws_joined s)\<rparr>) \<noteq> Some k"
    using web_active_joined[of "s\<lparr>ws_joined := filter (\<lambda>x. je_id x \<noteq> k) (ws_joined s)\<rparr>" k] by auto
  then show ?thesis by (simp add: web_forget_def Let_def)
qed

subsection \<open>Asking once a day\<close>

lemma asked_once_a_day:
  "day t' = day t \<Longrightarrow> \<not> shouldAskAttendance day endOfToday eventId s e t' (markAttendanceAnswered day eventId t dv)"
  by (simp add: shouldAskAttendance_def answeredToday_def markAttendanceAnswered_def)

lemma asked_again_after_sign_out:
  "happeningToday endOfToday s e t \<Longrightarrow> shouldAskAttendance day endOfToday eventId s e t (fst (signOut b dv))"
  by (simp add: shouldAskAttendance_def answeredToday_def signOut_def clearAccountScopedState_def account_scoped_def
      attendance_key_def key_defs)

subsection \<open>Witnesses\<close>

definition sample_device :: handset where
  "sample_device = \<lparr>dv_storage = [K_locale \<mapsto> Text ''hi''], dv_secure = None, dv_token = None, dv_me = None, dv_joined = [],
     dv_activeEventId = None\<rparr>"

lemma sample_device_fresh: "fresh_device sample_device"
  by (auto simp: fresh_device_def sample_device_def)

theorem stored_state_changes_hands_clean_witness:
  "dv_storage (signIn ''t2'' 2 (addJoined \<lparr>je_id = 3, je_code = ''ABCD'', je_title = []\<rparr> (signIn ''t1'' 1 sample_device)))
     = [K_locale \<mapsto> Text ''hi'', K_lastUserId \<mapsto> Uuid 2]"
proof -
  let ?ev = "\<lparr>je_id = 3, je_code = ''ABCD'', je_title = []\<rparr> :: joined_event"
  let ?dv = "addJoined ?ev (signIn ''t1'' 1 sample_device)"
  have "device_step (signIn ''t1'' 1 sample_device) ?dv" by (rule device_step.joins) (simp add: signIn_def Let_def)
  then have run: "device_step\<^sup>*\<^sup>* sample_device ?dv"
    by (meson device_step.signs_in rtranclp.rtrancl_into_rtrancl rtranclp.rtrancl_refl)
  have owner: "dv_storage ?dv K_lastUserId = Some (Uuid 1)"
    by (simp add: addJoined_def setActiveEventId_def rememberJoinedEvent_def signIn_def Let_def)
  have kept: "dv_storage ?dv k = [K_locale \<mapsto> Text ''hi''] k" if "\<not> account_scoped k" for k
    using that by (auto simp: addJoined_def setActiveEventId_def rememberJoinedEvent_def signIn_def sample_device_def Let_def
        clearAccountScopedState_def account_scoped_def key_defs)
  have "dv_storage (signIn ''t2'' 2 ?dv) = (\<lambda>k. if k = K_lastUserId then Some (Uuid 2) else if account_scoped k then None else dv_storage ?dv k)"
    using stored_state_changes_hands_clean[OF sample_device_fresh run, of False "''t2''" 2] owner by simp
  also have "\<dots> = [K_locale \<mapsto> Text ''hi'', K_lastUserId \<mapsto> Uuid 2]"
    by (intro ext) (auto simp: kept simp del: One_nat_def)
  finally show ?thesis .
qed

theorem joined_events_consistent_witness:
  "dv_activeEventId (addJoined \<lparr>je_id = 3, je_code = ''ABCD'', je_title = []\<rparr> sample_device) = Some 3"
proof -
  have "joined_ok sample_device" by (simp add: joined_ok_def sample_device_def getJoinedEvents_def key_defs)
  from joined_events_consistent[OF this, of "[]" "\<lparr>je_id = 3, je_code = ''ABCD'', je_title = []\<rparr>" 0] show ?thesis by simp
qed

end
