(* ===== verification/Configuration.thy ===== *)
theory Configuration
  imports Accounts
begin

text \<open>
  \<open>server/src/config.ts\<close>: the configuration read from the environment of the process, and what a production
  process refuses. The checks of zod for URLs and addresses and the conversion \<open>Number(..)\<close> are
  parameters, the latter \<open>None\<close> for NaN.
\<close>

subsection \<open>Schema\<close>

type_synonym process_env = "string \<rightharpoonup> utext"

record zod_checks =
  zc_url :: "utext \<Rightarrow> bool"
  zc_email :: "utext \<Rightarrow> bool"
  zc_number :: "utext \<Rightarrow> rat option"

datatype node_env = Development | Test_env | Production
datatype ssl_mode = Ssl_off | Ssl_require | Ssl_verify
datatype email_provider = Console_email | Resend_email
datatype push_setting = Console_push_setting | Expo_push_setting

record config = otp_config +
  NODE_ENV :: node_env
  PORT :: rat
  HOST :: utext
  DATABASE_URL :: utext
  DATABASE_SSL :: ssl_mode
  DATABASE_POOL_MAX :: rat
  REDIS_URL :: utext
  PII_ENCRYPTION_KEY :: utext
  IDENTITY_HMAC_KEY :: utext
  EMAIL_PROVIDER :: email_provider
  RESEND_API_KEY :: "utext option"
  RESEND_FROM :: "utext option"
  PUSH_PROVIDER :: push_setting
  VAPID_PUBLIC_KEY :: "utext option"
  VAPID_PRIVATE_KEY :: "utext option"
  VAPID_SUBJECT :: "utext option"
  WEB_ORIGIN :: utext
  SCRYPT_COST_LOG2 :: rat
  OFFER_RESPONSE_SECONDS :: rat
  CONFIG_LOCATION_TTL_MINUTES :: rat

text \<open>
  A field of the schema: \<open>None\<close> is an issue. \<open>z.enum\<close>, \<open>z.string().optional()\<close>, \<open>.default(..)\<close> and
  \<open>z.coerce.number()\<close>; a coerced number without default does not occur.
\<close>

definition defaulted :: "(utext \<Rightarrow> 'a option) \<Rightarrow> 'a \<Rightarrow> process_env \<Rightarrow> string \<Rightarrow> 'a option" where
  "defaulted p dflt e name = (case e name of None \<Rightarrow> Some dflt | Some s \<Rightarrow> p s)"

definition required :: "(utext \<Rightarrow> 'a option) \<Rightarrow> process_env \<Rightarrow> string \<Rightarrow> 'a option" where
  "required p e name = Option.bind (e name) p"

definition optional :: "(utext \<Rightarrow> 'a option) \<Rightarrow> process_env \<Rightarrow> string \<Rightarrow> 'a option option" where
  "optional p e name = (case e name of None \<Rightarrow> Some None | Some s \<Rightarrow> map_option Some (p s))"

definition z_enum :: "(string \<times> 'a) list \<Rightarrow> utext \<Rightarrow> 'a option" where
  "z_enum alternatives s = map_of (map (\<lambda>(n, v). (lit n, v)) alternatives) s"

definition such_that :: "('a \<Rightarrow> bool) \<Rightarrow> 'a \<Rightarrow> 'a option" where
  "such_that p v = (if p v then Some v else None)"

definition z_int :: "zod_checks \<Rightarrow> rat \<Rightarrow> rat \<Rightarrow> utext \<Rightarrow> rat option" where
  "z_int x a b s = Option.bind (zc_number x s) (such_that (\<lambda>n. is_integer n \<and> a \<le> n \<and> n \<le> b))"

definition hex_key :: "utext \<Rightarrow> bool" where
  "hex_key s \<longleftrightarrow> length s = 64 \<and> list_all (\<lambda>c. (48 \<le> c \<and> c \<le> 57) \<or> (97 \<le> c \<and> c \<le> 102)) s"

definition six_digits :: "utext \<Rightarrow> string option" where
  "six_digits s = (if length s = 6 \<and> list_all (\<lambda>c. 48 \<le> c \<and> c \<le> 57) s then Some (map char_of s) else None)"

text \<open>The fields with an issue, in the order of the schema, or the configuration.\<close>

definition issue :: "string \<Rightarrow> 'a option \<Rightarrow> string list" where
  "issue name v = (if v = None then [name] else [])"

definition zConfig :: "zod_checks \<Rightarrow> process_env \<Rightarrow> string list + config" where
  "zConfig x e =
     (let node = defaulted (z_enum [(''development'', Development), (''test'', Test_env), (''production'', Production)])
            Development e ''NODE_ENV'';
          port = defaulted (zc_number x) 4000 e ''PORT'';
          host = defaulted Some (lit ''0.0.0.0'') e ''HOST'';
          db_url = required (such_that (zc_url x)) e ''DATABASE_URL'';
          ssl = defaulted (z_enum [(''off'', Ssl_off), (''require'', Ssl_require), (''verify'', Ssl_verify)])
            Ssl_off e ''DATABASE_SSL'';
          pool = defaulted (z_int x 1 100) 20 e ''DATABASE_POOL_MAX'';
          redis = defaulted (such_that (zc_url x)) (lit ''redis://localhost:6379'') e ''REDIS_URL'';
          pii = required (such_that hex_key) e ''PII_ENCRYPTION_KEY'';
          identity = required (such_that hex_key) e ''IDENTITY_HMAC_KEY'';
          email = defaulted (z_enum [(''console'', Console_email), (''resend'', Resend_email)]) Console_email e ''EMAIL_PROVIDER'';
          api_key = optional Some e ''RESEND_API_KEY'';
          resend_from = optional Some e ''RESEND_FROM'';
          push = defaulted (z_enum [(''console'', Console_push_setting), (''expo'', Expo_push_setting)])
            Console_push_setting e ''PUSH_PROVIDER'';
          vapid_public = optional Some e ''VAPID_PUBLIC_KEY'';
          vapid_private = optional Some e ''VAPID_PRIVATE_KEY'';
          vapid_subject = optional Some e ''VAPID_SUBJECT'';
          origin = defaulted Some (lit ''http://localhost:5173'') e ''WEB_ORIGIN'';
          cost = defaulted (z_int x 14 20) 16 e ''SCRYPT_COST_LOG2'';
          offer_seconds = defaulted (zc_number x) 45 e ''OFFER_RESPONSE_SECONDS'';
          ttl = defaulted (zc_number x) 15 e ''LOCATION_TTL_MINUTES'';
          fixed = optional six_digits e ''TEST_FIXED_OTP'';
          reviewer = optional (such_that (zc_email x)) e ''REVIEWER_EMAIL'';
          reviewer_otp = optional six_digits e ''REVIEWER_OTP'';
          issues = issue ''NODE_ENV'' node @ issue ''PORT'' port @ issue ''DATABASE_URL'' db_url @ issue ''DATABASE_SSL'' ssl
            @ issue ''DATABASE_POOL_MAX'' pool @ issue ''REDIS_URL'' redis @ issue ''PII_ENCRYPTION_KEY'' pii
            @ issue ''IDENTITY_HMAC_KEY'' identity @ issue ''EMAIL_PROVIDER'' email @ issue ''PUSH_PROVIDER'' push
            @ issue ''SCRYPT_COST_LOG2'' cost @ issue ''OFFER_RESPONSE_SECONDS'' offer_seconds
            @ issue ''LOCATION_TTL_MINUTES'' ttl @ issue ''TEST_FIXED_OTP'' fixed @ issue ''REVIEWER_EMAIL'' reviewer
            @ issue ''REVIEWER_OTP'' reviewer_otp
      in if issues \<noteq> [] then Inl issues
         else Inr \<lparr>TEST_FIXED_OTP = the fixed, REVIEWER_EMAIL = the reviewer, REVIEWER_OTP = the reviewer_otp,
                NODE_ENV = the node, PORT = the port, HOST = the host, DATABASE_URL = the db_url, DATABASE_SSL = the ssl,
                DATABASE_POOL_MAX = the pool, REDIS_URL = the redis, PII_ENCRYPTION_KEY = the pii,
                IDENTITY_HMAC_KEY = the identity, EMAIL_PROVIDER = the email, RESEND_API_KEY = the api_key,
                RESEND_FROM = the resend_from, PUSH_PROVIDER = the push, VAPID_PUBLIC_KEY = the vapid_public,
                VAPID_PRIVATE_KEY = the vapid_private, VAPID_SUBJECT = the vapid_subject, WEB_ORIGIN = the origin,
                SCRYPT_COST_LOG2 = the cost, OFFER_RESPONSE_SECONDS = the offer_seconds,
                CONFIG_LOCATION_TTL_MINUTES = the ttl\<rparr>)"

subsection \<open>Starting\<close>

datatype config_error =
    Invalid_fields "string list" | Fixed_otp_set | Example_or_reused_keys | Console_email_set | Resend_unset

definition exampleKeys :: "utext list" where
  "exampleKeys = [replicate 64 48, replicate 64 49]"

text \<open>The empty string counts as unset.\<close>

definition falsy :: "utext option \<Rightarrow> bool" where
  "falsy v \<longleftrightarrow> v = None \<or> v = Some []"

definition production_refusal :: "config \<Rightarrow> config_error option" where
  "production_refusal c =
     (if TEST_FIXED_OTP c \<noteq> None then Some Fixed_otp_set
      else if PII_ENCRYPTION_KEY c \<in> set exampleKeys \<or> IDENTITY_HMAC_KEY c \<in> set exampleKeys
           \<or> PII_ENCRYPTION_KEY c = IDENTITY_HMAC_KEY c then Some Example_or_reused_keys
      else if EMAIL_PROVIDER c = Console_email then Some Console_email_set
      else if EMAIL_PROVIDER c = Resend_email \<and> (falsy (RESEND_API_KEY c) \<or> falsy (RESEND_FROM c)) then Some Resend_unset
      else None)"

definition loadConfig :: "zod_checks \<Rightarrow> process_env \<Rightarrow> config option \<Rightarrow> config option \<times> (config_error + config)" where
  "loadConfig x e cached = (case cached of
     Some c \<Rightarrow> (cached, Inr c)
   | None \<Rightarrow> (case zConfig x e of
       Inl names \<Rightarrow> (None, Inl (Invalid_fields names))
     | Inr c \<Rightarrow> (case (if NODE_ENV c = Production then production_refusal c else None) of
         Some err \<Rightarrow> (None, Inl err)
       | None \<Rightarrow> (Some c, Inr c))))"

lemma required_such_that: "required (such_that p) e name = Some v \<Longrightarrow> p v"
  by (auto simp: required_def such_that_def Option.bind_eq_Some_conv split: if_splits)

lemma default_int:
  "defaulted (z_int x a b) dflt e name = Some v \<Longrightarrow> is_integer dflt \<Longrightarrow> a \<le> dflt \<Longrightarrow> dflt \<le> b \<Longrightarrow> is_integer v \<and> a \<le> v \<and> v \<le> b"
  by (auto simp: defaulted_def z_int_def such_that_def Option.bind_eq_Some_conv split: option.splits if_splits)

lemma issue_Nil [simp]: "issue name v = [] \<longleftrightarrow> (\<exists>w. v = Some w)"
  by (simp add: issue_def)

lemma int_const [simp]: "is_integer 16" "is_integer 20"
  by (simp_all add: is_integer_def)

lemma zConfig_fields:
  assumes "zConfig x e = Inr c"
  shows "required (such_that hex_key) e ''PII_ENCRYPTION_KEY'' = Some (PII_ENCRYPTION_KEY c)"
    and "required (such_that hex_key) e ''IDENTITY_HMAC_KEY'' = Some (IDENTITY_HMAC_KEY c)"
    and "defaulted (z_int x 14 20) 16 e ''SCRYPT_COST_LOG2'' = Some (SCRYPT_COST_LOG2 c)"
    and "defaulted (z_int x 1 100) 20 e ''DATABASE_POOL_MAX'' = Some (DATABASE_POOL_MAX c)"
    and "optional six_digits e ''TEST_FIXED_OTP'' = Some (TEST_FIXED_OTP c)"
  using assms unfolding zConfig_def Let_def by (clarsimp split: if_splits)+


lemma int_default: "defaulted (z_int x a b) dflt e name = Some v \<Longrightarrow> is_integer dflt \<and> a \<le> dflt \<and> dflt \<le> b \<Longrightarrow> is_integer v \<and> a \<le> v \<and> v \<le> b"
  using default_int by blast

lemma loaded:
  "loadConfig x e None = (cache, Inr c) \<longleftrightarrow>
     zConfig x e = Inr c \<and> cache = Some c \<and> (NODE_ENV c = Production \<longrightarrow> production_refusal c = None)"
  by (auto simp: loadConfig_def split: sum.splits option.splits)

lemma accepted_production:
  "production_refusal c = None \<longleftrightarrow> TEST_FIXED_OTP c = None \<and> PII_ENCRYPTION_KEY c \<notin> set exampleKeys
     \<and> IDENTITY_HMAC_KEY c \<notin> set exampleKeys \<and> PII_ENCRYPTION_KEY c \<noteq> IDENTITY_HMAC_KEY c
     \<and> EMAIL_PROVIDER c = Resend_email \<and> \<not> falsy (RESEND_API_KEY c) \<and> \<not> falsy (RESEND_FROM c)"
  by (cases "EMAIL_PROVIDER c") (auto simp: production_refusal_def)

text \<open>
  What a production process runs with. Once it has read its configuration, sign-in codes are the drawn ones
  except for the nominated reviewer's address, whatever \<open>TEST_FIXED_OTP\<close> says; both keys are 32 bytes of hex,
  different from each other and from the examples; mail goes out through a provider that has its
  credentials; hashing costs between 2^14 and 2^20. The configuration never changes afterwards, and with
  \<open>TEST_FIXED_OTP\<close> in the environment the process does not start.
\<close>

theorem production_starts_safely:
  assumes "loadConfig x e None = (cache, Inr c)" "NODE_ENV c = Production"
  shows "(otp_for (otp_config.truncate c) email drawn = drawn \<or> REVIEWER_EMAIL c = Some email)
     \<and> hex_key (PII_ENCRYPTION_KEY c) \<and> hex_key (IDENTITY_HMAC_KEY c) \<and> PII_ENCRYPTION_KEY c \<noteq> IDENTITY_HMAC_KEY c
     \<and> {PII_ENCRYPTION_KEY c, IDENTITY_HMAC_KEY c} \<inter> set exampleKeys = {}
     \<and> EMAIL_PROVIDER c = Resend_email \<and> \<not> falsy (RESEND_API_KEY c) \<and> \<not> falsy (RESEND_FROM c)
     \<and> is_integer (SCRYPT_COST_LOG2 c) \<and> 14 \<le> SCRYPT_COST_LOG2 c \<and> SCRYPT_COST_LOG2 c \<le> 20
     \<and> e ''TEST_FIXED_OTP'' = None \<and> (\<forall>x' e'. loadConfig x' e' cache = (cache, Inr c))"
proof -
  from assms have z: "zConfig x e = Inr c" and cache: "cache = Some c" and ok: "production_refusal c = None"
    by (auto simp: loaded)
  note ok = ok[unfolded accepted_production]
  note f = zConfig_fields[OF z]
  have "e ''TEST_FIXED_OTP'' = None" using f(5) ok by (auto simp: optional_def split: option.splits)
  moreover have "otp_for (otp_config.truncate c) email drawn = drawn \<or> REVIEWER_EMAIL c = Some email"
    using ok by (auto simp: otp_for_def otp_config.defs split: option.splits)
  moreover have "\<forall>x' e'. loadConfig x' e' cache = (cache, Inr c)" by (simp add: loadConfig_def cache)
  ultimately show ?thesis
    using ok f(1,2)[THEN required_such_that] int_default[OF f(3)] by simp
qed

definition production_env :: process_env where
  "production_env = [''NODE_ENV'' \<mapsto> lit ''production'', ''DATABASE_URL'' \<mapsto> lit ''postgres://db'',
     ''PII_ENCRYPTION_KEY'' \<mapsto> replicate 64 97, ''IDENTITY_HMAC_KEY'' \<mapsto> replicate 64 98,
     ''EMAIL_PROVIDER'' \<mapsto> lit ''resend'', ''RESEND_API_KEY'' \<mapsto> lit ''key'', ''RESEND_FROM'' \<mapsto> lit ''a@b.co'']"

definition any_checks :: zod_checks where
  "any_checks = \<lparr>zc_url = (\<lambda>_. True), zc_email = (\<lambda>_. True), zc_number = (\<lambda>_. None)\<rparr>"

theorem production_starts_safely_witness:
  "\<exists>c. loadConfig any_checks production_env None = (Some c, Inr c) \<and> NODE_ENV c = Production
     \<and> otp_for (otp_config.truncate c) (lit ''x@y.zz'') ''271828'' = ''271828''"
proof -
  obtain c where c: "zConfig any_checks production_env = Inr c" "NODE_ENV c = Production" "production_refusal c = None"
    "REVIEWER_EMAIL c = None"
    by (simp add: zConfig_def Let_def defaulted_def required_def optional_def production_env_def any_checks_def such_that_def
        hex_key_def z_enum_def lit_def production_refusal_def exampleKeys_def falsy_def issue_def list_all_iff)
  then have "loadConfig any_checks production_env None = (Some c, Inr c)" by (simp add: loaded)
  from production_starts_safely[OF this c(2), of "lit ''x@y.zz''" "''271828''"] this c(2,4) show ?thesis by auto
qed

end
