(* ===== verification/Catalogue_Seed.thy ===== *)
theory Catalogue_Seed
  imports Administration
begin

text \<open>
  The default catalogue (\<open>packages/shared/src/catalogue-defaults.ts\<close>), its seeding on every deployment
  (\<open>server/src/db/seed.ts\<close>), and how the clients name and group categories (\<open>mobile/src/catalogue.ts\<close>).
\<close>

subsection \<open>The default catalogue\<close>

record catalogue_seed =
  cs_slug :: string
  cs_group :: category_group
  cs_name :: localized
  cs_namePlural :: "localized option"
  cs_icon :: string
  cs_unit :: unit_kind
  cs_altUnits :: "unit_kind list"
  cs_fractional :: bool
  cs_sealedRequired :: bool
  cs_expiryRelevant :: bool
  cs_restricted :: bool
  cs_warningKey :: "string option"
  cs_maxRequestQty :: qty
  cs_maxOfferQty :: qty

definition DEFAULT_CATALOGUE :: "catalogue_seed list" where
  "DEFAULT_CATALOGUE =
   [\<lparr>cs_slug = ''water-bottle'', cs_group = Hydration,
       cs_name = [(''en'', lit ''Sealed water bottle''), (''hi'', [2360,2368,2354,2348,2306,2342,32,2346,2366,2344,2368,32,2325,2368,32,2348,2379,2340,2354])],
       cs_namePlural = Some [(''en'', lit ''Sealed water bottles'')], cs_icon = ''droplet'', cs_unit = Bottle, cs_altUnits = [Litre],
       cs_fractional = False, cs_sealedRequired = True, cs_expiryRelevant = True, cs_restricted = False,
       cs_warningKey = None, cs_maxRequestQty = 6, cs_maxOfferQty = 100\<rparr>,
    \<lparr>cs_slug = ''water-pack'', cs_group = Hydration,
       cs_name = [(''en'', lit ''Packaged water container''), (''hi'', [2346,2376,2325,2375,2332,2381,2337,32,2346,2366,2344,2368,32,2325,2366,32,2337,2367,2348,2381,2348,2366])],
       cs_namePlural = Some [(''en'', lit ''Packaged water containers'')], cs_icon = ''droplet'', cs_unit = Packet, cs_altUnits = [],
       cs_fractional = False, cs_sealedRequired = True, cs_expiryRelevant = False, cs_restricted = False,
       cs_warningKey = None, cs_maxRequestQty = 4, cs_maxOfferQty = 50\<rparr>,
    \<lparr>cs_slug = ''ors'', cs_group = Hydration,
       cs_name = [(''en'', lit ''Oral rehydration sachet (sealed)''), (''hi'', [2323,2310,2352,2319,2360,32,2346,2366,2313,2330,32,40,2360,2368,2354,2348,2306,2342,41])],
       cs_namePlural = Some [(''en'', lit ''Oral rehydration sachets (sealed)'')], cs_icon = ''droplet'', cs_unit = Packet, cs_altUnits = [],
       cs_fractional = False, cs_sealedRequired = True, cs_expiryRelevant = True, cs_restricted = True,
       cs_warningKey = Some ''safety.noOpened'', cs_maxRequestQty = 4, cs_maxOfferQty = 30\<rparr>,
    \<lparr>cs_slug = ''packaged-food'', cs_group = Food,
       cs_name = [(''en'', lit ''Sealed packaged food''), (''hi'', [2360,2368,2354,2348,2306,2342,32,2346,2376,2325,2375,2332,2381,2337,32,2349,2379,2332,2344])],
       cs_namePlural = None, cs_icon = ''utensils'', cs_unit = Packet, cs_altUnits = [],
       cs_fractional = False, cs_sealedRequired = True, cs_expiryRelevant = True, cs_restricted = False,
       cs_warningKey = None, cs_maxRequestQty = 5, cs_maxOfferQty = 50\<rparr>,
    \<lparr>cs_slug = ''meal'', cs_group = Food,
       cs_name = [(''en'', lit ''Packaged meal''), (''hi'', [2346,2376,2325,32,2325,2367,2351,2366,32,2361,2369,2310,32,2349,2379,2332,2344])],
       cs_namePlural = Some [(''en'', lit ''Packaged meals'')], cs_icon = ''utensils'', cs_unit = Meal, cs_altUnits = [],
       cs_fractional = False, cs_sealedRequired = True, cs_expiryRelevant = False, cs_restricted = False,
       cs_warningKey = None, cs_maxRequestQty = 4, cs_maxOfferQty = 50\<rparr>,
    \<lparr>cs_slug = ''biscuits'', cs_group = Food,
       cs_name = [(''en'', lit ''Biscuits''), (''hi'', [2348,2367,2360,2381,2325,2369,2335])],
       cs_namePlural = None, cs_icon = ''cookie'', cs_unit = Packet, cs_altUnits = [],
       cs_fractional = False, cs_sealedRequired = True, cs_expiryRelevant = True, cs_restricted = False,
       cs_warningKey = None, cs_maxRequestQty = 5, cs_maxOfferQty = 50\<rparr>,
    \<lparr>cs_slug = ''fruit'', cs_group = Food,
       cs_name = [(''en'', lit ''Fruit''), (''hi'', [2347,2354])],
       cs_namePlural = None, cs_icon = ''apple'', cs_unit = Piece, cs_altUnits = [],
       cs_fractional = False, cs_sealedRequired = False, cs_expiryRelevant = False, cs_restricted = False,
       cs_warningKey = None, cs_maxRequestQty = 6, cs_maxOfferQty = 40\<rparr>,
    \<lparr>cs_slug = ''baby-food'', cs_group = Food,
       cs_name = [(''en'', lit ''Baby food (sealed)''), (''hi'', [2358,2367,2358,2369,32,2310,2361,2366,2352,32,40,2360,2368,2354,2348,2306,2342,41])],
       cs_namePlural = None, cs_icon = ''baby'', cs_unit = Packet, cs_altUnits = [],
       cs_fractional = False, cs_sealedRequired = True, cs_expiryRelevant = True, cs_restricted = False,
       cs_warningKey = Some ''safety.noOpened'', cs_maxRequestQty = 3, cs_maxOfferQty = 20\<rparr>,
    \<lparr>cs_slug = ''blanket'', cs_group = Shelter,
       cs_name = [(''en'', lit ''Blanket''), (''hi'', [2325,2306,2348,2354])],
       cs_namePlural = Some [(''en'', lit ''Blankets'')], cs_icon = ''bed'', cs_unit = Blanket, cs_altUnits = [],
       cs_fractional = False, cs_sealedRequired = False, cs_expiryRelevant = False, cs_restricted = False,
       cs_warningKey = None, cs_maxRequestQty = 3, cs_maxOfferQty = 30\<rparr>,
    \<lparr>cs_slug = ''sleeping-mat'', cs_group = Shelter,
       cs_name = [(''en'', lit ''Sleeping mat''), (''hi'', [2360,2379,2344,2375,32,2325,2368,32,2330,2335,2366,2312])],
       cs_namePlural = Some [(''en'', lit ''Sleeping mats'')], cs_icon = ''bed'', cs_unit = Piece, cs_altUnits = [],
       cs_fractional = False, cs_sealedRequired = False, cs_expiryRelevant = False, cs_restricted = False,
       cs_warningKey = None, cs_maxRequestQty = 2, cs_maxOfferQty = 20\<rparr>,
    \<lparr>cs_slug = ''tarpaulin'', cs_group = Shelter,
       cs_name = [(''en'', lit ''Tarpaulin''), (''hi'', [2340,2367,2352,2346,2366,2354])],
       cs_namePlural = Some [(''en'', lit ''Tarpaulins'')], cs_icon = ''tent'', cs_unit = Piece, cs_altUnits = [],
       cs_fractional = False, cs_sealedRequired = False, cs_expiryRelevant = False, cs_restricted = False,
       cs_warningKey = None, cs_maxRequestQty = 2, cs_maxOfferQty = 15\<rparr>,
    \<lparr>cs_slug = ''towel'', cs_group = Shelter,
       cs_name = [(''en'', lit ''Towel''), (''hi'', [2340,2380,2354,2367,2351,2366])],
       cs_namePlural = Some [(''en'', lit ''Towels'')], cs_icon = ''towel'', cs_unit = Piece, cs_altUnits = [],
       cs_fractional = False, cs_sealedRequired = False, cs_expiryRelevant = False, cs_restricted = False,
       cs_warningKey = None, cs_maxRequestQty = 2, cs_maxOfferQty = 20\<rparr>,
    \<lparr>cs_slug = ''mosquito-net'', cs_group = Shelter,
       cs_name = [(''en'', lit ''Mosquito net''), (''hi'', [2350,2330,2381,2331,2352,2342,2366,2344,2368])],
       cs_namePlural = Some [(''en'', lit ''Mosquito nets'')], cs_icon = ''shield'', cs_unit = Piece, cs_altUnits = [],
       cs_fractional = False, cs_sealedRequired = False, cs_expiryRelevant = False, cs_restricted = False,
       cs_warningKey = None, cs_maxRequestQty = 2, cs_maxOfferQty = 15\<rparr>,
    \<lparr>cs_slug = ''mosquito-repellent'', cs_group = Shelter,
       cs_name = [(''en'', lit ''Mosquito repellent''), (''hi'', [2350,2330,2381,2331,2352,32,2349,2327,2366,2344,2375,32,2325,2368,32,2325,2381,2352,2368,2350,47,2360,2381,2346,2381,2352,2375])],
       cs_namePlural = None, cs_icon = ''shield'', cs_unit = Piece, cs_altUnits = [],
       cs_fractional = False, cs_sealedRequired = True, cs_expiryRelevant = False, cs_restricted = False,
       cs_warningKey = None, cs_maxRequestQty = 2, cs_maxOfferQty = 15\<rparr>,
    \<lparr>cs_slug = ''raincoat'', cs_group = Shelter,
       cs_name = [(''en'', lit ''Raincoat''), (''hi'', [2352,2375,2344,2325,2379,2335])],
       cs_namePlural = Some [(''en'', lit ''Raincoats'')], cs_icon = ''cloud-rain'', cs_unit = Piece, cs_altUnits = [],
       cs_fractional = False, cs_sealedRequired = False, cs_expiryRelevant = False, cs_restricted = False,
       cs_warningKey = None, cs_maxRequestQty = 2, cs_maxOfferQty = 20\<rparr>,
    \<lparr>cs_slug = ''umbrella'', cs_group = Shelter,
       cs_name = [(''en'', lit ''Umbrella''), (''hi'', [2331,2366,2340,2366])],
       cs_namePlural = Some [(''en'', lit ''Umbrellas'')], cs_icon = ''umbrella'', cs_unit = Piece, cs_altUnits = [],
       cs_fractional = False, cs_sealedRequired = False, cs_expiryRelevant = False, cs_restricted = False,
       cs_warningKey = None, cs_maxRequestQty = 1, cs_maxOfferQty = 15\<rparr>,
    \<lparr>cs_slug = ''sanitary-pads'', cs_group = Hygiene,
       cs_name = [(''en'', lit ''Sanitary pads''), (''hi'', [2360,2376,2344,2367,2335,2352,2368,32,2346,2376,2337])],
       cs_namePlural = None, cs_icon = ''heart'', cs_unit = Packet, cs_altUnits = [],
       cs_fractional = False, cs_sealedRequired = True, cs_expiryRelevant = False, cs_restricted = False,
       cs_warningKey = None, cs_maxRequestQty = 3, cs_maxOfferQty = 30\<rparr>,
    \<lparr>cs_slug = ''diapers'', cs_group = Hygiene,
       cs_name = [(''en'', lit ''Diapers''), (''hi'', [2337,2366,2351,2346,2352])],
       cs_namePlural = None, cs_icon = ''baby'', cs_unit = Packet, cs_altUnits = [],
       cs_fractional = False, cs_sealedRequired = True, cs_expiryRelevant = False, cs_restricted = False,
       cs_warningKey = None, cs_maxRequestQty = 3, cs_maxOfferQty = 20\<rparr>,
    \<lparr>cs_slug = ''tissues'', cs_group = Hygiene,
       cs_name = [(''en'', lit ''Tissues''), (''hi'', [2335,2367,2358,2370])],
       cs_namePlural = None, cs_icon = ''box'', cs_unit = Packet, cs_altUnits = [],
       cs_fractional = False, cs_sealedRequired = False, cs_expiryRelevant = False, cs_restricted = False,
       cs_warningKey = None, cs_maxRequestQty = 4, cs_maxOfferQty = 40\<rparr>,
    \<lparr>cs_slug = ''wet-wipes'', cs_group = Hygiene,
       cs_name = [(''en'', lit ''Wet wipes''), (''hi'', [2327,2368,2354,2375,32,2357,2366,2311,2346,2381,2360])],
       cs_namePlural = None, cs_icon = ''box'', cs_unit = Packet, cs_altUnits = [],
       cs_fractional = False, cs_sealedRequired = True, cs_expiryRelevant = False, cs_restricted = False,
       cs_warningKey = None, cs_maxRequestQty = 3, cs_maxOfferQty = 30\<rparr>,
    \<lparr>cs_slug = ''soap'', cs_group = Hygiene,
       cs_name = [(''en'', lit ''Soap''), (''hi'', [2360,2366,2348,2369,2344])],
       cs_namePlural = None, cs_icon = ''droplets'', cs_unit = Piece, cs_altUnits = [],
       cs_fractional = False, cs_sealedRequired = True, cs_expiryRelevant = False, cs_restricted = False,
       cs_warningKey = None, cs_maxRequestQty = 3, cs_maxOfferQty = 40\<rparr>,
    \<lparr>cs_slug = ''masks'', cs_group = Hygiene,
       cs_name = [(''en'', lit ''Masks''), (''hi'', [2350,2366,2360,2381,2325])],
       cs_namePlural = None, cs_icon = ''shield'', cs_unit = Piece, cs_altUnits = [],
       cs_fractional = False, cs_sealedRequired = True, cs_expiryRelevant = False, cs_restricted = False,
       cs_warningKey = None, cs_maxRequestQty = 10, cs_maxOfferQty = 100\<rparr>,
    \<lparr>cs_slug = ''sanitizer'', cs_group = Hygiene,
       cs_name = [(''en'', lit ''Hand sanitizer (sealed)''), (''hi'', [2361,2376,2306,2337,32,2360,2376,2344,2367,2335,2366,2311,2332,2364,2352,32,40,2360,2368,2354,2348,2306,2342,41])],
       cs_namePlural = None, cs_icon = ''droplets'', cs_unit = Bottle, cs_altUnits = [],
       cs_fractional = False, cs_sealedRequired = True, cs_expiryRelevant = False, cs_restricted = False,
       cs_warningKey = None, cs_maxRequestQty = 2, cs_maxOfferQty = 20\<rparr>,
    \<lparr>cs_slug = ''waste-bags'', cs_group = Hygiene,
       cs_name = [(''en'', lit ''Waste bags''), (''hi'', [2325,2330,2352,2366,32,2348,2376,2327])],
       cs_namePlural = None, cs_icon = ''trash'', cs_unit = Roll, cs_altUnits = [],
       cs_fractional = False, cs_sealedRequired = False, cs_expiryRelevant = False, cs_restricted = False,
       cs_warningKey = None, cs_maxRequestQty = 3, cs_maxOfferQty = 30\<rparr>,
    \<lparr>cs_slug = ''torch'', cs_group = Power,
       cs_name = [(''en'', lit ''Torch''), (''hi'', [2335,2377,2352,2381,2330])],
       cs_namePlural = Some [(''en'', lit ''Torches'')], cs_icon = ''flashlight'', cs_unit = Piece, cs_altUnits = [],
       cs_fractional = False, cs_sealedRequired = False, cs_expiryRelevant = False, cs_restricted = False,
       cs_warningKey = None, cs_maxRequestQty = 2, cs_maxOfferQty = 15\<rparr>,
    \<lparr>cs_slug = ''batteries'', cs_group = Power,
       cs_name = [(''en'', lit ''Batteries''), (''hi'', [2348,2376,2335,2352,2367,2351,2366,2305])],
       cs_namePlural = None, cs_icon = ''battery'', cs_unit = Battery, cs_altUnits = [],
       cs_fractional = False, cs_sealedRequired = False, cs_expiryRelevant = False, cs_restricted = False,
       cs_warningKey = None, cs_maxRequestQty = 8, cs_maxOfferQty = 60\<rparr>,
    \<lparr>cs_slug = ''power-bank'', cs_group = Power,
       cs_name = [(''en'', lit ''Power bank (charged)''), (''hi'', [2346,2366,2357,2352,32,2348,2376,2306,2325,32,40,2330,2366,2352,2381,2332,32,2325,2367,2351,2366,32,2361,2369,2310,41])],
       cs_namePlural = Some [(''en'', lit ''Power banks (charged)'')], cs_icon = ''battery-charging'', cs_unit = Piece, cs_altUnits = [],
       cs_fractional = False, cs_sealedRequired = False, cs_expiryRelevant = False, cs_restricted = False,
       cs_warningKey = None, cs_maxRequestQty = 1, cs_maxOfferQty = 10\<rparr>,
    \<lparr>cs_slug = ''charging-cable'', cs_group = Power,
       cs_name = [(''en'', lit ''Charging cable''), (''hi'', [2330,2366,2352,2381,2332,2367,2306,2327,32,2325,2375,2348,2354])],
       cs_namePlural = Some [(''en'', lit ''Charging cables'')], cs_icon = ''cable'', cs_unit = Piece, cs_altUnits = [],
       cs_fractional = False, cs_sealedRequired = False, cs_expiryRelevant = False, cs_restricted = False,
       cs_warningKey = None, cs_maxRequestQty = 2, cs_maxOfferQty = 15\<rparr>,
    \<lparr>cs_slug = ''charging-adapter'', cs_group = Power,
       cs_name = [(''en'', lit ''Charging adapter''), (''hi'', [2330,2366,2352,2381,2332,2367,2306,2327,32,2309,2337,2376,2346,2381,2335,2352])],
       cs_namePlural = Some [(''en'', lit ''Charging adapters'')], cs_icon = ''plug'', cs_unit = Piece, cs_altUnits = [],
       cs_fractional = False, cs_sealedRequired = False, cs_expiryRelevant = False, cs_restricted = False,
       cs_warningKey = None, cs_maxRequestQty = 1, cs_maxOfferQty = 10\<rparr>,
    \<lparr>cs_slug = ''shirt'', cs_group = Clothing,
       cs_name = [(''en'', lit ''Shirt''), (''hi'', [2325,2350,2368,2332,2364])],
       cs_namePlural = Some [(''en'', lit ''Shirts'')], cs_icon = ''shirt'', cs_unit = Piece, cs_altUnits = [],
       cs_fractional = False, cs_sealedRequired = False, cs_expiryRelevant = False, cs_restricted = False,
       cs_warningKey = None, cs_maxRequestQty = 3, cs_maxOfferQty = 25\<rparr>,
    \<lparr>cs_slug = ''jacket'', cs_group = Clothing,
       cs_name = [(''en'', lit ''Jacket''), (''hi'', [2332,2376,2325,2375,2335])],
       cs_namePlural = Some [(''en'', lit ''Jackets'')], cs_icon = ''shirt'', cs_unit = Piece, cs_altUnits = [],
       cs_fractional = False, cs_sealedRequired = False, cs_expiryRelevant = False, cs_restricted = False,
       cs_warningKey = None, cs_maxRequestQty = 2, cs_maxOfferQty = 15\<rparr>,
    \<lparr>cs_slug = ''socks'', cs_group = Clothing,
       cs_name = [(''en'', lit ''Socks''), (''hi'', [2350,2379,2332,2364,2375])],
       cs_namePlural = None, cs_icon = ''footprints'', cs_unit = Pair_unit, cs_altUnits = [],
       cs_fractional = False, cs_sealedRequired = False, cs_expiryRelevant = False, cs_restricted = False,
       cs_warningKey = None, cs_maxRequestQty = 4, cs_maxOfferQty = 30\<rparr>,
    \<lparr>cs_slug = ''gloves'', cs_group = Clothing,
       cs_name = [(''en'', lit ''Gloves''), (''hi'', [2342,2360,2381,2340,2366,2344,2375])],
       cs_namePlural = None, cs_icon = ''hand'', cs_unit = Pair_unit, cs_altUnits = [],
       cs_fractional = False, cs_sealedRequired = False, cs_expiryRelevant = False, cs_restricted = False,
       cs_warningKey = None, cs_maxRequestQty = 2, cs_maxOfferQty = 20\<rparr>,
    \<lparr>cs_slug = ''warm-clothing'', cs_group = Clothing,
       cs_name = [(''en'', lit ''Warm clothing''), (''hi'', [2327,2352,2381,2350,32,2325,2346,2337,2364,2375])],
       cs_namePlural = None, cs_icon = ''shirt'', cs_unit = Piece, cs_altUnits = [],
       cs_fractional = False, cs_sealedRequired = False, cs_expiryRelevant = False, cs_restricted = False,
       cs_warningKey = None, cs_maxRequestQty = 3, cs_maxOfferQty = 25\<rparr>,
    \<lparr>cs_slug = ''bandages'', cs_group = First_aid,
       cs_name = [(''en'', lit ''Adhesive bandages (sealed)''), (''hi'', [2330,2367,2346,2325,2344,2375,32,2357,2366,2354,2368,32,2346,2335,2381,2335,2367,2351,2366,2305,32,40,2360,2368,2354,2348,2306,2342,41])],
       cs_namePlural = None, cs_icon = ''bandage'', cs_unit = Piece, cs_altUnits = [],
       cs_fractional = False, cs_sealedRequired = True, cs_expiryRelevant = True, cs_restricted = False,
       cs_warningKey = Some ''safety.noOpened'', cs_maxRequestQty = 10, cs_maxOfferQty = 100\<rparr>,
    \<lparr>cs_slug = ''gauze'', cs_group = First_aid,
       cs_name = [(''en'', lit ''Sterile gauze (sealed)''), (''hi'', [2360,2381,2335,2375,2352,2366,2311,2354,32,2327,2377,2332,2364,32,40,2360,2368,2354,2348,2306,2342,41])],
       cs_namePlural = None, cs_icon = ''bandage'', cs_unit = Packet, cs_altUnits = [],
       cs_fractional = False, cs_sealedRequired = True, cs_expiryRelevant = True, cs_restricted = False,
       cs_warningKey = Some ''safety.noOpened'', cs_maxRequestQty = 5, cs_maxOfferQty = 40\<rparr>,
    \<lparr>cs_slug = ''medical-tape'', cs_group = First_aid,
       cs_name = [(''en'', lit ''Medical tape''), (''hi'', [2350,2375,2337,2367,2325,2354,32,2335,2375,2346])],
       cs_namePlural = None, cs_icon = ''bandage'', cs_unit = Roll, cs_altUnits = [],
       cs_fractional = False, cs_sealedRequired = True, cs_expiryRelevant = False, cs_restricted = False,
       cs_warningKey = None, cs_maxRequestQty = 2, cs_maxOfferQty = 20\<rparr>,
    \<lparr>cs_slug = ''disposable-gloves'', cs_group = First_aid,
       cs_name = [(''en'', lit ''Disposable gloves''), (''hi'', [2337,2367,2360,2381,2346,2379,2332,2364,2375,2348,2354,32,2342,2360,2381,2340,2366,2344,2375])],
       cs_namePlural = None, cs_icon = ''hand'', cs_unit = Pair_unit, cs_altUnits = [],
       cs_fractional = False, cs_sealedRequired = True, cs_expiryRelevant = False, cs_restricted = False,
       cs_warningKey = None, cs_maxRequestQty = 5, cs_maxOfferQty = 50\<rparr>,
    \<lparr>cs_slug = ''cold-pack'', cs_group = First_aid,
       cs_name = [(''en'', lit ''Sealed cold pack''), (''hi'', [2360,2368,2354,2348,2306,2342,32,2325,2379,2354,2381,2337,32,2346,2376,2325])],
       cs_namePlural = Some [(''en'', lit ''Sealed cold packs'')], cs_icon = ''snowflake'', cs_unit = Piece, cs_altUnits = [],
       cs_fractional = False, cs_sealedRequired = True, cs_expiryRelevant = False, cs_restricted = False,
       cs_warningKey = None, cs_maxRequestQty = 2, cs_maxOfferQty = 15\<rparr>,
    \<lparr>cs_slug = ''stationery'', cs_group = Misc,
       cs_name = [(''en'', lit ''Stationery''), (''hi'', [2360,2381,2335,2375,2358,2344,2352,2368])],
       cs_namePlural = None, cs_icon = ''pencil'', cs_unit = Item, cs_altUnits = [],
       cs_fractional = False, cs_sealedRequired = False, cs_expiryRelevant = False, cs_restricted = False,
       cs_warningKey = None, cs_maxRequestQty = 10, cs_maxOfferQty = 100\<rparr>,
    \<lparr>cs_slug = ''notebook'', cs_group = Misc,
       cs_name = [(''en'', lit ''Notebook''), (''hi'', [2344,2379,2335,2348,2369,2325])],
       cs_namePlural = Some [(''en'', lit ''Notebooks'')], cs_icon = ''notebook'', cs_unit = Piece, cs_altUnits = [],
       cs_fractional = False, cs_sealedRequired = False, cs_expiryRelevant = False, cs_restricted = False,
       cs_warningKey = None, cs_maxRequestQty = 3, cs_maxOfferQty = 30\<rparr>,
    \<lparr>cs_slug = ''rope'', cs_group = Misc,
       cs_name = [(''en'', lit ''Rope''), (''hi'', [2352,2360,2381,2360,2368])],
       cs_namePlural = None, cs_icon = ''cable'', cs_unit = Roll, cs_altUnits = [],
       cs_fractional = False, cs_sealedRequired = False, cs_expiryRelevant = False, cs_restricted = False,
       cs_warningKey = None, cs_maxRequestQty = 2, cs_maxOfferQty = 15\<rparr>,
    \<lparr>cs_slug = ''container'', cs_group = Misc,
       cs_name = [(''en'', lit ''Reusable container''), (''hi'', [2342,2379,2348,2366,2352,2366,32,2311,2360,2381,2340,2375,2350,2366,2354,32,2361,2379,2344,2375,32,2357,2366,2354,2366,32,2337,2367,2348,2381,2348,2366])],
       cs_namePlural = Some [(''en'', lit ''Reusable containers'')], cs_icon = ''box'', cs_unit = Piece, cs_altUnits = [],
       cs_fractional = False, cs_sealedRequired = False, cs_expiryRelevant = False, cs_restricted = False,
       cs_warningKey = None, cs_maxRequestQty = 3, cs_maxOfferQty = 25\<rparr>]"

subsection \<open>Seeding\<close>

text \<open>One upsert by slug; what the seed does not manage keeps its value, or its default in a new row.\<close>

definition seed_values :: "catalogue_seed \<Rightarrow> nat \<Rightarrow> category \<Rightarrow> category" where
  "seed_values s index c = c\<lparr>c_slug := cs_slug s, c_group := cs_group s, c_name := cs_name s,
     c_namePlural := cs_namePlural s, c_icon := cs_icon s, c_unit := cs_unit s, c_altUnits := cs_altUnits s,
     c_fractional := cs_fractional s, c_sealedRequired := cs_sealedRequired s,
     c_expiryRelevant := cs_expiryRelevant s, c_restricted := cs_restricted s, c_warningKey := cs_warningKey s,
     c_maxRequestQty := cs_maxRequestQty s, c_maxOfferQty := cs_maxOfferQty s, c_sortOrder := int index\<rparr>"

definition new_category :: "catalogue_seed \<Rightarrow> nat \<Rightarrow> uid \<Rightarrow> category" where
  "new_category s index k = \<lparr>c_id = k, c_slug = cs_slug s, c_group = cs_group s, c_name = cs_name s,
     c_namePlural = cs_namePlural s, c_description = None, c_icon = cs_icon s, c_unit = cs_unit s,
     c_altUnits = cs_altUnits s, c_fractional = cs_fractional s, c_sealedRequired = cs_sealedRequired s,
     c_expiryRelevant = cs_expiryRelevant s, c_restricted = cs_restricted s, c_warningKey = cs_warningKey s,
     c_maxRequestQty = cs_maxRequestQty s, c_maxOfferQty = cs_maxOfferQty s, c_sortOrder = int index,
     c_active = True\<rparr>"

definition upsert_category :: "catalogue_seed \<Rightarrow> nat \<Rightarrow> db \<Rightarrow> db" where
  "upsert_category s index d =
     (if list_ex (\<lambda>c. c_slug c = cs_slug s) (categories d)
      then d\<lparr>categories := upd_where (\<lambda>c. c_slug c = cs_slug s) (seed_values s index) (categories d)\<rparr>
      else d\<lparr>categories := categories d @ [new_category s index (next_id d)], next_id := Suc (next_id d)\<rparr>)"

fun seed_from :: "nat \<Rightarrow> catalogue_seed list \<Rightarrow> db \<Rightarrow> db" where
  "seed_from index [] d = d"
| "seed_from index (s # seeds) d = seed_from (Suc index) seeds (upsert_category s index d)"

definition seedCatalogue :: "db \<Rightarrow> db" where
  "seedCatalogue d = seed_from 0 DEFAULT_CATALOGUE d"

subsection \<open>What seeding does to any catalogue\<close>

definition settled :: "catalogue_seed \<Rightarrow> nat \<Rightarrow> db \<Rightarrow> bool" where
  "settled s index d \<longleftrightarrow> (\<exists>c \<in> set (categories d). c_slug c = cs_slug s)
     \<and> (\<forall>c \<in> set (categories d). c_slug c = cs_slug s \<longrightarrow> seed_values s index c = c)"

lemma seed_values_simps [simp]:
  "c_slug (seed_values s n c) = cs_slug s" "c_id (seed_values s n c) = c_id c" "c_active (seed_values s n c) = c_active c"
  "c_description (seed_values s n c) = c_description c" "seed_values s n (seed_values s n c) = seed_values s n c"
  "seed_values s n (new_category s n k) = new_category s n k" "c_slug (new_category s n k) = cs_slug s"
  by (simp_all add: seed_values_def new_category_def)

lemma upd_where_member: "c \<in> set t \<Longrightarrow> (if P c then f c else c) \<in> set (upd_where P f t)"
  by (auto simp: upd_where_def)

lemma upsert_settles: "settled s n (upsert_category s n d)"
proof (cases "list_ex (\<lambda>c. c_slug c = cs_slug s) (categories d)")
  case True
  then obtain c where c: "c \<in> set (categories d)" "c_slug c = cs_slug s" by (auto simp: list_ex_iff)
  from upd_where_member[OF c(1), of "\<lambda>c. c_slug c = cs_slug s" "seed_values s n"] c(2)
  have "seed_values s n c \<in> set (upd_where (\<lambda>c. c_slug c = cs_slug s) (seed_values s n) (categories d))" by simp
  then have "\<exists>c \<in> set (upd_where (\<lambda>c. c_slug c = cs_slug s) (seed_values s n) (categories d)). c_slug c = cs_slug s"
    by (rule rev_bexI) simp
  moreover have "\<forall>c \<in> set (upd_where (\<lambda>c. c_slug c = cs_slug s) (seed_values s n) (categories d)).
      c_slug c = cs_slug s \<longrightarrow> seed_values s n c = c"
    by (auto simp: upd_where_def)
  ultimately show ?thesis using True by (simp add: settled_def upsert_category_def)
qed (auto simp: settled_def upsert_category_def list_ex_iff)

lemma upsert_settled: "settled s n d \<Longrightarrow> upsert_category s n d = d"
  by (auto simp: settled_def upsert_category_def upd_where_def list_ex_iff intro!: map_idI db.equality)

lemma upsert_keeps_settled: "cs_slug s \<noteq> cs_slug s' \<Longrightarrow> settled s n d \<Longrightarrow> settled s n (upsert_category s' m d)"
  by (auto simp: settled_def upsert_category_def upd_where_def)

lemma seed_keeps_settled: "cs_slug s \<notin> cs_slug ` set seeds \<Longrightarrow> settled s n d \<Longrightarrow> settled s n (seed_from m seeds d)"
  by (induction m seeds d rule: seed_from.induct) (auto intro: upsert_keeps_settled)

lemma seed_settles:
  "distinct (map cs_slug seeds) \<Longrightarrow> i < length seeds \<Longrightarrow> settled (seeds ! i) (m + i) (seed_from m seeds d)"
proof (induction m seeds d arbitrary: i rule: seed_from.induct)
  case (2 m s seeds d)
  show ?case
  proof (cases i)
    case 0
    with 2(2) show ?thesis by (auto intro!: seed_keeps_settled upsert_settles)
  next
    case (Suc j)
    with 2 show ?thesis by fastforce
  qed
qed simp

lemma seed_settled:
  "(\<And>i. i < length seeds \<Longrightarrow> settled (seeds ! i) (m + i) d) \<Longrightarrow> seed_from m seeds d = d"
proof (induction m seeds d rule: seed_from.induct)
  case (2 m s seeds d)
  have "settled s m d" using 2(2)[of 0] by simp
  moreover have "settled (seeds ! i) (Suc m + i) d" if "i < length seeds" for i using 2(2)[of "Suc i"] that by simp
  ultimately show ?case using 2(1) by (simp add: upsert_settled)
qed simp

text \<open>A row survives under its id, with what the seed does not manage; a row of another slug entirely.\<close>

definition survives :: "string set \<Rightarrow> db \<Rightarrow> db \<Rightarrow> bool" where
  "survives slugs d d' \<longleftrightarrow> (\<forall>c \<in> set (categories d). \<exists>c' \<in> set (categories d'). c_id c' = c_id c \<and> c_slug c' = c_slug c
     \<and> c_active c' = c_active c \<and> c_description c' = c_description c \<and> (c_slug c \<notin> slugs \<longrightarrow> c' = c))"

lemma upsert_survives: "survives {cs_slug s} d (upsert_category s n d)"
proof (cases "list_ex (\<lambda>c. c_slug c = cs_slug s) (categories d)")
  case True
  have "\<exists>c' \<in> set (upd_where (\<lambda>c. c_slug c = cs_slug s) (seed_values s n) (categories d)). c_id c' = c_id c \<and> c_slug c' = c_slug c
      \<and> c_active c' = c_active c \<and> c_description c' = c_description c \<and> (c_slug c \<notin> {cs_slug s} \<longrightarrow> c' = c)"
    if "c \<in> set (categories d)" for c
    using upd_where_member[OF that, of "\<lambda>c. c_slug c = cs_slug s" "seed_values s n"]
    by (rule rev_bexI) simp
  with True show ?thesis by (simp add: survives_def upsert_category_def)
qed (auto simp: survives_def upsert_category_def)

lemma survives_trans: "survives A d d1 \<Longrightarrow> survives B d1 d2 \<Longrightarrow> survives (A \<union> B) d d2"
  unfolding survives_def by (metis UnCI)

lemma seed_survives: "survives (cs_slug ` set seeds) d (seed_from m seeds d)"
proof (induction m seeds d rule: seed_from.induct)
  case (2 m s seeds d)
  from survives_trans[OF upsert_survives 2] show ?case by simp
qed (auto simp: survives_def)

lemma upsert_frame:
  "upsert_category s n d = d\<lparr>categories := categories (upsert_category s n d), next_id := next_id (upsert_category s n d)\<rparr>"
  by (simp add: upsert_category_def)

lemma seed_frame:
  "seed_from m seeds d = d\<lparr>categories := categories (seed_from m seeds d), next_id := next_id (seed_from m seeds d)\<rparr>"
proof (induction m seeds d rule: seed_from.induct)
  case (2 m s seeds d)
  then show ?case by (subst (asm) upsert_frame) simp
qed simp

subsection \<open>The default catalogue is sound\<close>

definition sound_seed :: "catalogue_seed \<Rightarrow> bool" where
  "sound_seed s \<longleftrightarrow> cs_slug s \<noteq> [] \<and> 1 \<le> cs_maxRequestQty s \<and> cs_maxRequestQty s \<le> cs_maxOfferQty s
     \<and> cs_unit s \<notin> set (cs_altUnits s) \<and> map fst (cs_name s) = [''en'', ''hi'']"

lemma default_slugs: "distinct (map cs_slug DEFAULT_CATALOGUE)"
  by (simp add: DEFAULT_CATALOGUE_def)

lemma default_sound: "list_all sound_seed DEFAULT_CATALOGUE"
  by (simp add: DEFAULT_CATALOGUE_def sound_seed_def)

text \<open>
  C37: Deployments refresh the catalogue. Seeding twice is seeding once; nothing but the categories changes. Every
  category of the file has a row with exactly its values afterwards, in the order of the file; its limits are
  positive and it is named in both languages. Every older row survives under its id with its
  description and switched on or off as before, and a row that an administrator added is left alone.
\<close>

theorem seeding_refreshes_the_catalogue:
  "seedCatalogue (seedCatalogue d) = seedCatalogue d
   \<and> seedCatalogue d = d\<lparr>categories := categories (seedCatalogue d), next_id := next_id (seedCatalogue d)\<rparr>
   \<and> list_all (\<lambda>i. settled (DEFAULT_CATALOGUE ! i) i (seedCatalogue d) \<and> sound_seed (DEFAULT_CATALOGUE ! i))
        [0..<length DEFAULT_CATALOGUE]
   \<and> survives (cs_slug ` set DEFAULT_CATALOGUE) d (seedCatalogue d)"
proof (intro conjI)
  have settled: "settled (DEFAULT_CATALOGUE ! i) (0 + i) (seedCatalogue d)" if "i < length DEFAULT_CATALOGUE" for i
    unfolding seedCatalogue_def by (rule seed_settles[OF default_slugs that])
  then show "list_all (\<lambda>i. settled (DEFAULT_CATALOGUE ! i) i (seedCatalogue d) \<and> sound_seed (DEFAULT_CATALOGUE ! i))
      [0..<length DEFAULT_CATALOGUE]"
    using default_sound by (simp add: list_all_iff)
  show "seedCatalogue (seedCatalogue d) = seedCatalogue d"
    by (subst seedCatalogue_def) (rule seed_settled[OF settled])
  show "seedCatalogue d = d\<lparr>categories := categories (seedCatalogue d), next_id := next_id (seedCatalogue d)\<rparr>"
    unfolding seedCatalogue_def by (rule seed_frame)
  show "survives (cs_slug ` set DEFAULT_CATALOGUE) d (seedCatalogue d)"
    unfolding seedCatalogue_def by (rule seed_survives)
qed

subsection \<open>Names and groups\<close>

text \<open>\<open>categoryDisplayName\<close>; \<open>name\<close> and \<open>namePlural\<close> are objects with a value per locale.\<close>

definition orElse :: "'a option \<Rightarrow> 'a option \<Rightarrow> 'a option" where
  "orElse a b = (case a of None \<Rightarrow> b | Some _ \<Rightarrow> a)"

definition categoryDisplayName :: "category_view \<Rightarrow> string \<Rightarrow> qty option \<Rightarrow> utext" where
  "categoryDisplayName c locale q =
     (let name = map_of (cy_name c); plural = (case cy_namePlural c of None \<Rightarrow> Map.empty | Some p \<Rightarrow> map_of p);
          slug = lit (cy_slug c) in
      if q = None \<or> q = Some 1 then the (orElse (name locale) (orElse (name ''en'') (Some slug)))
      else the (orElse (plural locale) (orElse (name locale) (orElse (plural ''en'') (orElse (name ''en'') (Some slug))))))"

definition categoryName :: "category_view option \<Rightarrow> string \<Rightarrow> utext" where
  "categoryName c locale = (case c of None \<Rightarrow> [8212]
     | Some c \<Rightarrow> the (orElse (map_of (cy_name c) locale) (orElse (map_of (cy_name c) ''en'') (Some (lit (cy_slug c))))))"

text \<open>\<open>groupCategories\<close>: a \<open>Map\<close> keeps its keys in the order of their first insertion.\<close>

definition groupCategories :: "category_view list \<Rightarrow> (category_group \<times> category_view list) list" where
  "groupCategories cats =
     (let shown = filter cy_active (sort_key cy_sortOrder cats)
      in map (\<lambda>g. (g, filter (\<lambda>c. cy_group c = g) shown)) (rev (remdups (rev (map cy_group shown)))))"

lemma orElse_simps [simp]: "orElse None b = b" "orElse (Some v) b = Some v"
  by (simp_all add: orElse_def)

text \<open>A count never brings an English word into another language that has a name of its own.\<close>

lemma display_stays_in_the_language:
  assumes "map_of (cy_name c) locale = Some n"
  shows "categoryDisplayName c locale q = n
     \<or> (\<exists>p m. cy_namePlural c = Some p \<and> map_of p locale = Some m \<and> categoryDisplayName c locale q = m)"
  using assms by (cases "cy_namePlural c"; cases "map_of (the (cy_namePlural c)) locale")
    (auto simp: categoryDisplayName_def Let_def)

lemma clients_name_categories_alike: "categoryDisplayName c locale None = categoryName (Some c) locale"
  by (simp add: categoryDisplayName_def categoryName_def Let_def)

lemma grouped_shown: "(g, cs) \<in> set (groupCategories cats) \<Longrightarrow>
    cs \<noteq> [] \<and> cs = filter (\<lambda>c. cy_active c \<and> cy_group c = g) (sort_key cy_sortOrder cats)"
  by (auto simp: groupCategories_def Let_def filter_empty_conv intro: filter_cong)

lemma every_active_category_grouped:
  assumes "c \<in> set cats" "cy_active c"
  shows "\<exists>cs. (cy_group c, cs) \<in> set (groupCategories cats) \<and> c \<in> set cs"
proof -
  let ?shown = "filter cy_active (sort_key cy_sortOrder cats)"
  have "(cy_group c, filter (\<lambda>x. cy_group x = cy_group c) ?shown) \<in> set (groupCategories cats)"
    using assms by (auto simp: groupCategories_def Let_def simp del: filter_filter)
  with assms show ?thesis by auto
qed

end
