(* ===== verification/Job_Store.thy ===== *)
theory Job_Store
  imports Prelude
begin

text \<open>
  \<open>server/src/ops/trim-queues.ts\<close>: the command that deletes finished jobs from a full Redis. Redis is a map from
  keys to sorted sets (members by score), streams and other values; a key whose set becomes empty is gone.
  The command runs alone here.
\<close>

subsection \<open>Redis\<close>

datatype redis_value = Zset "string list" | Stream "string list" | Value string

type_synonym redis = "string \<rightharpoonup> redis_value"

definition zset :: "redis \<Rightarrow> string \<Rightarrow> string list" where
  "zset r k = (case r k of Some (Zset ids) \<Rightarrow> ids | _ \<Rightarrow> [])"

definition zrange :: "redis \<Rightarrow> string \<Rightarrow> nat \<Rightarrow> string list" where
  "zrange r k n = take n (zset r k)"

definition unlink :: "string list \<Rightarrow> redis \<Rightarrow> redis" where
  "unlink ks r = (\<lambda>k. if k \<in> set ks then None else r k)"

definition zrem :: "string \<Rightarrow> string list \<Rightarrow> redis \<Rightarrow> redis" where
  "zrem k ids r = (case r k of
     Some (Zset xs) \<Rightarrow> (let rest = filter (\<lambda>x. x \<notin> set ids) xs in r(k := (if rest = [] then None else Some (Zset rest))))
   | _ \<Rightarrow> r)"

definition xtrim :: "string \<Rightarrow> nat \<Rightarrow> redis \<Rightarrow> redis" where
  "xtrim k n r = (case r k of Some (Stream es) \<Rightarrow> r(k \<mapsto> Stream (drop (length es - n) es)) | _ \<Rightarrow> r)"

subsection \<open>The command\<close>

definition QUEUE_NAMES :: "string list" where
  "QUEUE_NAMES = [''match'', ''offer-timeout'', ''notify'', ''retention'', ''data-request'']"

definition FINISHED :: "string list" where
  "FINISHED = [''completed'', ''failed'']"

definition BATCH :: nat where "BATCH = 1000"

definition jobKeys :: "string \<Rightarrow> string \<Rightarrow> string list" where
  "jobKeys queue k = (let base = ''bull:'' @ queue @ '':'' @ k
     in [base, base @ '':logs'', base @ '':dependencies'', base @ '':processed''])"

definition set_key :: "string \<Rightarrow> string \<Rightarrow> string" where
  "set_key queue state = ''bull:'' @ queue @ '':'' @ state"

definition events_key :: "string \<Rightarrow> string" where
  "events_key queue = ''bull:'' @ queue @ '':events''"

lemma zset_unlink: "zset (unlink ks r) k = (if k \<in> set ks then [] else zset r k)"
  by (simp add: zset_def unlink_def)

lemma zset_zrem: "zset (zrem k ids r) k' = (if k' = k then filter (\<lambda>x. x \<notin> set ids) (zset r k) else zset r k')"
  by (auto simp: zset_def zrem_def Let_def split: option.splits redis_value.splits)

text \<open>One finished set: batches until nothing is read.\<close>

function sweep :: "string \<Rightarrow> string \<Rightarrow> redis \<Rightarrow> redis \<times> nat" where
  "sweep queue state r =
     (let k = set_key queue state; ids = zrange r k BATCH in
      if ids = [] then (r, 0)
      else (case sweep queue state (zrem k ids (unlink (concat (map (jobKeys queue) ids)) r)) of
              (r', n) \<Rightarrow> (r', length ids + n)))"
  by pat_completeness auto

termination
proof (relation "measure (\<lambda>(queue, state, r). length (zset r (set_key queue state)))")
  fix queue state r k ids
  assume k: "k = set_key queue state" and ids: "ids = zrange r k BATCH" "ids \<noteq> []"
  obtain x where "x \<in> set ids" using ids(2) by (cases ids) auto
  then have "x \<in> set ids \<inter> set (zset r k)" using ids(1) by (auto simp: zrange_def dest: in_set_takeD)
  then have "length (filter (\<lambda>y. y \<notin> set ids) (zset r k)) < length (zset r k)"
    by (metis IntD1 IntD2 length_filter_less)
  then show "((queue, state, zrem k ids (unlink (concat (map (jobKeys queue) ids)) r)), queue, state, r)
      \<in> measure (\<lambda>(queue, state, r). length (zset r (set_key queue state)))"
    by (auto simp: zset_zrem zset_unlink k)
qed simp

declare sweep.simps [simp del]

fun sweep_states :: "string \<Rightarrow> string list \<Rightarrow> redis \<Rightarrow> redis \<times> nat" where
  "sweep_states queue [] r = (r, 0)"
| "sweep_states queue (state # states) r =
     (case sweep queue state r of (r1, n) \<Rightarrow> (case sweep_states queue states r1 of (r2, m) \<Rightarrow> (r2, n + m)))"

fun trim_queues :: "string list \<Rightarrow> redis \<Rightarrow> redis \<times> nat" where
  "trim_queues [] r = (r, 0)"
| "trim_queues (queue # queues) r =
     (case sweep_states queue FINISHED r of (r1, n) \<Rightarrow>
       (case trim_queues queues (xtrim (events_key queue) 1000 r1) of (r2, m) \<Rightarrow> (r2, n + m)))"

definition trim_main :: "redis \<Rightarrow> redis \<times> nat" where
  "trim_main r = trim_queues QUEUE_NAMES r"


subsection \<open>What it deletes\<close>

definition finished_sets :: "(string \<times> string) list" where
  "finished_sets = [(q, st). q \<leftarrow> QUEUE_NAMES, st \<leftarrow> FINISHED]"

definition finished_job :: "redis \<Rightarrow> string \<Rightarrow> string \<Rightarrow> bool" where
  "finished_job r q j \<longleftrightarrow> (\<exists>st. (q, st) \<in> set finished_sets \<and> j \<in> set (zset r (set_key q st)))"

definition touched :: "redis \<Rightarrow> string \<Rightarrow> bool" where
  "touched r k \<longleftrightarrow> (\<exists>(q, st) \<in> set finished_sets. k = set_key q st \<or> k = events_key q)
     \<or> (\<exists>q j. finished_job r q j \<and> k \<in> set (jobKeys q j))"

text \<open>Sets only shrink, keys only vanish, and only those of finished jobs change.\<close>

definition trims :: "redis \<Rightarrow> redis \<Rightarrow> bool" where
  "trims r r' \<longleftrightarrow> (\<forall>k. set (zset r' k) \<subseteq> set (zset r k)) \<and> (\<forall>k. r k = None \<longrightarrow> r' k = None)
     \<and> (\<forall>k. r' k \<noteq> r k \<longrightarrow> touched r k)
     \<and> (\<forall>k es'. r' k = Some (Stream es') \<longrightarrow> (\<exists>es. r k = Some (Stream es) \<and> length es' \<le> length es))"

lemma trims_refl [simp]: "trims r r"
  by (simp add: trims_def)

lemma touched_mono: "(\<forall>k. set (zset r' k) \<subseteq> set (zset r k)) \<Longrightarrow> touched r' k \<Longrightarrow> touched r k"
  unfolding touched_def finished_job_def by blast

lemma trims_trans:
  assumes "trims r r1" "trims r1 r2"
  shows "trims r r2"
proof -
  have "touched r k" if "r2 k \<noteq> r k" for k
    using that assms touched_mono[of r1 r k] unfolding trims_def by metis
  moreover have "\<exists>es. r k = Some (Stream es) \<and> length es' \<le> length es" if "r2 k = Some (Stream es')" for k es'
    using that assms unfolding trims_def by (meson order_trans)
  ultimately show ?thesis using assms unfolding trims_def by (meson order_trans)
qed

lemma trims_batch:
  assumes "(q, st) \<in> set finished_sets" "set ids \<subseteq> set (zset r (set_key q st))"
  shows "trims r (zrem (set_key q st) ids (unlink (concat (map (jobKeys q) ids)) r))"
proof -
  let ?u = "unlink (concat (map (jobKeys q) ids)) r"
  have "touched r k" if "?u k \<noteq> r k" for k
  proof -
    from that obtain j where "j \<in> set ids" "k \<in> set (jobKeys q j)" by (auto simp: unlink_def split: if_splits)
    with assms show ?thesis unfolding touched_def finished_job_def by blast
  qed
  moreover have "r k = None \<longrightarrow> ?u k = None" "?u k = Some v \<longrightarrow> r k = Some v" for k v by (simp_all add: unlink_def)
  ultimately have "trims r ?u" by (auto simp: trims_def zset_unlink)
  moreover have "trims ?u (zrem (set_key q st) ids ?u)"
    using assms(1) by (auto simp: trims_def zset_zrem touched_def)
      (auto simp: zrem_def Let_def split: option.splits redis_value.splits if_splits)
  ultimately show ?thesis by (rule trims_trans)
qed

lemma sweep_trims: "(q, st) \<in> set finished_sets \<Longrightarrow> trims r (fst (sweep q st r)) \<and> zset (fst (sweep q st r)) (set_key q st) = []"
proof (induction q st r rule: sweep.induct)
  case (1 q st r)
  let ?ids = "zrange r (set_key q st) BATCH"
  let ?r1 = "zrem (set_key q st) ?ids (unlink (concat (map (jobKeys q) ?ids)) r)"
  show ?case
  proof (cases "?ids = []")
    case True
    then show ?thesis by (subst (1 2) sweep.simps) (simp add: zrange_def BATCH_def)
  next
    case False
    have "trims r ?r1" by (rule trims_batch[OF 1(2)]) (auto simp: zrange_def dest: in_set_takeD)
    with 1(1)[OF refl refl False 1(2)] have "trims r (fst (sweep q st ?r1)) \<and> zset (fst (sweep q st ?r1)) (set_key q st) = []"
      using trims_trans by blast
    with False show ?thesis by (subst (1 2) sweep.simps) (simp add: Let_def case_prod_beta)
  qed
qed

lemma xtrim_trims: "q \<in> set QUEUE_NAMES \<Longrightarrow> trims r (xtrim (events_key q) n r)"
  by (auto simp: trims_def xtrim_def zset_def touched_def finished_sets_def FINISHED_def
      split: option.splits redis_value.splits if_splits)


lemma trims_empty: "trims r r' \<Longrightarrow> zset r k = [] \<Longrightarrow> zset r' k = []"
  unfolding trims_def by (metis set_empty subset_empty)

lemma sweep_states_trims:
  "q \<in> set QUEUE_NAMES \<Longrightarrow> set states \<subseteq> set FINISHED \<Longrightarrow>
     trims r (fst (sweep_states q states r)) \<and> (\<forall>st \<in> set states. zset (fst (sweep_states q states r)) (set_key q st) = [])"
proof (induction q states r rule: sweep_states.induct)
  case (2 q st states r)
  have "(q, st) \<in> set finished_sets" using 2(2,3) by (auto simp: finished_sets_def)
  from sweep_trims[OF this, of r] 2(1)[OF prod.collapse 2(2)] 2(3)
  show ?case by (auto simp: case_prod_beta intro: trims_trans trims_empty)
qed simp

lemma trim_queues_trims:
  "set queues \<subseteq> set QUEUE_NAMES \<Longrightarrow>
     trims r (fst (trim_queues queues r)) \<and> (\<forall>q \<in> set queues. \<forall>st \<in> set FINISHED. zset (fst (trim_queues queues r)) (set_key q st) = [])"
proof (induction queues r rule: trim_queues.induct)
  case (2 q queues r)
  let ?r1 = "fst (sweep_states q FINISHED r)" and ?r2 = "xtrim (events_key q) 1000 (fst (sweep_states q FINISHED r))"
  have q: "q \<in> set QUEUE_NAMES" using 2(2) by simp
  note one = sweep_states_trims[OF q order_refl, of r]
  have two: "trims ?r1 ?r2" using xtrim_trims[OF q] .
  have three: "trims ?r2 (fst (trim_queues queues ?r2)) \<and>
      (\<forall>q \<in> set queues. \<forall>st \<in> set FINISHED. zset (fst (trim_queues queues ?r2)) (set_key q st) = [])"
    using 2(1)[OF prod.collapse] 2(2) by simp
  then have "trims ?r1 (fst (trim_queues queues ?r2))" using two trims_trans by blast
  with one three show ?case by (auto simp: case_prod_beta intro: trims_trans trims_empty)
qed simp

lemma sweep_nothing: "zset r (set_key q st) = [] \<Longrightarrow> sweep q st r = (r, 0)"
  by (subst sweep.simps) (simp add: zrange_def)

lemma sweep_states_nothing: "\<forall>st \<in> set states. zset r (set_key q st) = [] \<Longrightarrow> sweep_states q states r = (r, 0)"
  by (induction q states r rule: sweep_states.induct) (simp_all add: sweep_nothing)

definition short_streams :: "string list \<Rightarrow> redis \<Rightarrow> bool" where
  "short_streams queues r \<longleftrightarrow> (\<forall>q \<in> set queues. \<forall>es. r (events_key q) = Some (Stream es) \<longrightarrow> length es \<le> 1000)"

lemma xtrim_nothing: "(\<forall>es. r k = Some (Stream es) \<longrightarrow> length es \<le> n) \<Longrightarrow> xtrim k n r = r"
  by (auto simp: xtrim_def split: option.splits redis_value.splits)

lemma trim_nothing:
  "\<forall>q \<in> set queues. \<forall>st \<in> set FINISHED. zset r (set_key q st) = [] \<Longrightarrow> short_streams queues r \<Longrightarrow> trim_queues queues r = (r, 0)"
proof (induction queues r rule: trim_queues.induct)
  case (2 q queues r)
  then have "sweep_states q FINISHED r = (r, 0)" "xtrim (events_key q) 1000 r = r"
    by (auto simp: short_streams_def intro!: sweep_states_nothing xtrim_nothing)
  with 2 show ?case by (simp add: short_streams_def)
qed simp


lemma trims_short: "trims r r' \<Longrightarrow> short_streams queues r \<Longrightarrow> short_streams queues r'"
  unfolding short_streams_def trims_def by (meson order_trans)

lemma trim_queues_short: "set queues \<subseteq> set QUEUE_NAMES \<Longrightarrow> short_streams queues (fst (trim_queues queues r))"
proof (induction queues r rule: trim_queues.induct)
  case (2 q queues r)
  let ?r2 = "xtrim (events_key q) 1000 (fst (sweep_states q FINISHED r))"
  have "short_streams [q] ?r2"
    by (auto simp: short_streams_def xtrim_def split: option.splits redis_value.splits)
  moreover have "trims ?r2 (fst (trim_queues queues ?r2))" using trim_queues_trims[of queues ?r2] 2(2) by simp
  ultimately have "short_streams [q] (fst (trim_queues queues ?r2))" by (rule trims_short[rotated])
  moreover have "short_streams queues (fst (trim_queues queues ?r2))" using 2(1)[OF prod.collapse] 2(2) by simp
  ultimately show ?case by (simp add: short_streams_def case_prod_beta)
qed (simp add: short_streams_def)

subsection \<open>How much it deletes\<close>

text \<open>No finished job has an id that makes one of its keys a finished set.\<close>

definition clean :: "redis \<Rightarrow> bool" where
  "clean r \<longleftrightarrow> (\<forall>(q, st) \<in> set finished_sets. distinct (zset r (set_key q st)) \<and>
     (\<forall>j \<in> set (zset r (set_key q st)). \<forall>(q', st') \<in> set finished_sets. set_key q' st' \<notin> set (jobKeys q j)))"

lemma cleanD:
  assumes "clean r" "(q, st) \<in> set finished_sets"
  shows "distinct (zset r (set_key q st))"
    and "j \<in> set (zset r (set_key q st)) \<Longrightarrow> (q', st') \<in> set finished_sets \<Longrightarrow> set_key q' st' \<notin> set (jobKeys q j)"
  using assms unfolding clean_def by blast+

lemma not_in_take: "distinct xs \<Longrightarrow> filter (\<lambda>x. x \<notin> set (take n xs)) xs = drop n xs"
proof -
  assume d: "distinct xs"
  have "x \<notin> set (take n xs)" if "x \<in> set (drop n xs)" for x
    using that set_take_disj_set_drop_if_distinct[OF d order_refl, of n] by blast
  then have "filter (\<lambda>x. x \<notin> set (take n xs)) (take n xs @ drop n xs) = drop n xs"
    unfolding filter_append by (simp add: filter_empty_conv filter_id_conv)
  then show ?thesis by (simp only: append_take_drop_id)
qed

lemma sweep_exact:
  "distinct (zset r (set_key q st)) \<Longrightarrow> \<forall>j \<in> set (zset r (set_key q st)). set_key q st \<notin> set (jobKeys q j) \<Longrightarrow>
   sweep q st r = (if zset r (set_key q st) = [] then r
      else unlink (set_key q st # concat (map (jobKeys q) (zset r (set_key q st)))) r, length (zset r (set_key q st)))"
proof (induction q st r rule: sweep.induct)
  case (1 q st r)
  let ?k = "set_key q st"
  let ?ids = "zrange r ?k BATCH" and ?rest = "drop BATCH (zset r ?k)"
  let ?r1 = "zrem ?k ?ids (unlink (concat (map (jobKeys q) ?ids)) r)"
  show ?case
  proof (cases "zset r ?k = []")
    case True
    then show ?thesis by (subst sweep.simps) (simp add: zrange_def)
  next
    case False
    then have ids: "?ids \<noteq> []" by (simp add: zrange_def BATCH_def)
    have apart: "?k \<notin> set (concat (map (jobKeys q) ?ids))" using 1(3) by (auto simp: zrange_def dest: in_set_takeD)
    have z: "zset ?r1 ?k = ?rest"
      using 1(2) apart by (simp add: zset_zrem zset_unlink not_in_take zrange_def)
    have all: "zset r ?k = ?ids @ ?rest" by (simp add: zrange_def)
    have r1: "?r1 = (if ?rest = [] then unlink (?k # concat (map (jobKeys q) ?ids)) r
        else (unlink (concat (map (jobKeys q) ?ids)) r)(?k \<mapsto> Zset ?rest))"
    proof -
      obtain xs where xs: "r ?k = Some (Zset xs)" "zset r ?k = xs"
        using False by (auto simp: zset_def split: option.splits redis_value.splits)
      then have "unlink (concat (map (jobKeys q) ?ids)) r ?k = Some (Zset xs)" using apart by (simp add: unlink_def)
      moreover have "filter (\<lambda>x. x \<notin> set ?ids) xs = ?rest" using 1(2) xs(2) by (simp add: zrange_def not_in_take)
      ultimately show ?thesis by (auto simp: zrem_def unlink_def)
    qed
    have "sweep q st ?r1 = (if ?rest = [] then ?r1 else unlink (?k # concat (map (jobKeys q) ?rest)) ?r1, length ?rest)"
    proof -
      have "\<forall>j \<in> set ?rest. ?k \<notin> set (jobKeys q j)" using 1(3) in_set_dropD by fast
      with 1(1)[OF refl refl ids] 1(2) show ?thesis unfolding z by simp
    qed
    moreover have "unlink (?k # concat (map (jobKeys q) ?rest)) ((unlink (concat (map (jobKeys q) ?ids)) r)(?k \<mapsto> Zset ?rest))
        = unlink (?k # concat (map (jobKeys q) (?ids @ ?rest))) r"
      by (auto simp: unlink_def)
    ultimately have "sweep q st ?r1 = (unlink (?k # concat (map (jobKeys q) (zset r ?k))) r, length ?rest)"
      unfolding r1 by (subst all) (simp split: if_splits)
    moreover have "length ?ids + length ?rest = length (zset r ?k)" by (simp add: zrange_def min_def)
    ultimately show ?thesis using ids False by (subst sweep.simps) (simp add: Let_def)
  qed
qed


lemma set_keys_differ:
  "(q, st) \<in> set finished_sets \<Longrightarrow> (q', st') \<in> set finished_sets \<Longrightarrow> set_key q st = set_key q' st' \<longleftrightarrow> q = q' \<and> st = st'"
proof -
  assume m: "(q, st) \<in> set finished_sets" "(q', st') \<in> set finished_sets"
  have no_colon: "CHR '':'' \<notin> set p" if "p \<in> set QUEUE_NAMES" for p using that by (auto simp: QUEUE_NAMES_def)
  have queue: "takeWhile (\<lambda>c. c \<noteq> CHR '':'') (p @ '':'' @ s) = p" if "CHR '':'' \<notin> set p" for p s
    using that by (subst takeWhile_append2) auto
  have "q = q'" if "q @ '':'' @ st = q' @ '':'' @ st'"
    using that queue[of q st] queue[of q' st'] no_colon m by (auto simp: finished_sets_def)
  then show ?thesis by (auto simp: set_key_def)
qed

lemma clean_sweep:
  assumes "clean r" "(q, st) \<in> set finished_sets"
  shows "sweep q st r = (if zset r (set_key q st) = [] then r
      else unlink (set_key q st # concat (map (jobKeys q) (zset r (set_key q st)))) r, length (zset r (set_key q st)))"
  by (rule sweep_exact[OF cleanD(1)[OF assms]]) (intro ballI, rule cleanD(2)[OF assms _ assms(2)])

lemma sweep_other:
  assumes "clean r" "(q, st) \<in> set finished_sets" "(q', st') \<in> set finished_sets" "(q', st') \<noteq> (q, st)"
  shows "zset (fst (sweep q st r)) (set_key q' st') = zset r (set_key q' st')"
proof -
  have "set_key q' st' \<notin> set (jobKeys q j)" if "j \<in> set (zset r (set_key q st))" for j
    using cleanD(2)[OF assms(1,2) that assms(3)] .
  then show ?thesis using assms(2-4) set_keys_differ[OF assms(3,2)]
    by (auto simp: clean_sweep[OF assms(1,2)] zset_unlink)
qed

lemma clean_mono:
  "clean r \<Longrightarrow> (\<And>q st. (q, st) \<in> set finished_sets \<Longrightarrow> zset r' (set_key q st) \<in> {zset r (set_key q st), []}) \<Longrightarrow> clean r'"
  unfolding clean_def by fastforce

lemma sweep_clean: "clean r \<Longrightarrow> (q, st) \<in> set finished_sets \<Longrightarrow> clean (fst (sweep q st r))"
  by (rule clean_mono[of r]) (use sweep_other[of r q st] sweep_trims[of q st r] in fastforce)+

lemma zset_xtrim [simp]: "zset (xtrim k n r) k' = zset r k'"
  by (auto simp: zset_def xtrim_def split: option.splits redis_value.splits)

definition jobs_gone :: "string \<Rightarrow> string \<Rightarrow> redis \<Rightarrow> redis \<Rightarrow> bool" where
  "jobs_gone q st r r' \<longleftrightarrow> (\<forall>j \<in> set (zset r (set_key q st)). \<forall>k \<in> set (jobKeys q j). r' k = None)"

lemma sweep_gone: "clean r \<Longrightarrow> (q, st) \<in> set finished_sets \<Longrightarrow> jobs_gone q st r (fst (sweep q st r))"
  by (auto simp: jobs_gone_def clean_sweep unlink_def)

lemma gone_stays: "jobs_gone q st r r' \<Longrightarrow> trims r' r'' \<Longrightarrow> jobs_gone q st r r''"
  by (simp add: jobs_gone_def trims_def)

lemma two_sweeps:
  assumes "clean r" "q \<in> set QUEUE_NAMES"
  defines "r' \<equiv> fst (sweep_states q FINISHED r)"
  shows "snd (sweep_states q FINISHED r) = length (zset r (set_key q ''completed'')) + length (zset r (set_key q ''failed''))"
    and "clean r'" and "jobs_gone q ''completed'' r r'" and "jobs_gone q ''failed'' r r'"
    and "(q', st') \<in> set finished_sets \<Longrightarrow> q' \<noteq> q \<Longrightarrow> zset r' (set_key q' st') = zset r (set_key q' st')"
proof -
  have m: "(q, ''completed'') \<in> set finished_sets" "(q, ''failed'') \<in> set finished_sets"
    using assms(2) by (auto simp: finished_sets_def FINISHED_def)
  let ?r1 = "fst (sweep q ''completed'' r)"
  have r': "r' = fst (sweep q ''failed'' ?r1)" by (simp add: r'_def FINISHED_def case_prod_beta)
  have c1: "clean ?r1" using sweep_clean[OF assms(1) m(1)] .
  have same: "zset ?r1 (set_key q ''failed'') = zset r (set_key q ''failed'')" using sweep_other[OF assms(1) m] by simp
  show "snd (sweep_states q FINISHED r) = length (zset r (set_key q ''completed'')) + length (zset r (set_key q ''failed''))"
    using clean_sweep[OF assms(1) m(1)] clean_sweep[OF c1 m(2)] same by (simp add: FINISHED_def case_prod_beta)
  show "clean r'" using sweep_clean[OF c1 m(2)] by (simp add: r')
  show "jobs_gone q ''completed'' r r'"
    using gone_stays[OF sweep_gone[OF assms(1) m(1)]] sweep_trims[OF m(2), of ?r1] by (simp add: r')
  show "jobs_gone q ''failed'' r r'" using sweep_gone[OF c1 m(2)] same by (simp add: r' jobs_gone_def)
  show "zset r' (set_key q' st') = zset r (set_key q' st')" if "(q', st') \<in> set finished_sets" "q' \<noteq> q"
    using sweep_other[OF c1 m(2) that(1)] sweep_other[OF assms(1) m(1) that(1)] that(2) by (simp add: r')
qed

lemma trim_exact:
  "clean r \<Longrightarrow> set queues \<subseteq> set QUEUE_NAMES \<Longrightarrow> distinct queues \<Longrightarrow>
   snd (trim_queues queues r) = sum_list (map (\<lambda>q. length (zset r (set_key q ''completed'')) + length (zset r (set_key q ''failed''))) queues)
   \<and> (\<forall>q \<in> set queues. \<forall>st \<in> set FINISHED. jobs_gone q st r (fst (trim_queues queues r)))"
proof (induction queues r rule: trim_queues.induct)
  case (2 q queues r)
  let ?r1 = "fst (sweep_states q FINISHED r)"
  let ?r2 = "xtrim (events_key q) 1000 ?r1"
  have q: "q \<in> set QUEUE_NAMES" using 2(3) by simp
  note two = two_sweeps[OF 2(2) q]
  have clean2: "clean ?r2" by (rule clean_mono[OF two(2)]) simp
  have same: "zset ?r2 (set_key q' st) = zset r (set_key q' st)" if "q' \<in> set queues" "st \<in> set FINISHED" for q' st
    using two(5)[of q' st] that 2(3,4) by (auto simp: finished_sets_def)
  have IH: "snd (trim_queues queues ?r2) = sum_list (map (\<lambda>q. length (zset ?r2 (set_key q ''completed'')) + length (zset ?r2 (set_key q ''failed''))) queues)
      \<and> (\<forall>q \<in> set queues. \<forall>st \<in> set FINISHED. jobs_gone q st ?r2 (fst (trim_queues queues ?r2)))"
    using 2(1)[OF prod.collapse clean2] 2(3,4) by simp
  have later: "trims ?r1 (fst (trim_queues queues ?r2))"
    using trims_trans[OF xtrim_trims[OF q, of ?r1 1000]] trim_queues_trims[of queues ?r2] 2(3) by simp
  have "jobs_gone q st r (fst (trim_queues queues ?r2))" if "st \<in> set FINISHED" for st
    using that two(3,4) gone_stays[OF _ later] by (auto simp: FINISHED_def)
  moreover have "jobs_gone q' st r (fst (trim_queues queues ?r2))" if "q' \<in> set queues" "st \<in> set FINISHED" for q' st
    using IH that same[OF that] by (simp add: jobs_gone_def)
  moreover have "map (\<lambda>q. length (zset ?r2 (set_key q ''completed'')) + length (zset ?r2 (set_key q ''failed''))) queues
      = map (\<lambda>q. length (zset r (set_key q ''completed'')) + length (zset r (set_key q ''failed''))) queues"
    using same by (auto simp: FINISHED_def simp del: zset_xtrim)
  ultimately show ?case using IH two(1) by (simp add: case_prod_beta del: zset_xtrim map_eq_conv)
qed simp

text \<open>
  C36: Trimming the queues spares every unfinished job. The command ends on every store; it changes no key but the
  finished sets and event streams of the five queues and the keys of jobs in those sets, and a second run finds
  nothing to do. Unless a job's id imitates the name of a finished set, the number it reports is that of
  the finished jobs, and none of their keys is left.
\<close>

theorem trimming_spares_unfinished_jobs:
  assumes "trim_main r = (r', n)"
  shows "(\<forall>k. \<not> touched r k \<longrightarrow> r' k = r k) \<and> (\<forall>(q, st) \<in> set finished_sets. zset r' (set_key q st) = [])
     \<and> trim_main r' = (r', 0)
     \<and> (clean r \<longrightarrow> n = sum_list (map (\<lambda>q. length (zset r (set_key q ''completed'')) + length (zset r (set_key q ''failed''))) QUEUE_NAMES)
         \<and> (\<forall>q j. finished_job r q j \<longrightarrow> (\<forall>k \<in> set (jobKeys q j). r' k = None)))"
proof -
  have out: "r' = fst (trim_queues QUEUE_NAMES r)" "n = snd (trim_queues QUEUE_NAMES r)"
    using assms by (simp_all add: trim_main_def)
  note over = trim_queues_trims[OF order_refl, of r, folded out(1)]
  have "trim_main r' = (r', 0)"
    unfolding trim_main_def by (rule trim_nothing) (use over trim_queues_short[OF order_refl, of r] out(1) in simp_all)
  moreover have "n = sum_list (map (\<lambda>q. length (zset r (set_key q ''completed'')) + length (zset r (set_key q ''failed''))) QUEUE_NAMES)
         \<and> (\<forall>q j. finished_job r q j \<longrightarrow> (\<forall>k \<in> set (jobKeys q j). r' k = None))" if "clean r"
  proof -
    have "distinct QUEUE_NAMES" by (simp add: QUEUE_NAMES_def)
    from trim_exact[OF that order_refl this] show ?thesis
      unfolding out by (auto simp: finished_job_def finished_sets_def jobs_gone_def)
  qed
  ultimately show ?thesis using over by (auto simp: trims_def finished_sets_def)
qed

definition sample_store :: redis where
  "sample_store = [''bull:notify:completed'' \<mapsto> Zset [''7'', ''9''], ''bull:notify:7'' \<mapsto> Value ''done'',
     ''bull:notify:9'' \<mapsto> Value ''done'', ''bull:notify:11'' \<mapsto> Value ''waiting'', ''bull:notify:wait'' \<mapsto> Value ''11'']"

theorem trimming_spares_unfinished_jobs_witness:
  "\<exists>r' n. trim_main sample_store = (r', n) \<and> n = 2 \<and> r' ''bull:notify:7'' = None
     \<and> r' ''bull:notify:11'' = Some (Value ''waiting'') \<and> trim_main r' = (r', 0)"
proof -
  obtain r' n where run: "trim_main sample_store = (r', n)" by fastforce
  have z: "zset sample_store (set_key q st) = (if q = ''notify'' \<and> st = ''completed'' then [''7'', ''9''] else [])"
    if "(q, st) \<in> set finished_sets" for q st
    using that by (auto simp: zset_def sample_store_def finished_sets_def QUEUE_NAMES_def FINISHED_def set_key_def)
  have keys: "finished_job sample_store q j \<longleftrightarrow> q = ''notify'' \<and> j \<in> {''7'', ''9''}" for q j
  proof
    assume "finished_job sample_store q j"
    then obtain st where "(q, st) \<in> set finished_sets" "j \<in> set (zset sample_store (set_key q st))"
      by (auto simp: finished_job_def)
    with z[of q st] show "q = ''notify'' \<and> j \<in> {''7'', ''9''}" by (simp split: if_splits)
  next
    assume "q = ''notify'' \<and> j \<in> {''7'', ''9''}"
    moreover have "(''notify'', ''completed'') \<in> set finished_sets" by (simp add: finished_sets_def QUEUE_NAMES_def FINISHED_def)
    ultimately show "finished_job sample_store q j" using z[of "''notify''" "''completed''"] by (auto simp: finished_job_def)
  qed
  have "set_key q' st' \<notin> set (jobKeys ''notify'' j)" if "(q', st') \<in> set finished_sets" "j \<in> {''7'', ''9''}" for q' st' j
    using that by (auto simp: jobKeys_def set_key_def finished_sets_def QUEUE_NAMES_def FINISHED_def)
  then have "distinct (zset sample_store (set_key q st)) \<and> (\<forall>j \<in> set (zset sample_store (set_key q st)).
      \<forall>(q', st') \<in> set finished_sets. set_key q' st' \<notin> set (jobKeys q j))" if "(q, st) \<in> set finished_sets" for q st
    using z[OF that] by (cases "q = ''notify'' \<and> st = ''completed''") auto
  then have "clean sample_store" unfolding clean_def by blast
  moreover have "\<not> touched sample_store ''bull:notify:11''" unfolding touched_def keys
    by (auto simp: jobKeys_def finished_sets_def QUEUE_NAMES_def FINISHED_def set_key_def events_key_def)
  moreover have "sum_list (map (\<lambda>q. length (zset sample_store (set_key q ''completed'')) + length (zset sample_store (set_key q ''failed''))) QUEUE_NAMES) = 2"
    by (simp add: QUEUE_NAMES_def set_key_def zset_def sample_store_def)
  moreover have "finished_job sample_store ''notify'' ''7''" "''bull:notify:7'' \<in> set (jobKeys ''notify'' ''7'')"
    by (simp_all add: keys jobKeys_def)
  moreover have "sample_store ''bull:notify:11'' = Some (Value ''waiting'')" by (simp add: sample_store_def)
  moreover note trimming_spares_unfinished_jobs[OF run]
  ultimately have "n = 2" "r' ''bull:notify:7'' = None" "r' ''bull:notify:11'' = Some (Value ''waiting'')" "trim_main r' = (r', 0)"
    by (simp, blast, simp, blast)
  with run show ?thesis by blast
qed

end
