(* ===== verification/Conversation_Screen.thy ===== *)
theory Conversation_Screen
  imports Outcomes
begin

text \<open>
  \<open>apps/mobile/app/match/[id].tsx\<close>: the conversation screen of a match. What it offers is a function
  of the two views it has fetched, the match and the conversation; what it sends are the bodies of the
  match, chat and report routes. The lemmas join it to the server: a control that is on the screen of
  the present views is accepted when it is used.
\<close>

subsection \<open>Controls\<close>

definition canWrite :: "match_view \<Rightarrow> conversation_view option \<Rightarrow> bool" where
  "canWrite m conversation = (let active = (mv_status m = M_active);
       chatOpen = (map_option cw_status conversation = Some Conv_open) in active \<and> chatOpen)"

definition iConfirmed :: "match_view \<Rightarrow> bool" where
  "iConfirmed m \<longleftrightarrow> mv_myConfirmedQty m \<noteq> None"

definition show_done :: "match_view \<Rightarrow> conversation_view option \<Rightarrow> bool" where
  "show_done m conversation \<longleftrightarrow> canWrite m conversation \<and> \<not> iConfirmed m"

text \<open>The lines under the messages, as translation keys.\<close>

definition closing_lines :: "match_view \<Rightarrow> conversation_view option \<Rightarrow> string list" where
  "closing_lines m conversation = (let active = (mv_status m = M_active);
       chatOpen = (map_option cw_status conversation = Some Conv_open) in
     (if \<not> active then
        [if mv_status m = M_completed \<or> mv_status m = M_partially_completed then ''match.completed''
         else if mv_status m = M_disputed then ''match.disputeNote'' else ''match.cancelled'']
      else if iConfirmed m then [''chat.waitingPeer''] else [])
     @ (if active \<and> \<not> chatOpen then [''chat.closed''] else []))"

text \<open>The dialog that asks for the second confirmation, and the flag that keeps it from coming again.\<close>

definition peer_dialog :: "bool \<Rightarrow> match_view option \<Rightarrow> bool \<times> bool" where
  "peer_dialog asked match = (case match of
     None \<Rightarrow> (asked, False)
   | Some m \<Rightarrow> if mv_status m \<noteq> M_active then (asked, False)
       else if \<not> mv_peerConfirmed m \<or> mv_myConfirmedQty m \<noteq> None \<or> asked then (asked, False)
       else (True, True))"

definition confirm_qty :: "match_view \<Rightarrow> qty" where
  "confirm_qty m = mv_qtyReserved m"

definition cancel_input :: "cancel_reason \<Rightarrow> cancel_match_input" where
  "cancel_input reason = \<lparr>ci_reason = reason, ci_note = None\<rparr>"

datatype sheet_entry = Sheet_unsafe | Sheet_report | Sheet_block | Sheet_end cancel_reason | Sheet_tips

definition sheet :: "match_view \<Rightarrow> sheet_entry list" where
  "sheet m = [Sheet_unsafe, Sheet_report, Sheet_block]
     @ (if mv_status m = M_active
        then [Sheet_end (if mv_role m = Requester_role then No_longer_needed else Changed_mind)] else [])
     @ [Sheet_tips]"

subsection \<open>The report form\<close>

record report_form =
  rf_category :: "report_category option"
  rf_note :: utext
  rf_preserve :: bool

definition blank_report :: report_form where
  "blank_report = \<lparr>rf_category = None, rf_note = [], rf_preserve = True\<rparr>"

definition type_note :: "utext \<Rightarrow> report_form \<Rightarrow> report_form" where
  "type_note v f = f\<lparr>rf_note := take maxReportNoteLength v\<rparr>"

definition submit_report :: "uid \<Rightarrow> report_form \<Rightarrow> create_report_input option" where
  "submit_report matchId f = (case rf_category f of
     None \<Rightarrow> None
   | Some category \<Rightarrow> Some \<lparr>pi_category = category,
       pi_note = (if js_trim (rf_note f) = [] then None else Some (js_trim (rf_note f))),
       pi_matchId = Some matchId, pi_eventId = None, pi_preserveConversation = rf_preserve f\<rparr>)"

subsection \<open>The messages that are on their way\<close>

record local_message =
  lm_clientMsgId :: string
  lm_quick :: bool
  lm_body :: utext
  lm_failed :: bool   \<comment> \<open>\<open>status = 'failed'\<close>; otherwise \<open>'sending'\<close>\<close>

record composer =
  cp_draft :: utext
  cp_local :: "local_message list"

definition type_draft :: "utext \<Rightarrow> composer \<Rightarrow> composer" where
  "type_draft v s = s\<lparr>cp_draft := take maxMessageLength v\<rparr>"

text \<open>The effect of every answer to the messages query; the flag says whether it posts the read mark.\<close>

definition on_messages :: "message_view list \<Rightarrow> composer \<Rightarrow> composer \<times> bool" where
  "on_messages serverMsgs s =
     (if serverMsgs = [] then (s, False)
      else (s\<lparr>cp_local := filter lm_failed (cp_local s)\<rparr>,
            list_ex (\<lambda>mm. \<not> xv_mine mm \<and> xv_readAt mm = None) serverMsgs))"

definition set_failed :: "string \<Rightarrow> bool \<Rightarrow> local_message list \<Rightarrow> local_message list" where
  "set_failed k b = map (\<lambda>lm. if lm_clientMsgId lm = k then lm\<lparr>lm_failed := b\<rparr> else lm)"

text \<open>\<open>send\<close> up to its request; \<open>key\<close> is what \<open>idempotencyKey()\<close> draws for a new message.\<close>

definition begin_send :: "bool \<Rightarrow> utext \<Rightarrow> string option \<Rightarrow> string \<Rightarrow> composer \<Rightarrow> composer \<times> send_message_input option" where
  "begin_send quick body existingId key s =
     (if js_trim body = [] then (s, None)
      else let clientMsgId = (case existingId of Some k \<Rightarrow> k | None \<Rightarrow> key);
               s1 = (case existingId of
                  None \<Rightarrow> (let s0 = s\<lparr>cp_local := cp_local s @ [\<lparr>lm_clientMsgId = clientMsgId, lm_quick = quick,
                                lm_body = body, lm_failed = False\<rparr>]\<rparr>
                           in if \<not> quick then s0\<lparr>cp_draft := []\<rparr> else s0)
                | Some _ \<Rightarrow> s\<lparr>cp_local := set_failed clientMsgId False (cp_local s)\<rparr>)
           in (s1, Some \<lparr>mi_quick = quick, mi_body = body, mi_clientMsgId = clientMsgId\<rparr>))"

definition send_succeeded :: "string \<Rightarrow> composer \<Rightarrow> composer" where
  "send_succeeded k s = s\<lparr>cp_local := filter (\<lambda>lm. lm_clientMsgId lm \<noteq> k) (cp_local s)\<rparr>"

definition send_failed :: "string \<Rightarrow> composer \<Rightarrow> composer" where
  "send_failed k s = s\<lparr>cp_local := set_failed k True (cp_local s)\<rparr>"


subsection \<open>What the controls ask is granted\<close>

text \<open>A participant who sees a view can lock the match.\<close>

lemma view_bundle:
  "getMatchView d mid viewer = Inr v \<longleftrightarrow> (\<exists>b. loadMatchBundle d mid = Some b \<and> v = toMatchView b viewer
     \<and> (m_requesterId (bd_match b) = viewer \<or> m_helperId (bd_match b) = viewer))"
  by (auto simp: getMatchView_def or_throw_def split: option.split)

lemma bundle_match: "loadMatchBundle d mid = Some b \<Longrightarrow> by_key m_id mid (matches d) = Some (bd_match b)"
  by (auto simp: loadMatchBundle_def split: option.splits)

lemma view_fields:
  assumes "v = toMatchView b viewer"
  shows "mv_status v = m_status (bd_match b)" "mv_qtyReserved v = m_qtyReserved (bd_match b)"
    "mv_myConfirmedQty v = my_confirmed (bd_match b) viewer"
    "mv_peerConfirmed v \<longleftrightarrow> peer_confirmed (bd_match b) viewer \<noteq> None"
    "mv_role v = (if m_requesterId (bd_match b) = viewer then Requester_role else Helper_role)"
  using assms by (simp_all add: toMatchView_def Let_def my_confirmed_def peer_confirmed_def)

lemma view_locks:
  assumes inv: "db_inv d" and v: "getMatchView d mid viewer = Inr v" and act: "mv_status v = M_active"
  shows "\<exists>locks. lockMatchRows d mid = Some locks \<and> m_status (lk_match locks) = M_active
    \<and> (viewer = m_requesterId (lk_match locks) \<or> viewer = m_helperId (lk_match locks))
    \<and> mv_qtyReserved v = m_qtyReserved (lk_match locks) \<and> mv_myConfirmedQty v = my_confirmed (lk_match locks) viewer
    \<and> (mv_peerConfirmed v \<longleftrightarrow> peer_confirmed (lk_match locks) viewer \<noteq> None)
    \<and> mv_role v = (if m_requesterId (lk_match locks) = viewer then Requester_role else Helper_role)"
proof -
  obtain b where b: "loadMatchBundle d mid = Some b" "v = toMatchView b viewer"
    "m_requesterId (bd_match b) = viewer \<or> m_helperId (bd_match b) = viewer" using v by (auto simp: view_bundle)
  let ?m = "bd_match b"
  have m: "by_key m_id mid (matches d) = Some ?m" by (rule bundle_match[OF b(1)])
  have "m_inventoryItemId ?m \<in> i_id ` set (inventoryItems d)"
    using core_invD(7)[OF db_invD(1)[OF inv]] by_key_Some_mem[OF m] act view_fields(1)[OF b(2)]
    by (auto simp: matches_ok_def match_ok_def)
  then have "by_key i_id (m_inventoryItemId ?m) (inventoryItems d) \<noteq> None" by (simp add: by_key_None)
  then obtain it where "by_key i_id (m_inventoryItemId ?m) (inventoryItems d) = Some it" by blast
  moreover have "\<exists>r c cv. by_key r_id (m_requestId ?m) (requests d) = Some r \<and> by_key c_id (r_categoryId r) (categories d) = Some c
      \<and> by_key cv_matchId mid (conversations d) = Some cv"
    using b(1) m by (auto simp: loadMatchBundle_def split: option.splits)
  ultimately obtain locks where "lockMatchRows d mid = Some locks" "lk_match locks = ?m"
    using m by (auto simp: lockMatchRows_def)
  then show ?thesis using b(3) act view_fields[OF b(2)] by auto
qed

text \<open>The view survives a write of the match and its request, when the people and the categories stay.\<close>

lemma find_by_match: "map (\<lambda>c. (cv_id c, cv_matchId c)) cs' = map (\<lambda>c. (cv_id c, cv_matchId c)) cs \<Longrightarrow>
    map_option cv_id (by_key cv_matchId k cs') = map_option cv_id (by_key cv_matchId k cs)"
proof (induction cs arbitrary: cs')
  case (Cons c cs)
  then obtain c' cs2 where "cs' = c' # cs2" "cv_id c' = cv_id c" "cv_matchId c' = cv_matchId c"
    "map (\<lambda>c. (cv_id c, cv_matchId c)) cs2 = map (\<lambda>c. (cv_id c, cv_matchId c)) cs" by auto
  with Cons.IH[of cs2] show ?case by (simp add: by_key_Cons)
qed simp

lemma view_after:
  assumes v: "getMatchView d mid viewer = Inr v" and m0: "by_key m_id mid (matches d) = Some m0"
    and m: "matches d' = upd_key m_id mid f (matches d)" and r: "requests d' = upd_key r_id k g (requests d)"
    and f: "\<And>m. m_id (f m) = m_id m \<and> m_requestId (f m) = m_requestId m \<and> m_requesterId (f m) = m_requesterId m \<and> m_helperId (f m) = m_helperId m"
    and g: "\<And>r. r_id (g r) = r_id r \<and> r_categoryId (g r) = r_categoryId r"
    and same: "users d' = users d" "categories d' = categories d"
    and cv: "map (\<lambda>c. (cv_id c, cv_matchId c)) (conversations d') = map (\<lambda>c. (cv_id c, cv_matchId c)) (conversations d)"
  shows "\<exists>b. getMatchView d' mid viewer = Inr (toMatchView b viewer) \<and> bd_match b = f m0"
proof -
  obtain b where b: "loadMatchBundle d mid = Some b"
    "m_requesterId (bd_match b) = viewer \<or> m_helperId (bd_match b) = viewer" using v by (auto simp: view_bundle)
  have b0: "bd_match b = m0" using bundle_match[OF b(1)] m0 by simp
  obtain rq c cv0 ru hu where rows: "by_key r_id (m_requestId m0) (requests d) = Some rq"
    "by_key c_id (r_categoryId rq) (categories d) = Some c" "by_key cv_matchId mid (conversations d) = Some cv0"
    "by_key u_id (m_requesterId m0) (users d) = Some ru" "by_key u_id (m_helperId m0) (users d) = Some hu"
    using b(1) m0 by (auto simp: loadMatchBundle_def split: option.splits)
  have "by_key m_id mid (matches d') = Some (f m0)" unfolding m using m0 f by (simp add: by_key_upd_key)
  moreover obtain rq' where "by_key r_id (m_requestId m0) (requests d') = Some rq'" "r_categoryId rq' = r_categoryId rq"
    unfolding r using rows(1) g by (cases "m_requestId m0 = k") (simp_all add: by_key_upd_key)
  moreover obtain cv' where "by_key cv_matchId mid (conversations d') = Some cv'"
    using find_by_match[OF cv, of mid] rows(3) by (auto simp: map_option_case split: option.splits)
  ultimately have "\<exists>b'. loadMatchBundle d' mid = Some b' \<and> bd_match b' = f m0"
    using rows f same by (simp add: loadMatchBundle_def)
  then show ?thesis using b(2) b0 f by (auto simp: view_bundle)
qed

text \<open>Settling leaves the people, the categories and the link between match and conversation alone.\<close>

definition onlookers :: "db \<Rightarrow> db \<Rightarrow> bool" where
  "onlookers d d' \<longleftrightarrow> users d' = users d \<and> categories d' = categories d
     \<and> map (\<lambda>c. (cv_id c, cv_matchId c)) (conversations d') = map (\<lambda>c. (cv_id c, cv_matchId c)) (conversations d)"

lemma onlookers_trans: "onlookers a b \<Longrightarrow> onlookers b c \<Longrightarrow> onlookers a c"
  by (simp add: onlookers_def)

lemma onlookers_writes:
  "onlookers d d" "update_item k f d = Inr d1 \<Longrightarrow> onlookers d d1"
  "transitionRequest env r to actor reason st d = Inr (d1, r1) \<Longrightarrow> onlookers d d1"
  "insertSystemMessage env c s key d = Inr d1 \<Longrightarrow> onlookers d d1"
  "onlookers d (update_match mid g d)" "onlookers d (bump env u inc d)"
  "(\<And>c. cv_id (h c) = cv_id c \<and> cv_matchId (h c) = cv_matchId c) \<Longrightarrow> onlookers d (update_conversation k h d)"
  by (auto simp: onlookers_def update_item_Inr transitionRequest_Inr append_transition_def insertSystemMessage_def
      insert_message_Inr update_match_def bump_def update_conversation_def result_elims intro!: map_upd_key_same)

lemma onlookers_simps [simp]:
  "onlookers d (bump env u inc x) = onlookers d x" "onlookers d (update_match k g x) = onlookers d x"
  "onlookers (update_match k g d) x = onlookers d x"
  by (simp_all add: onlookers_def bump_def update_match_def)

lemma onlookers_counters: "onlookers d d4 \<Longrightarrow> onlookers d (if a then if b then applyDispute env r
    (applyDispute env h (applyCompleted env h q p d4)) else applyCompleted env h q p d4 else d4)"
  by (simp add: Let_def applyCompleted_def applyDispute_def)

lemma settle_onlookers:
  assumes "settleLocked env locks opts d = Inr (d', after)"
  shows "onlookers d d'"
proof -
  have item: "onlookers d d1" if "(if p then update_item k f d else Inr d) = Inr d1" for p k f d1
    using that by (auto split: if_splits intro: onlookers_writes)
  have tr: "onlookers d2 (fst x)"
    if "(if p then transitionRequest env r t1 a1 m1 f1 d2 else if q then transitionRequest env r t2 a2 m2 f2 d2
        else transitionRequest env r t3 a3 m3 f3 d2) = Inr x" for p q r t1 a1 m1 f1 t2 a2 m2 f2 t3 a3 m3 f3 d2 x
    using that by (cases x) (auto split: if_splits intro: onlookers_writes)
  have link: "onlookers d d'" if "onlookers d d1" "onlookers (update_match k g d1) (fst x)"
    "insertSystemMessage env c s key d5 = Inr d'" "onlookers (fst x) d5" for d1 k g x c s key d5
    using that by (auto dest!: onlookers_writes(4) intro: onlookers_trans)
  show ?thesis using assms unfolding settleLocked_def Let_def r_bind_Inr case_prod_unfold
    apply (elim exE conjE)
    apply (drule item, drule tr)
    apply (simp only: sum.inject prod.inject)
    apply (elim conjE, hypsubst)
    apply (erule link, assumption, assumption)
    apply (rule onlookers_counters)
    apply (rule onlookers_writes(7))
    apply simp
    done
qed

subsection \<open>Finishing the exchange\<close>

definition whole_units :: "db \<Rightarrow> match_view \<Rightarrow> bool" where
  "whole_units d v \<longleftrightarrow> is_integer (mv_qtyReserved v) \<or> list_all c_fractional (categories d)"

lemma my_confirmed_row [simp]:
  assumes "m_requesterId m = viewer \<or> m_helperId m = viewer"
  shows "my_confirmed (confirm_row m viewer q m) viewer = Some q"
  using assms by (auto simp: my_confirmed_def confirm_row_def)

text \<open>Pressing the button first.\<close>

lemma done_first:
  assumes inv: "db_inv d" and v: "getMatchView d mid viewer = Inr v" and act: "mv_status v = M_active"
    and mine: "mv_myConfirmedQty v = None" and peer: "\<not> mv_peerConfirmed v" and unit: "whole_units d v"
  shows "\<exists>d' es v'. confirmCompletion env mid viewer (confirm_qty v) d = (d', es, Inr v')
    \<and> mv_status v' = M_active \<and> mv_myConfirmedQty v' = Some (mv_qtyReserved v)
    \<and> getMatchView d' mid viewer = Inr v' \<and> mv_qtyReserved v' = mv_qtyReserved v \<and> \<not> mv_peerConfirmed v'
    \<and> db_inv d' \<and> categories d' = categories d"
proof -
  obtain locks where L: "lockMatchRows d mid = Some locks" "m_status (lk_match locks) = M_active"
    "viewer = m_requesterId (lk_match locks) \<or> viewer = m_helperId (lk_match locks)"
    "mv_qtyReserved v = m_qtyReserved (lk_match locks)" "my_confirmed (lk_match locks) viewer = None"
    "peer_confirmed (lk_match locks) viewer = None"
    using view_locks[OF inv v act] mine peer by auto
  let ?m = "lk_match locks" let ?q = "m_qtyReserved ?m" let ?d = "update_match mid (confirm_row ?m viewer ?q) d"
  have m0: "by_key m_id mid (matches d) = Some ?m" using L(1) by (auto simp: lockMatchRows_def split: option.splits)
  have frac: "lk_fractional locks \<or> is_integer ?q" using unit L(1,4)
    by (auto simp: whole_units_def lockMatchRows_def list_all_iff dest!: by_key_Some_mem split: option.splits)
  have tx: "confirm_tx env mid viewer (confirm_qty v) d = Inr (?d, [], True)"
    using L frac by (auto simp: confirm_tx_cases confirm_qty_def Let_def)
  obtain b where b: "getMatchView ?d mid viewer = Inr (toMatchView b viewer)" "bd_match b = confirm_row ?m viewer ?q ?m"
    using view_after[OF v m0, of ?d "confirm_row ?m viewer ?q" 0 "\<lambda>r. r"]
    by (auto simp: update_match_def upd_key_def upd_where_def)
  have me: "m_requesterId ?m = viewer \<or> m_helperId ?m = viewer" using L(3) by blast
  have "0 \<le> confirm_qty v"
    using locked_active(4)[OF db_invD(1)[OF inv] L(1,2)] L(4) by (simp add: match_ok_def confirm_qty_def)
  then have "db_inv ?d" using confirm_keeps[OF inv, of "confirm_qty v" env mid viewer] tx by simp
  moreover have "peer_confirmed (confirm_row ?m viewer ?q ?m) viewer = None"
    using L(6) by (simp add: peer_confirmed_def confirm_row_def split: if_splits)
  moreover have "categories ?d = categories d" by (simp add: update_match_def)
  ultimately show ?thesis using tx b L(2,4) my_confirmed_row[OF me, of ?q] view_fields[OF refl, of b viewer]
    by (simp add: confirmCompletion_def run_after_def)
qed

lemma settled_rows:
  "m_id (settle_match env r0 o1 m) = m_id m" "m_requestId (settle_match env r0 o1 m) = m_requestId m"
  "m_requesterId (settle_match env r0 o1 m) = m_requesterId m" "m_helperId (settle_match env r0 o1 m) = m_helperId m"
  "r_id (settle_request env r0 q r) = r_id r" "r_categoryId (settle_request env r0 q r) = r_categoryId r"
  by (simp_all add: settle_match_def settle_request_def Let_def)

text \<open>Pressing it second, as the dialog asks.\<close>

lemma done_second:
  assumes inv: "db_inv d" and v: "getMatchView d mid viewer = Inr v" and act: "mv_status v = M_active"
    and mine: "mv_myConfirmedQty v = None" and peer: "mv_peerConfirmed v" and unit: "whole_units d v"
  shows "\<exists>d' es v' locks other. confirmCompletion env mid viewer (confirm_qty v) d = (d', es, Inr v')
    \<and> lockMatchRows d mid = Some locks \<and> peer_confirmed (lk_match locks) viewer = Some other
    \<and> mv_status v' = (if other \<noteq> mv_qtyReserved v then M_disputed
        else if r_qtyFulfilled (lk_request locks) + mv_qtyReserved v \<ge> r_qty (lk_request locks) then M_completed
        else M_partially_completed)"
proof -
  obtain locks other where L: "lockMatchRows d mid = Some locks" "m_status (lk_match locks) = M_active"
    "viewer = m_requesterId (lk_match locks) \<or> viewer = m_helperId (lk_match locks)"
    "mv_qtyReserved v = m_qtyReserved (lk_match locks)" "my_confirmed (lk_match locks) viewer = None"
    "peer_confirmed (lk_match locks) viewer = Some other"
    using view_locks[OF inv v act] mine peer by auto
  let ?m = "lk_match locks" let ?q = "m_qtyReserved ?m" and ?o = "confirm_options (lk_match locks) viewer (m_qtyReserved (lk_match locks)) other"
  note A = locked_active[OF db_invD(1)[OF inv] L(1,2)]
  have me: "m_requesterId ?m = viewer \<or> m_helperId ?m = viewer" using L(3) by blast
  have q: "0 \<le> ?q" "?q \<le> ?q" using A(4) by (simp_all add: match_ok_def)
  have m0: "by_key m_id mid (matches d) = Some ?m" using L(1) by (auto simp: lockMatchRows_def split: option.splits)
  have frac: "lk_fractional locks \<or> is_integer ?q" using unit L(1,4)
    by (auto simp: whole_units_def lockMatchRows_def list_all_iff dest!: by_key_Some_mem split: option.splits)
  obtain d' es r where s: "confirmCompletion env mid viewer ?q d = (d', es, r)"
     "requests d' = upd_key r_id (r_id (lk_request locks)) (settle_request env (lk_request locks) (min ?q other)) (requests d)"
     "matches d' = upd_key m_id mid (\<lambda>m. settle_match env (lk_request locks) ?o (confirm_row ?m viewer ?q m)) (matches d)"
    using confirm_second[OF inv L(1,2,3,5,6) q frac] by blast
  obtain after where tx: "confirm_tx env mid viewer ?q d = Inr (d', after, False)"
    and st: "settleLocked env (locks\<lparr>lk_match := confirm_row ?m viewer ?q ?m\<rparr>) ?o (update_match mid (confirm_row ?m viewer ?q) d) = Inr (d', after)"
  proof -
    have "confirm_tx env mid viewer ?q d = r_bind (settleLocked env (locks\<lparr>lk_match := confirm_row ?m viewer ?q ?m\<rparr>) ?o
        (update_match mid (confirm_row ?m viewer ?q) d)) (\<lambda>(d2, after). Inr (d2, after, False))"
      using L me frac by (auto simp: confirm_tx_cases Let_def)
    moreover have "\<exists>x. settleLocked env (locks\<lparr>lk_match := confirm_row ?m viewer ?q ?m\<rparr>) ?o
        (update_match mid (confirm_row ?m viewer ?q) d) = Inr x"
      using settle_inv[OF inv L(1,2), where pre = "confirm_row ?m viewer ?q" and opts = ?o and env = env]
        confirm_options_qty[OF A(4) me L(6) q] confirm_row_ok(1,2)[OF A(4) me L(5) q] by auto
    ultimately show ?thesis using s(1) that by (auto simp: confirmCompletion_def)
  qed
  have on: "onlookers d d'" using settle_onlookers[OF st] by simp
  obtain b where b: "getMatchView d' mid viewer = Inr (toMatchView b viewer)"
     "bd_match b = settle_match env (lk_request locks) ?o (confirm_row ?m viewer ?q ?m)"
    using view_after[OF v m0 s(3,2)] on by (auto simp: settled_rows onlookers_def)
  have r: "r = Inr (toMatchView b viewer)" using s(1) tx b(1) by (simp add: confirmCompletion_def)
  have "m_status (bd_match b) = (if other \<noteq> ?q then M_disputed
        else if r_qtyFulfilled (lk_request locks) + ?q \<ge> r_qty (lk_request locks) then M_completed else M_partially_completed)"
    using me A(4) confirm_options_qty(1)[OF A(4) me L(6) q]
    by (auto simp: b(2) settle_match_def settled_status_def confirm_options_def Let_def match_ok_def)
  then show ?thesis using s(1) L(1,4,6) r view_fields[OF refl, of b viewer] by (simp add: confirm_qty_def)
qed

subsection \<open>Ending it\<close>

lemma cancel_done:
  assumes inv: "db_inv d" and v: "getMatchView d mid viewer = Inr v" and act: "mv_status v = M_active"
  shows "\<exists>d' es v'. cancelMatch env mid viewer (cancel_input reason) d = (d', es, Inr v')
    \<and> mv_status v' = (if reason = Unsafe then M_cancelled_unsafe
        else if mv_role v = Requester_role then M_cancelled_by_requester else M_cancelled_by_helper)"
proof -
  obtain locks where L: "lockMatchRows d mid = Some locks" "m_status (lk_match locks) = M_active"
    "viewer = m_requesterId (lk_match locks) \<or> viewer = m_helperId (lk_match locks)"
    "mv_role v = (if m_requesterId (lk_match locks) = viewer then Requester_role else Helper_role)"
    using view_locks[OF inv v act] by blast
  let ?m = "lk_match locks"
  define opts where "opts = \<lparr>co_actor = (if m_requesterId ?m = viewer then Requester_actor else Helper_actor),
     co_cancellerUserId = Some viewer, co_reason = cancel_reason_token reason, co_unsafe = (reason = Unsafe), co_note = None\<rparr>"
  have m0: "by_key m_id mid (matches d) = Some ?m" using L(1) by (auto simp: lockMatchRows_def split: option.splits)
  have mid: "m_id ?m = mid" using by_key_Some_mem[OF m0] by simp
  obtain d' after where c: "cancelMatchLocked env locks opts d = Inr (d', after)" "cancelled_run env locks opts d d'"
    using cancel_inv[OF inv L(1,2)] by blast
  have tx: "cancel_tx env mid viewer (cancel_input reason) d = Inr (d', after)"
    using L(1,3) c(1) by (auto simp: cancel_tx_def cancel_input_def Let_def opts_def)
  have same: "users d' = users d" "categories d' = categories d"
    using cancelMatchLocked_aside[of d env locks opts] c(1) by (simp_all add: aside_def)
  obtain b where b: "getMatchView d' mid viewer = Inr (toMatchView b viewer)" "bd_match b = cancel_match_row env opts ?m"
  proof -
    have run: "matches d' = upd_key m_id mid (cancel_match_row env opts) (matches d)"
      "requests d' = upd_key r_id (r_id (lk_request locks)) (cancel_request_row env opts) (requests d)"
      "map (\<lambda>c. (cv_id c, cv_matchId c)) (conversations d') = map (\<lambda>c. (cv_id c, cv_matchId c)) (conversations d)"
      using c(2) mid by (simp_all add: cancelled_run_def)
    have fields: "r_id (cancel_request_row env opts r) = r_id r \<and> r_categoryId (cancel_request_row env opts r) = r_categoryId r" for r
      by (simp add: cancel_request_row_def Let_def)
    show ?thesis
      using view_after[OF v m0 run(1,2) _ fields same run(3)] that by (auto simp: cancel_match_row_def)
  qed
  have "m_status (bd_match b) = (if reason = Unsafe then M_cancelled_unsafe
        else if mv_role v = Requester_role then M_cancelled_by_requester else M_cancelled_by_helper)"
    by (simp add: b(2) cancel_match_row_def cancelled_match_status_def opts_def L(4))
  then show ?thesis using tx b(1) view_fields[OF refl, of b viewer] by (simp add: cancelMatch_def)
qed


subsection \<open>The exchange, as the screen runs it\<close>

lemma two_sides:
  assumes "m_requesterId m \<noteq> m_helperId m" "a \<noteq> b" "m_requesterId m = a \<or> m_helperId m = a" "m_requesterId m = b \<or> m_helperId m = b"
  shows "my_confirmed m b = peer_confirmed m a" "peer_confirmed m b = my_confirmed m a"
  using assms by (auto simp: my_confirmed_def peer_confirmed_def)

text \<open>What the other side sees after the first press.\<close>

lemma other_side:
  assumes inv: "db_inv d" and v: "getMatchView d mid a = Inr v" and w: "getMatchView d mid b = Inr w" and ne: "a \<noteq> b"
  shows "mv_status w = mv_status v \<and> mv_qtyReserved w = mv_qtyReserved v \<and> (mv_peerConfirmed w \<longleftrightarrow> mv_myConfirmedQty v \<noteq> None)
    \<and> (mv_myConfirmedQty w = None \<longleftrightarrow> \<not> mv_peerConfirmed v)
    \<and> (\<forall>locks. lockMatchRows d mid = Some locks \<longrightarrow> peer_confirmed (lk_match locks) b = mv_myConfirmedQty v)"
proof -
  obtain bd where bd: "loadMatchBundle d mid = Some bd" "v = toMatchView bd a" "w = toMatchView bd b"
    "m_requesterId (bd_match bd) = a \<or> m_helperId (bd_match bd) = a" "m_requesterId (bd_match bd) = b \<or> m_helperId (bd_match bd) = b"
    using v w by (auto simp: view_bundle)
  note m = bundle_match[OF bd(1)]
  have "m_requesterId (bd_match bd) \<noteq> m_helperId (bd_match bd)"
    using core_invD(7)[OF db_invD(1)[OF inv]] by_key_Some_mem[OF m] by (auto simp: matches_ok_def match_ok_def)
  note two = two_sides[OF this ne bd(4,5)]
  have "lk_match locks = bd_match bd" if "lockMatchRows d mid = Some locks" for locks
    using that m by (auto simp: lockMatchRows_def split: option.splits)
  then show ?thesis using view_fields[OF bd(2)] view_fields[OF bd(3)] two by auto
qed


definition sample_conversation :: conversation_view where
  "sample_conversation = \<lparr>cw_id = 17, cw_matchId = 15, cw_status = Conv_open, cw_expiresAt = None,
     cw_quickReplies = map fst QUICK_REPLIES\<rparr>"

definition sample_view :: match_view where
  "sample_view = toMatchView (the (loadMatchBundle matched_db 15)) 1"

lemma sample_conversation_view: "getConversationView (sample_env 5000) 17 1 matched_db = Inr sample_conversation"
  by code_simp

lemma sample_bundle: "map_option bd_match (loadMatchBundle matched_db 15) = Some sample_match"
  by code_simp

lemma sample_match_view:
  "getMatchView matched_db 15 1 = Inr sample_view \<and> show_done sample_view (Some sample_conversation)
   \<and> \<not> mv_peerConfirmed sample_view \<and> whole_units matched_db sample_view \<and> confirm_qty sample_view = 2
   \<and> mv_status sample_view = M_active \<and> Sheet_end No_longer_needed \<in> set (sheet sample_view)
   \<and> mv_role sample_view = Requester_role"
proof -
  obtain b where b: "loadMatchBundle matched_db 15 = Some b" "bd_match b = sample_match"
    using sample_bundle by (auto simp: map_option_case split: option.splits)
  have v: "sample_view = toMatchView b 1" by (simp add: sample_view_def b(1))
  note fields = view_fields[OF v, unfolded b(2)]
  have "getMatchView matched_db 15 1 = Inr sample_view"
    unfolding view_bundle using b v by (auto simp: sample_match_def)
  moreover have "is_integer (2::qty)" by code_simp
  ultimately show ?thesis using fields
    by (simp add: sample_match_def my_confirmed_def peer_confirmed_def show_done_def canWrite_def iConfirmed_def
        sample_conversation_def whole_units_def confirm_qty_def sheet_def Let_def)
qed

lemmas sample_views = sample_conversation_view conjunct1[OF sample_match_view]
  conjunct1[OF conjunct2[OF sample_match_view]] conjunct1[OF conjunct2[OF conjunct2[OF sample_match_view]]]
  conjunct1[OF conjunct2[OF conjunct2[OF conjunct2[OF sample_match_view]]]]


text \<open>
  A participant can always leave. While the match is active, the sheet offers to end it for the reason of the
  viewer's side and to report feeling unsafe; both are accepted, close the match on the viewer's side of the
  table, and leave a screen that says so and offers neither the composer nor another ending.
\<close>

theorem leaving_from_the_sheet:
  assumes "reachable d" and "getMatchView d mid viewer = Inr v" and "mv_status v = M_active"
    and "Sheet_end reason \<in> set (sheet v) \<or> reason = Unsafe"
  shows "\<exists>d' es v'. cancelMatch env mid viewer (cancel_input reason) d = (d', es, Inr v')
    \<and> zCancelMatch (cancel_input reason)
    \<and> mv_status v' = (if reason = Unsafe then M_cancelled_unsafe
        else if mv_role v = Requester_role then M_cancelled_by_requester else M_cancelled_by_helper)
    \<and> closing_lines v' cw = [''match.cancelled''] \<and> \<not> canWrite v' cw \<and> Sheet_end r \<notin> set (sheet v')"
proof -
  obtain d' es v' where c: "cancelMatch env mid viewer (cancel_input reason) d = (d', es, Inr v')"
    "mv_status v' = (if reason = Unsafe then M_cancelled_unsafe
        else if mv_role v = Requester_role then M_cancelled_by_requester else M_cancelled_by_helper)"
    using cancel_done[OF reachable_inv[OF assms(1)] assms(2,3)] by blast
  moreover have "zCancelMatch (cancel_input reason)" by (simp add: zCancelMatch_def cancel_input_def)
  moreover have "closing_lines v' cw = [''match.cancelled''] \<and> \<not> canWrite v' cw \<and> Sheet_end r \<notin> set (sheet v')"
    by (simp add: c(2) closing_lines_def canWrite_def sheet_def Let_def)
  ultimately show ?thesis by blast
qed

theorem leaving_from_the_sheet_witness:
  "\<exists>d' es v'. cancelMatch (sample_env 5000) 15 1 (cancel_input No_longer_needed) matched_db = (d', es, Inr v')
     \<and> mv_status v' = M_cancelled_by_requester \<and> \<not> canWrite v' None"
proof -
  have "mv_status sample_view = M_active"
    "Sheet_end No_longer_needed \<in> set (sheet sample_view) \<or> No_longer_needed = Unsafe"
    "mv_role sample_view = Requester_role" using sample_match_view by simp_all
  note L = leaving_from_the_sheet[OF matched_reachable sample_views(2) this(1,2), of "sample_env 5000" None No_longer_needed]
  show ?thesis using L \<open>mv_role sample_view = Requester_role\<close> by auto
qed

text \<open>The sheet offers \<open>Sheet_unsafe\<close> after the match has ended too; the server then refuses it.\<close>

lemma unsafe_after_the_end_refused:
  assumes "lockMatchRows d mid = Some locks" "m_status (lk_match locks) \<noteq> M_active"
    and "viewer = m_requesterId (lk_match locks) \<or> viewer = m_helperId (lk_match locks)"
  shows "Sheet_unsafe \<in> set (sheet v)" "cancelMatch env mid viewer (cancel_input Unsafe) d = (d, [], Inl Request_conflict)"
  using assms by (auto simp: sheet_def cancelMatch_def cancel_tx_def cancelMatchLocked_def Let_def)


subsection \<open>What the composer sends is accepted\<close>

lemma insert_fresh:
  assumes "findExisting d viewer (mi_clientMsgId input) = None"
  shows "insert_message (new_message env cid viewer input body) d =
    Inr (d\<lparr>messages := messages d @ [new_message env cid viewer input body\<lparr>ms_id := next_id d\<rparr>], next_id := Suc (next_id d)\<rparr>,
         new_message env cid viewer input body\<lparr>ms_id := next_id d\<rparr>)"
  using assms
  by (auto simp: insert_message_def checked_insert_def message_unique_def new_message_def findExisting_def find_None_iff Let_def
      list_ex_iff list_all_iff)

lemma context_of_view:
  assumes "getConversationView env cid viewer d = Inr cw"
  shows "\<exists>cx. contextForViewer d cid viewer = Inr cx \<and> effectiveStatus env (cx_conversation cx) = cw_status cw
    \<and> cw_quickReplies cw = map fst QUICK_REPLIES"
  using assms by (auto simp: getConversationView_def result_elims)

text \<open>A message that the server has is answered with the copy it has; a new one is stored once.\<close>

lemma send_cases:
  assumes cx: "contextForViewer d cid viewer = Inr cx"
  shows "sendMessage env cid viewer input d = (case findExisting d viewer (mi_clientMsgId input) of
      Some replay \<Rightarrow> (d, [], Inr (toMessage replay (cx_match cx) viewer))
    | None \<Rightarrow> if effectiveStatus env (cx_conversation cx) \<noteq> Conv_open then (d, [], Inl Request_conflict)
        else (case message_body input of Inl e \<Rightarrow> (d, [], Inl e) | Inr body \<Rightarrow>
          let row = new_message env cid viewer input body\<lparr>ms_id := next_id d\<rparr>; peer = peer_of (cx_match cx) viewer in
          (d\<lparr>messages := messages d @ [row], next_id := Suc (next_id d)\<rparr>,
           [Publish peer Message_new (P_message (toMessage row (cx_match cx) peer)),
            Notify_job (notify_message env peer cid (m_id (cx_match cx)))], Inr (toMessage row (cx_match cx) viewer))))"
proof (cases "findExisting d viewer (mi_clientMsgId input)")
  case None
  then show ?thesis using cx insert_fresh[OF None] by (auto simp: sendMessage_def Let_def split: sum.split)
qed (use cx in \<open>simp add: sendMessage_def\<close>)

text \<open>
  What the composer offers, the server takes. While the conversation view says open, a draft typed into the box
  or any quick reply of the view is a well-formed message, and sending it succeeds; a blank draft is not
  sent at all. The submitted report form is well-formed as well.
\<close>

theorem composer_sends_accepted:
  assumes "getConversationView env cid viewer d = Inr cw" and "cw_status cw = Conv_open"
    and "quick \<longrightarrow> body \<in> lit ` set (cw_quickReplies cw)" and "\<not> quick \<longrightarrow> body = cp_draft (type_draft typed s)"
    and "zIdempotencyKey key" and "begin_send quick body None key s = (s', sent)"
  shows "case sent of
      None \<Rightarrow> js_trim body = [] \<and> s' = s
    | Some input \<Rightarrow> zSendMessage input \<and> (\<exists>d' es m. sendMessage env cid viewer input d = (d', es, Inr m))"
proof (cases "js_trim body = []")
  case True
  then show ?thesis using assms(6) by (auto simp: begin_send_def)
next
  case False
  obtain cx where cx: "contextForViewer d cid viewer = Inr cx" "effectiveStatus env (cx_conversation cx) = Conv_open"
    "cw_quickReplies cw = map fst QUICK_REPLIES" using context_of_view[OF assms(1)] assms(2) by auto
  define input where "input = \<lparr>mi_quick = quick, mi_body = body, mi_clientMsgId = key\<rparr>"
  have sent: "sent = Some input" using assms(6) False by (auto simp: begin_send_def input_def Let_def)
  have ne: "body \<noteq> []" using False by (auto simp: js_trim_def)
  have len: "length body \<le> maxMessageLength"
  proof (cases quick)
    case True
    then have "body \<in> set (map (lit \<circ> fst) QUICK_REPLIES)" using assms(3) cx(3) by auto
    then show ?thesis by (auto simp: QUICK_REPLIES_def maxMessageLength_def lit_def)
  qed (use assms(4) in \<open>simp add: type_draft_def\<close>)
  have "\<exists>text. message_body input = Inr text" using assms(3) cx(3) by (auto simp: message_body_def input_def)
  then have "\<exists>d' es m. sendMessage env cid viewer input d = (d', es, Inr m)"
    by (auto simp: send_cases[OF cx(1)] cx(2) Let_def split: option.split)
  moreover have "zSendMessage input" using ne len assms(5) by (cases body) (simp_all add: zSendMessage_def input_def)
  ultimately show ?thesis by (simp add: sent)
qed

definition empty_composer :: composer where
  "empty_composer = \<lparr>cp_draft = [], cp_local = []\<rparr>"

theorem composer_sends_accepted_witness:
  "\<exists>d' es m. sendMessage (sample_env 5000) 17 1 \<lparr>mi_quick = True, mi_body = lit ''where_meet'',
     mi_clientMsgId = ''message-0001''\<rparr> matched_db = (d', es, Inr m)"
proof -
  have "snd (begin_send True (lit ''where_meet'') None ''message-0001'' empty_composer) =
      Some \<lparr>mi_quick = True, mi_body = lit ''where_meet'', mi_clientMsgId = ''message-0001''\<rparr>"
    by (simp add: begin_send_def lit_def js_trim_def is_js_space_def Let_def)
  then obtain s' where run: "begin_send True (lit ''where_meet'') None ''message-0001'' empty_composer =
      (s', Some \<lparr>mi_quick = True, mi_body = lit ''where_meet'', mi_clientMsgId = ''message-0001''\<rparr>)"
    by (cases "begin_send True (lit ''where_meet'') None ''message-0001'' empty_composer") simp
  from composer_sends_accepted[OF sample_views(1) _ _ _ _ run, of "[]"] show ?thesis
    by (simp add: sample_conversation_def QUICK_REPLIES_def zIdempotencyKey_def)
qed

lemma report_form_valid:
  assumes "submit_report mid (type_note typed f) = Some input"
  shows "zCreateReport input \<and> pi_matchId input = Some mid"
proof -
  have "length (js_trim t) \<le> length t" for t :: utext
    using length_dropWhile_le[of is_js_space "rev (dropWhile is_js_space t)"] length_dropWhile_le[of is_js_space t]
    by (simp add: js_trim_def)
  from this[of "take maxReportNoteLength typed"] show ?thesis using assms
    by (auto simp: submit_report_def type_note_def zCreateReport_def split: option.splits)
qed

text \<open>The screen asks for the first hundred messages and never for the next page.\<close>

definition SCREEN_PAGE :: nat where "SCREEN_PAGE = 100"

lemma insert_before_last:
  assumes "ms_createdAt x < ms_createdAt m \<or> (ms_createdAt x = ms_createdAt m \<and> ms_id x \<le> ms_id m)"
  shows "msg_insert x (ys @ [m]) = msg_insert x ys @ [m]"
  using assms by (induction ys) auto

lemma sort_snoc:
  assumes "\<And>x. x \<in> set xs \<Longrightarrow> ms_createdAt x < ms_createdAt m \<or> (ms_createdAt x = ms_createdAt m \<and> ms_id x \<le> ms_id m)"
  shows "msg_sort (xs @ [m]) = msg_sort xs @ [m]"
  using assms by (induction xs) (simp_all add: msg_sort_def insert_before_last)

lemma length_msg_sort [simp]: "length (msg_sort xs) = length xs"
proof -
  have "length (msg_insert m ys) = Suc (length ys)" for m ys by (induction ys) auto
  then show ?thesis by (induction xs) (simp_all add: msg_sort_def)
qed

lemma set_msg_sort [simp]: "set (msg_sort xs) = set xs"
proof -
  have "set (msg_insert m ys) = insert m (set ys)" for m ys by (induction ys) auto
  then show ?thesis by (induction xs) (simp_all add: msg_sort_def)
qed

text \<open>Once a conversation has a hundred messages, a new one reaches nobody's screen.\<close>

theorem hundred_and_first_message_hidden:
  assumes full: "SCREEN_PAGE \<le> length (filter (\<lambda>m. ms_conversationId m = cid) (messages d))"
    and order: "\<And>m. m \<in> set (messages d) \<Longrightarrow> ms_createdAt m \<le> now env \<and> ms_id m < next_id d"
    and fresh: "findExisting d viewer (mi_clientMsgId input) = None"
    and run: "sendMessage env cid viewer input d = (d', es, Inr sent)"
    and page: "listMessages env' cid reader No_cursor SCREEN_PAGE d' = (d2, es2, Inr (items, nxt))"
  shows "xv_id sent \<notin> xv_id ` set items"
proof -
  obtain cx where cx: "contextForViewer d cid viewer = Inr cx" using run by (auto simp: sendMessage_def split: sum.splits)
  obtain body where d': "messages d' = messages d @ [new_message env cid viewer input body\<lparr>ms_id := next_id d\<rparr>]"
    and id: "xv_id sent = next_id d"
    using run fresh by (auto simp: send_cases[OF cx] Let_def toMessage_def split: if_splits sum.splits)
  let ?new = "new_message env cid viewer input body\<lparr>ms_id := next_id d\<rparr>" and ?old = "filter (\<lambda>m. ms_conversationId m = cid) (messages d)"
  have "msg_sort (?old @ [?new]) = msg_sort ?old @ [?new]"
    by (rule sort_snoc) (use order in \<open>force simp: new_message_def\<close>)
  then have rows: "page_rows d' cid None SCREEN_PAGE = take SCREEN_PAGE (msg_sort ?old)"
    using full by (simp add: page_rows_def d' after_cursor_def new_message_def)
  have old: "ms_id r < next_id d" if "r \<in> set (page_rows d' cid None SCREEN_PAGE)" for r
    using that order unfolding rows by (auto dest: in_set_takeD)
  show ?thesis using page old
    by (force simp: listMessages_def decodeCursor_def Let_def id toMessage_def upd_where_def split: sum.splits if_splits)
qed

end
