(* ===== verification/Chat_Run.thy ===== *)
theory Chat_Run
  imports Conversation_Screen
begin

text \<open>
  One participant's conversation screen and the server, run together: messages are typed and sent, a request
  is answered, refused, or lost on the way there or back, a failed message is sent again under its key,
  and the messages query answers. Every message is stored at most once, and none is lost while the query
  answers only between sends; an answer in the middle of a send can lose one.
\<close>

record chat_run =
  ch_screen :: composer
  ch_flight :: "send_message_input list"   \<comment> \<open>requests without an answer yet\<close>
  ch_sent :: "send_message_input list"     \<comment> \<open>every message the person has sent, once\<close>
  ch_db :: db

definition own :: "uid \<Rightarrow> db \<Rightarrow> (string \<times> utext) list" where
  "own viewer d = List.map_filter (\<lambda>m. if ms_senderId m = viewer
     then map_option (\<lambda>k. (k, ms_body m)) (ms_clientMsgId m) else None) (messages d)"

definition local_input :: "local_message \<Rightarrow> send_message_input" where
  "local_input lm = \<lparr>mi_quick = lm_quick lm, mi_body = lm_body lm, mi_clientMsgId = lm_clientMsgId lm\<rparr>"

text \<open>
  \<open>elsewhere\<close> is whatever the server does meanwhile that neither adds nor removes a message of this
  person (retention, which deletes the conversations of ended events, is left out).
\<close>

inductive chat_step :: "uid \<Rightarrow> uid \<Rightarrow> chat_run \<Rightarrow> chat_run \<Rightarrow> bool" for cid viewer where
  draft: "chat_step cid viewer c (c\<lparr>ch_screen := type_draft t (ch_screen c)\<rparr>)"
| send: "begin_send quick body None key (ch_screen c) = (s', Some input)
    \<Longrightarrow> key \<notin> mi_clientMsgId ` set (ch_sent c) \<Longrightarrow> key \<notin> fst ` set (own viewer (ch_db c))
    \<Longrightarrow> chat_step cid viewer c (c\<lparr>ch_screen := s', ch_flight := input # ch_flight c, ch_sent := input # ch_sent c\<rparr>)"
| again: "lm \<in> set (cp_local (ch_screen c)) \<Longrightarrow> lm_failed lm
    \<Longrightarrow> begin_send (lm_quick lm) (lm_body lm) (Some (lm_clientMsgId lm)) key (ch_screen c) = (s', Some input)
    \<Longrightarrow> chat_step cid viewer c (c\<lparr>ch_screen := s', ch_flight := input # ch_flight c\<rparr>)"
| answered: "input \<in> set (ch_flight c) \<Longrightarrow> sendMessage env cid viewer input (ch_db c) = (d', es, Inr m)
    \<Longrightarrow> chat_step cid viewer c (c\<lparr>ch_screen := send_succeeded (mi_clientMsgId input) (ch_screen c),
          ch_flight := remove1 input (ch_flight c), ch_db := d'\<rparr>)"
| refused_or_lost: "input \<in> set (ch_flight c) \<Longrightarrow> sendMessage env cid viewer input (ch_db c) = (d', es, r)
    \<Longrightarrow> chat_step cid viewer c (c\<lparr>ch_screen := send_failed (mi_clientMsgId input) (ch_screen c),
          ch_flight := remove1 input (ch_flight c), ch_db := d'\<rparr>)"
| unreachable: "input \<in> set (ch_flight c)
    \<Longrightarrow> chat_step cid viewer c (c\<lparr>ch_screen := send_failed (mi_clientMsgId input) (ch_screen c),
          ch_flight := remove1 input (ch_flight c)\<rparr>)"
| refreshed: "ch_flight c = [] \<Longrightarrow> chat_step cid viewer c (c\<lparr>ch_screen := fst (on_messages ms (ch_screen c))\<rparr>)"
| elsewhere: "own viewer d' = own viewer (ch_db c) \<Longrightarrow> chat_step cid viewer c (c\<lparr>ch_db := d'\<rparr>)"

definition opened :: "uid \<Rightarrow> chat_run \<Rightarrow> bool" where
  "opened viewer c \<longleftrightarrow> cp_local (ch_screen c) = [] \<and> ch_flight c = [] \<and> ch_sent c = []
     \<and> distinct (map fst (own viewer (ch_db c)))"

subsection \<open>The invariant\<close>

definition held_text :: "send_message_input \<Rightarrow> utext" where
  "held_text input = (if mi_quick input then mi_body input else redactContactDetails (mi_body input))"

definition stored_copy :: "uid \<Rightarrow> db \<Rightarrow> send_message_input \<Rightarrow> bool" where
  "stored_copy viewer d input \<longleftrightarrow> (mi_clientMsgId input, held_text input) \<in> set (own viewer d)"

text \<open>Each message is accounted for: on the server, or on the screen, as sending exactly while it is in flight.\<close>

definition screen_ok :: "send_message_input list \<Rightarrow> send_message_input list \<Rightarrow> local_message list \<Rightarrow> bool" where
  "screen_ok sent flight ls \<longleftrightarrow>
     distinct (map mi_clientMsgId sent) \<and> distinct flight \<and> set flight \<subseteq> local_input ` set ls
     \<and> distinct (map lm_clientMsgId ls) \<and> local_input ` set ls \<subseteq> set sent
     \<and> (\<forall>lm \<in> set ls. lm_failed lm \<longleftrightarrow> local_input lm \<notin> set flight)"

definition stored_ok :: "uid \<Rightarrow> db \<Rightarrow> send_message_input list \<Rightarrow> bool" where
  "stored_ok viewer d sent \<longleftrightarrow> distinct (map fst (own viewer d))
     \<and> (\<forall>input \<in> set sent. mi_clientMsgId input \<in> fst ` set (own viewer d) \<longrightarrow> stored_copy viewer d input)"

definition chat_ok :: "uid \<Rightarrow> chat_run \<Rightarrow> bool" where
  "chat_ok viewer c \<longleftrightarrow> screen_ok (ch_sent c) (ch_flight c) (cp_local (ch_screen c)) \<and> stored_ok viewer (ch_db c) (ch_sent c)
     \<and> (\<forall>input \<in> set (ch_sent c). stored_copy viewer (ch_db c) input \<or> input \<in> local_input ` set (cp_local (ch_screen c)))"

lemma local_input_fields [simp]: "mi_clientMsgId (local_input lm) = lm_clientMsgId lm" "local_input (lm\<lparr>lm_failed := b\<rparr>) = local_input lm"
  by (simp_all add: local_input_def)

lemma set_failed_image [simp]: "local_input ` set (set_failed k b ls) = local_input ` set ls"
  "map lm_clientMsgId (set_failed k b ls) = map lm_clientMsgId ls"
  by (induction ls) (auto simp: set_failed_def)

lemma set_failed_elim:
  assumes "l \<in> set (set_failed k b ls)"
  obtains lm where "lm \<in> set ls" "l = (if lm_clientMsgId lm = k then lm\<lparr>lm_failed := b\<rparr> else lm)"
  using assms unfolding set_failed_def set_map by blast

lemma same_key: "screen_ok sent flight ls \<Longrightarrow> a \<in> set sent \<Longrightarrow> b \<in> set sent \<Longrightarrow> mi_clientMsgId a = mi_clientMsgId b \<Longrightarrow> a = b"
  by (auto simp: screen_ok_def distinct_map dest: inj_onD)

lemma key_of:
  assumes "screen_ok sent flight ls" "lm \<in> set ls" "i \<in> set sent"
  shows "local_input lm = i \<longleftrightarrow> lm_clientMsgId lm = mi_clientMsgId i"
proof -
  have "local_input lm \<in> set sent" using assms(1,2) by (auto simp: screen_ok_def)
  then show ?thesis using same_key[OF assms(1) _ assms(3)] by (metis local_input_fields(1))
qed

lemma flight_sent: "screen_ok sent flight ls \<Longrightarrow> i \<in> set flight \<Longrightarrow> i \<in> set sent"
  by (auto simp: screen_ok_def)

lemma screen_failed:
  assumes ok: "screen_ok sent flight ls" and inp: "input \<in> set flight"
  shows "screen_ok sent (remove1 input flight) (set_failed (mi_clientMsgId input) True ls)"
proof -
  have key: "local_input lm = input \<longleftrightarrow> lm_clientMsgId lm = mi_clientMsgId input" if "lm \<in> set ls" for lm
    by (rule key_of[OF ok that flight_sent[OF ok inp]])
  have "lm_failed l \<longleftrightarrow> local_input l \<notin> set (remove1 input flight)"
    if l: "l \<in> set (set_failed (mi_clientMsgId input) True ls)" for l
  proof -
    obtain lm where lm: "lm \<in> set ls" "l = (if lm_clientMsgId lm = mi_clientMsgId input then lm\<lparr>lm_failed := True\<rparr> else lm)"
      by (rule set_failed_elim[OF l])
    have "distinct flight" "lm_failed lm \<longleftrightarrow> local_input lm \<notin> set flight" using ok lm(1) by (simp_all add: screen_ok_def)
    then show ?thesis using key[OF lm(1)] lm(2) by (cases "local_input lm = input") (simp_all add: set_remove1_eq)
  qed
  moreover have "set (remove1 input flight) \<subseteq> local_input ` set ls" "distinct (remove1 input flight)"
    using ok set_remove1_subset[of input flight] by (auto simp: screen_ok_def)
  ultimately show ?thesis using ok by (simp add: screen_ok_def)
qed

lemma screen_again:
  assumes ok: "screen_ok sent flight ls" and lm: "lm \<in> set ls" "lm_failed lm"
  shows "screen_ok sent (local_input lm # flight) (set_failed (lm_clientMsgId lm) False ls)"
proof -
  have sent: "local_input lm \<in> set sent" using ok lm(1) by (auto simp: screen_ok_def)
  have new: "local_input lm \<notin> set flight" using ok lm by (simp add: screen_ok_def)
  have "lm_failed l \<longleftrightarrow> local_input l \<notin> set (local_input lm # flight)"
    if l: "l \<in> set (set_failed (lm_clientMsgId lm) False ls)" for l
  proof -
    obtain l0 where l0: "l0 \<in> set ls" "l = (if lm_clientMsgId l0 = lm_clientMsgId lm then l0\<lparr>lm_failed := False\<rparr> else l0)"
      by (rule set_failed_elim[OF l])
    have "lm_failed l0 \<longleftrightarrow> local_input l0 \<notin> set flight" using ok l0(1) by (simp add: screen_ok_def)
    then show ?thesis using key_of[OF ok l0(1) sent] l0(2) by (cases "local_input l0 = local_input lm") simp_all
  qed
  then show ?thesis using ok lm(1) new by (simp add: screen_ok_def)
qed

lemma screen_answered:
  assumes ok: "screen_ok sent flight ls" and inp: "input \<in> set flight"
  shows "screen_ok sent (remove1 input flight) (filter (\<lambda>lm. lm_clientMsgId lm \<noteq> mi_clientMsgId input) ls)
    \<and> set (filter (\<lambda>lm. lm_clientMsgId lm \<noteq> mi_clientMsgId input) ls) = {lm \<in> set ls. local_input lm \<noteq> input}"
proof -
  have key: "local_input lm = input \<longleftrightarrow> lm_clientMsgId lm = mi_clientMsgId input" if "lm \<in> set ls" for lm
    by (rule key_of[OF ok that flight_sent[OF ok inp]])
  have "set flight - {input} \<subseteq> local_input ` {lm \<in> set ls. local_input lm \<noteq> input}" using ok by (auto simp: screen_ok_def)
  then show ?thesis using ok inp key unfolding screen_ok_def
    by (auto simp: set_remove1_eq distinct_map inj_on_def)
qed

lemma own_append: "own viewer (d\<lparr>messages := messages d @ [m], next_id := n\<rparr>) = own viewer d @ own viewer (d\<lparr>messages := [m]\<rparr>)"
  by (simp add: own_def map_filter_def)

lemma found_own: "findExisting d viewer k = None \<longleftrightarrow> k \<notin> fst ` set (own viewer d)"
  by (force simp: findExisting_def find_None_iff own_def map_filter_def split: if_splits)

text \<open>What one request does to the messages of the sender.\<close>

lemma send_own:
  assumes run: "sendMessage env cid viewer input d = (d', es, r)"
  shows "(own viewer d' = own viewer d \<or> (mi_clientMsgId input \<notin> fst ` set (own viewer d)
       \<and> own viewer d' = own viewer d @ [(mi_clientMsgId input, held_text input)]))
    \<and> (\<forall>m. r = Inr m \<longrightarrow> mi_clientMsgId input \<in> fst ` set (own viewer d'))"
proof (cases "contextForViewer d cid viewer")
  case (Inl e)
  then show ?thesis using run by (auto simp: sendMessage_def)
next
  case (Inr cx)
  show ?thesis
  proof (cases "findExisting d viewer (mi_clientMsgId input)")
    case None
    have held: "body = held_text input" if "message_body input = Inr body" for body
      using that by (auto simp: message_body_def held_text_def split: if_splits)
    show ?thesis using run None held found_own[of d viewer "mi_clientMsgId input"]
      by (auto simp: send_cases[OF Inr] Let_def own_append new_message_def split: if_splits sum.splits)
         (auto simp: own_def map_filter_def)
  next
    case (Some m)
    then show ?thesis using run found_own[of d viewer "mi_clientMsgId input"] by (auto simp: send_cases[OF Inr])
  qed
qed


lemma stored_mono: "stored_copy viewer d i \<Longrightarrow> set (own viewer d) \<subseteq> set (own viewer d') \<Longrightarrow> stored_copy viewer d' i"
  by (auto simp: stored_copy_def)

lemma stored_after:
  assumes ok: "screen_ok sent flight ls" "stored_ok viewer d sent" and inp: "input \<in> set sent"
    and run: "sendMessage env cid viewer input d = (d', es, r)"
  shows "stored_ok viewer d' sent" "set (own viewer d) \<subseteq> set (own viewer d')" "r = Inr m \<Longrightarrow> stored_copy viewer d' input"
proof -
  note S = send_own[OF run]
  have mine: "i = input" if "i \<in> set sent" "mi_clientMsgId i = mi_clientMsgId input" for i
    using same_key[OF ok(1) that(1) inp that(2)] .
  show "set (own viewer d) \<subseteq> set (own viewer d')" using S by auto
  show st: "stored_ok viewer d' sent"
  proof (cases "own viewer d' = own viewer d")
    case True
    with ok(2) show ?thesis by (simp add: stored_ok_def stored_copy_def)
  next
    case False
    with S have new: "mi_clientMsgId input \<notin> fst ` set (own viewer d)"
      "own viewer d' = own viewer d @ [(mi_clientMsgId input, held_text input)]" by simp_all
    have "stored_copy viewer d' i" if i: "i \<in> set sent" "mi_clientMsgId i \<in> fst ` set (own viewer d')" for i
    proof (cases "mi_clientMsgId i = mi_clientMsgId input")
      case True
      then show ?thesis using mine[OF i(1)] new(2) by (simp add: stored_copy_def)
    next
      case False
      then show ?thesis using i ok(2) new(2) by (auto simp: stored_ok_def stored_copy_def)
    qed
    then show ?thesis using new ok(2) by (simp add: stored_ok_def)
  qed
  show "stored_copy viewer d' input" if "r = Inr m" using S that st inp by (auto simp: stored_ok_def)
qed

lemma chat_step_ok:
  assumes "chat_step cid viewer c c'" "chat_ok viewer c"
  shows "chat_ok viewer c'"
  using assms
proof (induction rule: chat_step.induct)
  case (draft c t)
  then show ?case by (simp add: chat_ok_def type_draft_def)
next
  case (send quick body key c s' input)
  define lm where "lm = \<lparr>lm_clientMsgId = key, lm_quick = quick, lm_body = body, lm_failed = False\<rparr>"
  have s': "cp_local s' = cp_local (ch_screen c) @ [lm]" "local_input lm = input" "mi_clientMsgId input = key"
    using send(1) by (auto simp: begin_send_def lm_def local_input_def Let_def split: if_splits)
  have new: "key \<notin> lm_clientMsgId ` set (cp_local (ch_screen c))" "input \<notin> set (ch_flight c)" "input \<notin> set (ch_sent c)"
  proof -
    have ok: "screen_ok (ch_sent c) (ch_flight c) (cp_local (ch_screen c))" using send(4) by (simp add: chat_ok_def)
    show sent: "input \<notin> set (ch_sent c)" using send(2) s'(3) by auto
    then show "input \<notin> set (ch_flight c)" using flight_sent[OF ok] by blast
    show "key \<notin> lm_clientMsgId ` set (cp_local (ch_screen c))"
    proof
      assume "key \<in> lm_clientMsgId ` set (cp_local (ch_screen c))"
      then obtain l where "l \<in> set (cp_local (ch_screen c))" "lm_clientMsgId l = key" by blast
      then have "local_input l \<in> set (ch_sent c)" "mi_clientMsgId (local_input l) = key" using ok by (auto simp: screen_ok_def)
      with send(2) show False by (metis imageI)
    qed
  qed
  have "screen_ok (input # ch_sent c) (input # ch_flight c) (cp_local (ch_screen c) @ [lm])"
    using send(2,4) s' new by (auto simp: chat_ok_def screen_ok_def lm_def)
  then show ?case using send(3,4) s' by (auto simp: chat_ok_def stored_ok_def)
next
  case (again lm c key s' input)
  have s': "cp_local s' = set_failed (lm_clientMsgId lm) False (cp_local (ch_screen c))" "input = local_input lm"
    using again(3) by (auto simp: begin_send_def local_input_def Let_def split: if_splits)
  have "screen_ok (ch_sent c) (input # ch_flight c) (set_failed (lm_clientMsgId lm) False (cp_local (ch_screen c)))"
    using screen_again[of "ch_sent c" "ch_flight c" _ lm] again(1,2,4) s'(2) by (simp add: chat_ok_def)
  then show ?case using again(4) s'(1) by (simp add: chat_ok_def)
next
  case (answered input c env d' es m)
  have sent: "input \<in> set (ch_sent c)" using answered(1,3) by (auto simp: chat_ok_def screen_ok_def)
  have ok: "screen_ok (ch_sent c) (ch_flight c) (cp_local (ch_screen c))" "stored_ok viewer (ch_db c) (ch_sent c)"
    using answered(3) by (simp_all add: chat_ok_def)
  note A = screen_answered[OF ok(1) answered(1)] and S = stored_after[OF ok sent answered(2)]
  have "stored_copy viewer d' i \<or> i \<in> local_input ` {lm \<in> set (cp_local (ch_screen c)). local_input lm \<noteq> input}"
    if "i \<in> set (ch_sent c)" for i
  proof (cases "i = input")
    case True
    then show ?thesis using S(3)[OF refl] by simp
  next
    case False
    then show ?thesis using answered(3) that stored_mono[OF _ S(2), of i] by (auto simp: chat_ok_def)
  qed
  then show ?case using A S(1) by (simp add: chat_ok_def send_succeeded_def)
next
  case (refused_or_lost input c env d' es r)
  have ok: "screen_ok (ch_sent c) (ch_flight c) (cp_local (ch_screen c))" "stored_ok viewer (ch_db c) (ch_sent c)"
    using refused_or_lost(3) by (simp_all add: chat_ok_def)
  note S = stored_after[OF ok flight_sent[OF ok(1) refused_or_lost(1)] refused_or_lost(2)]
  show ?case using refused_or_lost(3) screen_failed[OF ok(1) refused_or_lost(1)] S(1) stored_mono[OF _ S(2)]
    by (auto simp: chat_ok_def send_failed_def)
next
  case (unreachable input c)
  then show ?case using screen_failed[OF _ unreachable(1)] by (auto simp: chat_ok_def send_failed_def)
next
  case (refreshed c ms)
  then have "filter lm_failed (cp_local (ch_screen c)) = cp_local (ch_screen c)"
    by (auto simp: chat_ok_def screen_ok_def filter_id_conv)
  then have "cp_local (fst (on_messages ms (ch_screen c))) = cp_local (ch_screen c)" by (simp add: on_messages_def)
  then show ?case using refreshed(2) by (simp add: chat_ok_def)
next
  case (elsewhere d' c)
  then show ?case by (simp add: chat_ok_def stored_ok_def stored_copy_def)
qed

lemma chat_run_ok:
  assumes "(chat_step cid viewer)\<^sup>*\<^sup>* c c'" "opened viewer c"
  shows "chat_ok viewer c'"
  using assms
proof (induction rule: rtranclp_induct)
  case base
  then show ?case by (simp add: opened_def chat_ok_def screen_ok_def stored_ok_def)
qed (blast intro: chat_step_ok)


definition sample_chat :: chat_run where
  "sample_chat = \<lparr>ch_screen = empty_composer, ch_flight = [], ch_sent = [], ch_db = matched_db\<rparr>"

definition sample_input :: send_message_input where
  "sample_input = \<lparr>mi_quick = False, mi_body = lit ''hello'', mi_clientMsgId = ''message-0001''\<rparr>"


text \<open>
  The query answers every ten seconds and after every message of the peer. An answer in the middle of a send
  takes the copy off the screen, and when that send fails nothing is left of the text.
\<close>

lemma refresh_in_flight_loses_the_text:
  assumes "begin_send False body None key s = (s1, Some input)" and "cp_local s = []" and "ms \<noteq> []"
  shows "cp_local (send_failed key (fst (on_messages ms s1))) = [] \<and> cp_draft (send_failed key (fst (on_messages ms s1))) = []"
  using assms by (auto simp: begin_send_def on_messages_def send_failed_def set_failed_def Let_def split: if_splits)

end
