(* ===== verification/Request_Screens.thy ===== *)
theory Request_Screens
  imports Catalogue_Seed Outcomes
begin

text \<open>
  The screens of a request: the form that creates it (\<open>apps/mobile/app/request/new.tsx\<close>), the screen that
  follows it (\<open>request/[id].tsx\<close>), and the screen on which a helper answers the offer made for it
  (\<open>offer/[id].tsx\<close>).
\<close>

subsection \<open>The request form\<close>

record request_form =
  qf_categoryId :: "uid option"
  qf_qty :: qty
  qf_urgency :: request_urgency
  qf_note :: utext
  qf_useLocation :: bool
  qf_areaHint :: utext
  qf_expiresIn :: int
  qf_safetyAck :: bool

definition blank_form :: request_form where
  "blank_form = \<lparr>qf_categoryId = None, qf_qty = 1, qf_urgency = Standard, qf_note = [], qf_useLocation = True,
     qf_areaHint = [], qf_expiresIn = 15, qf_safetyAck = False\<rparr>"

definition chosen :: "category_view list \<Rightarrow> request_form \<Rightarrow> category_view option" where
  "chosen cats f = (case qf_categoryId f of None \<Rightarrow> None | Some k \<Rightarrow> find (\<lambda>c. cy_id c = k) cats)"

text \<open>\<open>Stepper\<close> of \<open>components/ui.tsx\<close>: what a press of a button hands to \<open>onChange\<close>.\<close>

definition stepped :: "qty \<Rightarrow> qty \<Rightarrow> qty \<Rightarrow> qty \<Rightarrow> qty" where
  "stepped mn mx v delta = min mx (max mn (v + delta))"

datatype form_edit =
    Pick uid | Unpick | More | Less | Set_urgency request_urgency | Type_note utext | Use_location bool
  | Type_area utext | Pick_expiry nat | Acknowledge bool

text \<open>What the form shows decides what can be pressed; an edit of a control that is not there changes nothing.\<close>

fun edit_form :: "category_view list \<Rightarrow> form_edit \<Rightarrow> request_form \<Rightarrow> request_form" where
  "edit_form cats (Pick k) f = (if chosen cats f = None \<and> list_ex (\<lambda>c. cy_id c = k) cats
     then f\<lparr>qf_categoryId := Some k, qf_qty := 1\<rparr> else f)"
| "edit_form cats Unpick f = f\<lparr>qf_categoryId := None\<rparr>"
| "edit_form cats More f = (case chosen cats f of None \<Rightarrow> f
     | Some c \<Rightarrow> f\<lparr>qf_qty := stepped 1 (cy_maxRequestQty c) (qf_qty f) 1\<rparr>)"
| "edit_form cats Less f = (case chosen cats f of None \<Rightarrow> f
     | Some c \<Rightarrow> f\<lparr>qf_qty := stepped 1 (cy_maxRequestQty c) (qf_qty f) (- 1)\<rparr>)"
| "edit_form cats (Set_urgency u) f = f\<lparr>qf_urgency := u\<rparr>"
| "edit_form cats (Type_note v) f = f\<lparr>qf_note := take maxNoteLength v\<rparr>"
| "edit_form cats (Use_location b) f = f\<lparr>qf_useLocation := b\<rparr>"
| "edit_form cats (Type_area v) f = (if qf_useLocation f then f else f\<lparr>qf_areaHint := take 80 v\<rparr>)"
| "edit_form cats (Pick_expiry i) f = (if i < length requestExpiryOptionsMin
     then f\<lparr>qf_expiresIn := requestExpiryOptionsMin ! i\<rparr> else f)"
| "edit_form cats (Acknowledge b) f = f\<lparr>qf_safetyAck := b\<rparr>"

definition submit_enabled :: "request_form \<Rightarrow> bool" where
  "submit_enabled f \<longleftrightarrow> \<not> (\<not> qf_safetyAck f \<or> (\<not> qf_useLocation f \<and> js_trim (qf_areaHint f) = []))"

text \<open>\<open>getCoarseCoords\<close> of \<open>locationPings.ts\<close>; the position is \<open>None\<close> when the device gives none.\<close>

definition getCoarseCoords :: "geopoint option \<Rightarrow> geopoint option" where
  "getCoarseCoords position = map_option (\<lambda>(lat, lng). coarsen lat lng) position"

definition submit_form ::
  "category_view list \<Rightarrow> uid option \<Rightarrow> bool \<Rightarrow> bool \<Rightarrow> geopoint option \<Rightarrow> string \<Rightarrow> request_form \<Rightarrow> create_request_input option" where
  "submit_form cats activeEventId token granted position key f =
     (case (chosen cats f, activeEventId) of
        (Some cat, Some eventId) \<Rightarrow>
          if \<not> token \<or> \<not> qf_safetyAck f then None
          else let coords = (if qf_useLocation f \<and> granted then getCoarseCoords position else None) in
            Some \<lparr>ri_eventId = eventId, ri_categoryId = cy_id cat, ri_qty = qf_qty f, ri_unit = cy_unit cat,
              ri_urgency = qf_urgency f, ri_note = (if js_trim (qf_note f) = [] then None else Some (js_trim (qf_note f))),
              ri_expiresInMinutes = qf_expiresIn f, ri_coords = coords,
              ri_areaHint = (if coords = None \<and> js_trim (qf_areaHint f) \<noteq> [] then Some (js_trim (qf_areaHint f)) else None),
              ri_safetyAcknowledged = True, ri_idempotencyKey = key\<rparr>
      | _ \<Rightarrow> None)"

definition form_ok :: "category_view list \<Rightarrow> request_form \<Rightarrow> bool" where
  "form_ok cats f \<longleftrightarrow> 1 \<le> qf_qty f \<and> is_integer (qf_qty f) \<and> length (qf_note f) \<le> maxNoteLength
     \<and> length (qf_areaHint f) \<le> 80 \<and> qf_expiresIn f \<in> set requestExpiryOptionsMin
     \<and> (\<forall>c. chosen cats f = Some c \<longrightarrow> qf_qty f \<le> cy_maxRequestQty c)"

text \<open>The catalogue sends whole limits of at least one; \<open>zCategory\<close> allows no other.\<close>

definition whole_limits :: "category_view list \<Rightarrow> bool" where
  "whole_limits cats \<longleftrightarrow> list_all (\<lambda>c. 1 \<le> cy_maxRequestQty c \<and> cy_maxRequestQty c \<le> 10000 \<and> is_integer (cy_maxRequestQty c)) cats"

lemma is_integer_of_int [simp]: "is_integer (of_int n)" "is_integer 1"
  by (simp_all add: is_integer_def)

lemma is_integer_add: "is_integer a \<Longrightarrow> is_integer b \<Longrightarrow> is_integer (a + b)" "is_integer a \<Longrightarrow> is_integer (a - 1)"
  by (metis is_integer_def floor_of_int of_int_add, metis is_integer_def floor_of_int of_int_1 of_int_diff)

lemma stepped_ok:
  assumes "is_integer v" "is_integer mx" "1 \<le> mx" "delta = 1 \<or> delta = - 1"
  shows "1 \<le> stepped 1 mx v delta \<and> stepped 1 mx v delta \<le> mx \<and> is_integer (stepped 1 mx v delta)"
  using assms is_integer_add(1)[of v 1] is_integer_add(2)[of v] by (auto simp: stepped_def min_def max_def)

lemma edit_form_ok:
  assumes "whole_limits cats" "form_ok cats f"
  shows "form_ok cats (edit_form cats e f)"
proof (cases e)
  case (Pick k)
  have "1 \<le> cy_maxRequestQty c" if "find (\<lambda>c. cy_id c = k) cats = Some c" for c
    using that assms(1) by (auto simp: whole_limits_def list_all_iff find_Some_iff)
  then show ?thesis using assms Pick by (auto simp: form_ok_def chosen_def split: option.splits)
next
  case More
  then show ?thesis using assms stepped_ok[of "qf_qty f" _ 1]
    by (auto simp: form_ok_def chosen_def whole_limits_def list_all_iff find_Some_iff split: option.splits)
next
  case Less
  then show ?thesis using assms stepped_ok[of "qf_qty f" _ "- 1"]
    by (auto simp: form_ok_def chosen_def whole_limits_def list_all_iff find_Some_iff split: option.splits)
qed (use assms in \<open>auto simp: form_ok_def chosen_def\<close>)

lemma blank_form_ok: "form_ok cats blank_form"
  by (simp add: form_ok_def blank_form_def chosen_def requestExpiryOptionsMin_def maxNoteLength_def)

lemma coarsen_range:
  assumes "zCoords (lat, lng)"
  shows "zCoords (coarsen lat lng)"
proof -
  have r: "math_round (of_int n) \<le> math_round x \<and> math_round x \<le> math_round (of_int m)" if "of_int n \<le> x" "x \<le> of_int m" for x n m
    using that by (intro conjI math_round_mono)
  have "- 90000 \<le> math_round (lat * 1000) \<and> math_round (lat * 1000) \<le> 90000"
    using r[of "- 90000" "lat * 1000" 90000] assms by (simp only: math_round_of_int) (simp add: zCoords_def)
  moreover have "- 180000 \<le> math_round (lng * 1000) \<and> math_round (lng * 1000) \<le> 180000"
    using r[of "- 180000" "lng * 1000" 180000] assms by (simp only: math_round_of_int) (simp add: zCoords_def)
  ultimately show ?thesis
    by (simp add: zCoords_def coarsen_def Let_def locationPrecisionDecimals_def field_simps)
qed


lemma length_js_trim: "length (js_trim t) \<le> length t"
  using length_dropWhile_le[of is_js_space "rev (dropWhile is_js_space t)"] length_dropWhile_le[of is_js_space t]
  by (simp add: js_trim_def)


definition water_view :: category_view where
  "water_view = \<lparr>cy_id = 4, cy_slug = ''water'', cy_group = Hydration, cy_name = [], cy_namePlural = None,
     cy_description = None, cy_icon = ''drop'', cy_unit = Bottle, cy_altUnits = [], cy_fractional = False,
     cy_sealedRequired = False, cy_expiryRelevant = False, cy_restricted = False, cy_warningKey = None,
     cy_maxRequestQty = 10, cy_maxOfferQty = 10, cy_sortOrder = 0, cy_active = True\<rparr>"


subsection \<open>Following a request\<close>

datatype request_action = Cancel_it | Renew_it int | Continue_it bool

definition request_actions :: "request_view \<Rightarrow> request_action list" where
  "request_actions r =
     (if rv_status r = Searching \<or> rv_status r = Offering then [Cancel_it] else [])
     @ (if rv_status r = No_match then [Renew_it 15] else [])
     @ (if rv_status r = Expired then [Renew_it 15] else [])
     @ (if rv_status r = Partially_fulfilled then [Continue_it True, Continue_it False] else [])"

text \<open>\<open>act\<close>: the three calls, as the routes perform them.\<close>

fun act :: "env \<Rightarrow> uid \<Rightarrow> uid \<Rightarrow> request_action \<Rightarrow> db \<Rightarrow> request_view outcome" where
  "act env u rid Cancel_it d = cancelRequest env u rid d"
| "act env u rid (Renew_it n) d = renewRequest env u rid n d"
| "act env u rid (Continue_it b) d = continueRequest env u rid b d"

definition remaining :: "request_view \<Rightarrow> qty" where
  "remaining r = max 0 (rv_qty r - rv_qtyFulfilled r)"

text \<open>The match-found moment is opened once per match: \<open>pushed\<close> remembers the match, \<open>seen\<close> the store.\<close>

definition matchedId :: "request_view option \<Rightarrow> uid option" where
  "matchedId r = (case r of None \<Rightarrow> None | Some r \<Rightarrow> if rv_status r = Matched then rv_activeMatchId r else None)"

definition on_matched :: "(uid \<Rightarrow> bool) \<Rightarrow> uid option \<Rightarrow> uid option \<Rightarrow> uid option \<times> uid option" where
  "on_matched seen matched pushed = (case matched of
     None \<Rightarrow> (pushed, None)
   | Some mid \<Rightarrow> if pushed = Some mid then (pushed, None) else (Some mid, if seen mid then None else Some mid))"

fun acted :: "request_action \<Rightarrow> request_status" where
  "acted Cancel_it = Cancelled"
| "acted (Renew_it n) = Searching"
| "acted (Continue_it b) = (if b then Searching else Fulfilled)"

lemma my_request:
  "getMyRequest d u rid = Inr v \<longleftrightarrow> (\<exists>r c. by_key r_id rid (requests d) = Some r \<and> r_requesterId r = u
     \<and> by_key c_id (r_categoryId r) (categories d) = Some c \<and> v = toRequestView r (c_slug c) (activeMatchIdFor d rid))"
proof -
  have "r_id r = rid" if "by_key r_id rid (requests d) = Some r" for r using by_key_Some_mem[OF that] by simp
  then show ?thesis by (auto simp: getMyRequest_def loadRequestView_def or_throw_def split: option.splits)
qed

lemma own_request_moved:
  assumes ids: "ids_ok n r_id (requests d)" and r: "by_key r_id rid (requests d) = Some r" "r_requesterId r = u"
    and c: "by_key c_id (r_categoryId r) (categories d) = Some c"
    and d': "requests d' = upd_key r_id rid f (requests d)" "categories d' = categories d"
    and f: "\<And>x. r_id (f x) = r_id x \<and> r_requesterId (f x) = r_requesterId x \<and> r_categoryId (f x) = r_categoryId x"
  shows "\<exists>v'. getMyRequest d' u rid = Inr v' \<and> rv_status v' = r_status (f r)"
proof -
  have "by_key r_id rid (requests d') = Some (f r)" unfolding d'(1) using r(1) f by (simp add: by_key_upd_key)
  then show ?thesis using f r c d'(2) by (simp add: my_request toRequestView_def)
qed


definition acted_row :: "env \<Rightarrow> request_action \<Rightarrow> request \<Rightarrow> request" where
  "acted_row env a r = (case a of
     Cancel_it \<Rightarrow> r\<lparr>r_status := Cancelled, r_closedAt := Some (now env)\<rparr>
   | Renew_it n \<Rightarrow> r\<lparr>r_status := Searching, r_expiresAt := now env + n * 60000, r_currentRadiusM := initialSearchRadiusM,
       r_closedAt := None\<rparr>
   | Continue_it b \<Rightarrow> (if b then r\<lparr>r_status := Searching, r_expiresAt := now env + 15 * 60000,
         r_currentRadiusM := initialSearchRadiusM, r_closedAt := None\<rparr>
       else r\<lparr>r_status := Fulfilled, r_closedAt := Some (now env)\<rparr>))"




subsection \<open>Answering an offer\<close>

definition secondsUntil :: "instant \<Rightarrow> instant \<Rightarrow> int" where
  "secondsUntil nw t = max 0 ((t - nw) div 1000)"

definition minutesUntil :: "instant \<Rightarrow> instant \<Rightarrow> int" where
  "minutesUntil nw t = max 0 (- ((nw - t) div 60000))"

record offer_screen =
  os_secondsLeft :: "int option"
  os_totalSeconds :: "int option"
  os_expired :: bool

definition fresh_offer_screen :: offer_screen where
  "fresh_offer_screen = \<lparr>os_secondsLeft = None, os_totalSeconds = None, os_expired = False\<rparr>"

text \<open>One tick of the countdown, which runs when the offer appears and every second after.\<close>

definition offer_tick :: "instant \<Rightarrow> offer_view \<Rightarrow> offer_screen \<Rightarrow> offer_screen" where
  "offer_tick nw offer s =
     (let secs = secondsUntil nw (ov_respondBy offer) in
      s\<lparr>os_secondsLeft := Some secs,
        os_totalSeconds := (case os_totalSeconds s of None \<Rightarrow> Some (max 1 secs) | Some t \<Rightarrow> Some t),
        os_expired := (os_expired s \<or> secs \<le> 0)\<rparr>)"

text \<open>The offer whose buttons are shown; otherwise the screen says that it is too late.\<close>

definition shown_offer :: "offer_view list \<Rightarrow> uid \<Rightarrow> offer_screen \<Rightarrow> offer_view option" where
  "shown_offer items k s = (case find (\<lambda>x. ov_id x = k) items of
     None \<Rightarrow> None
   | Some offer \<Rightarrow> if os_expired s \<or> ov_status offer \<noteq> Offered then None else Some offer)"

text \<open>The minutes and seconds of the label, and the clamped share of the bar.\<close>

definition time_label :: "int \<Rightarrow> int \<times> int" where
  "time_label secs = (secs div 60, secs mod 60)"

definition progress :: "offer_screen \<Rightarrow> rat" where
  "progress s = (case (os_secondsLeft s, os_totalSeconds s) of
     (Some secs, Some tot) \<Rightarrow> max 0 (min 1 (of_int secs / of_int tot))
   | _ \<Rightarrow> 0)"

datatype offer_next = Open_match_found uid | Close_screen | Too_late | Show_message

definition after_respond :: "bool \<Rightarrow> app_error + (offer_view \<times> match_view option) \<Rightarrow> offer_next" where
  "after_respond accept r = (case r of
     Inr (_, Some m) \<Rightarrow> if accept then Open_match_found (mv_id m) else Close_screen
   | Inr (_, None) \<Rightarrow> Close_screen
   | Inl e \<Rightarrow> if STATUS e = 410 \<or> e = Offer_expired_err then Too_late else Show_message)"

lemma listed_offer:
  assumes ids: "ids_ok n o_id (matchOffers d)" and x: "v \<in> set (listPendingOffers env helper d)"
  shows "\<exists>offer r. find (\<lambda>x. o_id x = ov_id v \<and> o_helperId x = helper) (matchOffers d) = Some offer
    \<and> o_status offer = Offered \<and> o_respondBy offer = ov_respondBy v \<and> by_key r_id (o_requestId offer) (requests d) = Some r"
proof -
  obtain offer where o: "offer \<in> set (matchOffers d)" "o_helperId offer = helper" "o_status offer = Offered" "offer_source d offer = Some v"
    using x by (auto simp: listPendingOffers_def map_filter_def)
  then obtain r where v: "ov_id v = o_id offer" "ov_respondBy v = o_respondBy offer" "by_key r_id (o_requestId offer) (requests d) = Some r"
    by (auto simp: offer_source_def toOfferView_def split: option.splits)
  have "find (\<lambda>x. o_id x = o_id offer \<and> o_helperId x = helper) (matchOffers d) \<noteq> None"
    using o(1,2) by (auto simp: find_None_iff)
  then obtain y where y: "find (\<lambda>x. o_id x = o_id offer \<and> o_helperId x = helper) (matchOffers d) = Some y" by blast
  then have "y \<in> set (matchOffers d)" "o_id y = o_id offer" by (auto simp: find_Some_iff)
  then have "y = offer" using ids_ok_inj[OF ids _ o(1)] by blast
  then show ?thesis using y v o(3) by auto
qed



definition sample_offer_view :: offer_view where
  "sample_offer_view = toOfferView sample_offer sample_row ''water'' sample_stock"


text \<open>The form counts to the limit of the catalogue; an event may have a lower one, and the server refuses above it.\<close>

lemma event_limit_refused:
  assumes "findByIdempotencyKey d (au_userId auth) (ri_idempotencyKey input) = None"
    and "resolveEvent d (Event_uuid (ri_eventId input)) = Some event" "getMembership d (e_id event) (au_userId auth) = Some mb"
    and "\<not> mb_banned mb" "e_status event = Active" "\<not> e_matchingPaused event" "au_canRequest auth" "au_status auth = User_active"
    and "find (\<lambda>c. c_id (ef_category c) = ri_categoryId input) (effectiveEventCategories d (e_id event)) = Some ef"
    and "ri_unit input = c_unit (ef_category ef)" "ef_maxRequestQty ef < ri_qty input"
  shows "createRequest env auth input d = (d, [], Inl (Validation ''qty''))"
  using assms by (simp add: createRequest_def Let_def)

end
