(* ===== verification/Client_Flows.thy ===== *)
theory Client_Flows
  imports Request_Screens Accounts Notifications
begin

text \<open>
  What the clients decide on their own: when the phone tells its position (\<open>mobile/src/locationPings.ts\<close>),
  where a tapped notification leads (\<open>mobile/src/push.ts\<close>, \<open>web/src/App.tsx\<close>, \<open>web/public/sw.js\<close>), how the sign-in
  screen moves between its steps (\<open>mobile/app/auth.tsx\<close>), and what the web client makes of a 401
  (\<open>web/src/api/client.ts\<close>).
\<close>

subsection \<open>Position pings\<close>

record ping_loop =
  pl_interval :: bool   \<comment> \<open>the timer is set\<close>
  pl_backgroundedAt :: "instant option"

datatype app_event = Came_forward instant | Went_away instant | Timer

datatype ping_out = Send_ping | Auto_off

definition start_pings :: "ping_loop \<Rightarrow> ping_loop \<times> ping_out list" where
  "start_pings s = (s\<lparr>pl_interval := True\<rparr>, [Send_ping])"

text \<open>Mounting the effect, while helping is on; \<open>backgroundedAt ? .. : 0\<close> also takes 0 for no time.\<close>

definition mount_pings :: "ping_loop \<times> ping_out list" where
  "mount_pings = start_pings \<lparr>pl_interval = False, pl_backgroundedAt = None\<rparr>"

fun on_app_event :: "app_event \<Rightarrow> ping_loop \<Rightarrow> ping_loop \<times> ping_out list" where
  "on_app_event (Came_forward t) s =
     (let awayMs = (case pl_backgroundedAt s of None \<Rightarrow> 0 | Some t0 \<Rightarrow> if t0 = 0 then 0 else t - t0);
          s1 = s\<lparr>pl_backgroundedAt := None\<rparr>
      in if awayMs > locationTtlMinutes * 60000 then (s1\<lparr>pl_interval := False\<rparr>, [Auto_off]) else start_pings s1)"
| "on_app_event (Went_away t) s = (s\<lparr>pl_backgroundedAt := Some t, pl_interval := False\<rparr>, [])"
| "on_app_event Timer s = (s, if pl_interval s then [Send_ping] else [])"

fun ping_run :: "app_event list \<Rightarrow> ping_loop \<Rightarrow> ping_loop \<times> ping_out list list" where
  "ping_run [] s = (s, [])"
| "ping_run (e # es) s = (case on_app_event e s of (s1, out) \<Rightarrow> (case ping_run es s1 of (s2, outs) \<Rightarrow> (s2, out # outs)))"

text \<open>What the phone was last seen doing: the last event that is no timer.\<close>

fun last_move :: "app_event list \<Rightarrow> app_event option" where
  "last_move [] = None"
| "last_move (e # es) = (case last_move es of Some m \<Rightarrow> Some m | None \<Rightarrow> if e = Timer then None else Some e)"

definition in_front :: "app_event list \<Rightarrow> bool" where
  "in_front es \<longleftrightarrow> (case last_move es of Some (Went_away t) \<Rightarrow> False | _ \<Rightarrow> True)"

lemma last_move_snoc: "last_move (es @ [e]) = (if e = Timer then last_move es else Some e)"
  by (induction es) (auto split: option.split)

lemma ping_run_snoc: "ping_run (es @ [e]) s =
    (case ping_run es s of (s1, outs) \<Rightarrow> (case on_app_event e s1 of (s2, out) \<Rightarrow> (s2, outs @ [out])))"
  by (induction es arbitrary: s) (auto split: prod.split)

lemma ping_state:
  "(pl_interval (fst (ping_run es (fst mount_pings))) \<longrightarrow> in_front es)
   \<and> pl_backgroundedAt (fst (ping_run es (fst mount_pings))) =
       (case last_move es of Some (Went_away t) \<Rightarrow> Some t | _ \<Rightarrow> None)"
proof (induction es rule: rev_induct)
  case Nil
  then show ?case by (simp add: mount_pings_def start_pings_def in_front_def)
next
  case (snoc e es)
  then show ?case
    by (cases e) (auto simp: ping_run_snoc last_move_snoc in_front_def start_pings_def Let_def split: prod.splits if_splits)
qed



text \<open>
  Helping is switched off when the app comes back, not while it is away; and every return to the front sends at
  once, however recent the last ping is.
\<close>

lemma no_auto_off_while_away: "last_move es = Some (Went_away t) \<Longrightarrow> on_app_event Timer (fst (ping_run es (fst mount_pings))) =
    (fst (ping_run es (fst mount_pings)), [])"
  using ping_state[of es] by (auto simp: in_front_def)

lemma pings_within_a_second:
  "snd (ping_run [Went_away 1000, Came_forward 1400, Went_away 1500, Came_forward 1900] (fst mount_pings)) =
     [[], [Send_ping], [], [Send_ping]]"
  by (simp add: mount_pings_def start_pings_def Let_def locationTtlMinutes_def)

subsection \<open>Deep links\<close>

text \<open>The texts of the links the handlers write; \<open>shown\<close> is the text of an id.\<close>

fun link_path :: "(uid \<Rightarrow> string) \<Rightarrow> deep_link \<Rightarrow> string" where
  "link_path shown (Match_link k) = ''/match/'' @ shown k"
| "link_path shown (Request_link k) = ''/request/'' @ shown k"
| "link_path shown (Offer_link k) = ''/offer/'' @ shown k"
| "link_path shown (Event_link code) = ''/event/'' @ code"
| "link_path shown Settings_link = ''/settings''"

definition singular :: "string \<Rightarrow> string \<Rightarrow> string \<Rightarrow> string" where
  "singular plural single t = (if take (length plural) t = plural then single @ drop (length plural) t else t)"

definition normalized_link :: "string \<Rightarrow> string" where
  "normalized_link t = singular ''/requests/'' ''/request/'' (singular ''/matches/'' ''/match/'' (singular ''/offers/'' ''/offer/'' t))"

text \<open>A route is a list of segments, \<open>None\<close> for a parameter; static segments win.\<close>

definition fits :: "string option list \<Rightarrow> string list \<Rightarrow> bool" where
  "fits pat segs \<longleftrightarrow> length pat = length segs \<and> list_all (\<lambda>(p, s). (case p of None \<Rightarrow> s \<noteq> [] | Some l \<Rightarrow> s = l)) (zip pat segs)"

definition segments :: "string \<Rightarrow> string list" where
  "segments t = tl (split_by (CHR ''/'') t)"

definition opened_route :: "string option list list \<Rightarrow> string \<Rightarrow> string option list option" where
  "opened_route routes t = find (\<lambda>pat. fits pat (segments t)) routes"

text \<open>The files of \<open>mobile/app\<close> that a link can name, and the routes of \<open>App.tsx\<close>.\<close>

definition mobile_routes :: "string option list list" where
  "mobile_routes = [[Some ''request'', Some ''new''], [Some ''settings''], [Some ''match'', None], [Some ''request'', None],
     [Some ''offer'', None], [Some ''event'', None]]"

definition web_routes :: "string option list list" where
  "web_routes = [[Some ''''], [Some ''guidelines''], [Some ''privacy''], [Some ''terms''], [Some ''delete-account''], [Some ''support''],
     [Some ''auth''], [Some ''auth'', Some ''password''], [Some ''events'', None], [Some ''admin''],
     [Some ''admin'', Some ''events'', Some ''new''], [Some ''admin'', None]]"

fun link_screen :: "deep_link \<Rightarrow> string option list" where
  "link_screen (Match_link k) = [Some ''match'', None]"
| "link_screen (Request_link k) = [Some ''request'', None]"
| "link_screen (Offer_link k) = [Some ''offer'', None]"
| "link_screen (Event_link code) = [Some ''event'', None]"
| "link_screen Settings_link = [Some ''settings'']"

definition plain_segment :: "string \<Rightarrow> bool" where
  "plain_segment t \<longleftrightarrow> t \<noteq> [] \<and> t \<noteq> ''new'' \<and> CHR ''/'' \<notin> set t"

lemma split_plain: "c \<notin> set t \<Longrightarrow> split_by c t = [t]"
  by (induction t) auto


lemma link_segments:
  assumes "\<And>k. plain_segment (shown k)" and "\<forall>code. l = Event_link code \<longrightarrow> plain_segment code"
  shows "normalized_link (link_path shown l) = link_path shown l"
    "segments (link_path shown l) = (case l of Match_link k \<Rightarrow> [''match'', shown k] | Request_link k \<Rightarrow> [''request'', shown k]
       | Offer_link k \<Rightarrow> [''offer'', shown k] | Event_link code \<Rightarrow> [''event'', code] | Settings_link \<Rightarrow> [''settings''])"
proof -
  have plain: "split_by (CHR ''/'') (shown k) = [shown k]" for k using assms(1)[of k] by (simp add: plain_segment_def split_plain)
  show "segments (link_path shown l) = (case l of Match_link k \<Rightarrow> [''match'', shown k] | Request_link k \<Rightarrow> [''request'', shown k]
       | Offer_link k \<Rightarrow> [''offer'', shown k] | Event_link code \<Rightarrow> [''event'', code] | Settings_link \<Rightarrow> [''settings''])"
    using assms(2) by (cases l) (simp_all add: segments_def plain plain_segment_def split_plain)
  show "normalized_link (link_path shown l) = link_path shown l"
    by (cases l) (simp_all add: normalized_link_def singular_def)
qed

text \<open>
  A tapped notification leads somewhere on the phone. Every link a handler writes opens the screen of its kind with
  the id as its parameter. In the web client, whose service worker opens the same text, none of them is a route.
\<close>

theorem deep_links_open_a_screen:
  assumes "\<And>k. plain_segment (shown k)" and "\<forall>code. l = Event_link code \<longrightarrow> plain_segment code"
  shows "opened_route mobile_routes (normalized_link (link_path shown l)) = Some (link_screen l)
    \<and> opened_route web_routes (link_path shown l) = None"
proof -
  have "shown k \<noteq> [] \<and> shown k \<noteq> ''new''" for k using assms(1)[of k] by (simp add: plain_segment_def)
  moreover have "code \<noteq> [] \<and> code \<noteq> ''new''" if "l = Event_link code" for code using assms(2) that by (simp add: plain_segment_def)
  ultimately show ?thesis
    unfolding opened_route_def link_segments(1)[OF assms] link_segments(2)[OF assms]
    by (cases l) (simp_all add: mobile_routes_def web_routes_def fits_def)
qed

theorem deep_links_open_a_screen_witness:
  "opened_route mobile_routes (normalized_link (link_path (\<lambda>k. ''5a'') (Match_link 15))) = Some [Some ''match'', None]
     \<and> opened_route web_routes (link_path (\<lambda>k. ''5a'') (Match_link 15)) = None"
  using deep_links_open_a_screen[of "\<lambda>k. ''5a''" "Match_link 15"] by (simp add: plain_segment_def)

subsection \<open>The sign-in screen\<close>

datatype auth_step = Email_step | Code_step | Credentials_step | Login_step | Forgot_username_step
  | Forgot_username_sent_step | Reset_email_step | Reset_code_step

datatype call_result = Done_call | Offline_call | Refused_call app_error

text \<open>\<open>messageFor\<close>, as a translation key; the last case shows the text of the server.\<close>

fun messageFor :: "call_result \<Rightarrow> string option" where
  "messageFor Done_call = None"
| "messageFor Offline_call = Some ''common.offline''"
| "messageFor (Refused_call e) = Some
     (if e = Request_conflict then ''auth.usernameTaken''
      else if STATUS e = 429 then ''auth.tooManyAttempts''
      else if e = Account_restricted then ''auth.accountRestricted''
      else if STATUS e = 400 \<or> STATUS e = 401 then ''auth.invalidCode''
      else ''message'')"

record auth_screen =
  ax_step :: auth_step
  ax_email :: utext
  ax_code :: utext
  ax_username :: utext
  ax_password :: utext
  ax_error :: "string option"
  ax_notice :: bool
  ax_resendIn :: int
  ax_freshToken :: "string option"
  ax_home :: bool   \<comment> \<open>the screen has been replaced by the home tab\<close>

definition auth_opened :: "bool \<Rightarrow> auth_screen" where
  "auth_opened registering = \<lparr>ax_step = (if registering then Email_step else Login_step), ax_email = [], ax_code = [],
     ax_username = [], ax_password = [], ax_error = None, ax_notice = False, ax_resendIn = 0, ax_freshToken = None, ax_home = False\<rparr>"

definition is_digit :: "nat \<Rightarrow> bool" where "is_digit c \<longleftrightarrow> 48 \<le> c \<and> c \<le> 57"

definition typed_code :: "utext \<Rightarrow> utext" where
  "typed_code v = take 6 (filter is_digit v)"

text \<open>The username field of the sign-up step: \<open>replace(/[^a-zA-Z0-9._-]/g, '')\<close>, then lower case.\<close>

definition typed_username :: "(utext \<Rightarrow> utext) \<Rightarrow> utext \<Rightarrow> utext" where
  "typed_username lower v = lower (filter (\<lambda>c. is_name_char c \<or> (65 \<le> c \<and> c \<le> 90)) v)"

datatype auth_press =
    Type_email utext | Type_code utext | Type_username utext | Type_password utext | Second_passed
  | Send_code call_result int | Verify_code call_result string | Save_credentials call_result | Log_in call_result
  | Forgot_username call_result | Reset_password call_result | Go_to auth_step

text \<open>Which buttons and fields a step shows, and when a button is enabled.\<close>

definition shows_press :: "(utext \<Rightarrow> bool) \<Rightarrow> auth_press \<Rightarrow> auth_screen \<Rightarrow> bool" where
  "shows_press emailValid p s = (\<not> ax_home s \<and> (case p of
     Type_email v \<Rightarrow> ax_step s \<in> {Email_step, Forgot_username_step, Reset_email_step}
   | Type_code v \<Rightarrow> ax_step s \<in> {Code_step, Reset_code_step}
   | Type_username v \<Rightarrow> ax_step s \<in> {Credentials_step, Login_step}
   | Type_password v \<Rightarrow> ax_step s \<in> {Credentials_step, Login_step, Reset_code_step}
   | Second_passed \<Rightarrow> 0 < ax_resendIn s
   | Send_code r n \<Rightarrow> (ax_step s \<in> {Email_step, Reset_email_step} \<and> emailValid (ax_email s))
       \<or> (ax_step s = Code_step \<and> \<not> 0 < ax_resendIn s)
   | Verify_code r t \<Rightarrow> ax_step s = Code_step \<and> length (ax_code s) = 6
   | Save_credentials r \<Rightarrow> ax_step s = Credentials_step \<and> \<not> (length (js_trim (ax_username s)) < 3 \<or> length (ax_password s) < 8)
   | Log_in r \<Rightarrow> ax_step s = Login_step \<and> \<not> (js_trim (ax_username s) = [] \<or> ax_password s = [])
   | Forgot_username r \<Rightarrow> ax_step s = Forgot_username_step \<and> emailValid (ax_email s)
   | Reset_password r \<Rightarrow> ax_step s = Reset_code_step \<and> length (ax_code s) = 6 \<and> \<not> length (ax_password s) < 8
   | Go_to st \<Rightarrow> (ax_step s, st) \<in> {(Code_step, Email_step), (Login_step, Forgot_username_step), (Login_step, Reset_email_step),
       (Forgot_username_step, Login_step), (Forgot_username_sent_step, Login_step), (Reset_email_step, Login_step),
       (Reset_code_step, Reset_email_step)}))"

text \<open>\<open>run\<close>: the error is cleared, the call made, and either its effect or its message shown.\<close>

definition run_call :: "call_result \<Rightarrow> (auth_screen \<Rightarrow> auth_screen) \<Rightarrow> auth_screen \<Rightarrow> auth_screen" where
  "run_call r f s = (if r = Done_call then f (s\<lparr>ax_error := None\<rparr>) else s\<lparr>ax_error := messageFor r\<rparr>)"

fun press :: "(utext \<Rightarrow> utext) \<Rightarrow> auth_press \<Rightarrow> auth_screen \<Rightarrow> auth_screen" where
  "press lower (Type_email v) s = s\<lparr>ax_email := v\<rparr>"
| "press lower (Type_code v) s = s\<lparr>ax_code := typed_code v\<rparr>"
| "press lower (Type_username v) s = s\<lparr>ax_username := (if ax_step s = Credentials_step then typed_username lower v else v)\<rparr>"
| "press lower (Type_password v) s = s\<lparr>ax_password := v\<rparr>"
| "press lower Second_passed s = s\<lparr>ax_resendIn := ax_resendIn s - 1\<rparr>"
| "press lower (Send_code r n) s = run_call r (\<lambda>s. s\<lparr>ax_resendIn := n,
     ax_step := (if ax_step s = Reset_email_step then Reset_code_step else Code_step)\<rparr>) s"
| "press lower (Verify_code r t) s = run_call r (\<lambda>s. s\<lparr>ax_freshToken := Some t, ax_step := Credentials_step\<rparr>) s"
| "press lower (Save_credentials r) s = run_call r (\<lambda>s. s\<lparr>ax_home := True\<rparr>) s"
| "press lower (Log_in r) s = run_call r (\<lambda>s. s\<lparr>ax_home := True\<rparr>) s"
| "press lower (Forgot_username r) s = run_call r (\<lambda>s. s\<lparr>ax_step := Forgot_username_sent_step\<rparr>) s"
| "press lower (Reset_password r) s = run_call r (\<lambda>s. s\<lparr>ax_notice := True, ax_code := [], ax_password := [], ax_step := Login_step\<rparr>) s"
| "press lower (Go_to st) s = s\<lparr>ax_error := None, ax_notice := False, ax_step := st\<rparr>"

inductive auth_run :: "(utext \<Rightarrow> utext) \<Rightarrow> (utext \<Rightarrow> bool) \<Rightarrow> auth_press list \<Rightarrow> auth_screen \<Rightarrow> auth_screen \<Rightarrow> bool" for lower emailValid where
  stay: "auth_run lower emailValid [] s s"
| press_one: "auth_run lower emailValid ps s t \<Longrightarrow> shows_press emailValid p t \<Longrightarrow> auth_run lower emailValid (ps @ [p]) s (press lower p t)"

text \<open>The bodies of the calls that set or use a password.\<close>

definition credentials_body :: "(utext \<Rightarrow> utext) \<Rightarrow> auth_screen \<Rightarrow> utext \<times> utext" where
  "credentials_body lower s = (lower (js_trim (ax_username s)), ax_password s)"

lemma sign_up_invariant:
  assumes "auth_run lower emailValid ps (auth_opened True) s"
  shows "ax_step s \<in> {Email_step, Code_step, Credentials_step} \<and> (ax_step s = Credentials_step \<longleftrightarrow> ax_freshToken s \<noteq> None)
    \<and> (ax_home s \<longrightarrow> ps \<noteq> [] \<and> last ps = Save_credentials Done_call \<and> ax_step s = Credentials_step)
    \<and> (ax_home s \<longrightarrow> 8 \<le> length (ax_password s) \<and> 3 \<le> length (js_trim (ax_username s)))
    \<and> (ax_freshToken s = Some t \<longrightarrow> Verify_code Done_call t \<in> set ps)"
proof -
  have "auth_run lower emailValid ps s0 s \<Longrightarrow> s0 = auth_opened True \<Longrightarrow> ?thesis" for s0
  proof (induction rule: auth_run.induct)
    case (stay s)
    then show ?case by (simp add: auth_opened_def)
  next
    case (press_one ps s0 s p)
    note IH = press_one.IH[OF press_one.prems]
    show ?case
    proof (cases p)
      case (Go_to st)
      then show ?thesis using IH press_one.hyps(2) by (auto simp: shows_press_def)
    qed (use IH press_one.hyps(2) in \<open>auto simp: shows_press_def run_call_def\<close>)
  qed
  then show ?thesis using assms by blast
qed



text \<open>A wrong password, and a user name that the schema rejects, are both reported as a wrong code.\<close>

lemma wrong_password_called_a_code: "messageFor (Refused_call Unauthorized) = Some ''auth.invalidCode''"
  by simp

lemma rejected_username_called_a_code:
  "typed_username id (lit ''.ab'') = lit ''.ab''" "\<not> username_pattern (lit ''.ab'')"
  "messageFor (Refused_call (Validation ''username'')) = Some ''auth.invalidCode''"
  by (simp_all add: typed_username_def is_name_char_def is_name_edge_def lit_def username_pattern_def)

subsection \<open>A 401 in the web client\<close>

record browser =
  bw_token :: "string option"
  bw_path :: string

definition starts_with :: "string \<Rightarrow> string \<Rightarrow> bool" where
  "starts_with p t \<longleftrightarrow> take (length p) t = p"

definition authAnswers401 :: "string \<Rightarrow> bool" where
  "authAnswers401 path \<longleftrightarrow> starts_with ''/auth/otp'' path \<or> path = ''/auth/password''"

definition redirectToAuth :: "browser \<Rightarrow> browser" where
  "redirectToAuth b = (let b1 = b\<lparr>bw_token := None\<rparr> in
     if starts_with ''/auth'' (bw_path b) then b1 else b1\<lparr>bw_path := ''/auth?next='' @ bw_path b\<rparr>)"

text \<open>\<open>api\<close> on an answer: the error that is thrown, if any, and the browser after it.\<close>

definition web_answer :: "string \<Rightarrow> nat \<Rightarrow> browser \<Rightarrow> browser \<times> nat option" where
  "web_answer path status b =
     (if status = 401 \<and> \<not> authAnswers401 path then (redirectToAuth b, Some 401)
      else if 200 \<le> status \<and> status < 300 then (b, None) else (b, Some status))"

lemma web_wrong_password_stays:
  "web_answer ''/auth/login'' 401 \<lparr>bw_token = None, bw_path = ''/auth''\<rparr> = (\<lparr>bw_token = None, bw_path = ''/auth''\<rparr>, Some 401)"
  by (simp add: web_answer_def authAnswers401_def starts_with_def redirectToAuth_def)

lemma web_expired_session_leaves:
  assumes "\<not> authAnswers401 path" "\<not> starts_with ''/auth'' (bw_path b)"
  shows "bw_token (fst (web_answer path 401 b)) = None" "starts_with ''/auth'' (bw_path (fst (web_answer path 401 b)))"
  using assms by (simp_all add: web_answer_def redirectToAuth_def starts_with_def)

text \<open>On the password page an expired session keeps its token and reads as a wrong current password.\<close>

lemma web_expired_session_on_password_page: "web_answer ''/auth/password'' 401 b = (b, Some 401)"
  by (simp add: web_answer_def authAnswers401_def)

end
