(* ===== verification/Spec2Isabelle.thy ===== *)
theory Spec2Isabelle
  imports Outcomes Retries Rules Crypto_Laws Account_Outcomes Staff_Outcomes Service_Outcomes
    Api_Outcomes Device_State Bootstrap_Admin Catalogue_Seed Job_Store Chat_Run Client_Flows
begin

text \<open>
  Sahay is a mutual-aid exchange: at an event, a requester asks for items, a matching engine asks one
  helper at a time, an accepted offer becomes a match with an anonymous chat, and both sides confirm what
  was handed over. This development models the server (\<open>server/src\<close>) and the shared rules
  (\<open>packages/shared/src\<close>) as functions on one database state, the routes in front of it and what the
  clients (\<open>apps/mobile\<close>, \<open>apps/web\<close>) keep and repeat, and proves what keeps the exchange correct.

  Conventions. A handler is a function from its inputs, an environment and the database to the new
  database, the effects it publishes or enqueues after its commit, and its answer, a sum whose left
  side is the thrown error. Its transaction is a separate definition named \<open>.._tx\<close>; \<open>commit\<close>
  rolls back when it throws. A handler runs atomically at one instant: its transaction locks the rows it
  writes in the global lock order, and the interleavings considered are those of whole handlers. Tables
  are lists of records (\<open>SELECT .. LIMIT 1\<close> is the first matching row, \<open>UPDATE .. WHERE\<close> maps, \<open>DELETE\<close>
  filters, \<open>INSERT\<close> appends after the checks and unique indexes of the migrations). Quantities are exact
  rationals for the \<open>numeric\<close> columns, instants are milliseconds, texts that are redacted are lists of
  UTF-16 code units, uuids and identity columns are numbers drawn from a counter. What the code takes
  from elsewhere is an argument: the PostGIS distance, random draws, the rate limiter's answer, the local
  calendar of an event, case mapping, hashing and encryption.

  Theories, in the order of the dependencies:
    \<^item> \<open>Prelude\<close>: results, tables, sums over tables, the interface \<open>keyed_table\<close>.
    \<^item> \<open>Shared_Constants\<close>, \<open>Geo\<close>, \<open>Reliability_Score\<close>, \<open>Redact\<close>, \<open>Pseudonyms\<close>: \<open>constants.ts\<close>,
      \<open>lib/errors.ts\<close>, \<open>geo.ts\<close>, \<open>reliability.ts\<close>, \<open>lib/redact.ts\<close>, \<open>pseudonyms.ts\<close>. \<open>Calendar\<close>: the UTC
      date of an instant.
    \<^item> \<open>Schema\<close>, \<open>Wire\<close>, \<open>Store\<close>: the tables of \<open>db/schema.ts\<close>, the views, validators and effects of
      \<open>schemas.ts\<close>, \<open>queues.ts\<close> and \<open>realtime/hub.ts\<close>, the constrained writes.
    \<^item> \<open>Transitions\<close>: \<open>requests/transitions.ts\<close> with the interface \<open>lifecycle\<close>. \<open>Reliability_Stats\<close>:
      \<open>matches/reliability.ts\<close>. \<open>Views\<close>: \<open>requests/views.ts\<close> and \<open>offers/views.ts\<close>.
    \<^item> \<open>Matches\<close>, \<open>Settlement\<close>: \<open>matches/service.ts\<close>. \<open>Offers\<close>: \<open>offers/service.ts\<close>. \<open>Matching\<close>:
      \<open>workers/matching.ts\<close>. \<open>Requests\<close>, \<open>Inventory\<close>, \<open>Availability_Service\<close>, \<open>Events\<close>, \<open>Chat\<close>, \<open>Safety\<close>:
      the services of those modules. \<open>Retention\<close>: \<open>workers/retention.ts\<close>.
    \<^item> \<open>Crypto\<close>: \<open>lib/crypto.ts\<close> and the counter of \<open>lib/redis.ts\<close>. \<open>Accounts\<close>: \<open>auth/service.ts\<close>,
      \<open>plugins/auth.ts\<close> and the staff accounts of \<open>admin/service.ts\<close>. \<open>Settings\<close>: \<open>users/service.ts\<close>.
    \<^item> \<open>Moderation\<close>, \<open>Administration\<close>: \<open>admin/service.ts\<close> and \<open>admin/routes.ts\<close>. \<open>Data_Requests\<close>:
      \<open>privacy/service.ts\<close> and \<open>workers/data-request.ts\<close>. \<open>Notifications\<close>: \<open>workers/notify.ts\<close>,
      \<open>lib/push.ts\<close>, \<open>i18n/index.ts\<close>. \<open>Insights\<close>: \<open>dashboard/service.ts\<close>, \<open>events/bring.ts\<close>, event
      search, statistics, \<open>workers/attendance.ts\<close>.
    \<^item> \<open>Ledger\<close>, \<open>Effects\<close>: the invariant of the exchange and how each kind of write keeps it.
      \<open>Match_Ops\<close>, \<open>Offer_Ops\<close>, \<open>Ranking\<close>, \<open>Pass_Ops\<close>, \<open>Service_Ops\<close>: every handler keeps it.
      \<open>Audit_Trail\<close>: the second invariant, on the audit log and on what is stored of people.
      \<open>Moderation_Ops\<close>: moderation and account deletion keep both.
    \<^item> \<open>Exchange\<close>: all handlers as one step relation, reachable databases, and the interfaces
      \<open>step_invariant\<close> and \<open>exchange_invariant\<close> through which both invariants hold in every reachable
      state. \<open>Server\<close>: the handlers of accounts, administration, data requests, notifications and settings
      beside them, and that a run of the whole server is a run of the exchange. \<open>Scenario\<close>: a run from
      creation to settlement for the witnesses.
    \<^item> \<open>Outcomes\<close>: what settling, finalizing, cancelling and answering do on each branch. \<open>Retries\<close>:
      idempotency of repeated calls. \<open>Rules\<close>: the pure rules (quantities, redaction, buckets, scores,
      ranking). \<open>Crypto_Laws\<close>: round trips of base64, sealed addresses and password records, the
      distribution of sign-in codes. \<open>Account_Outcomes\<close>: the life of a sign-in code, and concurrent attempts
      at one code, whose three statements are no transaction and are interleaved by \<open>otp_race\<close>.
      \<open>Staff_Outcomes\<close>: what suspending, disabling an event and deleting an account reach, and what each
      role may do. \<open>Service_Outcomes\<close>: what the dashboard hides, the days of an event, notifications, audit
      pages.
    \<^item> \<open>Routes\<close>: the \<open>routes.ts\<close> of every module with their guards and schemas, \<open>plugins/auth.ts\<close> and the
      registration in \<open>app.ts\<close>: a call is admitted by \<open>admit\<close> and performs one operation of \<open>Server\<close>, so a run
      of the API is a run of the exchange, by the owner of the token. \<open>Api_Outcomes\<close>: calls on the
      sample exchange.
    \<^item> \<open>Gateway\<close>: \<open>realtime/gateway.ts\<close>, the sockets of the users. \<open>Realtime_Clients\<close>: the reconnecting
      sockets of \<open>mobile/src/realtime.ts\<close> and \<open>web/src/realtime/useWs.ts\<close> as functions on their events, and
      what frames and reconnects refetch.
    \<^item> \<open>Offline_Queue\<close>: \<open>mobile/src/pendingOps.ts\<close> with the form that fills the queue and the server behind
      it; calls are lost before or after they were handled, uploads overlap, the app is killed.
      \<open>Device_State\<close>: what the phone keeps of an account (\<open>storage.ts\<close>, \<open>auth.tsx\<close>, \<open>activeEvent.tsx\<close>), and
      the joined events of the web client.
    \<^item> \<open>Configuration\<close>: \<open>config.ts\<close>. \<open>Bootstrap_Admin\<close>: the command \<open>db/bootstrap-admin.ts\<close> and the
      first sign-in. \<open>Catalogue_Seed\<close>: the categories of \<open>catalogue-defaults.ts\<close>, \<open>db/seed.ts\<close>, and how
      the clients name and group them. \<open>Job_Store\<close>: \<open>ops/trim-queues.ts\<close> on a model of Redis.
    \<^item> \<open>Conversation_Screen\<close>: \<open>mobile/app/match/[id].tsx\<close>, what the screen of a match offers and sends, and
      that the server accepts it. \<open>Chat_Run\<close>: its composer and the server run together, with requests
      refused and lost.
    \<^item> \<open>Request_Screens\<close>: \<open>request/new.tsx\<close>, \<open>request/[id].tsx\<close> and \<open>offer/[id].tsx\<close>: the form and what it
      submits, the buttons of a request, the countdown of an offer. \<open>Client_Flows\<close>: the position pings of
      \<open>locationPings.ts\<close>, the links of notifications, the steps of the sign-in screen, and the 401 of the web
      client.
    \<^item> This theory: the properties of the whole exchange.

  \<open>categories_known\<close> is the foreign key of \<open>requests.category_id\<close>, which the step relation does not need
  and these outcomes do: the category of every request is a row of \<open>categories\<close>.

  Bounds and loops. Alias generation draws until it finds two free names; it is given the list of its
  draws and \<open>None\<close> means that the list ended first. The walk over the days of an event is a partial
  function whose \<open>None\<close> is a run that does not end. A client that reads the whole audit log page by
  page has as fuel one more than the number of entries, since every page but the last holds one. All other
  loops are structural.

  On the phone, reading and writing the stores succeeds and each of the helpers of \<open>storage.ts\<close> is one step;
  ids that a device draws are its own. The gateway receives frames in any order and some get lost.

  Not modelled: Redis and the queues beyond the jobs a handler enqueues; TCP, TLS and the texts of the HTTP
  answers; the HTTP and e-mail requests of the push and mail services (their replies are parameters); the other
  screens and pages of the clients, which are user interface over the modelled calls; seed data and
  translations; rounding of \<open>numeric\<close> values to doubles; sub-millisecond timestamps. Foreign keys are not checked on insert, since no modelled handler
  deletes a referenced row other than as written.
\<close>

subsection \<open>The books of the exchange\<close>

lemma held_is_active_sum:
  assumes "list_all match_ok ms"
  shows "held ms k = sum_list (map m_qtyReserved (filter (\<lambda>m. m_inventoryItemId m = k \<and> m_status m = M_active) ms))"
  using assms by (induction ms) (auto simp: held_def match_ok_def)

text \<open>
  C1: The reservation ledger balances in every reachable state: what an item has reserved is the sum of
  what its active matches hold, it is never negative and never more than what is on hand.
\<close>

theorem reservation_ledger:
  assumes "reachable d" and "i \<in> set (inventoryItems d)"
  shows "0 \<le> i_qtyReserved i \<and> i_qtyReserved i \<le> i_qtyOnHand i
     \<and> i_qtyReserved i = sum_list (map m_qtyReserved
         (filter (\<lambda>m. m_inventoryItemId m = i_id i \<and> m_status m = M_active) (matches d)))"
proof -
  note C = core_invD[OF db_invD(1)[OF reachable_inv[OF assms(1)]]]
  have "list_all match_ok (matches d)" using C(7) by (auto simp: matches_ok_def list_all_iff)
  then show ?thesis using C(6) assms(2) held_is_active_sum by (auto simp: stock_ok_def item_check_def)
qed

theorem reservation_ledger_witness:
  "i_qtyReserved (sample_stock\<lparr>i_qtyReserved := 2, i_updatedAt := 4000\<rparr>)
     = sum_list (map m_qtyReserved
         (filter (\<lambda>m. m_inventoryItemId m = 10 \<and> m_status m = M_active) (matches matched_db)))"
  using reservation_ledger[OF matched_reachable, of "sample_stock\<lparr>i_qtyReserved := 2, i_updatedAt := 4000\<rparr>"]
  by (simp add: matched_db_def sample_stock_def)

text \<open>
  C2: A request is matched exactly when it has one active match, and then only one; that match is with
  the request's own requester, with somebody else as helper, and for no more than the request still needs.
\<close>

theorem matched_iff_one_active_match:
  assumes "reachable d" and "r \<in> set (requests d)"
  shows "(r_status r = Matched \<longleftrightarrow> (\<exists>!m. m \<in> set (matches d) \<and> m_requestId m = r_id r \<and> m_status m = M_active))
     \<and> (\<forall>m \<in> set (matches d). m_requestId m = r_id r \<and> m_status m = M_active \<longrightarrow>
          m_requesterId m = r_requesterId r \<and> m_helperId m \<noteq> r_requesterId r
          \<and> 0 < m_qtyReserved m \<and> m_qtyReserved m \<le> r_qty r - r_qtyFulfilled r)"
proof -
  note C = core_invD[OF db_invD(1)[OF reachable_inv[OF assms(1)]]]
  have served: "serves r m" if m: "m \<in> set (matches d)" "m_requestId m = r_id r" "m_status m = M_active" for m
  proof -
    from C(8) m obtain r' where r': "r' \<in> set (requests d)" "serves r' m" by (auto simp: all_served_def)
    then have "r' = r" using ids_ok_inj[OF C(2) r'(1) assms(2)] m(2) by (simp add: serves_def)
    with r'(2) show ?thesis by simp
  qed
  have one: "a = b" if "a \<in> set (matches d)" "b \<in> set (matches d)" "m_status a = M_active" "m_status b = M_active"
      "m_requestId a = r_id r" "m_requestId b = r_id r" for a b
  proof -
    have "m_id a = m_id b" using C(9) that unfolding one_active_def by metis
    then show ?thesis using ids_ok_inj[OF C(4)] that by blast
  qed
  have backed: "\<exists>m \<in> set (matches d). m_status m = M_active \<and> m_requestId m = r_id r" if "r_status r = Matched"
    using C(10) assms(2) that by (auto simp: matched_backed_def)
  have ok: "match_ok m" if "m \<in> set (matches d)" for m using C(7) that by (auto simp: matches_ok_def)
  have "r_status r = Matched \<longleftrightarrow> (\<exists>!m. m \<in> set (matches d) \<and> m_requestId m = r_id r \<and> m_status m = M_active)"
  proof
    assume "r_status r = Matched"
    with backed one show "\<exists>!m. m \<in> set (matches d) \<and> m_requestId m = r_id r \<and> m_status m = M_active" by blast
  next
    assume "\<exists>!m. m \<in> set (matches d) \<and> m_requestId m = r_id r \<and> m_status m = M_active"
    then obtain m where "m \<in> set (matches d)" "m_requestId m = r_id r" "m_status m = M_active" by blast
    then have "serves r m" by (rule served)
    then show "r_status r = Matched" by (simp add: serves_def)
  qed
  moreover have "m_requesterId m = r_requesterId r \<and> m_helperId m \<noteq> r_requesterId r
      \<and> 0 < m_qtyReserved m \<and> m_qtyReserved m \<le> r_qty r - r_qtyFulfilled r"
    if "m \<in> set (matches d)" "m_requestId m = r_id r \<and> m_status m = M_active" for m
    using served[OF that(1)] ok[OF that(1)] that(2) by (simp add: serves_def match_ok_def)
  ultimately show ?thesis by blast
qed

theorem matched_iff_one_active_match_witness:
  "\<exists>!m. m \<in> set (matches matched_db) \<and> m_requestId m = 11 \<and> m_status m = M_active"
  using conjunct1[OF matched_iff_one_active_match[OF matched_reachable, of "sample_row\<lparr>r_status := Matched\<rparr>"]]
  by (simp add: matched_db_def sample_row_def)

text \<open>
  C20: At most one helper is asked at a time, and never twice: an open offer belongs to an offering
  request whose requester is not the one asked, no other offer of that request is open, and no two
  offers of a request ever went to the same helper.
\<close>

theorem one_helper_asked_at_a_time:
  assumes "reachable d" and "x \<in> set (matchOffers d)"
  shows "(o_status x = Offered \<longrightarrow>
       (\<exists>r \<in> set (requests d). r_id r = o_requestId x \<and> r_status r = Offering \<and> r_requesterId r \<noteq> o_helperId x)
       \<and> (\<forall>y \<in> set (matchOffers d). o_requestId y = o_requestId x \<and> o_status y = Offered \<longrightarrow> y = x))
     \<and> (\<forall>y \<in> set (matchOffers d). o_requestId y = o_requestId x \<and> o_helperId y = o_helperId x \<longrightarrow> y = x)
     \<and> 0 < o_qty x"
proof -
  note C = core_invD[OF db_invD(1)[OF reachable_inv[OF assms(1)]]]
  have inj: "o_id y = o_id x \<Longrightarrow> y = x" if "y \<in> set (matchOffers d)" for y
    using ids_ok_inj[OF C(3) that assms(2)] by blast
  have "0 < o_qty x" "o_status x = Offered \<Longrightarrow> awaited (requests d) x"
    using C(11) assms(2) by (auto simp: offer_rows_ok_def)
  moreover have "y = x" if "y \<in> set (matchOffers d)" "o_requestId y = o_requestId x" "o_status y = Offered" "o_status x = Offered" for y
  proof (rule inj[OF that(1)])
    show "o_id y = o_id x" using C(12) assms(2) that unfolding one_open_def by metis
  qed
  moreover have "y = x" if "y \<in> set (matchOffers d)" "o_requestId y = o_requestId x" "o_helperId y = o_helperId x" for y
  proof (rule inj[OF that(1)])
    show "o_id y = o_id x" using C(13) assms(2) that unfolding asked_once_def by metis
  qed
  ultimately show ?thesis unfolding awaited_def by blast
qed

theorem one_helper_asked_at_a_time_witness:
  "\<exists>r \<in> set (requests offered_db). r_id r = 11 \<and> r_status r = Offering \<and> r_requesterId r \<noteq> 2"
  using one_helper_asked_at_a_time[OF offered_reachable, of sample_offer]
  by (simp add: offered_db_def sample_offer_def)



subsection \<open>Requests over time\<close>

text \<open>
  C24: The audit log tells the whole life of every request: its transitions, in order, start with its
  creation, each follows from the one before along the table of permitted transitions, and the last one
  is its present status.
\<close>

theorem audit_log_is_a_run:
  assumes "reachable d" and "r \<in> set (requests d)"
  shows "is_run None (history (r_id r) (requestTransitions d))
     \<and> ends_in None (history (r_id r) (requestTransitions d)) = Some (r_status r)"
  using booksD(1)[OF reachable_books[OF assms(1)]] assms(2) by (simp add: trail_inv_def audited_def)

theorem audit_log_is_a_run_witness:
  "map rt_toStatus (history 11 (requestTransitions matched_db)) = [Searching, Offering, Matched]
     \<and> is_run None (history 11 (requestTransitions matched_db))"
  using audit_log_is_a_run[OF matched_reachable, of "sample_row\<lparr>r_status := Matched\<rparr>"]
  by (simp add: matched_db_def sample_row_def history_def sample_log_def)

text \<open>
  Whatever happens next, a request is never lost and its status only moves along permitted
  transitions; a fulfilled, disputed or moderated request stays what it is.
\<close>

theorem status_moves_along_the_table:
  assumes "reachable d" and "step\<^sup>*\<^sup>* d d'" and "r \<in> set (requests d)"
  shows "\<exists>r' \<in> set (requests d'). r_id r' = r_id r \<and> request_edge\<^sup>*\<^sup>* (r_status r) (r_status r')
     \<and> (REQUEST_TRANSITIONS (Some (r_status r)) = [] \<longrightarrow> r_status r' = r_status r)"
  using request_path[OF assms] request_life.terminal_stays by (auto simp: request_terminal_iff)

theorem status_moves_along_the_table_witness:
  "\<exists>r' \<in> set (requests confirmed_db). r_id r' = 11 \<and> request_edge\<^sup>*\<^sup>* Offering (r_status r')"
proof -
  have "step offered_db matched_db" "step matched_db confirmed_db"
  proof -
    have s: "step d (after_op t op d)" if "op_valid op d" "exec_op (sample_env t) op d \<noteq> None" for t op d
      using that by (cases "exec_op (sample_env t) op d") (auto simp: after_op_def intro: operation)
    have ne: "matches offered_db \<noteq> matches matched_db"
      by (simp add: offered_db_def matched_db_def sample_start_def empty_db_def)
    then have "exec_op (sample_env 4000) (Respond_offer [(0, 0), (1, 1)] 2 13 True False) offered_db \<noteq> None"
      using matched_run by (auto simp: after_op_def simp del: exec_op.simps split: option.splits)
    then show "step offered_db matched_db" using s unfolding matched_run[symmetric] by (simp del: exec_op.simps)
    show "step matched_db confirmed_db" unfolding confirmed_run[symmetric]
      by (rule s) (simp_all add: zConfirmCompletion_def)
  qed
  then have run: "step\<^sup>*\<^sup>* offered_db confirmed_db" by auto
  show ?thesis using status_moves_along_the_table[OF offered_reachable run, of sample_row]
    by (auto simp: offered_db_def sample_row_def)
qed

subsection \<open>Privacy\<close>

text \<open>
  C33: What the exchange stores of people stays vague in every reachable state: no request note and no
  chat text carries a contact number, every stored location is its own grid point, and the two aliases
  of a match differ.
\<close>

theorem stored_data_is_vague:
  assumes "reachable d"
  shows "(\<forall>r \<in> set (requests d). \<forall>n. r_note r = Some n \<longrightarrow> \<not> has_contact_number n)
     \<and> (\<forall>m \<in> set (messages d). ms_kind m = Text_message \<longrightarrow> \<not> has_contact_number (ms_body m))
     \<and> (\<forall>l \<in> set (memberLocations d). coarsen (fst (ml_geog l)) (snd (ml_geog l)) = ml_geog l)
     \<and> (\<forall>m \<in> set (matches d). m_requesterAlias m \<noteq> m_helperAlias m)"
  using booksD(2-5)[OF reachable_books[OF assms]]
  by (auto simp: list_all_iff note_ok_def body_ok_def coarse_def split: option.splits)

theorem stored_data_is_vague_witness: "m_requesterAlias sample_match \<noteq> m_helperAlias sample_match"
  using stored_data_is_vague[OF matched_reachable] by (simp add: matched_db_def)

subsection \<open>Reliability over time\<close>

text \<open>
  C34: The counters of every helper stay consistent: the offers answered and the ones still open never
  outnumber the ones received, so the responsiveness is a share, and the stored label is the one the
  counters give.
\<close>

theorem counters_consistent:
  assumes "reachable d" and "row \<in> set (reliabilityStats d)"
  shows "rs_label row = reliabilityLabel (rowToCounters (Some row))
     \<and> c_offersResponded30d (stats_of u d) + open_count (matchOffers d) u \<le> c_offersReceived30d (stats_of u d)
     \<and> 0 \<le> responsivenessScore (stats_of u d) \<and> responsivenessScore (stats_of u d) \<le> 1"
proof -
  note I = db_invD(3,4)[OF reachable_inv[OF assms(1)]]
  have le: "c_offersResponded30d (stats_of u d) + open_count (matchOffers d) u \<le> c_offersReceived30d (stats_of u d)"
    using I(1) by (simp add: stats_inv_def stats_of_def Let_def)
  then show ?thesis using I(2) assms(2) responsivenessScore_bounds[of "stats_of u d"] by (simp add: labels_inv_def)
qed

theorem counters_consistent_witness:
  "open_count (matchOffers offered_db) 2 = 1 \<and> c_offersResponded30d (stats_of 2 offered_db) + 1 \<le> c_offersReceived30d (stats_of 2 offered_db)"
proof -
  have "open_count (matchOffers offered_db) 2 = 1" by code_simp
  then show ?thesis using counters_consistent[OF offered_reachable, of sample_stats 2] by (simp add: offered_db_def)
qed

subsection \<open>Tables that refer to each other\<close>

text \<open>
  C25: In every reachable state the tables of the exchange are well formed: each key is used once, every
  match has exactly one conversation and every conversation a match, an active match refers to a stored item and
  to the request it serves, and an open offer to a request that is waiting for the answer of somebody else.
\<close>

theorem tables_well_formed:
  assumes "reachable d"
  shows "distinct (map i_id (inventoryItems d)) \<and> distinct (map r_id (requests d)) \<and> distinct (map o_id (matchOffers d))
    \<and> distinct (map m_id (matches d)) \<and> distinct (map cv_id (conversations d))
    \<and> (\<forall>m \<in> set (matches d). \<exists>!c. c \<in> set (conversations d) \<and> cv_matchId c = m_id m)
    \<and> (\<forall>c \<in> set (conversations d). \<exists>m \<in> set (matches d). m_id m = cv_matchId c)
    \<and> (\<forall>m \<in> set (matches d). m_status m = M_active \<longrightarrow> (\<exists>i \<in> set (inventoryItems d). i_id i = m_inventoryItemId m)
         \<and> (\<exists>r \<in> set (requests d). r_id r = m_requestId m \<and> r_requesterId r = m_requesterId m))
    \<and> (\<forall>x \<in> set (matchOffers d). o_status x = Offered \<longrightarrow>
         (\<exists>r \<in> set (requests d). r_id r = o_requestId x \<and> r_status r = Offering \<and> r_requesterId r \<noteq> o_helperId x))"
proof -
  note I = db_invD[OF reachable_inv[OF assms]]
  note C = core_invD[OF I(1)]
  have chat: "distinct (map cv_id (conversations d))" "distinct (map cv_matchId (conversations d))"
    "cv_matchId ` set (conversations d) = m_id ` set (matches d)" using I(2) by (simp_all add: chat_inv_def ids_ok_def)
  have one: "\<exists>!c. c \<in> set (conversations d) \<and> cv_matchId c = m_id m" if "m \<in> set (matches d)" for m
  proof -
    from that chat(3) have "m_id m \<in> cv_matchId ` set (conversations d)" by simp
    with chat(2) show ?thesis by (auto simp: distinct_map inj_on_def)
  qed
  have owned: "\<exists>m \<in> set (matches d). m_id m = cv_matchId c" if "c \<in> set (conversations d)" for c
  proof -
    from that chat(3) have "cv_matchId c \<in> m_id ` set (matches d)" by blast
    then show ?thesis by auto
  qed
  have active: "(\<exists>i \<in> set (inventoryItems d). i_id i = m_inventoryItemId m)
      \<and> (\<exists>r \<in> set (requests d). r_id r = m_requestId m \<and> r_requesterId r = m_requesterId m)"
    if "m \<in> set (matches d)" "m_status m = M_active" for m
    using C(7,8) that by (force simp: matches_ok_def match_ok_def all_served_def serves_def)
  have waiting: "\<exists>r \<in> set (requests d). r_id r = o_requestId x \<and> r_status r = Offering \<and> r_requesterId r \<noteq> o_helperId x"
    if "x \<in> set (matchOffers d)" "o_status x = Offered" for x
    using C(11) that by (auto simp: offer_rows_ok_def awaited_def)
  show ?thesis using C(1-4) chat(1) one owned active waiting by (simp add: ids_ok_def)
qed

theorem tables_well_formed_witness:
  "\<exists>!c. c \<in> set (conversations matched_db) \<and> cv_matchId c = 15"
proof -
  have "sample_match \<in> set (matches matched_db)" by (simp add: matched_db_def)
  with tables_well_formed[OF matched_reachable] have "\<exists>!c. c \<in> set (conversations matched_db) \<and> cv_matchId c = m_id sample_match" by blast
  then show ?thesis by (simp add: sample_match_def)
qed

subsection \<open>The whole server\<close>

text \<open>
  C3: The whole server refines the exchange: every run in which accounts, administration, data requests,
  notifications and settings are interleaved with the exchange in any order is a run of the abstract
  transition system, so it ends in a reachable state, where in particular the ledger of every item balances.
\<close>

theorem server_refines_exchange:
  assumes "initial_db d" and "server_step\<^sup>*\<^sup>* d d'"
  shows "step\<^sup>*\<^sup>* d d' \<and> reachable d' \<and> (\<forall>i \<in> set (inventoryItems d'). 0 \<le> i_qtyReserved i \<and> i_qtyReserved i \<le> i_qtyOnHand i
     \<and> i_qtyReserved i = sum_list (map m_qtyReserved
         (filter (\<lambda>m. m_inventoryItemId m = i_id i \<and> m_status m = M_active) (matches d'))))"
proof -
  have r: "reachable d'" using assms by (rule server_reachable)
  note C = core_invD[OF db_invD(1)[OF reachable_inv[OF r]]]
  have "list_all match_ok (matches d')" using C(7) by (auto simp: matches_ok_def list_all_iff)
  then show ?thesis using C(6) r server_run[OF assms(2)] held_is_active_sum
    by (auto simp: stock_ok_def item_check_def)
qed

theorem server_refines_exchange_witness:
  "reachable (exec_around (sample_env 9000) (Emergency_shutdown 1 ''storm'') (exec_around (sample_env 8000) (Set_wants 3 []) sample_start))"
proof -
  have "server_step\<^sup>*\<^sup>* sample_start (exec_around (sample_env 9000) (Emergency_shutdown 1 ''storm'')
      (exec_around (sample_env 8000) (Set_wants 3 []) sample_start))"
    by (rule converse_rtranclp_into_rtranclp, rule server_step.around, rule r_into_rtranclp, rule server_step.around)
  moreover have "initial_db sample_start" by (simp add: initial_db_def sample_start_def empty_db_def)
  ultimately show ?thesis using server_refines_exchange by blast
qed


end
